(* ===== verification/Prelude.thy ===== *)
theory Prelude
  imports Main "HOL-Library.Word" "HOL-Library.Sublist" "HOL-Library.Char_ord"
    "HOL-Library.List_Lexorder" "HOL-Library.Product_Lexorder"
begin

text \<open>
  Shared ground of the development: Go's \<open>(value, error)\<close> results as sums, relational
  tables as lists of rows with the SQL statements the journal uses, byte strings and the few
  functions of Go's \<open>strings\<close> and \<open>encoding/hex\<close> packages the code calls.

  A byte string is a \<open>char list\<close>: one HOL character is one byte, so \<open>length\<close> is Go's
  \<open>len\<close>. A table is a list of rows in insertion order; \<open>row_by\<close> is a lookup by key,
  \<open>insert_row\<close> an \<open>INSERT\<close> under a uniqueness constraint, \<open>update_where\<close> an
  \<open>UPDATE ... WHERE\<close>.
\<close>

named_theorems table_simps \<open>lookups after a table statement\<close>
named_theorems frame \<open>what an operation leaves alone\<close>
named_theorems tx_defs \<open>bodies of the journal's transactions\<close>

section \<open>Results\<close>

text \<open>Go's \<open>if err != nil { return err }\<close> between two steps.\<close>

definition bindE :: "'e + 'a \<Rightarrow> ('a \<Rightarrow> 'e + 'b) \<Rightarrow> 'e + 'b" where
  "bindE r k = (case r of Inl e \<Rightarrow> Inl e | Inr a \<Rightarrow> k a)"

lemma bindE_simps [simp]:
  "bindE (Inl e) k = Inl e"
  "bindE (Inr a) k = k a"
  by (simp_all add: bindE_def)

lemma bindE_Inr_iff: "bindE r k = Inr b \<longleftrightarrow> (\<exists>a. r = Inr a \<and> k a = Inr b)"
  by (cases r) auto

lemma bindE_Inl_iff: "bindE r k = Inl e \<longleftrightarrow> r = Inl e \<or> (\<exists>a. r = Inr a \<and> k a = Inl e)"
  by (cases r) auto

definition check :: "bool \<Rightarrow> 'e \<Rightarrow> 'e + unit" where
  "check ok e = (if ok then Inr () else Inl e)"

lemma check_Inr [simp]: "check ok e = Inr u \<longleftrightarrow> ok"
  by (simp add: check_def)

lemma check_Inl [simp]: "check ok e = Inl e' \<longleftrightarrow> \<not> ok \<and> e' = e"
  by (auto simp: check_def)

definition is_Inr :: "'e + 'a \<Rightarrow> bool" where
  "is_Inr r = (case r of Inl _ \<Rightarrow> False | Inr _ \<Rightarrow> True)"

lemma is_Inr_simps [simp]: "is_Inr (Inl e) = False" "is_Inr (Inr a) = True"
  by (simp_all add: is_Inr_def)

text \<open>\<open>COALESCE(x, d)\<close>.\<close>

definition coalesce :: "'a option \<Rightarrow> 'a \<Rightarrow> 'a" where
  "coalesce x d = (case x of None \<Rightarrow> d | Some a \<Rightarrow> a)"

lemma coalesce_simps [simp]: "coalesce None d = d" "coalesce (Some a) d = a"
  by (simp_all add: coalesce_def)

section \<open>Tables\<close>

definition row_by :: "('r \<Rightarrow> 'k) \<Rightarrow> 'k \<Rightarrow> 'r list \<Rightarrow> 'r option" where
  "row_by key k rows = find (\<lambda>r. key r = k) rows"

text \<open>\<open>INSERT\<close>: \<open>None\<close> when the key is taken (a constraint error).\<close>

definition insert_row :: "('r \<Rightarrow> 'k) \<Rightarrow> 'r \<Rightarrow> 'r list \<Rightarrow> 'r list option" where
  "insert_row key r rows = (if row_by key (key r) rows = None then Some (rows @ [r]) else None)"

text \<open>\<open>INSERT OR IGNORE\<close> and \<open>INSERT OR REPLACE\<close>.\<close>

definition ignore_row :: "('r \<Rightarrow> 'k) \<Rightarrow> 'r \<Rightarrow> 'r list \<Rightarrow> 'r list" where
  "ignore_row key r rows = (if row_by key (key r) rows = None then rows @ [r] else rows)"

definition replace_row :: "('r \<Rightarrow> 'k) \<Rightarrow> 'r \<Rightarrow> 'r list \<Rightarrow> 'r list" where
  "replace_row key r rows = filter (\<lambda>x. key x \<noteq> key r) rows @ [r]"

definition update_where :: "('r \<Rightarrow> bool) \<Rightarrow> ('r \<Rightarrow> 'r) \<Rightarrow> 'r list \<Rightarrow> 'r list" where
  "update_where P f rows = map (\<lambda>r. if P r then f r else r) rows"

text \<open>\<open>INSERT ... ON CONFLICT DO UPDATE\<close>.\<close>

definition upsert_row :: "('r \<Rightarrow> 'k) \<Rightarrow> 'r \<Rightarrow> ('r \<Rightarrow> 'r) \<Rightarrow> 'r list \<Rightarrow> 'r list" where
  "upsert_row key r f rows =
     (if row_by key (key r) rows = None then rows @ [r]
      else update_where (\<lambda>x. key x = key r) f rows)"

definition count_where :: "('r \<Rightarrow> bool) \<Rightarrow> 'r list \<Rightarrow> nat" where
  "count_where P rows = length (filter P rows)"

definition delete_where :: "('r \<Rightarrow> bool) \<Rightarrow> 'r list \<Rightarrow> 'r list" where
  "delete_where P rows = filter (\<lambda>r. \<not> P r) rows"

lemma row_by_Nil [simp]: "row_by key k [] = None"
  by (simp add: row_by_def)

lemma row_by_Cons [simp]: "row_by key k (r # rows) = (if key r = k then Some r else row_by key k rows)"
  by (simp add: row_by_def)

lemma row_by_append [table_simps]:
  "row_by key k (xs @ ys) = (case row_by key k xs of Some r \<Rightarrow> Some r | None \<Rightarrow> row_by key k ys)"
  by (induction xs) auto

lemma row_by_SomeD: "row_by key k rows = Some r \<Longrightarrow> r \<in> set rows \<and> key r = k"
  by (induction rows) (auto split: if_splits)

lemma row_by_key: "row_by key k rows = Some r \<Longrightarrow> key r = k"
  using row_by_SomeD[of key k rows r] by blast

lemma row_by_None: "row_by key k rows = None \<longleftrightarrow> k \<notin> key ` set rows"
  by (induction rows) auto

lemma row_by_in_set:
  "distinct (map key rows) \<Longrightarrow> r \<in> set rows \<Longrightarrow> row_by key (key r) rows = Some r"
proof (induction rows)
  case Nil
  then show ?case by simp
next
  case (Cons a rows)
  show ?case
  proof (cases "r = a")
    case False
    with Cons.prems have "r \<in> set rows" by simp
    moreover from this Cons.prems have "key a \<noteq> key r" by (auto simp: image_iff)
    ultimately show ?thesis using Cons by simp
  qed simp
qed

lemma row_by_iff_in_set:
  "distinct (map key rows) \<Longrightarrow> row_by key k rows = Some r \<longleftrightarrow> r \<in> set rows \<and> key r = k"
  using row_by_in_set[of key rows r] row_by_SomeD[of key k rows r] by auto

lemma row_by_update_where [table_simps]:
  assumes "\<And>r. key (f r) = key r"
  shows "row_by key k (update_where P f rows)
    = map_option (\<lambda>r. if P r then f r else r) (row_by key k rows)"
  using assms by (induction rows) (auto simp: update_where_def)

lemma map_key_update_where [table_simps]:
  assumes "\<And>r. key (f r) = key r"
  shows "map key (update_where P f rows) = map key rows"
  using assms by (induction rows) (auto simp: update_where_def)

lemma row_by_delete_where [table_simps]:
  "distinct (map key rows) \<Longrightarrow> row_by key k (delete_where P rows)
    = (case row_by key k rows of None \<Rightarrow> None | Some r \<Rightarrow> if P r then None else Some r)"
proof (induction rows)
  case Nil
  then show ?case by (simp add: delete_where_def)
next
  case (Cons a rows)
  then have IH: "row_by key k (delete_where P rows)
    = (case row_by key k rows of None \<Rightarrow> None | Some r \<Rightarrow> if P r then None else Some r)"
    and none: "row_by key (key a) rows = None"
    by (auto simp: row_by_None)
  have "delete_where P (a # rows) = (if P a then delete_where P rows else a # delete_where P rows)"
    by (simp add: delete_where_def)
  with IH none show ?case by auto
qed

lemma distinct_delete_where [table_simps]:
  "distinct (map key rows) \<Longrightarrow> distinct (map key (delete_where P rows))"
  by (simp add: delete_where_def distinct_map_filter)

lemma set_delete_where [simp]: "set (delete_where P rows) = {r \<in> set rows. \<not> P r}"
  by (auto simp: delete_where_def)

lemma set_update_where: "set (update_where P f rows) = (\<lambda>r. if P r then f r else r) ` set rows"
  by (auto simp: update_where_def)

lemma insert_row_SomeD:
  "insert_row key r rows = Some rows' \<Longrightarrow> row_by key (key r) rows = None \<and> rows' = rows @ [r]"
  by (auto simp: insert_row_def split: if_splits)

lemma distinct_snoc_key [table_simps]:
  "row_by key (key r) rows = None \<Longrightarrow> distinct (map key rows) \<Longrightarrow> distinct (map key (rows @ [r]))"
  by (auto simp: row_by_None)

lemma row_by_replace_row [table_simps]:
  "row_by key k (replace_row key r rows) = (if key r = k then Some r else row_by key k rows)"
  by (induction rows) (auto simp: replace_row_def)

lemma distinct_replace_row [table_simps]:
  "distinct (map key rows) \<Longrightarrow> distinct (map key (replace_row key r rows))"
  by (auto simp: replace_row_def distinct_map_filter)

lemma row_by_ignore_row [table_simps]:
  "row_by key k (ignore_row key r rows)
    = (case row_by key k rows of Some x \<Rightarrow> Some x | None \<Rightarrow> if key r = k then Some r else None)"
  by (auto simp: ignore_row_def row_by_append split: option.splits)

lemma distinct_ignore_row [table_simps]:
  "distinct (map key rows) \<Longrightarrow> distinct (map key (ignore_row key r rows))"
  by (auto simp: ignore_row_def row_by_None)

lemma row_by_upsert_row [table_simps]:
  assumes "\<And>x. key (f x) = key x"
  shows "row_by key k (upsert_row key r f rows)
    = (if k = key r then Some (case row_by key k rows of None \<Rightarrow> r | Some x \<Rightarrow> f x)
       else row_by key k rows)"
  using assms
  by (auto simp: upsert_row_def row_by_append row_by_update_where dest: row_by_key split: option.splits)

lemma distinct_upsert_row [table_simps]:
  assumes "\<And>x. key (f x) = key x"
  shows "distinct (map key rows) \<Longrightarrow> distinct (map key (upsert_row key r f rows))"
  using assms by (auto simp: upsert_row_def row_by_None map_key_update_where)

text \<open>\<open>COALESCE(MAX(c),0)\<close> over a nullable integer column.\<close>

definition max_or_0 :: "int list \<Rightarrow> int" where
  "max_or_0 xs = (case xs of [] \<Rightarrow> 0 | x # xs' \<Rightarrow> fold max xs' x)"

lemma fold_max_ge: "(x::int) \<le> fold max xs x \<and> (\<forall>y\<in>set xs. y \<le> fold max xs x)"
proof (induction xs arbitrary: x)
  case Nil
  then show ?case by simp
next
  case (Cons a xs)
  from Cons.IH[of "max a x"] show ?case by auto
qed

lemma max_or_0_ge: "x \<in> set xs \<Longrightarrow> x \<le> max_or_0 xs"
  using fold_max_ge by (cases xs) (auto simp: max_or_0_def)

lemma fold_max_in: "fold max xs (x::int) \<in> insert x (set xs)"
proof (induction xs arbitrary: x)
  case Nil
  then show ?case by simp
next
  case (Cons a xs)
  from Cons.IH[of "max a x"] show ?case by (auto simp: max_def split: if_splits)
qed

lemma max_or_0_nonneg: "\<forall>x\<in>set xs. 0 \<le> x \<Longrightarrow> 0 \<le> max_or_0 xs"
  using fold_max_in by (cases xs) (fastforce simp: max_or_0_def)+

section \<open>Byte strings\<close>

definition has_prefix :: "string \<Rightarrow> string \<Rightarrow> bool" where
  "has_prefix s p = (take (length p) s = p)"

definition trim_prefix :: "string \<Rightarrow> string \<Rightarrow> string" where
  "trim_prefix s p = (if has_prefix s p then drop (length p) s else s)"

definition has_suffix :: "string \<Rightarrow> string \<Rightarrow> bool" where
  "has_suffix s p = has_prefix (rev s) (rev p)"

text \<open>\<open>strings.Contains\<close>.\<close>

fun contains :: "string \<Rightarrow> string \<Rightarrow> bool" where
  "contains [] p = (p = [])"
| "contains (c # s) p = (has_prefix (c # s) p \<or> contains s p)"

lemma has_prefix_append [simp]: "has_prefix (p @ s) p"
  by (simp add: has_prefix_def)

lemma trim_prefix_append [simp]: "trim_prefix (p @ s) p = s"
  by (simp add: trim_prefix_def)

lemma has_prefixE: "has_prefix s p \<Longrightarrow> (\<And>r. s = p @ r \<Longrightarrow> thesis) \<Longrightarrow> thesis"
  by (metis has_prefix_def append_take_drop_id)

text \<open>\<open>c in '0'..'9'\<close> and the lower-case hexadecimal digits, as the Go loops test them.\<close>

definition in_range :: "char \<Rightarrow> char \<Rightarrow> char \<Rightarrow> bool" where
  "in_range lo hi c = ((of_char lo :: nat) \<le> of_char c \<and> (of_char c :: nat) \<le> of_char hi)"

definition is_digit :: "char \<Rightarrow> bool" where
  "is_digit c = in_range CHR ''0'' CHR ''9'' c"

definition is_lower_hex :: "char \<Rightarrow> bool" where
  "is_lower_hex c = (is_digit c \<or> in_range CHR ''a'' CHR ''f'' c)"

definition is_lower :: "char \<Rightarrow> bool" where
  "is_lower c = in_range CHR ''a'' CHR ''z'' c"

definition is_upper :: "char \<Rightarrow> bool" where
  "is_upper c = in_range CHR ''A'' CHR ''Z'' c"

text \<open>\<open>encoding/hex\<close>: the alphabet and the two digits of a byte.\<close>

definition hex_digit :: "nat \<Rightarrow> char" where
  "hex_digit n = ''0123456789abcdef'' ! n"

definition hex_byte :: "8 word \<Rightarrow> string" where
  "hex_byte b = [hex_digit (unat b div 16), hex_digit (unat b mod 16)]"

definition hex_encode :: "8 word list \<Rightarrow> string" where
  "hex_encode bs = concat (map hex_byte bs)"

lemma hex_digit_lower: "n < 16 \<Longrightarrow> is_lower_hex (hex_digit n)"
proof -
  have "\<forall>n\<in>set [0..<16]. is_lower_hex (hex_digit n)"
    by (simp add: upt_rec hex_digit_def is_lower_hex_def is_digit_def in_range_def)
  then show "n < 16 \<Longrightarrow> is_lower_hex (hex_digit n)" by simp
qed

lemma unat_byte_bound: "unat (b :: 8 word) < 256"
  using unsigned_less[of b, where 'a = nat] by simp

lemma hex_byte_lower: "c \<in> set (hex_byte b) \<Longrightarrow> is_lower_hex c"
  using hex_digit_lower unat_byte_bound[of b] by (auto simp: hex_byte_def)

lemma length_hex_byte [simp]: "length (hex_byte b) = 2"
  by (simp add: hex_byte_def)

lemma length_hex_encode [simp]: "length (hex_encode bs) = 2 * length bs"
  by (induction bs) (auto simp: hex_encode_def)

lemma hex_encode_lower: "c \<in> set (hex_encode bs) \<Longrightarrow> is_lower_hex c"
  using hex_byte_lower by (auto simp: hex_encode_def)

text \<open>
  The UTF-8 encodings of the white space of \<open>unicode.IsSpace\<close>; \<open>blank s\<close> is
  \<open>strings.TrimSpace(s) == ""\<close>.
\<close>

definition white_space :: "string list" where
  "white_space = [[CHR 0x09], [CHR 0x0A], [CHR 0x0B], [CHR 0x0C], [CHR 0x0D], [CHR 0x20],
     [CHR 0xC2, CHR 0x85], [CHR 0xC2, CHR 0xA0], [CHR 0xE1, CHR 0x9A, CHR 0x80],
     [CHR 0xE2, CHR 0x80, CHR 0x80], [CHR 0xE2, CHR 0x80, CHR 0x81], [CHR 0xE2, CHR 0x80, CHR 0x82],
     [CHR 0xE2, CHR 0x80, CHR 0x83], [CHR 0xE2, CHR 0x80, CHR 0x84], [CHR 0xE2, CHR 0x80, CHR 0x85],
     [CHR 0xE2, CHR 0x80, CHR 0x86], [CHR 0xE2, CHR 0x80, CHR 0x87], [CHR 0xE2, CHR 0x80, CHR 0x88],
     [CHR 0xE2, CHR 0x80, CHR 0x89], [CHR 0xE2, CHR 0x80, CHR 0x8A], [CHR 0xE2, CHR 0x80, CHR 0xA8],
     [CHR 0xE2, CHR 0x80, CHR 0xA9], [CHR 0xE2, CHR 0x80, CHR 0xAF], [CHR 0xE2, CHR 0x81, CHR 0x9F],
     [CHR 0xE3, CHR 0x80, CHR 0x80]]"

lemma find_white_space: "find P white_space = Some w \<Longrightarrow> w \<noteq> []"
  by (auto simp: white_space_def split: if_splits)

function blank :: "string \<Rightarrow> bool" where
  "blank s =
     (if s = [] then True
      else case find (has_prefix s) white_space of
             None \<Rightarrow> False
           | Some w \<Rightarrow> blank (drop (length w) s))"
  by auto
termination
  by (relation "measure length") (auto dest: find_white_space)

declare blank.simps [simp del]

lemma blank_Nil [simp]: "blank []"
  by (subst blank.simps) simp

lemma not_blank_nonempty: "\<not> blank s \<Longrightarrow> s \<noteq> []"
  by auto

text \<open>\<open>strings.ToLower\<close> on the ASCII letters.\<close>

definition lower_char :: "char \<Rightarrow> char" where
  "lower_char c = (if is_upper c then char_of (of_char c + 32 :: nat) else c)"

definition to_lower :: "string \<Rightarrow> string" where
  "to_lower s = map lower_char s"

text \<open>\<open>%d\<close> of package \<open>fmt\<close>.\<close>

fun decimal_nat :: "nat \<Rightarrow> string" where
  "decimal_nat n =
     (if n < 10 then [char_of (48 + n)] else decimal_nat (n div 10) @ [char_of (48 + n mod 10)])"

declare decimal_nat.simps [simp del]

definition decimal :: "int \<Rightarrow> string" where
  "decimal i = (if i < 0 then ''-'' @ decimal_nat (nat (- i)) else decimal_nat (nat i))"

end
