(* ===== verification/Status.thy ===== *)
theory Status
  imports Prelude
begin

text \<open>
  The stable vocabulary of \<open>go/status.go\<close> (and its copy of the evidence states in
  \<open>go/internal/journal/journal.go\<close>): evidence states, error codes, warnings and errors with
  their validation. A Go string type with named constants is a datatype with one constructor
  per constant and a last one for every other string, so that \<open>Valid\<close> keeps its meaning.
\<close>

section \<open>Evidence states\<close>

datatype EvidenceState =
    StateNotSent
  | StatePrepared
  | StateDispatchStarted
  | StateReplyClaimed
  | StateReplyOutcomeUnknown
  | StateRejected
  | StateAccepted
  | StateOutcomeUnknown
  | StateReplyAccepted
  | StateReplyObserved
  | StateManuallyResolved
  | StateOther string

fun state_string :: "EvidenceState \<Rightarrow> string" where
  "state_string StateNotSent = ''not_sent''"
| "state_string StatePrepared = ''prepared''"
| "state_string StateDispatchStarted = ''dispatch_started''"
| "state_string StateReplyClaimed = ''reply_dispatch_claimed''"
| "state_string StateReplyOutcomeUnknown = ''reply_outcome_unknown''"
| "state_string StateRejected = ''rejected''"
| "state_string StateAccepted = ''accepted''"
| "state_string StateOutcomeUnknown = ''outcome_unknown''"
| "state_string StateReplyAccepted = ''reply_accepted''"
| "state_string StateReplyObserved = ''reply_observed''"
| "state_string StateManuallyResolved = ''manually_resolved''"
| "state_string (StateOther s) = s"

definition named_states :: "EvidenceState list" where
  "named_states = [StateNotSent, StatePrepared, StateDispatchStarted, StateReplyClaimed,
     StateReplyOutcomeUnknown, StateRejected, StateAccepted, StateOutcomeUnknown,
     StateReplyAccepted, StateReplyObserved, StateManuallyResolved]"

definition state_of_string :: "string \<Rightarrow> EvidenceState" where
  "state_of_string s =
     (case find (\<lambda>st. state_string st = s) named_states of Some st \<Rightarrow> st | None \<Rightarrow> StateOther s)"

fun state_valid :: "EvidenceState \<Rightarrow> bool" where
  "state_valid (StateOther s) = False"
| "state_valid _ = True"

lemma state_valid_named: "state_valid st \<longleftrightarrow> st \<in> set named_states"
  by (cases st) (auto simp: named_states_def)

lemma state_of_string_inverse: "state_valid st \<Longrightarrow> state_of_string (state_string st) = st"
  by (cases st) (auto simp: state_of_string_def named_states_def)

lemma state_string_of_string: "state_string (state_of_string s) = s"
proof (cases "find (\<lambda>st. state_string st = s) named_states")
  case None
  then show ?thesis by (simp add: state_of_string_def)
next
  case (Some st)
  then have "state_string st = s" by (auto simp: find_Some_iff)
  with Some show ?thesis by (simp add: state_of_string_def)
qed

text \<open>A stored state string is valid exactly when it is one of the eleven constants.\<close>

lemma state_of_string_valid: "state_valid (state_of_string s) \<longleftrightarrow> s \<in> state_string ` set named_states"
proof
  assume "state_valid (state_of_string s)"
  then have "state_of_string s \<in> set named_states" by (simp add: state_valid_named)
  then show "s \<in> state_string ` set named_states"
    using state_string_of_string[of s] by (metis image_eqI)
next
  assume "s \<in> state_string ` set named_states"
  then obtain st where "st \<in> set named_states" "s = state_string st" by auto
  then show "state_valid (state_of_string s)"
    using state_of_string_inverse by (simp add: state_valid_named)
qed

section \<open>Error codes\<close>

datatype ErrorCode =
    ErrInvalidArguments | ErrInvalidTarget | ErrResolverUnavailable | ErrTargetAmbiguous
  | ErrRouteUnavailable | ErrEndpointUnavailable | ErrUnsupportedServerVersion
  | ErrInputTooLarge | ErrInvalidUTF8 | ErrMessageNotFound | ErrMessageIdentityConflict
  | ErrReplyRouteRequired | ErrReplyRouteUnavailable | ErrReplyNotRequested | ErrInvalidRawWait
  | ErrInvalidRawReplyRequest | ErrReplyOutcomeUnknown | ErrMessageNotAddressedThread
  | ErrContentUnavailable | ErrDeliveryRejected | ErrDeliveryTemporarilyUnavailable
  | ErrOutcomeUnknown | ErrWaitIncomplete | ErrWaitInterrupted | ErrEffectAcknowledgmentRequired
  | ErrExperimentalMethodUnavailable | ErrOutputTooLarge | ErrCompactOutputTooLarge
  | ErrStorageBusy | ErrStorageCorrupt | ErrStorageMigrationRequired | ErrRepairRequired
  | ErrInternal
  | ErrOther string

fun code_valid :: "ErrorCode \<Rightarrow> bool" where
  "code_valid (ErrOther s) = False"
| "code_valid _ = True"

fun code_string :: "ErrorCode \<Rightarrow> string" where
  "code_string ErrInvalidArguments = ''invalid_arguments''"
| "code_string ErrInvalidTarget = ''invalid_target''"
| "code_string ErrResolverUnavailable = ''resolver_unavailable''"
| "code_string ErrTargetAmbiguous = ''target_ambiguous''"
| "code_string ErrRouteUnavailable = ''route_unavailable''"
| "code_string ErrEndpointUnavailable = ''endpoint_unavailable''"
| "code_string ErrUnsupportedServerVersion = ''unsupported_server_version''"
| "code_string ErrInputTooLarge = ''input_too_large''"
| "code_string ErrInvalidUTF8 = ''invalid_utf8''"
| "code_string ErrMessageNotFound = ''message_not_found''"
| "code_string ErrMessageIdentityConflict = ''message_identity_conflict''"
| "code_string ErrReplyRouteRequired = ''reply_route_required''"
| "code_string ErrReplyRouteUnavailable = ''reply_route_unavailable''"
| "code_string ErrReplyNotRequested = ''reply_not_requested''"
| "code_string ErrInvalidRawWait = ''invalid_raw_wait''"
| "code_string ErrInvalidRawReplyRequest = ''invalid_raw_reply_request''"
| "code_string ErrReplyOutcomeUnknown = ''reply_outcome_unknown''"
| "code_string ErrMessageNotAddressedThread = ''message_not_addressed_to_thread''"
| "code_string ErrContentUnavailable = ''content_unavailable''"
| "code_string ErrDeliveryRejected = ''delivery_rejected''"
| "code_string ErrDeliveryTemporarilyUnavailable = ''delivery_temporarily_unavailable''"
| "code_string ErrOutcomeUnknown = ''outcome_unknown''"
| "code_string ErrWaitIncomplete = ''wait_incomplete''"
| "code_string ErrWaitInterrupted = ''wait_interrupted''"
| "code_string ErrEffectAcknowledgmentRequired = ''effect_acknowledgment_required''"
| "code_string ErrExperimentalMethodUnavailable = ''experimental_method_unavailable''"
| "code_string ErrOutputTooLarge = ''output_too_large''"
| "code_string ErrCompactOutputTooLarge = ''compact_output_too_large''"
| "code_string ErrStorageBusy = ''storage_busy''"
| "code_string ErrStorageCorrupt = ''storage_corrupt''"
| "code_string ErrStorageMigrationRequired = ''storage_migration_required''"
| "code_string ErrRepairRequired = ''repair_required''"
| "code_string ErrInternal = ''internal_error''"
| "code_string (ErrOther s) = s"

section \<open>Errors and warnings\<close>

text \<open>
  The optional \<open>details\<close> maps hold \<open>any\<close> values; only whether two of them are equal
  matters to the code modelled here, so they are a type parameter.
\<close>

record 'v Error =
  err_code :: ErrorCode
  err_message :: string
  err_retryable :: bool
  err_effect_state :: string
  err_details :: 'v

record 'v Warning =
  warn_code :: string
  warn_message :: string
  warn_details :: 'v

definition error_validate :: "'v Error \<Rightarrow> string + unit" where
  "error_validate e =
     (if \<not> code_valid (err_code e) then Inl ''mektup: unknown error code''
      else if err_message e = '''' then Inl ''mektup: error message is required''
      else if err_effect_state e = '''' then Inl ''mektup: error effectState is required''
      else Inr ())"

definition warning_validate :: "'v Warning \<Rightarrow> string + unit" where
  "warning_validate w =
     (if warn_code w = '''' \<or> warn_message w = '''' then Inl ''mektup: warning code and message are required''
      else Inr ())"

end
