(* ===== verification/Ids.thy ===== *)
theory Ids
  imports Prelude
begin

text \<open>
  Identifiers: \<open>go/ids.go\<close> (UUIDv7 generation and \<open>ValidateID\<close>) and the store identity of
  \<open>go/internal/journal/journal.go\<close> (\<open>newStoreID\<close>, \<open>validStoreID\<close>, \<open>atLeastSQLite\<close>).
  The random reader is a value: the ten (or sixteen) bytes it yields, or \<open>None\<close> when it
  fails; the clock is the value of \<open>UnixMilli\<close> as an unsigned 64-bit word.
\<close>

unbundle bit_operations_syntax

definition OperationIDPrefix :: string where "OperationIDPrefix = ''op_''"
definition MessageIDPrefix :: string where "MessageIDPrefix = ''msg_''"
definition ReceiptIDPrefix :: string where "ReceiptIDPrefix = ''rcpt_''"
definition EndpointIDPrefix :: string where "EndpointIDPrefix = ''ep_''"
definition EventIDPrefix :: string where "EventIDPrefix = ''evt_''"
definition StoreIDPrefix :: string where "StoreIDPrefix = ''store_''"

lemmas id_prefixes = OperationIDPrefix_def MessageIDPrefix_def ReceiptIDPrefix_def
  EndpointIDPrefix_def EventIDPrefix_def StoreIDPrefix_def

section \<open>Generation\<close>

definition byte_at :: "64 word \<Rightarrow> nat \<Rightarrow> 8 word" where
  "byte_at ms k = ucast (drop_bit k ms)"

text \<open>The sixteen bytes: a big-endian 48-bit clock, then entropy, version and variant forced.\<close>

definition uuid_bytes :: "64 word \<Rightarrow> 8 word list \<Rightarrow> 8 word list" where
  "uuid_bytes ms rnd =
     (let b = map (byte_at ms) [40, 32, 24, 16, 8, 0] @ rnd;
          b1 = b[6 := (b ! 6 AND 0x0f) OR 0x70]
      in b1[8 := (b1 ! 8 AND 0x3f) OR 0x80])"

definition uuid_format :: "8 word list \<Rightarrow> string" where
  "uuid_format b =
     hex_encode (take 4 b) @ ''-'' @ hex_encode (take 2 (drop 4 b)) @ ''-'' @
     hex_encode (take 2 (drop 6 b)) @ ''-'' @ hex_encode (take 2 (drop 8 b)) @ ''-'' @
     hex_encode (drop 10 b)"

definition NewUUIDv7From :: "8 word list option \<Rightarrow> 64 word \<Rightarrow> string + string" where
  "NewUUIDv7From entropy ms =
     (case entropy of
        None \<Rightarrow> Inl ''read UUID entropy''
      | Some rnd \<Rightarrow>
          if length rnd < 10 then Inl ''read UUID entropy''
          else Inr (uuid_format (uuid_bytes ms (take 10 rnd))))"

definition NewPrefixedIDChecked :: "string \<Rightarrow> 8 word list option \<Rightarrow> 64 word \<Rightarrow> string + string" where
  "NewPrefixedIDChecked pre entropy ms =
     bindE (NewUUIDv7From entropy ms) (\<lambda>uuid. Inr (pre @ uuid))"

section \<open>Validation\<close>

definition hyphen_at :: "nat \<Rightarrow> bool" where
  "hyphen_at i = (i = 8 \<or> i = 13 \<or> i = 18 \<or> i = 23)"

text \<open>
  The \<open>range uuid\<close> loop: every position but the four hyphens is a lower-case hex digit. Go
  ranges over runes; a byte above 127 starts a rune that is no hex digit, so it is refused at
  the index where this byte loop refuses it (the four skipped positions are known to be ASCII
  hyphens when the loop runs).
\<close>

fun hex_loop :: "nat \<Rightarrow> string \<Rightarrow> bool" where
  "hex_loop i [] = True"
| "hex_loop i (c # cs) = ((hyphen_at i \<or> is_lower_hex c) \<and> hex_loop (Suc i) cs)"

definition ValidateID :: "string \<Rightarrow> string \<Rightarrow> string + unit" where
  "ValidateID value pre =
     (if \<not> has_prefix value pre then Inl ''mektup: identifier must start with prefix''
      else let uuid = trim_prefix value pre in
      if length uuid \<noteq> 36 \<or> uuid ! 14 \<noteq> CHR ''7'' \<or> uuid ! 18 \<noteq> CHR ''-'' \<or>
         uuid ! 8 \<noteq> CHR ''-'' \<or> uuid ! 13 \<noteq> CHR ''-'' \<or> uuid ! 23 \<noteq> CHR ''-''
      then Inl ''mektup: invalid UUIDv7 identifier''
      else if \<not> hex_loop 0 uuid then Inl ''mektup: invalid UUIDv7 identifier''
      else if uuid ! 19 < CHR ''8'' \<or> uuid ! 19 > CHR ''b'' then Inl ''mektup: invalid UUID variant''
      else Inr ())"

definition validOptionalID :: "string \<Rightarrow> string \<Rightarrow> string + unit" where
  "validOptionalID value pre = (if value = '''' then Inr () else ValidateID value pre)"

section \<open>Store identity\<close>

definition newStoreID :: "8 word list option \<Rightarrow> 64 word \<Rightarrow> string + string" where
  "newStoreID entropy ms =
     (case entropy of
        None \<Rightarrow> Inl ''entropy''
      | Some rnd \<Rightarrow>
          if length rnd < 16 then Inl ''entropy'' else
          let b = map (byte_at ms) [40, 32, 24, 16, 8, 0] @ drop 6 (take 16 rnd);
              b1 = b[6 := (b ! 6 AND 0x0f) OR 0x70];
              b2 = b1[8 := (b1 ! 8 AND 0x3f) OR 0x80];
              h = hex_encode b2
          in Inr (''store_'' @ take 8 h @ ''-'' @ take 4 (drop 8 h) @ ''-'' @
                  take 4 (drop 12 h) @ ''-'' @ take 4 (drop 16 h) @ ''-'' @ take 12 (drop 20 h)))"

text \<open>\<open>hex.DecodeString\<close>: both letter cases, an even number of digits.\<close>

definition hex_value :: "char \<Rightarrow> nat option" where
  "hex_value c =
     (if is_digit c then Some (of_char c - 48)
      else if in_range CHR ''a'' CHR ''f'' c then Some (of_char c - 87)
      else if in_range CHR ''A'' CHR ''F'' c then Some (of_char c - 55)
      else None)"

fun hex_decode :: "string \<Rightarrow> nat list option" where
  "hex_decode [] = Some []"
| "hex_decode [c] = None"
| "hex_decode (a # b # s) =
     (case (hex_value a, hex_value b, hex_decode s) of
        (Some x, Some y, Some r) \<Rightarrow> Some ((16 * x + y) # r)
      | _ \<Rightarrow> None)"

definition validStoreID :: "string \<Rightarrow> bool" where
  "validStoreID s =
     (if \<not> has_prefix s ''store_'' \<or> length s \<noteq> length ''store_'' + 36 then False
      else case hex_decode (filter (\<lambda>c. c \<noteq> CHR ''-'') (drop (length ''store_'') s)) of
             None \<Rightarrow> False
           | Some b \<Rightarrow> length b = 16 \<and> (b ! 6) div 16 = 7 \<and> (b ! 8) div 64 = 2)"

text \<open>The version triple comes from \<open>fmt.Sscanf(got, "%d.%d.%d")\<close>; \<open>None\<close> is a scan error.\<close>

definition atLeastSQLite :: "(int \<times> int \<times> int) option \<Rightarrow> int \<Rightarrow> int \<Rightarrow> int \<Rightarrow> bool" where
  "atLeastSQLite got wantMajor wantMinor wantPatch =
     (case got of None \<Rightarrow> False
      | Some (major, minor, patch) \<Rightarrow>
          if major \<noteq> wantMajor then major > wantMajor
          else if minor \<noteq> wantMinor then minor > wantMinor
          else patch \<ge> wantPatch)"

section \<open>Generated identifiers validate\<close>

lemma char_le_of_char: "(c::char) \<le> d \<longleftrightarrow> (of_char c :: nat) \<le> of_char d"
  by (simp add: less_eq_char_def)

lemma hex_loop_iff: "hex_loop k s \<longleftrightarrow> (\<forall>i<length s. hyphen_at (k + i) \<or> is_lower_hex (s ! i))"
proof (induction s arbitrary: k)
  case Nil
  then show ?case by simp
next
  case (Cons c s)
  then show ?case by (auto simp: nth_Cons less_Suc_eq_0_disj)
qed

lemma version_nibble: "unat ((x AND 0x0f) OR 0x70 :: 8 word) div 16 = 7"
proof -
  have a: "x AND 0x0f = take_bit 4 x" by (simp add: take_bit_eq_mask mask_eq_exp_minus_1)
  have "drop_bit 4 ((x AND 0x0f) OR 0x70 :: 8 word) = drop_bit 4 (take_bit 4 x) OR drop_bit 4 0x70"
    by (simp only: a drop_bit_or)
  also have "drop_bit 4 (take_bit 4 x) = 0" by (simp add: drop_bit_take_bit)
  finally have "drop_bit 4 ((x AND 0x0f) OR 0x70 :: 8 word) = 7" by (simp add: drop_bit_eq_div)
  then have "unat (drop_bit 4 ((x AND 0x0f) OR 0x70 :: 8 word)) = unat (7 :: 8 word)" by (rule arg_cong)
  then have "drop_bit 4 (unat ((x AND 0x0f) OR 0x70 :: 8 word)) = 7"
    by (simp only: unat_drop_bit_eq) simp
  then show ?thesis by (simp add: drop_bit_eq_div del: unsigned_or_eq unsigned_and_eq)
qed
lemma variant_bits: "unat ((x AND 0x3f) OR 0x80 :: 8 word) div 64 = 2"
proof -
  have a: "x AND 0x3f = take_bit 6 x" by (simp add: take_bit_eq_mask mask_eq_exp_minus_1)
  have "drop_bit 6 ((x AND 0x3f) OR 0x80 :: 8 word) = drop_bit 6 (take_bit 6 x) OR drop_bit 6 0x80"
    by (simp only: a drop_bit_or)
  also have "drop_bit 6 (take_bit 6 x) = 0" by (simp add: drop_bit_take_bit)
  finally have "drop_bit 6 ((x AND 0x3f) OR 0x80 :: 8 word) = 2" by (simp add: drop_bit_eq_div)
  then have "unat (drop_bit 6 ((x AND 0x3f) OR 0x80 :: 8 word)) = unat (2 :: 8 word)" by (rule arg_cong)
  then have "drop_bit 6 (unat ((x AND 0x3f) OR 0x80 :: 8 word)) = 2"
    by (simp only: unat_drop_bit_eq) simp
  then show ?thesis by (simp add: drop_bit_eq_div del: unsigned_or_eq unsigned_and_eq)
qed
lemma uuid_format_explode:
  assumes "length b = 16"
  shows "\<exists>b0 b1 b2 b3 b4 b5 b6 b7 b8 b9 b10 b11 b12 b13 b14 b15.
    b = [b0,b1,b2,b3,b4,b5,b6,b7,b8,b9,b10,b11,b12,b13,b14,b15]"
  using assms by (auto simp: numeral_eq_Suc length_Suc_conv)
lemma uuid_format_valid:
  assumes "length b = 16" "unat (b ! 6) div 16 = 7" "unat (b ! 8) div 64 = 2"
  shows "ValidateID (p @ uuid_format b) p = Inr ()"
proof -
  obtain b0 b1 b2 b3 b4 b5 b6 b7 b8 b9 b10 b11 b12 b13 b14 b15 where
    b: "b = [b0,b1,b2,b3,b4,b5,b6,b7,b8,b9,b10,b11,b12,b13,b14,b15]"
    using uuid_format_explode[OF assms(1)] by blast
  have v: "unat b6 div 16 = 7" and w: "unat b8 div 64 = 2" using assms by (simp_all add: b)
  have h: "is_lower_hex (hex_digit (unat x div 16))" "is_lower_hex (hex_digit (unat x mod 16))" for x :: "8 word"
    using hex_byte_lower[of _ x] by (auto simp: hex_byte_def)
  have "unat b8 div 16 \<in> {8,9,10,11}" using w by auto
  then have "hex_digit (unat b8 div 16) \<in> set ''89ab''"
    by (auto simp: hex_digit_def)
  then have variant: "CHR ''8'' \<le> hex_digit (unat b8 div 16)" "hex_digit (unat b8 div 16) \<le> CHR ''b''"
    by auto
  have seven: "hex_digit (unat b6 div 16) = CHR ''7''" by (simp add: v hex_digit_def)
  have h7: "is_lower_hex CHR ''7''" by (simp add: is_lower_hex_def is_digit_def in_range_def)
  show ?thesis
    using variant seven h h7
    by (simp add: ValidateID_def b uuid_format_def hex_encode_def hex_byte_def hyphen_at_def not_less Let_def)
qed

lemma length_uuid_bytes: "length rnd = 10 \<Longrightarrow> length (uuid_bytes ms rnd) = 16"
  by (simp add: uuid_bytes_def Let_def)

lemma uuid_bytes_version: "length rnd = 10 \<Longrightarrow> unat (uuid_bytes ms rnd ! 6) div 16 = 7"
  using version_nibble by (simp add: uuid_bytes_def Let_def nth_list_update nth_append)

lemma uuid_bytes_variant: "length rnd = 10 \<Longrightarrow> unat (uuid_bytes ms rnd ! 8) div 64 = 2"
  using variant_bits by (simp add: uuid_bytes_def Let_def nth_list_update nth_append)

lemma hex_value_digit: "n < 16 \<Longrightarrow> hex_value (hex_digit n) = Some n"
proof -
  have "\<forall>n\<in>set [0..<16]. hex_value (hex_digit n) = Some n"
    by (simp add: upt_rec hex_digit_def hex_value_def is_digit_def in_range_def)
  then show "n < 16 \<Longrightarrow> hex_value (hex_digit n) = Some n" by simp
qed

lemma hex_decode_encode: "hex_decode (hex_encode bs) = Some (map unat bs)"
proof (induction bs)
  case Nil
  then show ?case by (simp add: hex_encode_def)
next
  case (Cons b bs)
  have "hex_value (hex_digit (unat b div 16)) = Some (unat b div 16)"
       "hex_value (hex_digit (unat b mod 16)) = Some (unat b mod 16)"
    using unat_byte_bound[of b] by (auto intro!: hex_value_digit)
  with Cons show ?case by (simp add: hex_encode_def hex_byte_def)
qed

lemma hyphen_not_hex: "is_lower_hex c \<Longrightarrow> c \<noteq> CHR ''-''"
  by (auto simp: is_lower_hex_def is_digit_def in_range_def)

lemma no_hyphens [simp]: "filter (\<lambda>c. c \<noteq> CHR ''-'') (hex_encode bs) = hex_encode bs"
  using hex_encode_lower hyphen_not_hex by (simp add: filter_id_conv)

lemma hex_encode_append [simp]: "hex_encode (xs @ ys) = hex_encode xs @ hex_encode ys"
  by (simp add: hex_encode_def)

lemma take_hex_encode: "take (2 * n) (hex_encode bs) = hex_encode (take n bs)"
proof (induction n arbitrary: bs)
  case 0
  then show ?case by (simp add: hex_encode_def)
next
  case (Suc n)
  then show ?case by (cases bs) (auto simp: hex_encode_def hex_byte_def)
qed

lemma drop_hex_encode: "drop (2 * n) (hex_encode bs) = hex_encode (drop n bs)"
proof (induction n arbitrary: bs)
  case 0
  then show ?case by simp
next
  case (Suc n)
  then show ?case by (cases bs) (auto simp: hex_encode_def hex_byte_def)
qed

lemma uuid_format_filter:
  "filter (\<lambda>c. c \<noteq> CHR ''-'') (uuid_format b) = hex_encode b"
proof -
  have "b = take 4 b @ take 2 (drop 4 b) @ take 2 (drop 6 b) @ take 2 (drop 8 b) @ drop 10 b"
    using append_take_drop_id[of 4 b] append_take_drop_id[of 2 "drop 4 b"]
      append_take_drop_id[of 2 "drop 6 b"] append_take_drop_id[of 2 "drop 8 b"] by simp
  then have "hex_encode b = hex_encode (take 4 b) @ hex_encode (take 2 (drop 4 b))
     @ hex_encode (take 2 (drop 6 b)) @ hex_encode (take 2 (drop 8 b)) @ hex_encode (drop 10 b)"
    by (metis hex_encode_append)
  then show ?thesis by (simp add: uuid_format_def)
qed

lemma uuid_format_hex:
  assumes "length b = 16"
  shows "uuid_format b = take 8 (hex_encode b) @ ''-'' @ take 4 (drop 8 (hex_encode b)) @ ''-'' @
     take 4 (drop 12 (hex_encode b)) @ ''-'' @ take 4 (drop 16 (hex_encode b)) @ ''-'' @
     take 12 (drop 20 (hex_encode b))"
proof -
  have t: "take 8 (hex_encode b) = hex_encode (take 4 b)"
    "drop 8 (hex_encode b) = hex_encode (drop 4 b)" "drop 12 (hex_encode b) = hex_encode (drop 6 b)"
    "drop 16 (hex_encode b) = hex_encode (drop 8 b)" "drop 20 (hex_encode b) = hex_encode (drop 10 b)"
    using take_hex_encode[of 4 b] drop_hex_encode[of 4 b] drop_hex_encode[of 6 b]
      drop_hex_encode[of 8 b] drop_hex_encode[of 10 b] by simp_all
  have u: "take 4 (hex_encode bs) = hex_encode (take 2 bs)" for bs
    using take_hex_encode[of 2 bs] by simp
  have "length (hex_encode (drop 10 b)) = 12" using assms by simp
  then show ?thesis by (simp add: uuid_format_def t u)
qed

lemma length_uuid_format: "length b = 16 \<Longrightarrow> length (uuid_format b) = 36"
  by (simp add: uuid_format_def)

lemma validStoreID_format:
  assumes "length b = 16" "unat (b ! 6) div 16 = 7" "unat (b ! 8) div 64 = 2"
  shows "validStoreID (''store_'' @ uuid_format b)"
  using assms length_uuid_format[of b]
  by (simp add: validStoreID_def has_prefix_def uuid_format_filter hex_decode_encode)

lemma newStoreID_format:
  assumes "newStoreID (Some rnd) ms = Inr s"
  shows "s = ''store_'' @ uuid_format (uuid_bytes ms (take 10 (drop 6 rnd)))" "16 \<le> length rnd"
proof -
  show len: "16 \<le> length rnd" using assms by (simp add: newStoreID_def split: if_splits)
  have "length (uuid_bytes ms (take 10 (drop 6 rnd))) = 16"
    using len by (simp add: length_uuid_bytes)
  moreover have "drop 6 (take 16 rnd) = take 10 (drop 6 rnd)" by (simp add: drop_take)
  ultimately show "s = ''store_'' @ uuid_format (uuid_bytes ms (take 10 (drop 6 rnd)))"
    using assms len by (simp add: newStoreID_def uuid_format_hex uuid_bytes_def Let_def)
qed

text \<open>
  C15: An identifier that the generator returns, whatever the entropy and the clock, passes
  \<open>ValidateID\<close> for its prefix: version and variant bits, hyphens and lower-case hex digits are
  where the validator looks for them.
\<close>

theorem generated_id_validates:
  assumes "NewPrefixedIDChecked p entropy ms = Inr s"
  shows "ValidateID s p = Inr ()"
proof -
  from assms obtain rnd where rnd: "entropy = Some rnd" "10 \<le> length rnd"
    and s: "s = p @ uuid_format (uuid_bytes ms (take 10 rnd))"
    by (auto simp: NewPrefixedIDChecked_def NewUUIDv7From_def split: option.splits if_splits)
  then show ?thesis
    by (simp add: uuid_format_valid length_uuid_bytes uuid_bytes_version uuid_bytes_variant)
qed

theorem generated_id_validates_witness:
  "ValidateID ''msg_00000000-0001-7fff-bfff-ffffffffffff'' MessageIDPrefix = Inr ()"
proof -
  have "NewPrefixedIDChecked MessageIDPrefix (Some (replicate 10 255)) 1
      = Inr ''msg_00000000-0001-7fff-bfff-ffffffffffff''"
    by code_simp
  then show ?thesis by (rule generated_id_validates)
qed

text \<open>
  C16: A freshly generated store identity is accepted by the journal's own check
  \<open>validStoreID\<close> and by the package-wide \<open>ValidateID\<close> for the store prefix, so a journal
  never re-keys the identity it has just created.
\<close>

theorem new_store_id_valid:
  assumes "newStoreID (Some rnd) ms = Inr s"
  shows "validStoreID s \<and> ValidateID s StoreIDPrefix = Inr ()"
proof -
  let ?r = "take 10 (drop 6 rnd)"
  have r: "length ?r = 10" using newStoreID_format(2)[OF assms] by simp
  have s: "s = ''store_'' @ uuid_format (uuid_bytes ms ?r)" by (rule newStoreID_format(1)[OF assms])
  note u = length_uuid_bytes[OF r] uuid_bytes_version[OF r] uuid_bytes_variant[OF r]
  have "validStoreID s" unfolding s by (rule validStoreID_format) (rule u)+
  moreover have "ValidateID s StoreIDPrefix = Inr ()"
    unfolding s StoreIDPrefix_def by (rule uuid_format_valid) (rule u)+
  ultimately show ?thesis ..
qed
theorem new_store_id_valid_witness:
  "validStoreID ''store_00000000-0002-7000-8000-000000000000''
   \<and> ValidateID ''store_00000000-0002-7000-8000-000000000000'' StoreIDPrefix = Inr ()"
proof -
  have "newStoreID (Some (replicate 16 0)) 2 = Inr ''store_00000000-0002-7000-8000-000000000000''"
    by code_simp
  then show ?thesis by (rule new_store_id_valid)
qed

end
