(* ===== verification/Journal_Db.thy ===== *)
theory Journal_Db
  imports Status
begin

text \<open>
  The tables of the custody journal (\<open>schemaV1\<close> of \<open>go/internal/journal/journal.go\<close>, with the
  columns of the current schema version), its transactions and its event log.

  A row is a record, a table a list of rows in insertion order, a nullable column an
  \<open>option\<close>. Times are the \<open>UnixNano\<close> values the code stores; they are unbounded here (the
  int64 of the code overflows in the year 2262). Every write runs in \<open>withTx\<close>: the body maps
  the database to an error or to a result with the new database, so that an error rolls every
  statement of the body back.
\<close>

section \<open>Rows\<close>

record op_ident =
  o_operation_id :: string
  o_message_id :: string
  o_source_route :: string
  o_target_route :: string
  o_semantics :: string
  o_source_endpoint_id :: string
  o_target_endpoint_id :: string
  o_reply_route :: string
  o_reply_endpoint_id :: string
  o_reply_thread_id :: string
  o_custody_route :: string
  o_custody_store_id :: string
  o_digest :: string
  o_body_size :: int

record op_row = op_ident +
  o_state :: EvidenceState
  o_created_at :: int
  o_updated_at :: int
  o_dispatch_started_at :: "int option"
  o_terminal_at :: "int option"
  o_error_code :: string

record attempt_row =
  a_operation_id :: string
  a_state :: EvidenceState
  a_created_at :: int
  a_updated_at :: int
  a_owner :: string
  a_token :: string
  a_lease_until :: int

record claim_row =
  c_reply_id :: string
  c_original_id :: string
  c_digest :: string
  c_body_size :: int
  c_status :: string
  c_reply_route :: string
  c_custody_route :: string
  c_custody_store_id :: string
  c_owner :: string
  c_token :: string
  c_lease_until :: int
  c_state :: EvidenceState
  c_created_at :: int
  c_updated_at :: int
  c_accepted_at :: "int option"
  c_commit_seq :: "int option"
  c_error_code :: string
  c_reply_error_code :: string

record winner_row =
  w_original_id :: string
  w_reply_id :: string
  w_committed_at :: int
  w_commit_seq :: int

record observation_row =
  b_reply_id :: string
  b_native_item_id :: string
  b_observed_at :: int
  b_digest :: string
  b_endpoint_id :: string
  b_control_route :: string

record event_row =
  e_seq :: int
  e_kind :: string
  e_operation_id :: string
  e_reply_id :: string
  e_state :: EvidenceState
  e_at :: int

record manual_row =
  m_operation_id :: string
  m_assertion :: string
  m_actor :: string
  m_reason :: string
  m_evidence_ref :: string
  m_presentation :: string
  m_resolved_at :: int

record acceptance_row =
  p_id :: string
  p_evidence_ref :: string
  p_recorded_at :: int

record receipt_row =
  r_receipt_id :: string
  r_operation_id :: string
  r_message_id :: string
  r_state :: EvidenceState
  r_created_at :: int
  r_updated_at :: int
  r_source_endpoint_id :: string
  r_source_thread_id :: string
  r_target_endpoint_id :: string
  r_target_thread_id :: string
  r_document :: string

record blocker_row =
  k_method :: string
  k_correlation_id :: string
  k_generation :: string
  k_first_seen :: int
  k_last_seen :: int
  k_resolved_at :: "int option"
  k_endpoint_id :: string
  k_thread_id :: string
  k_turn_id :: string
  k_item_id :: string
  k_operation_id :: string
  k_message_id :: string

text \<open>\<open>event_seq\<close> is SQLite's AUTOINCREMENT counter of the \<open>events\<close> table.\<close>

record db =
  operations :: "op_row list"
  attempts :: "attempt_row list"
  reply_claims :: "claim_row list"
  reply_winners :: "winner_row list"
  observations :: "observation_row list"
  events :: "event_row list"
  event_seq :: int
  manual_resolutions :: "manual_row list"
  operation_acceptances :: "acceptance_row list"
  reply_acceptances :: "acceptance_row list"
  receipts :: "receipt_row list"
  blockers :: "blocker_row list"

definition empty_db :: db where
  "empty_db = \<lparr>operations = [], attempts = [], reply_claims = [], reply_winners = [],
     observations = [], events = [], event_seq = 0, manual_resolutions = [],
     operation_acceptances = [], reply_acceptances = [], receipts = [], blockers = []\<rparr>"

section \<open>Errors and transactions\<close>

text \<open>
  The journal's sentinel errors; \<open>Invalid\<close> is a \<open>fmt.Errorf\<close> on malformed arguments,
  \<open>Constraint\<close> a uniqueness, CHECK or foreign-key error of SQLite, \<open>NoEntropy\<close> a failed
  read of the random source, \<open>DbErr\<close> any other error text of the driver, \<open>Wrapped e m\<close> is
  \<open>fmt.Errorf("%w: %v", e, m)\<close>, which \<open>errors.Is\<close> still recognises as \<open>e\<close>.
\<close>

datatype jerror =
    NotFound
  | IdentityConflict
  | ClaimNotOwned
  | ClaimExpired
  | AlreadyWon
  | InvalidTransition
  | Corrupt
  | Invalid string
  | Constraint
  | NoEntropy
  | ReceiptBody
  | ReceiptConflict
  | DbErr string
  | StorageBusy
  | DeadlineExceeded
  | Wrapped jerror string

type_synonym 'a tx = "db \<Rightarrow> jerror + 'a \<times> db"

fun error_text :: "jerror \<Rightarrow> string" where
  "error_text NotFound = ''journal: record not found''"
| "error_text IdentityConflict = ''journal: message identity conflict''"
| "error_text ClaimNotOwned = ''journal: claim is not owned by token''"
| "error_text ClaimExpired = ''journal: claim expired''"
| "error_text AlreadyWon = ''journal: a different reply already won''"
| "error_text InvalidTransition = ''journal: invalid evidence transition''"
| "error_text Corrupt = ''journal: corrupt or unreadable database''"
| "error_text (Invalid m) = m"
| "error_text Constraint = ''constraint failed''"
| "error_text NoEntropy = ''entropy''"
| "error_text ReceiptBody = ''journal: receipt contains body content''"
| "error_text ReceiptConflict = ''journal: receipt reference is ambiguous''"
| "error_text (DbErr m) = m"
| "error_text StorageBusy = ''journal: storage busy''"
| "error_text DeadlineExceeded = ''context deadline exceeded''"
| "error_text (Wrapped e m) = error_text e @ '': '' @ m"

text \<open>\<open>errors.Is\<close>.\<close>

fun error_is :: "jerror \<Rightarrow> jerror \<Rightarrow> bool" where
  "error_is (Wrapped e m) target = (Wrapped e m = target \<or> error_is e target)"
| "error_is e target = (e = target)"

definition isBusy :: "jerror \<Rightarrow> bool" where
  "isBusy e = (contains (error_text e) ''SQLITE_BUSY'' \<or> contains (error_text e) ''database is locked'')"

text \<open>
  One round of the \<open>withTx\<close> loop as SQLite, the other processes and the clock answer it: what
  other writers have committed since the round before (\<open>other_writes\<close>), whether \<open>BeginTx\<close> fails,
  whether a statement of the body fails for a reason outside the model, whether the deadline has
  passed, what \<open>waitBusy\<close> returns, and how \<open>Commit\<close> ends. A failed commit may have been applied all
  the same (\<open>commit_applied\<close>), as the code's comment says.
\<close>

record tx_round =
  other_writes :: "db \<Rightarrow> db"
  begin_err :: "jerror option"
  stmt_err :: "jerror option"
  past_deadline :: bool
  wait_err :: "jerror option"
  commit_err :: "jerror option"
  commit_applied :: bool

text \<open>The retry loop over a list of rounds; \<open>None\<close> when the list ends while it still loops.\<close>

fun withTx_rounds :: "tx_round list \<Rightarrow> 'a tx \<Rightarrow> db \<Rightarrow> ((jerror + 'a) \<times> db) option" where
  "withTx_rounds [] fn d = None"
| "withTx_rounds (t # ts) fn d0 =
     (let d = other_writes t d0;
          retry = (\<lambda>e. if \<not> isBusy e \<or> past_deadline t then Some (Inl e, d)
                       else case wait_err t of Some w \<Rightarrow> Some (Inl w, d)
                            | None \<Rightarrow> withTx_rounds ts fn d)
      in case begin_err t of
           Some e \<Rightarrow> retry e
         | None \<Rightarrow>
             (case (case stmt_err t of Some e \<Rightarrow> Inl e | None \<Rightarrow> fn d) of
                Inl e \<Rightarrow> retry e
              | Inr (a, d') \<Rightarrow>
                  (case commit_err t of
                     None \<Rightarrow> Some (Inr a, d')
                   | Some e \<Rightarrow> Some (Inl e, if commit_applied t then d' else d))))"

text \<open>The transaction as its caller sees it when the driver reports no error of its own.\<close>

definition withTx :: "'a tx \<Rightarrow> db \<Rightarrow> (jerror + 'a) \<times> db" where
  "withTx fn d = (case fn d of Inl e \<Rightarrow> (Inl e, d) | Inr (a, d') \<Rightarrow> (Inr a, d'))"

definition quiet_round :: tx_round where
  "quiet_round = \<lparr>other_writes = (\<lambda>d. d), begin_err = None, stmt_err = None, past_deadline = False, wait_err = None,
     commit_err = None, commit_applied = True\<rparr>"

definition tx_rows :: "'r list option \<Rightarrow> ('r list \<Rightarrow> db) \<Rightarrow> jerror + db" where
  "tx_rows rows put = (case rows of None \<Rightarrow> Inl Constraint | Some rs \<Rightarrow> Inr (put rs))"

text \<open>\<open>emit\<close>: append one event; AUTOINCREMENT gives a number above every earlier one.\<close>

definition emit :: "string \<Rightarrow> string \<Rightarrow> string \<Rightarrow> EvidenceState \<Rightarrow> int \<Rightarrow> db \<Rightarrow> db" where
  "emit kind operation_id reply_id state now d =
     d\<lparr>event_seq := event_seq d + 1,
       events := events d @ [\<lparr>e_seq = event_seq d + 1, e_kind = kind, e_operation_id = operation_id,
          e_reply_id = reply_id, e_state = state, e_at = now\<rparr>]\<rparr>"

text \<open>\<open>randomToken\<close>: 24 random bytes in hexadecimal.\<close>

definition randomToken :: "8 word list option \<Rightarrow> jerror + string" where
  "randomToken entropy =
     (case entropy of None \<Rightarrow> Inl NoEntropy
      | Some b \<Rightarrow> if length b < 24 then Inl NoEntropy else Inr (hex_encode (take 24 b)))"

lemma randomToken_length: "randomToken entropy = Inr t \<Longrightarrow> length t = 48"
  by (auto simp: randomToken_def split: option.splits if_splits)

lemma randomToken_nonempty: "randomToken entropy = Inr t \<Longrightarrow> t \<noteq> ''''"
  using randomToken_length by fastforce

section \<open>Transactions are atomic and never replayed after a commit\<close>

lemma withTx_quiet: "(\<And>e. fn d = Inl e \<Longrightarrow> \<not> isBusy e) \<Longrightarrow> withTx_rounds [quiet_round] fn d = Some (withTx fn d)"
  by (auto simp: withTx_def quiet_round_def Let_def split: sum.splits prod.splits)

lemma withTx_Inl: "withTx fn d = (Inl e, d') \<Longrightarrow> d' = d"
  by (auto simp: withTx_def split: sum.splits prod.splits)

lemma withTx_Inr: "withTx fn d = (Inr a, d') \<longleftrightarrow> fn d = Inr (a, d')"
  by (auto simp: withTx_def split: sum.splits prod.splits)

lemma snd_withTx: "snd (withTx fn d) = (case fn d of Inl e \<Rightarrow> d | Inr (a, d') \<Rightarrow> d')"
  by (auto simp: withTx_def split: sum.splits prod.splits)

text \<open>The database a round begins with: what the writers of the rounds so far have made of it.\<close>

fun seen_by :: "tx_round list \<Rightarrow> nat \<Rightarrow> db \<Rightarrow> db" where
  "seen_by [] k d = d"
| "seen_by (t # ts) 0 d = other_writes t d"
| "seen_by (t # ts) (Suc k) d = seen_by ts k (other_writes t d)"

text \<open>
  C10: However the driver answers round after round (busy, failing statements, failing or
  ambiguous commits) and whatever other writers commit in between, a transaction is all or nothing.
  There is one last round, and it begins with what the others alone have left. A success is reported
  only when that round's commit succeeded, with the effect of the whole body on that database. An
  error leaves that database untouched, except after a failed commit that SQLite has applied all the
  same, the only error with the effect, which is then the whole effect, once.
\<close>

theorem withTx_all_or_nothing:
  assumes "withTx_rounds ts fn d = Some (r, d')"
  shows "\<exists>k < length ts. case r of
      Inr a \<Rightarrow> commit_err (ts ! k) = None \<and> fn (seen_by ts k d) = Inr (a, d')
    | Inl e \<Rightarrow>
        if begin_err (ts ! k) = None \<and> stmt_err (ts ! k) = None \<and> commit_err (ts ! k) = Some e \<and>
           commit_applied (ts ! k) \<and> (\<exists>a d1. fn (seen_by ts k d) = Inr (a, d1))
        then \<exists>a. fn (seen_by ts k d) = Inr (a, d') else d' = seen_by ts k d"
  using assms
proof (induction ts arbitrary: d)
  case Nil
  then show ?case by simp
next
  case (Cons t ts)
  show ?case
  proof (cases "withTx_rounds ts fn (other_writes t d) = Some (r, d')")
    case True
    from Cons.IH[OF this] obtain k where "k < length ts" and k: "case r of
        Inr a \<Rightarrow> commit_err (ts ! k) = None \<and> fn (seen_by ts k (other_writes t d)) = Inr (a, d')
      | Inl e \<Rightarrow>
          if begin_err (ts ! k) = None \<and> stmt_err (ts ! k) = None \<and> commit_err (ts ! k) = Some e \<and>
             commit_applied (ts ! k) \<and> (\<exists>a d1. fn (seen_by ts k (other_writes t d)) = Inr (a, d1))
          then \<exists>a. fn (seen_by ts k (other_writes t d)) = Inr (a, d') else d' = seen_by ts k (other_writes t d)" by blast
    then show ?thesis by (intro exI[of _ "Suc k"]) (simp only: length_Cons Suc_less_eq nth_Cons_Suc seen_by.simps(3))
  next
    case False
    with Cons.prems show ?thesis
      by (intro exI[of _ 0]) (auto simp: Let_def split: option.splits sum.splits prod.splits if_splits)
  qed
qed

theorem withTx_all_or_nothing_witness:
  "withTx_rounds [quiet_round\<lparr>begin_err := Some (DbErr ''SQLITE_BUSY'')\<rparr>,
        quiet_round\<lparr>other_writes := emit ''o'' '''' '''' StatePrepared 5\<rparr>]
      (\<lambda>d. Inr ((), emit ''k'' '''' '''' StatePrepared 7 d)) empty_db
     = Some (Inr (), emit ''k'' '''' '''' StatePrepared 7 (emit ''o'' '''' '''' StatePrepared 5 empty_db))
   \<and> (\<exists>k < 2. commit_err ([quiet_round\<lparr>begin_err := Some (DbErr ''SQLITE_BUSY'')\<rparr>,
        quiet_round\<lparr>other_writes := emit ''o'' '''' '''' StatePrepared 5\<rparr>] ! k) = None)"
proof -
  let ?fn = "\<lambda>d. Inr ((), emit ''k'' '''' '''' StatePrepared 7 d) :: jerror + unit \<times> db"
  let ?ts = "[quiet_round\<lparr>begin_err := Some (DbErr ''SQLITE_BUSY'')\<rparr>, quiet_round\<lparr>other_writes := emit ''o'' '''' '''' StatePrepared 5\<rparr>]"
  have run: "withTx_rounds ?ts ?fn empty_db
     = Some (Inr (), emit ''k'' '''' '''' StatePrepared 7 (emit ''o'' '''' '''' StatePrepared 5 empty_db))"
    by (simp add: Let_def quiet_round_def isBusy_def has_prefix_def)
  from withTx_all_or_nothing[OF run] obtain k where k: "k < length ?ts" "commit_err (?ts ! k) = None"
    unfolding sum.case by blast
  from k(1) have "k < 2" by simp
  with k(2) run show ?thesis by blast
qed

text \<open>
  C19: A transaction returns. The retry loop ends at the latest in the first round that finds its
  deadline passed, whatever the driver answered before.
\<close>

theorem withTx_returns:
  assumes "t \<in> set ts" "past_deadline t"
  shows "\<exists>r d'. withTx_rounds ts fn d = Some (r, d')"
  using assms
proof (induction ts arbitrary: d)
  case (Cons s ts)
  then show ?case
    by (cases "s = t") (auto simp: Let_def split: option.splits sum.splits prod.splits)
qed simp

theorem withTx_returns_witness:
  "\<exists>r d'. withTx_rounds (replicate 3 (quiet_round\<lparr>begin_err := Some (DbErr ''SQLITE_BUSY'')\<rparr>)
       @ [quiet_round\<lparr>begin_err := Some (DbErr ''SQLITE_BUSY''), past_deadline := True\<rparr>])
     (\<lambda>d. Inr ((), d)) empty_db = Some (r, d')"
  by (rule withTx_returns[of "quiet_round\<lparr>begin_err := Some (DbErr ''SQLITE_BUSY''), past_deadline := True\<rparr>"]) simp_all

end
