(* ===== verification/Journal_Operations.thy ===== *)
theory Journal_Operations
  imports Journal_Db
begin

text \<open>
  Outbound operations: \<open>go/internal/journal/operations.go\<close>. \<open>Prepare\<close> writes the operation and
  its attempt (owner, fencing token, lease) before anything is sent; the fence
  \<open>MarkDispatchStartedOwned\<close> is committed before bytes leave; results, manual resolutions and
  the recovery of orphans close the operation. \<open>ResolveWithReceipt\<close> is with the receipts, in
  Journal\_Receipts. The arguments \<open>now\<close> and \<open>dur\<close> are \<open>j.nowUnix()\<close> and the lease duration.
\<close>

record Operation = op_ident +
  op_attempt_owner :: string

record OperationRecord = op_ident +
  or_state :: EvidenceState
  or_created_at :: int
  or_updated_at :: int
  or_dispatch_started_at :: int
  or_terminal_at :: int
  or_error_code :: string
  or_attempt_owner :: string
  or_attempt_token :: string
  or_attempt_lease_until :: int
  or_manual_resolution :: "manual_row option"

record ManualResolution =
  mr_assertion :: string
  mr_actor :: string
  mr_reason :: string
  mr_evidence_ref :: string
  mr_presentation :: string
  mr_timestamp :: "int option"

record OperationQuery =
  oq_state :: "EvidenceState option"
  oq_since :: "int option"
  oq_limit :: int

definition MaxOperationQueryLimit :: int where "MaxOperationQueryLimit = 100"

section \<open>Argument checks and row construction\<close>

definition operation_incomplete :: "'a op_ident_scheme \<Rightarrow> bool" where
  "operation_incomplete p =
     (o_operation_id p = '''' \<or> o_message_id p = '''' \<or> o_source_route p = '''' \<or>
      o_target_route p = '''' \<or> o_digest p = '''' \<or> o_body_size p < 0)"

definition custody_incomplete :: "'a op_ident_scheme \<Rightarrow> bool" where
  "custody_incomplete p =
     ((o_reply_route p = '''') \<noteq> (o_custody_route p = '''') \<or>
      (o_reply_route p \<noteq> '''' \<and> o_custody_store_id p = ''''))"

text \<open>The field-by-field identity comparison of \<open>Prepare\<close> and \<open>importOperationTxAt\<close>.\<close>

definition same_identity :: "'a op_ident_scheme \<Rightarrow> 'b op_ident_scheme \<Rightarrow> bool" where
  "same_identity x p =
     (o_operation_id x = o_operation_id p \<and> o_message_id x = o_message_id p \<and>
      o_source_route x = o_source_route p \<and> o_target_route x = o_target_route p \<and>
      o_semantics x = o_semantics p \<and> o_source_endpoint_id x = o_source_endpoint_id p \<and>
      o_target_endpoint_id x = o_target_endpoint_id p \<and> o_reply_route x = o_reply_route p \<and>
      o_reply_endpoint_id x = o_reply_endpoint_id p \<and> o_reply_thread_id x = o_reply_thread_id p \<and>
      o_custody_route x = o_custody_route p \<and> o_custody_store_id x = o_custody_store_id p \<and>
      o_digest x = o_digest p \<and> o_body_size x = o_body_size p)"

definition operation_row ::
  "'a op_ident_scheme \<Rightarrow> EvidenceState \<Rightarrow> int \<Rightarrow> int option \<Rightarrow> string \<Rightarrow> op_row" where
  "operation_row p state now terminal error_code =
     op_ident.extend (op_ident.truncate p)
       \<lparr>o_state = state, o_created_at = now, o_updated_at = now, o_dispatch_started_at = None,
        o_terminal_at = terminal, o_error_code = error_code\<rparr>"

definition insert_operation :: "op_row \<Rightarrow> db \<Rightarrow> jerror + db" where
  "insert_operation r d =
     (if row_by o_operation_id (o_operation_id r) (operations d) \<noteq> None \<or>
         row_by o_message_id (o_message_id r) (operations d) \<noteq> None \<or> o_body_size r < 0
      then Inl Constraint
      else Inr (d\<lparr>operations := operations d @ [r]\<rparr>))"

definition insert_attempt :: "attempt_row \<Rightarrow> db \<Rightarrow> jerror + db" where
  "insert_attempt a d =
     (if row_by a_operation_id (a_operation_id a) (attempts d) \<noteq> None \<or>
         row_by o_operation_id (a_operation_id a) (operations d) = None
      then Inl Constraint
      else Inr (d\<lparr>attempts := attempts d @ [a]\<rparr>))"

text \<open>Statements shared by several transactions.\<close>

definition set_operation :: "string \<Rightarrow> (op_row \<Rightarrow> op_row) \<Rightarrow> db \<Rightarrow> db" where
  "set_operation oid f d = d\<lparr>operations := update_where (\<lambda>r. o_operation_id r = oid) f (operations d)\<rparr>"

definition set_attempt_state :: "string \<Rightarrow> EvidenceState \<Rightarrow> int \<Rightarrow> db \<Rightarrow> db" where
  "set_attempt_state oid state now d =
     d\<lparr>attempts := update_where (\<lambda>a. a_operation_id a = oid)
        (\<lambda>a. a\<lparr>a_state := state, a_updated_at := now\<rparr>) (attempts d)\<rparr>"

section \<open>Reads\<close>

text \<open>The left join of \<open>operationSelect\<close>, scanned.\<close>

definition scanOperation :: "db \<Rightarrow> op_row \<Rightarrow> OperationRecord" where
  "scanOperation d r =
     (let a = row_by a_operation_id (o_operation_id r) (attempts d) in
      op_ident.extend (op_ident.truncate r)
       \<lparr>or_state = o_state r, or_created_at = o_created_at r, or_updated_at = o_updated_at r,
        or_dispatch_started_at = coalesce (o_dispatch_started_at r) 0,
        or_terminal_at = coalesce (o_terminal_at r) 0, or_error_code = o_error_code r,
        or_attempt_owner = coalesce (map_option a_owner a) '''',
        or_attempt_token = coalesce (map_option a_token a) '''',
        or_attempt_lease_until = coalesce (map_option a_lease_until a) 0,
        or_manual_resolution = None\<rparr>)"

definition loadManualResolution :: "db \<Rightarrow> OperationRecord \<Rightarrow> OperationRecord" where
  "loadManualResolution d r =
     r\<lparr>or_manual_resolution := row_by m_operation_id (o_operation_id r) (manual_resolutions d)\<rparr>"

definition operation_read :: "string \<Rightarrow> bool \<Rightarrow> db \<Rightarrow> jerror + OperationRecord" where
  "operation_read oid includeToken d =
     (case row_by o_operation_id oid (operations d) of
        None \<Rightarrow> Inl NotFound
      | Some r \<Rightarrow>
          let out = scanOperation d r;
              out = (if includeToken then out else out\<lparr>or_attempt_token := ''''\<rparr>)
          in Inr (loadManualResolution d out))"

definition OperationLookup :: "string \<Rightarrow> db \<Rightarrow> jerror + OperationRecord" where
  "OperationLookup oid d = operation_read oid False d"

definition OperationByMessage :: "string \<Rightarrow> db \<Rightarrow> jerror + OperationRecord" where
  "OperationByMessage message_id d =
     (case row_by o_message_id message_id (operations d) of
        None \<Rightarrow> Inl NotFound
      | Some r \<Rightarrow> Inr (loadManualResolution d ((scanOperation d r)\<lparr>or_attempt_token := ''''\<rparr>)))"

definition ListOperations :: "OperationQuery \<Rightarrow> db \<Rightarrow> jerror + OperationRecord list" where
  "ListOperations q d =
     (if oq_limit q < 0 \<or> oq_limit q > MaxOperationQueryLimit
      then Inl (Invalid ''journal: operation limit out of range'')
      else if (case oq_state q of None \<Rightarrow> False | Some st \<Rightarrow> \<not> state_valid st)
      then Inl (Invalid ''journal: invalid operation state'')
      else
        let limit = (if oq_limit q = 0 then 50 else oq_limit q);
            rows = filter (\<lambda>r. (case oq_state q of None \<Rightarrow> True | Some st \<Rightarrow> o_state r = st) \<and>
                               (case oq_since q of None \<Rightarrow> True | Some t \<Rightarrow> t \<le> o_created_at r))
                     (operations d);
            page = take (nat limit) (rev (sort_key (\<lambda>r. (o_created_at r, o_operation_id r)) rows))
        in Inr (map (\<lambda>r. loadManualResolution d ((scanOperation d r)\<lparr>or_attempt_token := ''''\<rparr>)) page))"

section \<open>Creation\<close>

definition importOperationTxAt ::
  "'a op_ident_scheme \<Rightarrow> EvidenceState \<Rightarrow> string \<Rightarrow> int \<Rightarrow> bool \<Rightarrow> bool \<Rightarrow> unit tx" where
  "importOperationTxAt p state error_code now emitEvent requireNoAttempts d =
     (case row_by o_operation_id (o_operation_id p) (operations d) of
        Some existing \<Rightarrow>
          if \<not> same_identity existing p then Inl IdentityConflict
          else if requireNoAttempts \<and>
                  count_where (\<lambda>a. a_operation_id a = o_operation_id p) (attempts d) \<noteq> 0
          then Inl IdentityConflict
          else Inr ((), d)
      | None \<Rightarrow>
          (case row_by o_message_id (o_message_id p) (operations d) of
             Some _ \<Rightarrow> Inl IdentityConflict
           | None \<Rightarrow>
               bindE (insert_operation (operation_row p state now (Some now) error_code) d) (\<lambda>d.
               Inr ((), if emitEvent
                        then emit ''operation.imported'' (o_operation_id p) '''' state now d else d))))"

definition ImportOperation ::
  "int \<Rightarrow> Operation \<Rightarrow> EvidenceState \<Rightarrow> string \<Rightarrow> db \<Rightarrow> (jerror + unit) \<times> db" where
  "ImportOperation now p state error_code d =
     (if operation_incomplete p \<or> \<not> state_valid state
      then (Inl (Invalid ''journal: invalid imported operation metadata''), d)
      else if custody_incomplete p
      then (Inl (Invalid ''journal: incomplete imported reply custody relationship''), d)
      else withTx (importOperationTxAt p state error_code now True True) d)"

text \<open>\<open>Prepare\<close>: the flag it returns is \<open>creator\<close>, which opens the token to the caller.\<close>

definition Prepare_tx :: "int \<Rightarrow> int \<Rightarrow> 8 word list option \<Rightarrow> Operation \<Rightarrow> bool tx" where
  "Prepare_tx now dur entropy p d =
     (case row_by o_message_id (o_message_id p) (operations d) of
        Some existing \<Rightarrow>
          if same_identity existing p
          then Inr (op_attempt_owner p \<noteq> '''' \<and>
                    op_attempt_owner p = or_attempt_owner (scanOperation d existing), d)
          else Inl IdentityConflict
      | None \<Rightarrow>
          bindE (randomToken entropy) (\<lambda>token.
          let owner = (if op_attempt_owner p = '''' then ''local-'' @ take 12 token
                       else op_attempt_owner p);
              lease = now + dur
          in bindE (insert_operation (operation_row p StatePrepared now None '''') d) (\<lambda>d.
             bindE (insert_attempt \<lparr>a_operation_id = o_operation_id p, a_state = StatePrepared,
                a_created_at = now, a_updated_at = now, a_owner = owner, a_token = token,
                a_lease_until = lease\<rparr> d) (\<lambda>d.
             Inr (True, emit ''operation.prepared'' (o_operation_id p) '''' StatePrepared now d)))))"

definition Prepare ::
  "int \<Rightarrow> int \<Rightarrow> 8 word list option \<Rightarrow> Operation \<Rightarrow> db \<Rightarrow> (jerror + OperationRecord) \<times> db" where
  "Prepare now dur entropy p d =
     (if operation_incomplete p then (Inl (Invalid ''journal: invalid operation metadata''), d)
      else if custody_incomplete p
      then (Inl (Invalid ''journal: incomplete reply custody relationship''), d)
      else case withTx (Prepare_tx now dur entropy p) d of
             (Inl e, d) \<Rightarrow> (Inl e, d)
           | (Inr creator, d) \<Rightarrow> (operation_read (o_operation_id p) creator d, d))"

section \<open>The dispatch fence and the attempt's lease\<close>

definition MarkDispatchStartedOwned ::
  "int \<Rightarrow> string \<Rightarrow> string \<Rightarrow> string \<Rightarrow> unit tx" where
  "MarkDispatchStartedOwned now oid owner token d =
     (let owned = (\<exists>a\<in>set (attempts d). a_operation_id a = oid \<and> a_owner a = owner \<and>
                     a_token a = token \<and> a_lease_until a > now);
          P = (\<lambda>r. o_operation_id r = oid \<and> o_state r = StatePrepared \<and> owned)
      in if count_where P (operations d) = 0 then Inl ClaimNotOwned
         else Inr ((), emit ''operation.dispatch_started'' oid '''' StateDispatchStarted now
           (d\<lparr>operations := update_where P (\<lambda>r. r\<lparr>o_state := StateDispatchStarted,
                o_dispatch_started_at := Some now, o_updated_at := now\<rparr>) (operations d),
              attempts := update_where
                (\<lambda>a. a_operation_id a = oid \<and> a_owner a = owner \<and> a_token a = token)
                (\<lambda>a. a\<lparr>a_state := StateDispatchStarted, a_updated_at := now\<rparr>) (attempts d)\<rparr>)))"

definition MarkDispatchStarted :: "int \<Rightarrow> string \<Rightarrow> db \<Rightarrow> (jerror + unit) \<times> db" where
  "MarkDispatchStarted now oid d =
     (case operation_read oid True d of
        Inl e \<Rightarrow> (Inl e, d)
      | Inr r \<Rightarrow> withTx (MarkDispatchStartedOwned now oid (or_attempt_owner r) (or_attempt_token r)) d)"

definition HeartbeatAttempt_tx :: "int \<Rightarrow> int \<Rightarrow> string \<Rightarrow> string \<Rightarrow> string \<Rightarrow> unit tx" where
  "HeartbeatAttempt_tx now dur oid owner token d =
     (let P = (\<lambda>a. a_operation_id a = oid \<and> a_owner a = owner \<and> a_token a = token \<and>
                   (a_state a = StatePrepared \<or> a_state a = StateDispatchStarted) \<and>
                   a_lease_until a > now)
      in if count_where P (attempts d) = 0 then Inl ClaimNotOwned
         else Inr ((), d\<lparr>attempts := update_where P
                (\<lambda>a. a\<lparr>a_lease_until := now + dur, a_updated_at := now\<rparr>) (attempts d)\<rparr>))"

definition HeartbeatAttempt ::
  "int \<Rightarrow> int \<Rightarrow> string \<Rightarrow> string \<Rightarrow> string \<Rightarrow> db \<Rightarrow> (jerror + OperationRecord) \<times> db" where
  "HeartbeatAttempt now dur oid owner token d =
     (case withTx (HeartbeatAttempt_tx now dur oid owner token) d of
        (Inl e, d) \<Rightarrow> (Inl e, d)
      | (Inr _, d) \<Rightarrow> (OperationLookup oid d, d))"

section \<open>Results\<close>

definition result_allowed :: "EvidenceState \<Rightarrow> EvidenceState \<Rightarrow> bool" where
  "result_allowed current state =
     ((current = StateDispatchStarted \<and>
         (state = StateAccepted \<or> state = StateRejected \<or> state = StateOutcomeUnknown)) \<or>
      (current = StateOutcomeUnknown \<and> state = StateAccepted) \<or>
      (current = StatePrepared \<and> state = StateNotSent))"

definition RecordResult_tx :: "int \<Rightarrow> string \<Rightarrow> EvidenceState \<Rightarrow> string \<Rightarrow> unit tx" where
  "RecordResult_tx now oid state error_code d =
     (case row_by o_operation_id oid (operations d) of
        None \<Rightarrow> Inl NotFound
      | Some r \<Rightarrow>
          if \<not> result_allowed (o_state r) state then Inl InvalidTransition
          else Inr ((), emit ''operation.result'' oid '''' state now
                 (set_attempt_state oid state now
                   (set_operation oid (\<lambda>r. r\<lparr>o_state := state, o_error_code := error_code,
                      o_updated_at := now, o_terminal_at := Some now\<rparr>) d))))"

definition RecordResult ::
  "int \<Rightarrow> string \<Rightarrow> EvidenceState \<Rightarrow> string \<Rightarrow> db \<Rightarrow> (jerror + unit) \<times> db" where
  "RecordResult now oid state error_code d =
     (if state \<noteq> StateAccepted \<and> state \<noteq> StateRejected \<and> state \<noteq> StateOutcomeUnknown \<and>
         state \<noteq> StateNotSent
      then (Inl InvalidTransition, d)
      else withTx (RecordResult_tx now oid state error_code) d)"

definition RecordAccepted_tx :: "int \<Rightarrow> string \<Rightarrow> string \<Rightarrow> unit tx" where
  "RecordAccepted_tx now oid evidence_ref d =
     (case row_by o_operation_id oid (operations d) of
        None \<Rightarrow> Inl NotFound
      | Some r \<Rightarrow>
          if o_state r \<noteq> StateDispatchStarted \<and> o_state r \<noteq> StateOutcomeUnknown
          then Inl InvalidTransition
          else
            let d = set_operation oid (\<lambda>r. r\<lparr>o_state := StateAccepted, o_updated_at := now,
                      o_terminal_at := Some now\<rparr>) d;
                d = d\<lparr>operation_acceptances := replace_row p_id
                      \<lparr>p_id = oid, p_evidence_ref = evidence_ref, p_recorded_at = now\<rparr>
                      (operation_acceptances d)\<rparr>
            in Inr ((), emit ''operation.accepted'' oid '''' StateAccepted now
                         (set_attempt_state oid StateAccepted now d)))"

definition RecordAccepted :: "int \<Rightarrow> string \<Rightarrow> string \<Rightarrow> db \<Rightarrow> (jerror + unit) \<times> db" where
  "RecordAccepted now oid evidence_ref d =
     (if evidence_ref = ''''
      then (Inl (Invalid ''journal: acceptance evidence reference required''), d)
      else withTx (RecordAccepted_tx now oid evidence_ref) d)"

definition resolution_incomplete :: "ManualResolution \<Rightarrow> bool" where
  "resolution_incomplete m =
     ((mr_assertion m \<noteq> ''accepted'' \<and> mr_assertion m \<noteq> ''not_delivered'') \<or>
      mr_actor m = '''' \<or> mr_reason m = '''' \<or> mr_evidence_ref m = '''')"

text \<open>The writes of a manual resolution, common to both entry points.\<close>

definition resolve_writes :: "int \<Rightarrow> string \<Rightarrow> ManualResolution \<Rightarrow> db \<Rightarrow> db" where
  "resolve_writes now oid m d =
     (let d = set_operation oid (\<lambda>r. r\<lparr>o_state := StateManuallyResolved, o_updated_at := now,
                o_terminal_at := Some now, o_error_code := mr_assertion m\<rparr>) d;
          d = d\<lparr>manual_resolutions := replace_row m_operation_id
                \<lparr>m_operation_id = oid, m_assertion = mr_assertion m, m_actor = mr_actor m,
                 m_reason = mr_reason m, m_evidence_ref = mr_evidence_ref m,
                 m_presentation = mr_presentation m,
                 m_resolved_at = coalesce (mr_timestamp m) now\<rparr> (manual_resolutions d)\<rparr>
      in emit ''operation.manually_resolved'' oid '''' StateManuallyResolved now
           (set_attempt_state oid StateManuallyResolved now d))"

definition RecordManualResolution_tx :: "int \<Rightarrow> string \<Rightarrow> ManualResolution \<Rightarrow> unit tx" where
  "RecordManualResolution_tx now oid m d =
     (case row_by o_operation_id oid (operations d) of
        None \<Rightarrow> Inl NotFound
      | Some r \<Rightarrow> if o_state r \<noteq> StateOutcomeUnknown then Inl InvalidTransition
                  else Inr ((), resolve_writes now oid m d))"

definition RecordManualResolution ::
  "int \<Rightarrow> string \<Rightarrow> ManualResolution \<Rightarrow> db \<Rightarrow> (jerror + unit) \<times> db" where
  "RecordManualResolution now oid m d =
     (if resolution_incomplete m
      then (Inl (Invalid ''journal: incomplete manual resolution''), d)
      else withTx (RecordManualResolution_tx now oid m) d)"

section \<open>Recovery of orphans\<close>

text \<open>The rows of the join: an operation not yet closed whose attempt's lease has run out.\<close>

definition orphan_rows :: "int \<Rightarrow> db \<Rightarrow> (string \<times> EvidenceState) list" where
  "orphan_rows now d =
     [(o_operation_id r, o_state r). r \<leftarrow> operations d, a \<leftarrow> attempts d,
        a_operation_id a = o_operation_id r \<and>
        (o_state r = StatePrepared \<or> o_state r = StateDispatchStarted) \<and>
        a_lease_until a > 0 \<and> a_lease_until a \<le> now]"

definition recovered_state :: "EvidenceState \<Rightarrow> EvidenceState" where
  "recovered_state st = (if st = StateDispatchStarted then StateOutcomeUnknown else StateNotSent)"

definition recover_one :: "int \<Rightarrow> string \<times> EvidenceState \<Rightarrow> db \<Rightarrow> db" where
  "recover_one now row d =
     (let nxt = recovered_state (snd row) in
      emit ''operation.recovered'' (fst row) '''' nxt now
        (set_attempt_state (fst row) nxt now
          (set_operation (fst row) (\<lambda>r. r\<lparr>o_state := nxt, o_updated_at := now,
             o_terminal_at := Some now\<rparr>) d)))"

definition RecoverOrphans_tx :: "int \<Rightarrow> unit tx" where
  "RecoverOrphans_tx now d = Inr ((), fold (recover_one now) (orphan_rows now d) d)"

definition RecoverOrphans :: "int \<Rightarrow> db \<Rightarrow> (jerror + unit) \<times> db" where
  "RecoverOrphans now d = withTx (RecoverOrphans_tx now) d"

end
