(* ===== verification/Journal_Replies.thy ===== *)
theory Journal_Replies
  imports Journal_Operations Ids
begin

text \<open>
  Reply custody: \<open>go/internal/journal/replies.go\<close>. A reply is claimed (one fencing token, a
  finite lease) before its body is sent, heartbeaten, committed or abandoned, expired by
  anyone, and strengthened by observation; the first committed reply of an original is its
  winner. Portable imports and native observations write the same tables without a token.
\<close>

record ReplyClaim =
  rc_reply_id :: string
  rc_original_id :: string
  rc_digest :: string
  rc_body_size :: int
  rc_status :: string
  rc_reply_error_code :: string
  rc_reply_route :: string
  rc_custody_route :: string
  rc_custody_store_id :: string
  rc_owner :: string
  rc_token :: string
  rc_lease_until :: int
  rc_state :: EvidenceState
  rc_created_at :: int
  rc_updated_at :: int
  rc_accepted_at :: int
  rc_commit_seq :: int
  rc_joined :: bool
  rc_won :: bool

record ClaimInput =
  ci_reply_id :: string
  ci_original_id :: string
  ci_digest :: string
  ci_body_size :: int
  ci_status :: string
  ci_reply_route :: string
  ci_custody_route :: string
  ci_custody_store_id :: string
  ci_owner :: string
  ci_error_code :: string

datatype Selection = OriginalStatusPending | OriginalStatusWinner | OriginalStatusTerminalUnknown
  | OriginalStatusOther string

record OriginalStatusResult =
  sr_selection :: Selection
  sr_claim :: "ReplyClaim option"
  sr_event_seq :: int
  sr_native_item_id :: string
  sr_terminal_event_seq :: int

record OriginalStatusImport =
  si_operation :: Operation
  si_selection :: Selection
  si_reply_id :: string
  si_digest :: string
  si_body_size :: int
  si_status :: string
  si_error_code :: string
  si_commit_seq :: int
  si_event_seq :: int
  si_native_item_id :: string
  si_native_endpoint_id :: string
  si_native_control_route :: string

record CommitResult =
  cr_claim :: ReplyClaim
  cr_won :: bool

text \<open>The authoritative winner a remote custody result names (\<open>RecordObservedReplyAndWinner\<close>).\<close>

record WinnerInput =
  wi_reply_id :: string
  wi_digest :: string
  wi_status :: string
  wi_error_code :: string
  wi_native_id :: string
  wi_commit_seq :: int
  wi_body_size :: int

definition zero_claim :: ReplyClaim where
  "zero_claim = \<lparr>rc_reply_id = '''', rc_original_id = '''', rc_digest = '''', rc_body_size = 0,
     rc_status = '''', rc_reply_error_code = '''', rc_reply_route = '''', rc_custody_route = '''',
     rc_custody_store_id = '''', rc_owner = '''', rc_token = '''', rc_lease_until = 0,
     rc_state = StateOther '''', rc_created_at = 0, rc_updated_at = 0, rc_accepted_at = 0,
     rc_commit_seq = 0, rc_joined = False, rc_won = False\<rparr>"

definition scanClaim :: "claim_row \<Rightarrow> ReplyClaim" where
  "scanClaim c = \<lparr>rc_reply_id = c_reply_id c, rc_original_id = c_original_id c,
     rc_digest = c_digest c, rc_body_size = c_body_size c, rc_status = c_status c,
     rc_reply_error_code = c_reply_error_code c, rc_reply_route = c_reply_route c,
     rc_custody_route = c_custody_route c, rc_custody_store_id = c_custody_store_id c,
     rc_owner = c_owner c, rc_token = c_token c, rc_lease_until = c_lease_until c,
     rc_state = c_state c, rc_created_at = c_created_at c, rc_updated_at = c_updated_at c,
     rc_accepted_at = coalesce (c_accepted_at c) 0, rc_commit_seq = coalesce (c_commit_seq c) 0,
     rc_joined = False, rc_won = False\<rparr>"

abbreviation claim_of :: "db \<Rightarrow> string \<Rightarrow> claim_row option" where
  "claim_of d rid \<equiv> row_by c_reply_id rid (reply_claims d)"

abbreviation winner_of :: "db \<Rightarrow> string \<Rightarrow> winner_row option" where
  "winner_of d orig \<equiv> row_by w_original_id orig (reply_winners d)"

abbreviation observation_of :: "db \<Rightarrow> string \<Rightarrow> observation_row option" where
  "observation_of d rid \<equiv> row_by b_reply_id rid (observations d)"

abbreviation original_of :: "db \<Rightarrow> string \<Rightarrow> op_row option" where
  "original_of d msg \<equiv> row_by o_message_id msg (operations d)"

section \<open>Statements\<close>

definition set_claim :: "string \<Rightarrow> (claim_row \<Rightarrow> claim_row) \<Rightarrow> db \<Rightarrow> db" where
  "set_claim rid f d = d\<lparr>reply_claims := update_where (\<lambda>c. c_reply_id c = rid) f (reply_claims d)\<rparr>"

definition insert_claim :: "claim_row \<Rightarrow> db \<Rightarrow> jerror + db" where
  "insert_claim c d =
     (if claim_of d (c_reply_id c) \<noteq> None \<or> c_body_size c < 0 \<or>
         (c_status c \<noteq> ''success'' \<and> c_status c \<noteq> ''error'')
      then Inl Constraint
      else Inr (d\<lparr>reply_claims := reply_claims d @ [c]\<rparr>))"

text \<open>A claim row as every \<open>INSERT INTO reply_claims\<close> of the file fills it.\<close>

definition new_claim ::
  "ClaimInput \<Rightarrow> string \<Rightarrow> string \<Rightarrow> int \<Rightarrow> EvidenceState \<Rightarrow> int \<Rightarrow> int option \<Rightarrow> int option \<Rightarrow> claim_row" where
  "new_claim inp owner token lease state now accepted seq = \<lparr>c_reply_id = ci_reply_id inp,
     c_original_id = ci_original_id inp, c_digest = ci_digest inp, c_body_size = ci_body_size inp,
     c_status = ci_status inp, c_reply_route = ci_reply_route inp,
     c_custody_route = ci_custody_route inp, c_custody_store_id = ci_custody_store_id inp,
     c_owner = owner, c_token = token, c_lease_until = lease, c_state = state,
     c_created_at = now, c_updated_at = now, c_accepted_at = accepted, c_commit_seq = seq,
     c_error_code = '''', c_reply_error_code = ci_error_code inp\<rparr>"

text \<open>The identity fence: every field of the claim but owner, token and state.\<close>

definition claim_matches :: "claim_row \<Rightarrow> ClaimInput \<Rightarrow> bool" where
  "claim_matches c inp =
     (c_original_id c = ci_original_id inp \<and> c_digest c = ci_digest inp \<and>
      c_body_size c = ci_body_size inp \<and> c_status c = ci_status inp \<and>
      c_reply_error_code c = ci_error_code inp \<and> c_reply_route c = ci_reply_route inp \<and>
      c_custody_route c = ci_custody_route inp \<and> c_custody_store_id c = ci_custody_store_id inp)"

text \<open>The relationship fence: the original's routes and store, as \<open>Prepare\<close> pinned them.\<close>

definition custody_relationship ::
  "string \<Rightarrow> string \<Rightarrow> string \<Rightarrow> string \<Rightarrow> db \<Rightarrow> jerror + unit" where
  "custody_relationship orig route custody store d =
     (case original_of d orig of
        None \<Rightarrow> Inl NotFound
      | Some p \<Rightarrow>
          check (o_reply_route p = route \<and> o_custody_route p = custody \<and>
                 o_custody_store_id p = store) IdentityConflict)"

definition expireClaimTx :: "string \<Rightarrow> int \<Rightarrow> db \<Rightarrow> jerror + db" where
  "expireClaimTx rid now d =
     (let P = (\<lambda>c. c_reply_id c = rid \<and> c_state c = StateReplyClaimed \<and> c_lease_until c \<le> now)
      in if count_where P (reply_claims d) = 0 then Inl ClaimExpired
         else Inr (emit ''reply.expired'' '''' rid StateReplyOutcomeUnknown now
           (d\<lparr>reply_claims := update_where P (\<lambda>c. c\<lparr>c_state := StateReplyOutcomeUnknown,
                c_updated_at := now, c_error_code := ''reply_outcome_unknown''\<rparr>) (reply_claims d)\<rparr>)))"

text \<open>\<open>COALESCE(MAX(commit_seq),0)+1\<close>.\<close>

definition next_commit_seq :: "db \<Rightarrow> int" where
  "next_commit_seq d = max_or_0 (List.map_filter c_commit_seq (reply_claims d)) + 1"

definition assignReplyCommitTx :: "string \<Rightarrow> string \<Rightarrow> int \<Rightarrow> (int \<times> bool) tx" where
  "assignReplyCommitTx orig rid now d =
     (case claim_of d rid of
        None \<Rightarrow> Inl (DbErr ''sql: no rows in result set'')
      | Some c \<Rightarrow>
          let seq0 = coalesce (c_commit_seq c) 0;
              seq = (if seq0 = 0 then next_commit_seq d else seq0);
              d1 = (if seq0 = 0
                    then set_claim rid (\<lambda>c. c\<lparr>c_accepted_at := Some now, c_commit_seq := Some seq\<rparr>) d
                    else d);
              d2 = d1\<lparr>reply_winners := ignore_row w_original_id
                     \<lparr>w_original_id = orig, w_reply_id = rid, w_committed_at = now, w_commit_seq = seq\<rparr>
                     (reply_winners d1)\<rparr>;
              won = (\<exists>w\<in>set (reply_winners d2). w_original_id w = orig \<and> w_reply_id w = rid)
          in Inr ((seq, won), d2))"

text \<open>
  The three \<open>ON CONFLICT(reply_id) DO UPDATE\<close> clauses on observations: keep a recorded
  provenance, prefer the incoming one, or touch the time only.
\<close>

definition keep_provenance :: "observation_row \<Rightarrow> observation_row \<Rightarrow> observation_row" where
  "keep_provenance new old = old\<lparr>b_observed_at := b_observed_at new,
     b_endpoint_id := (if b_endpoint_id old = '''' then b_endpoint_id new else b_endpoint_id old),
     b_control_route := (if b_control_route old = '''' then b_control_route new else b_control_route old)\<rparr>"

definition take_provenance :: "observation_row \<Rightarrow> observation_row \<Rightarrow> observation_row" where
  "take_provenance new old = old\<lparr>b_observed_at := b_observed_at new,
     b_endpoint_id := (if b_endpoint_id new = '''' then b_endpoint_id old else b_endpoint_id new),
     b_control_route := (if b_control_route new = '''' then b_control_route old else b_control_route new)\<rparr>"

definition touch_only :: "observation_row \<Rightarrow> observation_row \<Rightarrow> observation_row" where
  "touch_only new old = old\<lparr>b_observed_at := b_observed_at new\<rparr>"

definition put_observation ::
  "(observation_row \<Rightarrow> observation_row \<Rightarrow> observation_row) \<Rightarrow> observation_row \<Rightarrow> db \<Rightarrow> jerror + db" where
  "put_observation conflict b d =
     (if claim_of d (b_reply_id b) = None then Inl Constraint
      else Inr (d\<lparr>observations := upsert_row b_reply_id b (conflict b) (observations d)\<rparr>))"

definition validateObservationIdentityTx ::
  "string \<Rightarrow> string \<Rightarrow> string \<Rightarrow> string \<Rightarrow> string \<Rightarrow> db \<Rightarrow> jerror + unit" where
  "validateObservationIdentityTx rid native digest endpoint route d =
     (case observation_of d rid of
        None \<Rightarrow> Inr ()
      | Some b \<Rightarrow>
          check (\<not> (b_native_item_id b \<noteq> native \<or> b_digest b \<noteq> digest \<or>
                    (b_endpoint_id b \<noteq> '''' \<and> endpoint \<noteq> '''' \<and> b_endpoint_id b \<noteq> endpoint) \<or>
                    (b_control_route b \<noteq> '''' \<and> route \<noteq> '''' \<and> b_control_route b \<noteq> route)))
            IdentityConflict)"

definition reply_kind :: "EvidenceState \<Rightarrow> string" where
  "reply_kind state = (if state = StateReplyObserved then ''reply.observed'' else ''reply.accepted'')"

definition observable_state :: "EvidenceState \<Rightarrow> bool" where
  "observable_state st = (st = StateReplyOutcomeUnknown \<or> st = StateReplyAccepted \<or> st = StateReplyObserved)"

section \<open>Reads\<close>

definition Reply :: "string \<Rightarrow> db \<Rightarrow> jerror + ReplyClaim" where
  "Reply rid d =
     (case claim_of d rid of None \<Rightarrow> Inl NotFound
      | Some c \<Rightarrow> Inr ((scanClaim c)\<lparr>rc_token := ''''\<rparr>))"

definition ReplyErrorCode :: "string \<Rightarrow> db \<Rightarrow> jerror + string" where
  "ReplyErrorCode rid d =
     (case claim_of d rid of None \<Rightarrow> Inl NotFound | Some c \<Rightarrow> Inr (c_reply_error_code c))"

definition RepliesFor :: "string \<Rightarrow> db \<Rightarrow> ReplyClaim list" where
  "RepliesFor orig d =
     map (\<lambda>c. (scanClaim c)\<lparr>rc_token := ''''\<rparr>)
       (sort_key (\<lambda>c. (c_created_at c, c_reply_id c))
         (filter (\<lambda>c. c_original_id c = orig) (reply_claims d)))"

definition Observation :: "string \<Rightarrow> db \<Rightarrow> jerror + string \<times> string \<times> string \<times> string" where
  "Observation rid d =
     (case observation_of d rid of None \<Rightarrow> Inl NotFound
      | Some b \<Rightarrow> Inr (b_native_item_id b, b_digest b, b_endpoint_id b, b_control_route b))"

definition native_of :: "db \<Rightarrow> string \<Rightarrow> string" where
  "native_of d rid = coalesce (map_option b_native_item_id (observation_of d rid)) ''''"

definition Winner :: "string \<Rightarrow> db \<Rightarrow> jerror + string \<times> string \<times> int" where
  "Winner orig d =
     (case winner_of d orig of None \<Rightarrow> Inl NotFound
      | Some w \<Rightarrow> Inr (w_reply_id w, native_of d (w_reply_id w), w_commit_seq w))"

definition WinnerDetails :: "string \<Rightarrow> db \<Rightarrow> jerror + ReplyClaim \<times> string \<times> int" where
  "WinnerDetails orig d =
     bindE (Winner orig d) (\<lambda>(rid, native, seq).
     bindE (Reply rid d) (\<lambda>claim. Inr (claim, native, seq)))"

section \<open>Claim, heartbeat, commit, expiry, abandonment\<close>

definition claim_input_valid :: "ClaimInput \<Rightarrow> bool" where
  "claim_input_valid inp =
     (ci_reply_id inp \<noteq> '''' \<and> ci_original_id inp \<noteq> '''' \<and> ci_digest inp \<noteq> '''' \<and>
      ci_body_size inp \<ge> 0 \<and> (ci_status inp = ''success'' \<or> ci_status inp = ''error'') \<and>
      ci_reply_route inp \<noteq> '''' \<and> ci_custody_route inp \<noteq> '''' \<and>
      ci_custody_store_id inp \<noteq> '''' \<and> ci_owner inp \<noteq> '''')"

text \<open>
  The closure of \<open>ClaimReply\<close> assigns its result \<open>out\<close> also on the paths that return an error,
  so it yields the pair of \<open>out\<close> and the transaction's outcome; the flag is \<open>expired\<close>.
\<close>

definition ClaimReply_tx ::
  "int \<Rightarrow> int \<Rightarrow> 8 word list option \<Rightarrow> ClaimInput \<Rightarrow> db \<Rightarrow> ReplyClaim \<times> (jerror + bool \<times> db)" where
  "ClaimReply_tx now dur entropy inp d =
     (case claim_of d (ci_reply_id inp) of
        Some c \<Rightarrow>
          let existing = scanClaim c in
          if \<not> claim_matches c inp then (zero_claim, Inl IdentityConflict)
          else if c_state c = StateReplyAccepted \<or> c_state c = StateReplyObserved
          then (existing\<lparr>rc_joined := True, rc_token := ''''\<rparr>, Inr (False, d))
          else if c_state c \<noteq> StateReplyClaimed then (existing, Inl ClaimExpired)
          else if c_lease_until c \<le> now then
            (case expireClaimTx (c_reply_id c) now d of
               Inl e \<Rightarrow> (zero_claim, Inl e)
             | Inr d \<Rightarrow> (existing\<lparr>rc_state := StateReplyOutcomeUnknown, rc_updated_at := now,
                          rc_token := ''''\<rparr>, Inr (True, d)))
          else (existing\<lparr>rc_joined := True, rc_token := ''''\<rparr>, Inr (False, d))
      | None \<Rightarrow>
          (case bindE (custody_relationship (ci_original_id inp) (ci_reply_route inp)
                         (ci_custody_route inp) (ci_custody_store_id inp) d) (\<lambda>_.
                bindE (randomToken entropy) (\<lambda>token.
                let c = new_claim inp (ci_owner inp) token (now + dur) StateReplyClaimed now None None
                in bindE (insert_claim c d) (\<lambda>d.
                   Inr (c, emit ''reply.claimed'' '''' (ci_reply_id inp) StateReplyClaimed now d))))
           of Inl e \<Rightarrow> (zero_claim, Inl e)
            | Inr (c, d) \<Rightarrow> (scanClaim c, Inr (False, d))))"

definition ClaimReply ::
  "int \<Rightarrow> int \<Rightarrow> 8 word list option \<Rightarrow> ClaimInput \<Rightarrow> db \<Rightarrow> (ReplyClaim \<times> jerror option) \<times> db" where
  "ClaimReply now dur entropy inp d =
     (if \<not> claim_input_valid inp
      then ((zero_claim, Some (Invalid ''journal: invalid reply claim'')), d)
      else case ClaimReply_tx now dur entropy inp d of
             (out, Inl e) \<Rightarrow> ((out, Some e), d)
           | (out, Inr (expired, d)) \<Rightarrow> ((out, if expired then Some ClaimExpired else None), d))"

definition Heartbeat_tx :: "int \<Rightarrow> int \<Rightarrow> string \<Rightarrow> string \<Rightarrow> string \<Rightarrow> unit tx" where
  "Heartbeat_tx now dur rid owner token d =
     (let P = (\<lambda>c. c_reply_id c = rid \<and> c_owner c = owner \<and> c_token c = token \<and>
                   c_state c = StateReplyClaimed \<and> c_lease_until c > now)
      in if count_where P (reply_claims d) = 0 then Inl ClaimNotOwned
         else Inr ((), d\<lparr>reply_claims := update_where P
                (\<lambda>c. c\<lparr>c_lease_until := now + dur, c_updated_at := now\<rparr>) (reply_claims d)\<rparr>))"

definition Heartbeat ::
  "int \<Rightarrow> int \<Rightarrow> string \<Rightarrow> string \<Rightarrow> string \<Rightarrow> db \<Rightarrow> (jerror + ReplyClaim) \<times> db" where
  "Heartbeat now dur rid owner token d =
     (case withTx (Heartbeat_tx now dur rid owner token) d of
        (Inl e, d) \<Rightarrow> (Inl e, d)
      | (Inr _, d) \<Rightarrow> (Reply rid d, d))"

definition CommitReply_tx :: "int \<Rightarrow> string \<Rightarrow> string \<Rightarrow> string \<Rightarrow> CommitResult option tx" where
  "CommitReply_tx now rid owner token d =
     (case claim_of d rid of
        None \<Rightarrow> Inl NotFound
      | Some c \<Rightarrow>
          if c_owner c \<noteq> owner \<or> c_token c \<noteq> token then Inl ClaimNotOwned
          else if c_state c \<noteq> StateReplyClaimed then Inl ClaimExpired
          else if c_lease_until c \<le> now
          then bindE (expireClaimTx rid now d) (\<lambda>d. Inr (None, d))
          else
            let d1 = d\<lparr>reply_claims := update_where
                  (\<lambda>c. c_reply_id c = rid \<and> c_owner c = owner \<and> c_token c = token \<and>
                       c_state c = StateReplyClaimed \<and> c_lease_until c > now)
                  (\<lambda>c. c\<lparr>c_state := StateReplyAccepted, c_updated_at := now\<rparr>) (reply_claims d)\<rparr>
            in bindE (assignReplyCommitTx (c_original_id c) rid now d1) (\<lambda>((seq, won), d2).
               Inr (Some \<lparr>cr_claim = (scanClaim c)\<lparr>rc_state := StateReplyAccepted,
                             rc_accepted_at := now, rc_updated_at := now, rc_commit_seq := seq\<rparr>,
                          cr_won = won\<rparr>,
                    emit ''reply.accepted'' '''' rid StateReplyAccepted now d2)))"

definition CommitReply ::
  "int \<Rightarrow> string \<Rightarrow> string \<Rightarrow> string \<Rightarrow> db \<Rightarrow> (jerror + CommitResult) \<times> db" where
  "CommitReply now rid owner token d =
     (case withTx (CommitReply_tx now rid owner token) d of
        (Inl e, d) \<Rightarrow> (Inl e, d)
      | (Inr None, d) \<Rightarrow> (Inl ClaimExpired, d)
      | (Inr (Some r), d) \<Rightarrow> (Inr r, d))"

text \<open>The loop of \<open>expireClaimsAt\<close>: a claim that is no longer due is skipped, not an error.\<close>

fun expire_loop :: "int \<Rightarrow> string list \<Rightarrow> int \<Rightarrow> db \<Rightarrow> jerror + int \<times> db" where
  "expire_loop now [] n d = Inr (n, d)"
| "expire_loop now (rid # rids) n d =
     (case expireClaimTx rid now d of
        Inr d' \<Rightarrow> expire_loop now rids (n + 1) d'
      | Inl e \<Rightarrow> if e \<noteq> ClaimExpired then Inl e else expire_loop now rids n d)"

definition due_claims :: "int \<Rightarrow> db \<Rightarrow> string list" where
  "due_claims now d = map c_reply_id
     (filter (\<lambda>c. c_state c = StateReplyClaimed \<and> c_lease_until c \<le> now) (reply_claims d))"

definition expireClaimsAt :: "int \<Rightarrow> db \<Rightarrow> (jerror + int) \<times> db" where
  "expireClaimsAt now d = withTx (\<lambda>d. expire_loop now (due_claims now d) 0 d) d"

definition ExpireClaims :: "int \<Rightarrow> db \<Rightarrow> (jerror + unit) \<times> db" where
  "ExpireClaims now d =
     (case expireClaimsAt now d of (Inl e, d) \<Rightarrow> (Inl e, d) | (Inr _, d) \<Rightarrow> (Inr (), d))"

definition AbandonReply_tx :: "int \<Rightarrow> string \<Rightarrow> string \<Rightarrow> string \<Rightarrow> unit tx" where
  "AbandonReply_tx now rid owner token d =
     (let P = (\<lambda>c. c_reply_id c = rid \<and> c_owner c = owner \<and> c_token c = token \<and>
                   c_state c = StateReplyClaimed)
      in if count_where P (reply_claims d) = 0 then Inl ClaimNotOwned
         else Inr ((), emit ''reply.abandoned'' '''' rid StateReplyOutcomeUnknown now
           (d\<lparr>reply_claims := update_where P (\<lambda>c. c\<lparr>c_state := StateReplyOutcomeUnknown,
                c_updated_at := now, c_error_code := ''reply_outcome_unknown''\<rparr>) (reply_claims d)\<rparr>)))"

definition AbandonReply :: "int \<Rightarrow> string \<Rightarrow> string \<Rightarrow> string \<Rightarrow> db \<Rightarrow> (jerror + unit) \<times> db" where
  "AbandonReply now rid owner token d = withTx (AbandonReply_tx now rid owner token) d"

end
