(* ===== verification/Journal_Evidence.thy ===== *)
theory Journal_Evidence
  imports Journal_Replies
begin

text \<open>
  The other half of \<open>go/internal/journal/replies.go\<close>: the authoritative status of an original,
  portable imports of it, native observations, reconciliation, and the polling \<open>Wait\<close>.
\<close>

section \<open>Digests and selected claims\<close>

text \<open>
  \<open>strings.ToLower(v) == v\<close> on a value that must also decode as hexadecimal only excludes the
  upper-case letters.
\<close>

definition journal_validDigest :: "string \<Rightarrow> bool" where
  "journal_validDigest v =
     (length v = length ''sha256:'' + 64 \<and> take (length ''sha256:'') v = ''sha256:'' \<and>
      (\<forall>c\<in>set v. \<not> is_upper c) \<and> hex_decode (drop (length ''sha256:'') v) \<noteq> None)"

definition validateOriginalSelectedClaim :: "ReplyClaim \<Rightarrow> int \<Rightarrow> string \<Rightarrow> bool \<Rightarrow> jerror + unit" where
  "validateOriginalSelectedClaim claim seq native winner =
     (if ValidateID (rc_reply_id claim) MessageIDPrefix \<noteq> Inr () \<or>
         \<not> journal_validDigest (rc_digest claim) \<or> rc_body_size claim < 0 \<or>
         (rc_status claim \<noteq> ''success'' \<and> rc_status claim \<noteq> ''error'') \<or>
         (rc_status claim = ''success'' \<and> rc_reply_error_code claim \<noteq> '''') \<or> seq \<le> 0
      then Inl Corrupt
      else if winner then
        (if (rc_state claim \<noteq> StateReplyAccepted \<and> rc_state claim \<noteq> StateReplyObserved) \<or>
            rc_commit_seq claim \<noteq> seq
         then Inl Corrupt
         else if rc_state claim = StateReplyObserved \<and> native = '''' then Inl Corrupt
         else Inr ())
      else check (rc_state claim = StateReplyOutcomeUnknown) Corrupt)"

section \<open>The status of an original\<close>

text \<open>\<open>COALESCE((SELECT MIN(e.seq) FROM events e WHERE e.reply_id=? AND e.state=?),0)\<close>.\<close>

definition first_event_seq :: "db \<Rightarrow> string \<Rightarrow> EvidenceState \<Rightarrow> int" where
  "first_event_seq d rid state =
     (case map e_seq (filter (\<lambda>e. e_reply_id e = rid \<and> e_state e = state) (events d)) of
        [] \<Rightarrow> 0
      | s # ss \<Rightarrow> fold min ss s)"

fun expire_all :: "int \<Rightarrow> string list \<Rightarrow> db \<Rightarrow> jerror + db" where
  "expire_all now [] d = Inr d"
| "expire_all now (rid # rids) d = bindE (expireClaimTx rid now d) (expire_all now rids)"

definition due_for :: "int \<Rightarrow> string \<Rightarrow> db \<Rightarrow> string list" where
  "due_for now orig d = map c_reply_id
     (filter (\<lambda>c. c_original_id c = orig \<and> c_state c = StateReplyClaimed \<and> c_lease_until c \<le> now)
       (reply_claims d))"

definition select_winner :: "string \<Rightarrow> db \<Rightarrow> (claim_row \<times> int \<times> string) option" where
  "select_winner orig d =
     (case winner_of d orig of None \<Rightarrow> None
      | Some w \<Rightarrow>
          (case claim_of d (w_reply_id w) of None \<Rightarrow> None
           | Some c \<Rightarrow> Some (c, w_commit_seq w, native_of d (w_reply_id w))))"

definition unknown_claims :: "string \<Rightarrow> db \<Rightarrow> (int \<times> string) list" where
  "unknown_claims orig d =
     sort (map (\<lambda>c. (first_event_seq d (c_reply_id c) StateReplyOutcomeUnknown, c_reply_id c))
       (filter (\<lambda>c. c_original_id c = orig \<and> c_state c = StateReplyOutcomeUnknown) (reply_claims d)))"

definition select_status :: "string \<Rightarrow> db \<Rightarrow> jerror + OriginalStatusResult" where
  "select_status orig d =
     (case select_winner orig d of
        Some (c, seq, native) \<Rightarrow>
          bindE (validateOriginalSelectedClaim (scanClaim c) seq native True) (\<lambda>_.
          Inr \<lparr>sr_selection = OriginalStatusWinner, sr_claim = Some ((scanClaim c)\<lparr>rc_token := ''''\<rparr>),
               sr_event_seq = seq, sr_native_item_id = native, sr_terminal_event_seq = 0\<rparr>)
      | None \<Rightarrow>
          (if \<exists>u\<in>set (unknown_claims orig d). fst u = 0 then Inl Corrupt
           else case unknown_claims orig d of
             (seq, rid) # _ \<Rightarrow>
               (case claim_of d rid of
                  None \<Rightarrow> Inl (DbErr ''sql: no rows in result set'')
                | Some c \<Rightarrow>
                    bindE (validateOriginalSelectedClaim (scanClaim c) seq '''' False) (\<lambda>_.
                    Inr \<lparr>sr_selection = OriginalStatusTerminalUnknown,
                         sr_claim = Some ((scanClaim c)\<lparr>rc_token := ''''\<rparr>), sr_event_seq = 0,
                         sr_native_item_id = '''', sr_terminal_event_seq = seq\<rparr>))
           | [] \<Rightarrow> Inr \<lparr>sr_selection = OriginalStatusPending, sr_claim = None, sr_event_seq = 0,
                       sr_native_item_id = '''', sr_terminal_event_seq = 0\<rparr>))"

definition OriginalStatus_tx :: "int \<Rightarrow> string \<Rightarrow> OriginalStatusResult tx" where
  "OriginalStatus_tx now orig d =
     (case original_of d orig of
        None \<Rightarrow> Inl NotFound
      | Some _ \<Rightarrow>
          bindE (expire_all now (due_for now orig d) d) (\<lambda>d.
          bindE (select_status orig d) (\<lambda>out. Inr (out, d))))"

definition OriginalStatus :: "int \<Rightarrow> string \<Rightarrow> db \<Rightarrow> (jerror + OriginalStatusResult) \<times> db" where
  "OriginalStatus now orig d =
     (if orig = '''' then (Inl NotFound, d) else withTx (OriginalStatus_tx now orig) d)"

section \<open>Imports\<close>

definition ensureImportedEventTx :: "string \<Rightarrow> EvidenceState \<Rightarrow> int \<Rightarrow> db \<Rightarrow> db" where
  "ensureImportedEventTx rid state now d =
     (if count_where (\<lambda>e. e_reply_id e = rid \<and> e_kind e = ''reply.abandoned'' \<and> e_state e = state)
          (events d) \<noteq> 0
      then d else emit ''reply.abandoned'' '''' rid state now d)"

text \<open>The claim an import describes: its reply fields with the operation's routes.\<close>

definition import_claim :: "OriginalStatusImport \<Rightarrow> ClaimInput" where
  "import_claim inp = \<lparr>ci_reply_id = si_reply_id inp, ci_original_id = o_message_id (si_operation inp),
     ci_digest = si_digest inp, ci_body_size = si_body_size inp, ci_status = si_status inp,
     ci_reply_route = o_reply_route (si_operation inp),
     ci_custody_route = o_custody_route (si_operation inp),
     ci_custody_store_id = o_custody_store_id (si_operation inp),
     ci_owner = '''', ci_error_code = si_error_code inp\<rparr>"

definition importTerminalUnknownTx :: "ClaimInput \<Rightarrow> int \<Rightarrow> unit tx" where
  "importTerminalUnknownTx ci now d =
     bindE (custody_relationship (ci_original_id ci) (ci_reply_route ci) (ci_custody_route ci)
              (ci_custody_store_id ci) d) (\<lambda>_.
     case claim_of d (ci_reply_id ci) of
       Some c \<Rightarrow>
         if \<not> claim_matches c ci \<or> c_state c \<noteq> StateReplyOutcomeUnknown then Inl IdentityConflict
         else Inr ((), ensureImportedEventTx (c_reply_id c) StateReplyOutcomeUnknown now d)
     | None \<Rightarrow>
         bindE (insert_claim (new_claim ci '''' '''' 0 StateReplyOutcomeUnknown now None None) d) (\<lambda>d.
         Inr ((), ensureImportedEventTx (ci_reply_id ci) StateReplyOutcomeUnknown now d)))"

text \<open>
  \<open>importObservedWinnerTx\<close> in its three stages: the claim row (inserted, or strengthened with
  its token erased), the winner row (inserted, or required to agree), the native evidence.
\<close>

definition import_winner_claim :: "ClaimInput \<Rightarrow> int \<Rightarrow> string \<Rightarrow> int \<Rightarrow> db \<Rightarrow> jerror + db" where
  "import_winner_claim ci commit_seq native now d =
     (let rid = ci_reply_id ci;
          winnerState = (if native \<noteq> '''' then StateReplyObserved else StateReplyAccepted) in
      case claim_of d rid of
        None \<Rightarrow>
          bindE (insert_claim (new_claim ci '''' '''' 0 winnerState now (Some now) (Some commit_seq)) d)
            (\<lambda>d. Inr (emit (reply_kind winnerState) '''' rid winnerState now d))
      | Some c \<Rightarrow>
          if \<not> claim_matches c ci \<or>
             (coalesce (c_commit_seq c) 0 \<noteq> 0 \<and> coalesce (c_commit_seq c) 0 \<noteq> commit_seq)
          then Inl IdentityConflict
          else if \<not> observable_state (c_state c) then Inl IdentityConflict
          else
            let state = (if winnerState = StateReplyObserved \<or> c_state c = StateReplyOutcomeUnknown
                         then winnerState else c_state c);
                d1 = set_claim rid (\<lambda>r. r\<lparr>c_state := state, c_token := '''', c_lease_until := 0,
                       c_accepted_at := Some (coalesce (c_accepted_at r) now),
                       c_commit_seq := Some commit_seq, c_updated_at := now\<rparr>) d
            in Inr (if state \<noteq> c_state c then emit (reply_kind state) '''' rid state now d1 else d1))"

definition import_winner_row ::
  "winner_row option \<Rightarrow> string \<Rightarrow> string \<Rightarrow> int \<Rightarrow> int \<Rightarrow> db \<Rightarrow> jerror + db" where
  "import_winner_row current orig rid commit_seq now d =
     (case current of
        None \<Rightarrow> tx_rows (insert_row w_original_id \<lparr>w_original_id = orig, w_reply_id = rid,
                   w_committed_at = now, w_commit_seq = commit_seq\<rparr> (reply_winners d))
                   (\<lambda>ws. d\<lparr>reply_winners := ws\<rparr>)
      | Some w \<Rightarrow> if w_commit_seq w \<noteq> commit_seq then Inl IdentityConflict else Inr d)"

text \<open>Check the recorded observation against the new one, then upsert it.\<close>

definition record_native ::
  "(observation_row \<Rightarrow> observation_row \<Rightarrow> observation_row) \<Rightarrow> string \<Rightarrow> string \<Rightarrow> string \<Rightarrow>
   string \<Rightarrow> string \<Rightarrow> int \<Rightarrow> db \<Rightarrow> jerror + db" where
  "record_native conflict rid native digest endpoint route now d =
     bindE (validateObservationIdentityTx rid native digest endpoint route d) (\<lambda>_.
     put_observation conflict \<lparr>b_reply_id = rid, b_native_item_id = native, b_observed_at = now,
       b_digest = digest, b_endpoint_id = endpoint, b_control_route = route\<rparr> d)"

definition importObservedWinnerTx ::
  "ClaimInput \<Rightarrow> int \<Rightarrow> string \<Rightarrow> string \<Rightarrow> string \<Rightarrow> int \<Rightarrow> unit tx" where
  "importObservedWinnerTx ci commit_seq native endpoint route now d =
     bindE (custody_relationship (ci_original_id ci) (ci_reply_route ci) (ci_custody_route ci)
              (ci_custody_store_id ci) d) (\<lambda>_.
     let orig = ci_original_id ci; rid = ci_reply_id ci; current = winner_of d orig in
     if (case current of None \<Rightarrow> False | Some w \<Rightarrow> w_reply_id w \<noteq> rid) then Inl IdentityConflict
     else
       bindE (import_winner_claim ci commit_seq native now d) (\<lambda>d.
       bindE (import_winner_row current orig rid commit_seq now d) (\<lambda>d.
       if native = '''' then Inr ((), d)
       else bindE (record_native take_provenance rid native (ci_digest ci) endpoint route now d)
              (\<lambda>d. Inr ((), d)))))"

definition validateOriginalStatusImport :: "OriginalStatusImport \<Rightarrow> jerror + unit" where
  "validateOriginalStatusImport inp =
     (if si_selection inp \<noteq> OriginalStatusPending \<and> si_selection inp \<noteq> OriginalStatusWinner \<and>
         si_selection inp \<noteq> OriginalStatusTerminalUnknown
      then Inl (Invalid ''journal: invalid original status selection'')
      else if operation_incomplete (si_operation inp)
      then Inl (Invalid ''journal: invalid imported operation metadata'')
      else if custody_incomplete (si_operation inp)
      then Inl (Invalid ''journal: incomplete imported reply custody relationship'')
      else if si_selection inp = OriginalStatusPending then
        check (\<not> (si_reply_id inp \<noteq> '''' \<or> si_digest inp \<noteq> '''' \<or> si_body_size inp \<noteq> 0 \<or>
                  si_status inp \<noteq> '''' \<or> si_error_code inp \<noteq> '''' \<or> si_commit_seq inp \<noteq> 0 \<or>
                  si_event_seq inp \<noteq> 0 \<or> si_native_item_id inp \<noteq> ''''))
          (Invalid ''journal: pending original status contains reply evidence'')
      else if si_reply_id inp = '''' \<or> ValidateID (si_reply_id inp) MessageIDPrefix \<noteq> Inr () \<or>
              si_digest inp = '''' \<or> si_body_size inp < 0 \<or>
              (si_status inp \<noteq> ''success'' \<and> si_status inp \<noteq> ''error'') \<or>
              (si_status inp = ''success'' \<and> si_error_code inp \<noteq> '''')
      then Inl (Invalid ''journal: invalid imported reply metadata'')
      else if \<not> journal_validDigest (si_digest inp)
      then Inl (Invalid ''journal: invalid imported reply digest'')
      else if (si_selection inp = OriginalStatusWinner \<and> si_commit_seq inp < 1) \<or>
              (si_selection inp = OriginalStatusTerminalUnknown \<and> si_event_seq inp < 1)
      then Inl (Invalid ''journal: invalid imported reply ordering'')
      else if si_selection inp = OriginalStatusWinner
      then check (si_event_seq inp = 0) (Invalid ''journal: winner contains terminal event ordering'')
      else check (si_native_item_id inp = '''' \<and> si_commit_seq inp = 0)
             (Invalid ''journal: terminal unknown contains positive evidence''))"

definition ImportOriginalStatus_tx :: "int \<Rightarrow> OriginalStatusImport \<Rightarrow> unit tx" where
  "ImportOriginalStatus_tx now inp d =
     bindE (importOperationTxAt (si_operation inp) StatePrepared ''portable_import'' now False False d)
       (\<lambda>(_, d).
     case si_selection inp of
       OriginalStatusPending \<Rightarrow> Inr ((), d)
     | OriginalStatusWinner \<Rightarrow>
         importObservedWinnerTx (import_claim inp) (si_commit_seq inp) (si_native_item_id inp)
           (si_native_endpoint_id inp) (si_native_control_route inp) now d
     | OriginalStatusTerminalUnknown \<Rightarrow> importTerminalUnknownTx (import_claim inp) now d
     | OriginalStatusOther _ \<Rightarrow> Inl (Invalid ''journal: invalid original status selection''))"

definition ImportOriginalStatus :: "int \<Rightarrow> OriginalStatusImport \<Rightarrow> db \<Rightarrow> (jerror + unit) \<times> db" where
  "ImportOriginalStatus now inp d =
     (case validateOriginalStatusImport inp of
        Inl e \<Rightarrow> (Inl e, d)
      | Inr _ \<Rightarrow> withTx (ImportOriginalStatus_tx now inp) d)"

text \<open>The argument check of the projections: a claim input without owner.\<close>

definition projection_valid :: "ClaimInput \<Rightarrow> bool" where
  "projection_valid ci =
     (ci_reply_id ci \<noteq> '''' \<and> ci_original_id ci \<noteq> '''' \<and> ci_digest ci \<noteq> '''' \<and>
      ci_body_size ci \<ge> 0 \<and> (ci_status ci = ''success'' \<or> ci_status ci = ''error'') \<and>
      ci_reply_route ci \<noteq> '''' \<and> ci_custody_route ci \<noteq> '''' \<and> ci_custody_store_id ci \<noteq> '''')"

definition ImportTerminalUnknown :: "int \<Rightarrow> ClaimInput \<Rightarrow> db \<Rightarrow> (jerror + unit) \<times> db" where
  "ImportTerminalUnknown now ci d =
     (if \<not> projection_valid ci
      then (Inl (Invalid ''journal: invalid imported terminal unknown''), d)
      else withTx (importTerminalUnknownTx ci now) d)"

definition RecordObservedWinner ::
  "int \<Rightarrow> ClaimInput \<Rightarrow> string \<Rightarrow> string \<Rightarrow> string \<Rightarrow> int \<Rightarrow> db \<Rightarrow> (jerror + unit) \<times> db" where
  "RecordObservedWinner now ci native endpoint route commit_seq d =
     (if \<not> projection_valid ci \<or> commit_seq < 1
      then (Inl (Invalid ''journal: invalid observed winner projection''), d)
      else withTx (importObservedWinnerTx ci commit_seq native endpoint route now) d)"

section \<open>Observations and reconciliation\<close>

definition RecordObservedReply_tx ::
  "int \<Rightarrow> ClaimInput \<Rightarrow> string \<Rightarrow> string \<Rightarrow> string \<Rightarrow> unit tx" where
  "RecordObservedReply_tx now ci native endpoint route d =
     (let rid = ci_reply_id ci in
     bindE (case claim_of d rid of
         Some c \<Rightarrow>
           if \<not> claim_matches c ci then Inl IdentityConflict
           else if \<not> observable_state (c_state c) then Inl InvalidTransition
           else if c_state c \<noteq> StateReplyObserved
           then Inr (emit ''reply.observed'' '''' rid StateReplyObserved now
                  (set_claim rid (\<lambda>r. r\<lparr>c_state := StateReplyObserved, c_updated_at := now\<rparr>) d))
           else Inr d
       | None \<Rightarrow>
           bindE (custody_relationship (ci_original_id ci) (ci_reply_route ci) (ci_custody_route ci)
                    (ci_custody_store_id ci) d) (\<lambda>_.
           bindE (insert_claim (new_claim ci '''' '''' 0 StateReplyObserved now None None) d) (\<lambda>d.
           Inr (emit ''reply.observed'' '''' rid StateReplyObserved now d))))
       (\<lambda>d.
     bindE (record_native keep_provenance rid native (ci_digest ci) endpoint route now d) (\<lambda>d.
     case claim_of d rid of
       None \<Rightarrow> Inl (DbErr ''sql: no rows in result set'')
     | Some c \<Rightarrow> bindE (assignReplyCommitTx (c_original_id c) rid now d) (\<lambda>(_, d). Inr ((), d)))))"

definition RecordObservedReply ::
  "int \<Rightarrow> ClaimInput \<Rightarrow> string \<Rightarrow> string \<Rightarrow> string \<Rightarrow> db \<Rightarrow> (jerror + unit) \<times> db" where
  "RecordObservedReply now ci native endpoint route d =
     (if \<not> projection_valid ci \<or> native = ''''
      then (Inl (Invalid ''journal: invalid observed reply projection''), d)
      else withTx (RecordObservedReply_tx now ci native endpoint route) d)"

definition ObserveReply_tx ::
  "int \<Rightarrow> string \<Rightarrow> string \<Rightarrow> string \<Rightarrow> string \<Rightarrow> string \<Rightarrow> unit tx" where
  "ObserveReply_tx now rid native digest endpoint route d =
     (case claim_of d rid of
        None \<Rightarrow> Inl NotFound
      | Some c \<Rightarrow>
          if c_digest c \<noteq> digest then Inl IdentityConflict
          else if \<not> observable_state (c_state c) then Inl InvalidTransition
          else
            bindE (record_native keep_provenance rid native digest endpoint route now d) (\<lambda>d.
            bindE (assignReplyCommitTx (c_original_id c) rid now d) (\<lambda>(_, d).
            Inr ((), if c_state c \<noteq> StateReplyObserved
                     then emit ''reply.observed'' '''' rid StateReplyObserved now
                       (set_claim rid (\<lambda>r. r\<lparr>c_state := StateReplyObserved, c_updated_at := now\<rparr>) d)
                     else d))))"

definition ObserveReplyWithProvenance ::
  "int \<Rightarrow> string \<Rightarrow> string \<Rightarrow> string \<Rightarrow> string \<Rightarrow> string \<Rightarrow> db \<Rightarrow> (jerror + unit) \<times> db" where
  "ObserveReplyWithProvenance now rid native digest endpoint route d =
     (if native = '''' \<or> digest = '''' then (Inl (Invalid ''journal: invalid observation''), d)
      else withTx (ObserveReply_tx now rid native digest endpoint route) d)"

definition ObserveReply :: "int \<Rightarrow> string \<Rightarrow> string \<Rightarrow> string \<Rightarrow> db \<Rightarrow> (jerror + unit) \<times> db" where
  "ObserveReply now rid native digest d = ObserveReplyWithProvenance now rid native digest '''' '''' d"

definition reconcileReplyObservationTx :: "string \<Rightarrow> string \<Rightarrow> string \<Rightarrow> int \<Rightarrow> unit tx" where
  "reconcileReplyObservationTx rid native digest now d =
     (case claim_of d rid of
        None \<Rightarrow> Inl NotFound
      | Some c \<Rightarrow>
          if c_digest c \<noteq> digest then Inl IdentityConflict
          else if \<not> observable_state (c_state c) then Inl InvalidTransition
          else
            bindE (record_native touch_only rid native digest '''' '''' now d) (\<lambda>d.
            if c_state c = StateReplyObserved then Inr ((), d)
            else
              let d1 = set_claim rid (\<lambda>r. r\<lparr>c_state := StateReplyObserved, c_updated_at := now\<rparr>) d
              in bindE (assignReplyCommitTx (c_original_id c) rid now d1) (\<lambda>(_, d).
                 Inr ((), emit ''reply.reconciled'' '''' rid StateReplyObserved now d))))"

definition ReconcileReplyObservation ::
  "int \<Rightarrow> string \<Rightarrow> string \<Rightarrow> string \<Rightarrow> db \<Rightarrow> (jerror + unit) \<times> db" where
  "ReconcileReplyObservation now rid native digest d =
     (if native = '''' \<or> digest = '''' then (Inl (Invalid ''journal: invalid reconciliation''), d)
      else withTx (reconcileReplyObservationTx rid native digest now) d)"

definition ReconcileReplyAccepted_tx :: "int \<Rightarrow> string \<Rightarrow> string \<Rightarrow> unit tx" where
  "ReconcileReplyAccepted_tx now rid evidence_ref d =
     (case claim_of d rid of
        None \<Rightarrow> Inl NotFound
      | Some c \<Rightarrow>
          if c_state c \<noteq> StateReplyOutcomeUnknown then Inl InvalidTransition
          else
            let d1 = set_claim rid (\<lambda>r. r\<lparr>c_state := StateReplyAccepted, c_updated_at := now\<rparr>) d;
                d2 = d1\<lparr>reply_acceptances := replace_row p_id
                       \<lparr>p_id = rid, p_evidence_ref = evidence_ref, p_recorded_at = now\<rparr>
                       (reply_acceptances d1)\<rparr>
            in bindE (assignReplyCommitTx (c_original_id c) rid now d2) (\<lambda>(_, d).
               Inr ((), emit ''reply.reconciled'' '''' rid StateReplyAccepted now d)))"

definition ReconcileReplyAccepted :: "int \<Rightarrow> string \<Rightarrow> string \<Rightarrow> db \<Rightarrow> (jerror + unit) \<times> db" where
  "ReconcileReplyAccepted now rid evidence_ref d =
     (if evidence_ref = ''''
      then (Inl (Invalid ''journal: acceptance evidence reference required''), d)
      else withTx (ReconcileReplyAccepted_tx now rid evidence_ref) d)"

section \<open>A candidate together with the authoritative winner\<close>

definition winner_claim :: "ClaimInput \<Rightarrow> WinnerInput \<Rightarrow> ClaimInput" where
  "winner_claim cand w = cand\<lparr>ci_reply_id := wi_reply_id w, ci_digest := wi_digest w,
     ci_body_size := wi_body_size w, ci_status := wi_status w, ci_error_code := wi_error_code w\<rparr>"

definition winner_contradicts :: "ClaimInput \<Rightarrow> string \<Rightarrow> WinnerInput \<Rightarrow> bool" where
  "winner_contradicts cand native w =
     (ci_reply_id cand = wi_reply_id w \<and>
      (ci_digest cand \<noteq> wi_digest w \<or> ci_body_size cand \<noteq> wi_body_size w \<or>
       ci_status cand \<noteq> wi_status w \<or> ci_error_code cand \<noteq> wi_error_code w \<or>
       wi_native_id w \<noteq> native))"

text \<open>
  The first half of \<open>RecordObservedReplyAndWinner\<close>: install or strengthen the winner. Unlike
  \<open>importObservedWinnerTx\<close> it accepts a claim in any state and lets the incoming commit number
  replace the recorded one.
\<close>

definition install_winner_claim :: "int \<Rightarrow> ClaimInput \<Rightarrow> WinnerInput \<Rightarrow> db \<Rightarrow> jerror + db" where
  "install_winner_claim now cand w d =
     (let wid = wi_reply_id w;
          winnerState = (if wi_native_id w \<noteq> '''' then StateReplyObserved else StateReplyAccepted) in
      case claim_of d wid of
        None \<Rightarrow>
          bindE (insert_claim (new_claim (winner_claim cand w) '''' '''' 0 winnerState now (Some now)
                   (Some (wi_commit_seq w))) d)
            (\<lambda>d. Inr (emit (reply_kind winnerState) '''' wid winnerState now d))
      | Some c \<Rightarrow>
          if \<not> claim_matches c (winner_claim cand w) then Inl IdentityConflict
          else
            let state = (if wi_native_id w \<noteq> '''' then StateReplyObserved
                         else if c_state c \<noteq> StateReplyObserved then StateReplyAccepted
                         else c_state c);
                d1 = set_claim wid (\<lambda>r. r\<lparr>c_state := state, c_token := '''', c_lease_until := 0,
                       c_accepted_at := Some now, c_commit_seq := Some (wi_commit_seq w),
                       c_updated_at := now\<rparr>) d
            in Inr (if state \<noteq> c_state c then emit (reply_kind state) '''' wid state now d1 else d1))"

definition install_winner_row ::
  "winner_row option \<Rightarrow> string \<Rightarrow> string \<Rightarrow> int \<Rightarrow> int \<Rightarrow> db \<Rightarrow> jerror + db" where
  "install_winner_row current orig wid commit_seq now d =
     (case current of
        None \<Rightarrow> tx_rows (insert_row w_original_id \<lparr>w_original_id = orig, w_reply_id = wid,
                   w_committed_at = now, w_commit_seq = commit_seq\<rparr> (reply_winners d))
                   (\<lambda>ws. d\<lparr>reply_winners := ws\<rparr>)
      | Some _ \<Rightarrow> Inr (d\<lparr>reply_winners := update_where
            (\<lambda>x. w_original_id x = orig \<and> w_reply_id x = wid)
            (\<lambda>x. x\<lparr>w_committed_at := now, w_commit_seq := commit_seq\<rparr>) (reply_winners d)\<rparr>))"

definition install_winner ::
  "int \<Rightarrow> ClaimInput \<Rightarrow> string \<Rightarrow> string \<Rightarrow> WinnerInput \<Rightarrow> db \<Rightarrow> jerror + db" where
  "install_winner now cand endpoint route w d =
     (let orig = ci_original_id cand; wid = wi_reply_id w; current = winner_of d orig in
      bindE (install_winner_claim now cand w d) (\<lambda>d.
      bindE (install_winner_row current orig wid (wi_commit_seq w) now d) (\<lambda>d.
      if wi_native_id w = '''' then Inr d
      else record_native touch_only wid (wi_native_id w) (wi_digest w) endpoint route now d)))"

text \<open>The second half: record the candidate itself, whose row was read before the first half.\<close>

definition install_candidate_claim ::
  "int \<Rightarrow> ClaimInput \<Rightarrow> string \<Rightarrow> claim_row option \<Rightarrow> db \<Rightarrow> jerror + db" where
  "install_candidate_claim now cand winner_id existing d =
     (let rid = ci_reply_id cand in
      case existing of
        None \<Rightarrow>
          if winner_id \<noteq> rid then
            bindE (insert_claim (new_claim cand '''' '''' 0 StateReplyObserved now None None) d)
              (\<lambda>d. Inr (emit ''reply.observed'' '''' rid StateReplyObserved now d))
          else Inr d
      | Some c \<Rightarrow>
          if \<not> observable_state (c_state c) then Inl InvalidTransition
          else
            let d1 = set_claim rid (\<lambda>r. r\<lparr>c_state := StateReplyObserved, c_token := '''',
                       c_lease_until := 0, c_accepted_at := Some now, c_updated_at := now\<rparr>) d
            in Inr (if c_state c \<noteq> StateReplyObserved \<and> rid \<noteq> winner_id
                    then emit ''reply.observed'' '''' rid StateReplyObserved now d1 else d1))"

definition install_candidate ::
  "int \<Rightarrow> ClaimInput \<Rightarrow> string \<Rightarrow> string \<Rightarrow> string \<Rightarrow> string \<Rightarrow> claim_row option \<Rightarrow> unit tx" where
  "install_candidate now cand native endpoint route winner_id existing d =
     bindE (install_candidate_claim now cand winner_id existing d) (\<lambda>d.
     bindE (assignReplyCommitTx (ci_original_id cand) (ci_reply_id cand) now d) (\<lambda>(_, d).
     bindE (record_native touch_only (ci_reply_id cand) native (ci_digest cand) endpoint route now d)
       (\<lambda>d. Inr ((), d))))"

definition RecordObservedReplyAndWinner_tx ::
  "int \<Rightarrow> ClaimInput \<Rightarrow> string \<Rightarrow> string \<Rightarrow> string \<Rightarrow> WinnerInput \<Rightarrow> unit tx" where
  "RecordObservedReplyAndWinner_tx now cand native endpoint route w d =
     (if winner_contradicts cand native w then Inl IdentityConflict
      else
        bindE (custody_relationship (ci_original_id cand) (ci_reply_route cand)
                 (ci_custody_route cand) (ci_custody_store_id cand) d) (\<lambda>_.
        if (case winner_of d (ci_original_id cand) of None \<Rightarrow> False
            | Some x \<Rightarrow> w_reply_id x \<noteq> wi_reply_id w)
        then Inl IdentityConflict
        else if (case claim_of d (ci_reply_id cand) of None \<Rightarrow> False
                 | Some c \<Rightarrow> \<not> claim_matches c cand)
        then Inl IdentityConflict
        else
          bindE (install_winner now cand endpoint route w d)
            (install_candidate now cand native endpoint route (wi_reply_id w)
               (claim_of d (ci_reply_id cand)))))"

definition RecordObservedReplyAndWinner ::
  "int \<Rightarrow> ClaimInput \<Rightarrow> string \<Rightarrow> string \<Rightarrow> string \<Rightarrow> WinnerInput \<Rightarrow> db \<Rightarrow> (jerror + unit) \<times> db" where
  "RecordObservedReplyAndWinner now cand native endpoint route w d =
     (if \<not> projection_valid cand \<or> native = '''' \<or> wi_reply_id w = '''' \<or> wi_digest w = '''' \<or>
         (wi_status w \<noteq> ''success'' \<and> wi_status w \<noteq> ''error'') \<or> wi_commit_seq w < 1 \<or>
         wi_body_size w < 0
      then (Inl (Invalid ''journal: invalid observed projection''), d)
      else withTx (RecordObservedReplyAndWinner_tx now cand native endpoint route w) d)"

section \<open>Waiting\<close>

text \<open>
  One poll of \<open>Wait\<close>: expire, then the best row of the query's ordering (the winner, then
  positive replies, then unknown ones; commit order, then reply id).
\<close>

definition wait_rank :: "db \<Rightarrow> claim_row \<Rightarrow> int \<times> int \<times> string" where
  "wait_rank d c =
     (let w = (case winner_of d (c_original_id c) of None \<Rightarrow> None
               | Some w \<Rightarrow> if w_reply_id w = c_reply_id c then Some w else None)
      in (if w \<noteq> None then 0
          else if c_state c = StateReplyAccepted \<or> c_state c = StateReplyObserved then 1 else 2,
          coalesce (map_option w_commit_seq w) (coalesce (c_commit_seq c) 9223372036854775807),
          c_reply_id c))"

definition wait_select :: "string \<Rightarrow> db \<Rightarrow> ReplyClaim option" where
  "wait_select orig d =
     (case sort_key (wait_rank d)
        (filter (\<lambda>c. c_original_id c = orig \<and> observable_state (c_state c)) (reply_claims d)) of
        [] \<Rightarrow> None
      | c # _ \<Rightarrow> Some ((scanClaim c)\<lparr>rc_token := ''''\<rparr>))"

text \<open>
  The loop over the rounds the environment allows: each round has the clock, what other
  processes did to the journal since the last one, and whether the context ends while the
  timer runs. \<open>None\<close> is a loop still waiting when the rounds are used up.
\<close>

fun Wait_rounds :: "(int \<times> (db \<Rightarrow> db) \<times> bool) list \<Rightarrow> string \<Rightarrow> db \<Rightarrow> ((jerror + ReplyClaim) \<times> db) option" where
  "Wait_rounds [] orig d = None"
| "Wait_rounds ((now, others, cancelled) # rounds) orig d =
     (case ExpireClaims now (others d) of
        (Inl e, d) \<Rightarrow> Some (Inl e, d)
      | (Inr _, d) \<Rightarrow>
          (case wait_select orig d of
             Some c \<Rightarrow> Some (Inr c, d)
           | None \<Rightarrow> if cancelled then Some (Inl (DbErr ''context canceled''), d)
                     else Wait_rounds rounds orig d))"

end
