(* ===== verification/Journal_Invariants.thy ===== *)
theory Journal_Invariants
  imports Journal_Evidence
begin

text \<open>
  The journal's invariant and its history relation. \<open>journal_inv\<close> says how the tables agree:
  keys are unique, event numbers increase, a claim is positive exactly when it has a commit
  number, every positive claim's original has a winner, every winner is a positive claim of its
  original with the winner's commit number, an observed claim has a native item, an unknown one
  an event. \<open>evolves\<close> says what no operation but retention ever undoes: identities, evidence
  order, winners, the event log. A transaction on one reply \<open>rid\<close> of the original \<open>orig\<close> is
  shown to \<open>touch\<close> nothing else, which carries both to the whole database.
\<close>

section \<open>The orders of evidence\<close>

text \<open>The contract of an evidence state machine: a step raises a rank, so evidence never returns.\<close>

locale evidence_order =
  fixes step :: "EvidenceState \<Rightarrow> EvidenceState \<Rightarrow> bool"
    and rank :: "EvidenceState \<Rightarrow> nat"
  assumes rank_step: "step s t \<Longrightarrow> rank s < rank t"
begin

lemma step_irrefl: "\<not> step s s"
  using rank_step by blast

lemma plus_rank: "step\<^sup>+\<^sup>+ s t \<Longrightarrow> rank s < rank t"
  by (induction rule: tranclp_induct) (auto dest: rank_step intro: less_trans)

lemma star_rank: "step\<^sup>*\<^sup>* s t \<Longrightarrow> rank s \<le> rank t"
  by (induction rule: rtranclp_induct) (auto dest: rank_step)

lemma no_return: "step\<^sup>+\<^sup>+ s t \<Longrightarrow> \<not> step\<^sup>*\<^sup>* t s"
  using plus_rank star_rank by fastforce

lemma star_antisym: "step\<^sup>*\<^sup>* s t \<Longrightarrow> step\<^sup>*\<^sup>* t s \<Longrightarrow> s = t"
  using no_return by (metis rtranclpD)

end

inductive op_step :: "EvidenceState \<Rightarrow> EvidenceState \<Rightarrow> bool" where
  op_fence: "op_step StatePrepared StateDispatchStarted"
| op_not_sent: "op_step StatePrepared StateNotSent"
| op_accepted: "op_step StateDispatchStarted StateAccepted"
| op_rejected: "op_step StateDispatchStarted StateRejected"
| op_unknown: "op_step StateDispatchStarted StateOutcomeUnknown"
| op_strengthen: "op_step StateOutcomeUnknown StateAccepted"
| op_manual: "op_step StateOutcomeUnknown StateManuallyResolved"

inductive claim_step :: "EvidenceState \<Rightarrow> EvidenceState \<Rightarrow> bool" where
  claim_commit: "claim_step StateReplyClaimed StateReplyAccepted"
| claim_observe: "claim_step StateReplyClaimed StateReplyObserved"
| claim_expire: "claim_step StateReplyClaimed StateReplyOutcomeUnknown"
| unknown_accept: "claim_step StateReplyOutcomeUnknown StateReplyAccepted"
| unknown_observe: "claim_step StateReplyOutcomeUnknown StateReplyObserved"
| accepted_observe: "claim_step StateReplyAccepted StateReplyObserved"

fun op_rank :: "EvidenceState \<Rightarrow> nat" where
  "op_rank StatePrepared = 0"
| "op_rank StateDispatchStarted = 1"
| "op_rank StateOutcomeUnknown = 2"
| "op_rank _ = 3"

fun claim_rank :: "EvidenceState \<Rightarrow> nat" where
  "claim_rank StateReplyClaimed = 0"
| "claim_rank StateReplyOutcomeUnknown = 1"
| "claim_rank StateReplyAccepted = 2"
| "claim_rank _ = 3"

inductive_cases op_stepE: "op_step s t"
inductive_cases claim_stepE: "claim_step s t"

interpretation op_order: evidence_order op_step op_rank
  by unfold_locales (auto elim: op_stepE)

interpretation claim_order: evidence_order claim_step claim_rank
  by unfold_locales (auto elim: claim_stepE)

abbreviation op_le :: "EvidenceState \<Rightarrow> EvidenceState \<Rightarrow> bool" where
  "op_le \<equiv> op_step\<^sup>*\<^sup>*"

abbreviation claim_le :: "EvidenceState \<Rightarrow> EvidenceState \<Rightarrow> bool" where
  "claim_le \<equiv> claim_step\<^sup>*\<^sup>*"

lemma op_le_steps [simp]:
  "op_le StatePrepared StateDispatchStarted" "op_le StatePrepared StateNotSent"
  "op_le StateDispatchStarted StateAccepted" "op_le StateDispatchStarted StateRejected"
  "op_le StateDispatchStarted StateOutcomeUnknown" "op_le StateOutcomeUnknown StateAccepted"
  "op_le StateOutcomeUnknown StateManuallyResolved"
  by (rule r_into_rtranclp, rule op_step.intros)+

lemma claim_le_steps [simp]:
  "claim_le StateReplyClaimed StateReplyAccepted" "claim_le StateReplyClaimed StateReplyObserved"
  "claim_le StateReplyClaimed StateReplyOutcomeUnknown"
  "claim_le StateReplyOutcomeUnknown StateReplyAccepted"
  "claim_le StateReplyOutcomeUnknown StateReplyObserved"
  "claim_le StateReplyAccepted StateReplyObserved"
  by (rule r_into_rtranclp, rule claim_step.intros)+

lemma claim_observed_final: "claim_le StateReplyObserved s \<Longrightarrow> s = StateReplyObserved"
  by (erule converse_rtranclpE) (auto elim: claim_stepE)

lemma claim_le_to_observed: "observable_state s \<Longrightarrow> claim_le s StateReplyObserved"
  by (auto simp: observable_state_def)

section \<open>What the tables agree on\<close>

definition positive :: "claim_row \<Rightarrow> bool" where
  "positive c = (c_state c = StateReplyAccepted \<or> c_state c = StateReplyObserved)"

definition ops_ok :: "db \<Rightarrow> bool" where
  "ops_ok d =
     (distinct (map o_operation_id (operations d)) \<and> distinct (map o_message_id (operations d)) \<and>
      distinct (map a_operation_id (attempts d)) \<and>
      (\<forall>r\<in>set (operations d). o_operation_id r \<noteq> '''' \<and> o_message_id r \<noteq> '''') \<and>
      a_operation_id ` set (attempts d) \<subseteq> o_operation_id ` set (operations d) \<and>
      m_operation_id ` set (manual_resolutions d) \<subseteq> o_operation_id ` set (operations d) \<and>
      p_id ` set (operation_acceptances d) \<subseteq> o_operation_id ` set (operations d))"

definition claims_ok :: "db \<Rightarrow> bool" where
  "claims_ok d =
     (distinct (map c_reply_id (reply_claims d)) \<and>
      (\<forall>c\<in>set (reply_claims d). \<forall>s. c_commit_seq c = Some s \<longrightarrow> 1 \<le> s))"

definition links_ok :: "db \<Rightarrow> bool" where
  "links_ok d =
     (distinct (map w_original_id (reply_winners d)) \<and> distinct (map b_reply_id (observations d)) \<and>
      b_reply_id ` set (observations d) \<subseteq> c_reply_id ` set (reply_claims d) \<and>
      p_id ` set (reply_acceptances d) \<subseteq> c_reply_id ` set (reply_claims d))"

definition events_ok :: "db \<Rightarrow> bool" where
  "events_ok d =
     (0 \<le> event_seq d \<and> sorted_wrt (<) (map e_seq (events d)) \<and>
      (\<forall>e\<in>set (events d). 1 \<le> e_seq e \<and> e_seq e \<le> event_seq d \<and>
         (e_kind e = ''reply.abandoned'' \<longrightarrow> e_operation_id e = '''')))"

definition struct_ok :: "db \<Rightarrow> bool" where
  "struct_ok d = (ops_ok d \<and> claims_ok d \<and> links_ok d \<and> events_ok d)"

text \<open>The claim names the routes and the store its original was prepared with.\<close>

definition held :: "db \<Rightarrow> claim_row \<Rightarrow> bool" where
  "held d c = (custody_relationship (c_original_id c) (c_reply_route c) (c_custody_route c)
                 (c_custody_store_id c) d = Inr ())"

definition claim_sound :: "db \<Rightarrow> claim_row \<Rightarrow> bool" where
  "claim_sound d c =
     (held d c \<and>
      (c_state c = StateReplyClaimed \<or> observable_state (c_state c)) \<and>
      (positive c \<longleftrightarrow> c_commit_seq c \<noteq> None) \<and>
      (positive c \<longrightarrow> winner_of d (c_original_id c) \<noteq> None) \<and>
      (c_state c = StateReplyObserved \<longrightarrow> native_of d (c_reply_id c) \<noteq> '''') \<and>
      (c_state c = StateReplyOutcomeUnknown \<longrightarrow>
         (\<exists>e\<in>set (events d). e_operation_id e = '''' \<and> e_reply_id e = c_reply_id c \<and>
            e_state e = StateReplyOutcomeUnknown)))"

definition winner_sound :: "db \<Rightarrow> winner_row \<Rightarrow> bool" where
  "winner_sound d w =
     (\<exists>c. claim_of d (w_reply_id w) = Some c \<and> c_original_id c = w_original_id w \<and>
          positive c \<and> c_commit_seq c = Some (w_commit_seq w))"

definition journal_inv :: "db \<Rightarrow> bool" where
  "journal_inv d =
     (struct_ok d \<and> (\<forall>rid c. claim_of d rid = Some c \<longrightarrow> claim_sound d c) \<and>
      (\<forall>q w. winner_of d q = Some w \<longrightarrow> winner_sound d w))"

lemma held_simps [simp]:
  "held d (c_state_update f c) = held d c" "held d (c_updated_at_update g c) = held d c"
  "held d (c_error_code_update h c) = held d c" "held d (c_lease_until_update g c) = held d c"
  "held d (c_token_update h c) = held d c" "held d (c_accepted_at_update k c) = held d c"
  "held d (c_commit_seq_update k c) = held d c"
  by (simp_all add: held_def)

lemma held_cong: "operations d' = operations d \<Longrightarrow> held d' c = held d c"
  by (simp add: held_def custody_relationship_def)

lemma held_original: "held d c \<Longrightarrow> original_of d (c_original_id c) \<noteq> None"
  by (auto simp: held_def custody_relationship_def split: option.splits)

lemma journal_inv_empty: "journal_inv empty_db"
  by (simp add: journal_inv_def struct_ok_def ops_ok_def claims_ok_def links_ok_def events_ok_def
      empty_db_def)

section \<open>History\<close>

definition claim_evolves :: "claim_row \<Rightarrow> claim_row \<Rightarrow> bool" where
  "claim_evolves c c' =
     (c_reply_id c' = c_reply_id c \<and> c_original_id c' = c_original_id c \<and>
      c_digest c' = c_digest c \<and> c_body_size c' = c_body_size c \<and> c_status c' = c_status c \<and>
      c_reply_error_code c' = c_reply_error_code c \<and> c_reply_route c' = c_reply_route c \<and>
      c_custody_route c' = c_custody_route c \<and> c_custody_store_id c' = c_custody_store_id c \<and>
      c_owner c' = c_owner c \<and> (c_token c' = c_token c \<or> c_token c' = '''') \<and>
      claim_le (c_state c) (c_state c'))"

lemma claim_evolves_refl [simp]: "claim_evolves c c"
  by (simp add: claim_evolves_def)

lemma claim_evolves_trans: "claim_evolves a b \<Longrightarrow> claim_evolves b c \<Longrightarrow> claim_evolves a c"
  by (auto simp: claim_evolves_def intro: rtranclp_trans)

definition op_evolves :: "op_row \<Rightarrow> op_row \<Rightarrow> bool" where
  "op_evolves r r' = (op_ident.truncate r' = op_ident.truncate r \<and> op_le (o_state r) (o_state r'))"

lemma op_evolves_refl [simp]: "op_evolves r r"
  by (simp add: op_evolves_def)

lemma op_evolves_trans: "op_evolves a b \<Longrightarrow> op_evolves b c \<Longrightarrow> op_evolves a c"
  by (auto simp: op_evolves_def intro: rtranclp_trans)

definition evolves :: "db \<Rightarrow> db \<Rightarrow> bool" where
  "evolves d d' =
     ((\<forall>rid c. claim_of d rid = Some c \<longrightarrow> (\<exists>c'. claim_of d' rid = Some c' \<and> claim_evolves c c')) \<and>
      (\<forall>q w. winner_of d q = Some w \<longrightarrow> (\<exists>w'. winner_of d' q = Some w' \<and> w_reply_id w' = w_reply_id w)) \<and>
      (\<forall>oid r. row_by o_operation_id oid (operations d) = Some r \<longrightarrow>
         (\<exists>r'. row_by o_operation_id oid (operations d') = Some r' \<and> op_evolves r r')) \<and>
      (\<exists>es. events d' = events d @ es))"

lemma evolves_refl [simp]: "evolves d d"
  by (auto simp: evolves_def)

lemma evolves_trans:
  assumes "evolves a b" "evolves b c"
  shows "evolves a c"
proof -
  have "\<exists>c'. claim_of c rid = Some c' \<and> claim_evolves x c'" if "claim_of a rid = Some x" for rid x
    using assms that unfolding evolves_def by (meson claim_evolves_trans)
  moreover have "\<exists>w'. winner_of c q = Some w' \<and> w_reply_id w' = w_reply_id w"
    if "winner_of a q = Some w" for q w
    using assms that unfolding evolves_def by metis
  moreover have "\<exists>r'. row_by o_operation_id oid (operations c) = Some r' \<and> op_evolves r r'"
    if "row_by o_operation_id oid (operations a) = Some r" for oid r
    using assms that unfolding evolves_def by (meson op_evolves_trans)
  moreover have "\<exists>es. events c = events a @ es"
    using assms unfolding evolves_def by (metis append.assoc)
  ultimately show ?thesis by (auto simp: evolves_def)
qed

section \<open>A transaction on one reply\<close>

text \<open>
  \<open>touches rid orig d d'\<close>: outside the reply \<open>rid\<close> and the winner of \<open>orig\<close> nothing has changed;
  a winner other than \<open>rid\<close> is the same row, and a new one is \<open>rid\<close>.
\<close>

definition touches :: "string \<Rightarrow> string \<Rightarrow> db \<Rightarrow> db \<Rightarrow> bool" where
  "touches rid orig d d' =
     (operations d' = operations d \<and> attempts d' = attempts d \<and>
      (\<forall>r. r \<noteq> rid \<longrightarrow> claim_of d' r = claim_of d r \<and> observation_of d' r = observation_of d r) \<and>
      (\<forall>q. q \<noteq> orig \<longrightarrow> winner_of d' q = winner_of d q) \<and>
      (case winner_of d orig of
         None \<Rightarrow> (\<forall>w. winner_of d' orig = Some w \<longrightarrow> w_reply_id w = rid)
       | Some w \<Rightarrow> (\<exists>w'. winner_of d' orig = Some w' \<and> w_reply_id w' = w_reply_id w \<and>
                    (w_reply_id w = rid \<or> w' = w))) \<and>
      (\<exists>es. events d' = events d @ es) \<and>
      (struct_ok d \<longrightarrow> struct_ok d'))"

lemma touches_refl [simp]: "touches rid orig d d"
  by (auto simp: touches_def split: option.splits)

lemma touches_trans:
  assumes "touches rid orig a b" "touches rid orig b c"
  shows "touches rid orig a c"
  using assms unfolding touches_def
  by (auto split: option.splits)

text \<open>What is left to show of the touched reply itself.\<close>

definition settled :: "string \<Rightarrow> string \<Rightarrow> db \<Rightarrow> db \<Rightarrow> bool" where
  "settled rid orig d d' =
     (\<exists>c'. claim_of d' rid = Some c' \<and> c_original_id c' = orig \<and> claim_sound d' c' \<and>
       (\<forall>w. winner_of d' orig = Some w \<longrightarrow> w_reply_id w = rid \<longrightarrow>
            positive c' \<and> c_commit_seq c' = Some (w_commit_seq w)) \<and>
       (\<forall>c. claim_of d rid = Some c \<longrightarrow> claim_evolves c c'))"

section \<open>Statements touch one reply\<close>

lemma emit_simps [simp, frame]:
  "operations (emit k p r st now d) = operations d" "attempts (emit k p r st now d) = attempts d"
  "reply_claims (emit k p r st now d) = reply_claims d" "reply_winners (emit k p r st now d) = reply_winners d"
  "observations (emit k p r st now d) = observations d" "event_seq (emit k p r st now d) = event_seq d + 1"
  "events (emit k p r st now d) = events d @ [\<lparr>e_seq = event_seq d + 1, e_kind = k, e_operation_id = p,
          e_reply_id = r, e_state = st, e_at = now\<rparr>]"
  "manual_resolutions (emit k p r st now d) = manual_resolutions d"
  "operation_acceptances (emit k p r st now d) = operation_acceptances d"
  "reply_acceptances (emit k p r st now d) = reply_acceptances d"
  "receipts (emit k p r st now d) = receipts d" "blockers (emit k p r st now d) = blockers d"
  by (simp_all add: emit_def)

lemma set_claim_simps [simp, frame]:
  "operations (set_claim rid f d) = operations d" "attempts (set_claim rid f d) = attempts d"
  "reply_winners (set_claim rid f d) = reply_winners d" "observations (set_claim rid f d) = observations d"
  "events (set_claim rid f d) = events d" "event_seq (set_claim rid f d) = event_seq d"
  "manual_resolutions (set_claim rid f d) = manual_resolutions d"
  "operation_acceptances (set_claim rid f d) = operation_acceptances d"
  "reply_acceptances (set_claim rid f d) = reply_acceptances d"
  "receipts (set_claim rid f d) = receipts d" "blockers (set_claim rid f d) = blockers d"
  by (simp_all add: set_claim_def)

lemma claim_of_set_claim [simp]:
  assumes "\<And>c. c_reply_id (f c) = c_reply_id c"
  shows "claim_of (set_claim rid f d) r = (if r = rid then map_option f (claim_of d r) else claim_of d r)"
  using assms by (auto simp: set_claim_def row_by_update_where dest: row_by_key intro!: option.map_cong split: option.splits)
    (cases "claim_of d r"; auto dest: row_by_key)+

lemma events_ok_emit:
  "p = '''' \<or> k \<noteq> ''reply.abandoned'' \<Longrightarrow> events_ok d \<Longrightarrow> events_ok (emit k p r st now d)"
  by (fastforce simp: events_ok_def sorted_wrt_append)

lemma keys_update_where:
  assumes "\<And>r. key (f r) = key r"
  shows "key ` set (update_where P f rows) = key ` set rows"
  using assms by (simp add: map_key_update_where flip: set_map)

lemma claim_ids_set_claim:
  assumes "\<And>c. c_reply_id (f c) = c_reply_id c"
  shows "c_reply_id ` set (reply_claims (set_claim rid f d)) = c_reply_id ` set (reply_claims d)"
  using assms by (simp add: set_claim_def keys_update_where)

lemma claims_ok_update:
  assumes "claims_ok d" "\<And>c. c_reply_id (f c) = c_reply_id c"
    "\<And>c s. P c \<Longrightarrow> c_commit_seq (f c) = Some s \<Longrightarrow> c_commit_seq (f c) = c_commit_seq c \<or> 1 \<le> s"
  shows "claims_ok (d\<lparr>reply_claims := update_where P f (reply_claims d)\<rparr>)"
  using assms by (auto simp: claims_ok_def map_key_update_where set_update_where split: if_splits) metis+

lemma touches_emit [intro]: "touches rid orig d (emit k '''' r st now d)"
  using events_ok_emit[of "''''" k d r st now]
  by (auto simp: touches_def struct_ok_def ops_ok_def claims_ok_def links_ok_def split: option.splits)

lemma touches_update:
  assumes P: "\<And>c. P c \<Longrightarrow> c_reply_id c = rid" and f: "\<And>c. c_reply_id (f c) = c_reply_id c"
    and s: "\<And>c s. P c \<Longrightarrow> c_commit_seq (f c) = Some s \<Longrightarrow> c_commit_seq (f c) = c_commit_seq c \<or> 1 \<le> s"
  shows "touches rid orig d (d\<lparr>reply_claims := update_where P f (reply_claims d)\<rparr>)"
proof -
  have "claim_of (d\<lparr>reply_claims := update_where P f (reply_claims d)\<rparr>) r = claim_of d r" if "r \<noteq> rid" for r
    using that P by (cases "claim_of d r") (auto simp: row_by_update_where f dest: row_by_key)
  with claims_ok_update[OF _ f s] keys_update_where[of c_reply_id f P "reply_claims d", OF f] show ?thesis
    by (auto simp: touches_def struct_ok_def ops_ok_def links_ok_def events_ok_def simp del: set_map
        split: option.splits)
qed

lemma touches_set_claim:
  assumes "\<And>c. c_reply_id (f c) = c_reply_id c"
    "\<And>c s. c_commit_seq (f c) = Some s \<Longrightarrow> c_commit_seq (f c) = c_commit_seq c \<or> 1 \<le> s"
  shows "touches rid orig d (set_claim rid f d)"
  unfolding set_claim_def using assms by (intro touches_update) auto

lemma touches_insert_claim:
  assumes "insert_claim c d = Inr d'" "c_reply_id c = rid" "\<And>s. c_commit_seq c = Some s \<Longrightarrow> 1 \<le> s"
  shows "touches rid orig d d'" "d' = d\<lparr>reply_claims := reply_claims d @ [c]\<rparr>" "claim_of d rid = None"
    "claim_of d' rid = Some c"
proof -
  show d': "d' = d\<lparr>reply_claims := reply_claims d @ [c]\<rparr>" and none: "claim_of d rid = None"
    using assms by (auto simp: insert_claim_def split: if_splits)
  show "claim_of d' rid = Some c" using d' none assms(2) by (simp add: row_by_append)
  have "claims_ok d \<Longrightarrow> claims_ok d'"
    using none assms(2,3) by (auto simp: d' claims_ok_def row_by_None)
  then show "touches rid orig d d'"
    using none assms(2)
    by (auto simp: d' touches_def struct_ok_def ops_ok_def links_ok_def events_ok_def row_by_append split: option.splits)
qed

lemma observation_ids:
  assumes "\<And>x. b_reply_id (f x) = b_reply_id x"
  shows "b_reply_id ` set (upsert_row b_reply_id b f rows) = insert (b_reply_id b) (b_reply_id ` set rows)"
  using assms by (auto simp: upsert_row_def row_by_None keys_update_where)

lemma touches_put_observation:
  assumes "put_observation conflict b d = Inr d'" "b_reply_id b = rid"
    "\<And>x. b_reply_id (conflict b x) = b_reply_id x"
  shows "touches rid orig d d'"
    "d' = d\<lparr>observations := upsert_row b_reply_id b (conflict b) (observations d)\<rparr>"
    "observation_of d' rid = Some (case observation_of d rid of None \<Rightarrow> b | Some x \<Rightarrow> conflict b x)"
proof -
  show d': "d' = d\<lparr>observations := upsert_row b_reply_id b (conflict b) (observations d)\<rparr>"
    using assms(1) by (auto simp: put_observation_def split: if_splits)
  show "observation_of d' rid = Some (case observation_of d rid of None \<Rightarrow> b | Some x \<Rightarrow> conflict b x)"
    using assms(2,3) by (simp add: d' row_by_upsert_row)
  have "links_ok d \<Longrightarrow> links_ok d'"
    using assms by (auto simp: d' links_ok_def distinct_upsert_row observation_ids put_observation_def row_by_None
        split: if_splits)
  then show "touches rid orig d d'"
    using assms(2,3)
    by (auto simp: d' touches_def struct_ok_def ops_ok_def claims_ok_def events_ok_def row_by_upsert_row split: option.splits)
qed

definition assigned_claim :: "int \<Rightarrow> db \<Rightarrow> claim_row \<Rightarrow> claim_row" where
  "assigned_claim now d c =
     (if coalesce (c_commit_seq c) 0 = 0
      then c\<lparr>c_accepted_at := Some now, c_commit_seq := Some (next_commit_seq d)\<rparr> else c)"

lemma next_commit_seq_pos: "claims_ok d \<Longrightarrow> 1 \<le> next_commit_seq d"
proof -
  assume "claims_ok d"
  then have "\<forall>x\<in>set (List.map_filter c_commit_seq (reply_claims d)). 0 \<le> x"
    by (force simp: claims_ok_def List.map_filter_def)
  then show ?thesis using max_or_0_nonneg by (simp add: next_commit_seq_def)
qed

lemma set_claim_commit_touches:
  assumes "s = next_commit_seq d"
  shows "touches rid orig d (set_claim rid (\<lambda>c. c\<lparr>c_accepted_at := Some now, c_commit_seq := Some s\<rparr>) d)"
proof -
  let ?f = "\<lambda>c. c\<lparr>c_accepted_at := Some now, c_commit_seq := Some s\<rparr> :: claim_row"
  have "claims_ok d \<Longrightarrow> claims_ok (set_claim rid ?f d)"
    unfolding set_claim_def using assms next_commit_seq_pos[of d] by (intro claims_ok_update) auto
  moreover have "c_reply_id ` set (reply_claims (set_claim rid ?f d)) = c_reply_id ` set (reply_claims d)"
    by (rule claim_ids_set_claim) simp
  ultimately show ?thesis
    by (auto simp: touches_def struct_ok_def ops_ok_def links_ok_def events_ok_def split: option.splits)
qed

lemma touches_ignore_winner:
  assumes "w_original_id w = orig" "w_reply_id w = rid"
  shows "touches rid orig d (d\<lparr>reply_winners := ignore_row w_original_id w (reply_winners d)\<rparr>)"
proof -
  let ?d = "d\<lparr>reply_winners := ignore_row w_original_id w (reply_winners d)\<rparr>"
  have "links_ok d \<Longrightarrow> links_ok ?d"
    by (auto simp: links_ok_def distinct_ignore_row)
  then show ?thesis
    using assms
    by (auto simp: touches_def struct_ok_def ops_ok_def claims_ok_def events_ok_def row_by_ignore_row
        split: option.splits)
qed

lemma assign_spec:
  assumes a: "assignReplyCommitTx orig rid now d = Inr ((seq, won), d')" and c: "claim_of d rid = Some c"
  shows "touches rid orig d d'"
    "claim_of d' rid = Some (assigned_claim now d c)"
    "c_commit_seq (assigned_claim now d c) = Some seq"
    "winner_of d' orig = Some (coalesce (winner_of d orig) \<lparr>w_original_id = orig, w_reply_id = rid,
        w_committed_at = now, w_commit_seq = seq\<rparr>)"
    "events d' = events d" "observations d' = observations d" "operations d' = operations d"
proof -
  let ?w = "\<lparr>w_original_id = orig, w_reply_id = rid, w_committed_at = now, w_commit_seq = seq\<rparr>"
  define d1 where "d1 = (if coalesce (c_commit_seq c) 0 = 0
     then set_claim rid (\<lambda>c. c\<lparr>c_accepted_at := Some now, c_commit_seq := Some seq\<rparr>) d else d)"
  have seq: "seq = (if coalesce (c_commit_seq c) 0 = 0 then next_commit_seq d else coalesce (c_commit_seq c) 0)"
    and d': "d' = d1\<lparr>reply_winners := ignore_row w_original_id ?w (reply_winners d1)\<rparr>"
    using a c by (auto simp: assignReplyCommitTx_def d1_def Let_def)
  have t1: "touches rid orig d d1"
    using set_claim_commit_touches seq by (simp add: d1_def)
  have "touches rid orig d1 d'" unfolding d' by (rule touches_ignore_winner) simp_all
  with t1 show "touches rid orig d d'" by (rule touches_trans)
  have same: "reply_winners d1 = reply_winners d" "events d1 = events d" "observations d1 = observations d"
    "operations d1 = operations d"
    by (simp_all add: d1_def)
  then show "events d' = events d" "observations d' = observations d" "operations d' = operations d"
    by (simp_all add: d')
  show "claim_of d' rid = Some (assigned_claim now d c)"
    using c seq by (simp add: d' d1_def assigned_claim_def)
  show "c_commit_seq (assigned_claim now d c) = Some seq"
    using seq by (cases "c_commit_seq c") (auto simp: assigned_claim_def)
  show "winner_of d' orig = Some (coalesce (winner_of d orig) ?w)"
    by (simp add: d' same row_by_ignore_row split: option.splits)
qed

lemma assign_total:
  assumes "claim_of d rid = Some c"
  shows "\<exists>seq won d'. assignReplyCommitTx orig rid now d = Inr ((seq, won), d')"
  using assms by (simp add: assignReplyCommitTx_def Let_def)

text \<open>The frame lemma: a settled touch keeps the invariant and the history relation.\<close>

lemma touches_sound:
  assumes t: "touches rid orig d d'" and s: "settled rid orig d d'" and inv: "journal_inv d"
  shows "journal_inv d'" "evolves d d'"
proof -
  from s obtain c' where c': "claim_of d' rid = Some c'" "c_original_id c' = orig" "claim_sound d' c'"
    and w': "\<And>w. winner_of d' orig = Some w \<Longrightarrow> w_reply_id w = rid \<Longrightarrow>
                positive c' \<and> c_commit_seq c' = Some (w_commit_seq w)"
    and ev: "\<And>c. claim_of d rid = Some c \<Longrightarrow> claim_evolves c c'"
    by (auto simp: settled_def)
  have frame: "operations d' = operations d"
    "\<And>r. r \<noteq> rid \<Longrightarrow> claim_of d' r = claim_of d r" "\<And>r. r \<noteq> rid \<Longrightarrow> observation_of d' r = observation_of d r"
    "\<And>q. q \<noteq> orig \<Longrightarrow> winner_of d' q = winner_of d q" "\<exists>es. events d' = events d @ es"
    using t by (auto simp: touches_def)
  have keep: "\<exists>w'. winner_of d' q = Some w' \<and> w_reply_id w' = w_reply_id w \<and> (w_reply_id w = rid \<or> w' = w)"
    if "winner_of d q = Some w" for q w
    using t that by (cases "q = orig") (auto simp: touches_def)
  have old: "claim_sound d c" if "claim_of d r = Some c" for r c
    using inv that by (auto simp: journal_inv_def)
  have others: "claim_sound d' c" if "claim_of d r = Some c" "r \<noteq> rid" for r c
  proof -
    have k: "c_reply_id c = r" using that(1) by (rule row_by_key)
    have "winner_of d (c_original_id c) \<noteq> None \<Longrightarrow> winner_of d' (c_original_id c) \<noteq> None"
      using keep by fastforce
    then show ?thesis
      using old[OF that(1)] that(2) frame(3)[of r] frame(5) by (auto simp: claim_sound_def held_cong[OF frame(1)] native_of_def k)
  qed
  have claims: "claim_sound d' c" if "claim_of d' r = Some c" for r c
    using that c' others frame(2) by (cases "r = rid") auto
  have winners: "winner_sound d' w" if "winner_of d' q = Some w" for q w
  proof (cases "w_reply_id w = rid")
    case True
    have "q = orig"
    proof (rule ccontr)
      assume "q \<noteq> orig"
      with that have "winner_of d q = Some w" by (simp add: frame)
      then have "winner_sound d w" using inv by (auto simp: journal_inv_def)
      then obtain c where "claim_of d rid = Some c" "c_original_id c = w_original_id w"
        using True by (auto simp: winner_sound_def)
      with ev c' \<open>q \<noteq> orig\<close> that show False by (auto simp: claim_evolves_def dest: row_by_key)
    qed
    with w'[of w] that True c' show ?thesis by (auto simp: winner_sound_def dest: row_by_key)
  next
    case False
    have "winner_of d q = Some w"
    proof (cases "q = orig")
      case True
      show ?thesis
      proof (cases "winner_of d orig")
        case None
        with t that False True show ?thesis by (auto simp: touches_def)
      next
        case (Some w0)
        with keep[of orig w0] that True False show ?thesis by auto
      qed
    qed (use that frame in simp)
    then have "winner_sound d w" using inv by (auto simp: journal_inv_def)
    then show ?thesis using False by (auto simp: winner_sound_def frame)
  qed
  have "struct_ok d'" using t inv by (auto simp: touches_def journal_inv_def)
  with claims winners show "journal_inv d'" by (auto simp: journal_inv_def)
  show "evolves d d'"
    unfolding evolves_def
  proof (intro conjI allI impI)
    fix r c assume "claim_of d r = Some c"
    then show "\<exists>c'. claim_of d' r = Some c' \<and> claim_evolves c c'"
      using frame(2)[of r] c'(1) ev by (cases "r = rid") auto
  next
    fix q w assume "winner_of d q = Some w"
    from keep[OF this] show "\<exists>w'. winner_of d' q = Some w' \<and> w_reply_id w' = w_reply_id w" by blast
  qed (use frame in auto)
qed
section \<open>Settling one reply keeps the invariant\<close>

abbreviation good :: "db \<Rightarrow> db \<Rightarrow> bool" where
  "good d d' \<equiv> journal_inv d' \<and> evolves d d'"

lemma good_trans: "good a b \<Longrightarrow> good b c \<Longrightarrow> good a c"
  using evolves_trans by blast

lemma inv_claim: "journal_inv d \<Longrightarrow> claim_of d rid = Some c \<Longrightarrow> claim_sound d c"
  by (simp add: journal_inv_def)

lemma inv_winner: "journal_inv d \<Longrightarrow> winner_of d q = Some w \<Longrightarrow> winner_sound d w"
  by (simp add: journal_inv_def)

lemma inv_struct: "journal_inv d \<Longrightarrow> ops_ok d \<and> claims_ok d \<and> links_ok d \<and> events_ok d"
  by (simp add: journal_inv_def struct_ok_def)

lemma winner_claim_positive:
  assumes "journal_inv d" "winner_of d q = Some w" "claim_of d (w_reply_id w) = Some c"
  shows "positive c" "c_commit_seq c = Some (w_commit_seq w)" "c_original_id c = q"
  using inv_winner[OF assms(1,2)] assms(3) row_by_key[OF assms(2)] by (auto simp: winner_sound_def)

lemma not_winner:
  assumes "journal_inv d" "winner_of d q = Some w"
    "claim_of d rid = None \<or> (\<exists>c. claim_of d rid = Some c \<and> \<not> positive c)"
  shows "w_reply_id w \<noteq> rid"
  using inv_winner[OF assms(1,2)] assms(3) by (auto simp: winner_sound_def)

lemma fenced_claim:
  assumes inv: "journal_inv d" and P: "\<And>c. P c \<Longrightarrow> c_reply_id c = rid"
    and n: "count_where P (reply_claims d) \<noteq> 0"
  obtains c where "claim_of d rid = Some c" "P c"
proof -
  from n obtain c where c: "c \<in> set (reply_claims d)" "P c"
    by (auto simp: count_where_def filter_empty_conv)
  have "distinct (map c_reply_id (reply_claims d))"
    using inv_struct[OF inv] by (simp add: claims_ok_def)
  from row_by_in_set[OF this c(1)] P[OF c(2)] have "claim_of d rid = Some c" by simp
  then show ?thesis using c(2) that by blast
qed

lemma unsettled_good:
  assumes inv: "journal_inv d" and t: "touches rid orig d d'"
    and w: "reply_winners d' = reply_winners d"
    and c': "claim_of d' rid = Some c'" "c_original_id c' = orig"
    and ops: "held d c'"
    and seq: "c_commit_seq c' = None"
    and st: "c_state c' = StateReplyClaimed \<or> c_state c' = StateReplyOutcomeUnknown \<and>
        (\<exists>e\<in>set (events d'). e_operation_id e = '''' \<and> e_reply_id e = rid \<and>
          e_state e = StateReplyOutcomeUnknown)"
    and ev: "\<And>c. claim_of d rid = Some c \<Longrightarrow> \<not> positive c \<and> claim_evolves c c'"
  shows "good d d'"
proof -
  have key: "c_reply_id c' = rid" using c'(1) by (rule row_by_key)
  have opsd: "operations d' = operations d" using t by (simp add: touches_def)
  have np: "\<not> positive c'" using st by (auto simp: positive_def)
  have "claim_sound d' c'"
    using ops seq st np c'(2) key by (auto simp: claim_sound_def held_cong[OF opsd] observable_state_def)
  moreover have "w_reply_id x \<noteq> rid" if "winner_of d' orig = Some x" for x
    using that not_winner[OF inv, of orig x rid] ev w by (cases "claim_of d rid") auto
  ultimately have "settled rid orig d d'"
    using c' ev by (auto simp: settled_def)
  with t inv show ?thesis using touches_sound by blast
qed

lemma positive_good:
  assumes inv: "journal_inv d" and t: "touches rid orig d d'"
    and c': "claim_of d' rid = Some c'" "c_original_id c' = orig" "positive c'" "c_commit_seq c' = Some seq"
    and ops: "held d c'"
    and w: "winner_of d' orig = Some w'" "w_reply_id w' = rid \<Longrightarrow> w_commit_seq w' = seq"
    and nat: "c_state c' = StateReplyObserved \<Longrightarrow> native_of d' rid \<noteq> ''''"
    and ev: "\<And>c. claim_of d rid = Some c \<Longrightarrow> claim_evolves c c'"
  shows "good d d'"
proof -
  have key: "c_reply_id c' = rid" using c'(1) by (rule row_by_key)
  have opsd: "operations d' = operations d" using t by (simp add: touches_def)
  have "claim_sound d' c'"
    using ops c'(2-4) key w(1) nat by (auto simp: claim_sound_def held_cong[OF opsd] observable_state_def positive_def)
  then have "settled rid orig d d'"
    using c' w ev by (auto simp: settled_def)
  with t inv show ?thesis using touches_sound by blast
qed

text \<open>After an assignment the winner row of this reply, if it is the winner, has its number.\<close>

lemma assign_winner_seq:
  assumes inv: "journal_inv d" and a: "assignReplyCommitTx orig rid now d1 = Inr ((seq, won), d')"
    and c1: "claim_of d1 rid = Some c1" and w1: "reply_winners d1 = reply_winners d"
    and old: "claim_of d rid = None \<or> (\<exists>c. claim_of d rid = Some c \<and> c_commit_seq c1 = c_commit_seq c)"
  obtains w' where "winner_of d' orig = Some w'" "w_reply_id w' = rid \<Longrightarrow> w_commit_seq w' = seq"
proof (cases "winner_of d orig")
  case None
  then show ?thesis using that assign_spec(4)[OF a c1] w1 by simp
next
  case (Some w0)
  have w': "winner_of d' orig = Some w0" using assign_spec(4)[OF a c1] w1 Some by simp
  have "w_commit_seq w0 = seq" if r: "w_reply_id w0 = rid"
  proof -
    from not_winner[OF inv Some, of rid] r obtain c where c: "claim_of d rid = Some c"
      by (cases "claim_of d rid") auto
    have s: "c_commit_seq c = Some (w_commit_seq w0)"
      using winner_claim_positive[OF inv Some] c r by simp
    have "1 \<le> w_commit_seq w0"
      using inv_struct[OF inv] row_by_SomeD[OF c] s by (auto simp: claims_ok_def)
    with s old c assign_spec(3)[OF a c1] show ?thesis by (auto simp: assigned_claim_def)
  qed
  with w' show ?thesis by (rule that)
qed

lemma expire_good:
  assumes inv: "journal_inv d" and e: "expireClaimTx rid now d = Inr d'"
  shows "good d d'"
proof -
  let ?P = "\<lambda>c. c_reply_id c = rid \<and> c_state c = StateReplyClaimed \<and> c_lease_until c \<le> now"
  let ?f = "\<lambda>c. c\<lparr>c_state := StateReplyOutcomeUnknown, c_updated_at := now, c_error_code := ''reply_outcome_unknown''\<rparr>"
  let ?d1 = "d\<lparr>reply_claims := update_where ?P ?f (reply_claims d)\<rparr>"
  from e have n: "count_where ?P (reply_claims d) \<noteq> 0"
    and d': "d' = emit ''reply.expired'' '''' rid StateReplyOutcomeUnknown now ?d1"
    by (auto simp: expireClaimTx_def Let_def split: if_splits)
  from fenced_claim[OF inv _ n, of rid] obtain c where c: "claim_of d rid = Some c" and P: "?P c" by blast
  have "touches rid (c_original_id c) d ?d1" by (rule touches_update) auto
  then have t: "touches rid (c_original_id c) d d'" unfolding d' using touches_emit touches_trans by blast
  have "claim_sound d c" using inv c by (rule inv_claim)
  with P have cs: "held d c" "c_commit_seq c = None" "\<not> positive c"
    by (auto simp: claim_sound_def positive_def)
  show ?thesis
    by (rule unsettled_good[OF inv t, where c' = "?f c"])
      (use c P cs in \<open>auto simp: d' row_by_update_where claim_evolves_def\<close>)
qed
end
