(* ===== verification/Journal_Preservation.thy ===== *)
theory Journal_Preservation
  imports Journal_Invariants
begin

text \<open>
  Every transaction of the journal keeps \<open>journal_inv\<close> and only moves the database along
  \<open>evolves\<close>: one lemma \<open><operation>_good\<close> per transaction body of \<open>replies.go\<close> and
  \<open>operations.go\<close>. Retention is the one exception and is treated in Journal\_Storage.
\<close>

section \<open>Claims\<close>

lemma heartbeat_good:
  assumes inv: "journal_inv d" and h: "Heartbeat_tx now dur rid owner token d = Inr (u, d')"
  shows "good d d'"
proof -
  let ?P = "\<lambda>c. c_reply_id c = rid \<and> c_owner c = owner \<and> c_token c = token \<and> c_state c = StateReplyClaimed \<and> c_lease_until c > now"
  let ?f = "\<lambda>c. c\<lparr>c_lease_until := now + dur, c_updated_at := now\<rparr>"
  from h have n: "count_where ?P (reply_claims d) \<noteq> 0"
    and d': "d' = d\<lparr>reply_claims := update_where ?P ?f (reply_claims d)\<rparr>"
    by (auto simp: Heartbeat_tx_def Let_def split: if_splits)
  from fenced_claim[OF inv _ n, of rid] obtain c where c: "claim_of d rid = Some c" and P: "?P c" by blast
  have t: "touches rid (c_original_id c) d d'" unfolding d' by (rule touches_update) auto
  have cs: "held d c" "c_commit_seq c = None" "\<not> positive c"
    using inv_claim[OF inv c] P by (auto simp: claim_sound_def positive_def)
  show ?thesis
    by (rule unsettled_good[OF inv t, where c' = "?f c"])
      (use c P cs in \<open>auto simp: d' row_by_update_where claim_evolves_def\<close>)
qed

lemma abandon_good:
  assumes inv: "journal_inv d" and h: "AbandonReply_tx now rid owner token d = Inr (u, d')"
  shows "good d d'"
proof -
  let ?P = "\<lambda>c. c_reply_id c = rid \<and> c_owner c = owner \<and> c_token c = token \<and> c_state c = StateReplyClaimed"
  let ?f = "\<lambda>c. c\<lparr>c_state := StateReplyOutcomeUnknown, c_updated_at := now, c_error_code := ''reply_outcome_unknown''\<rparr>"
  let ?d1 = "d\<lparr>reply_claims := update_where ?P ?f (reply_claims d)\<rparr>"
  from h have n: "count_where ?P (reply_claims d) \<noteq> 0"
    and d': "d' = emit ''reply.abandoned'' '''' rid StateReplyOutcomeUnknown now ?d1"
    by (auto simp: AbandonReply_tx_def Let_def split: if_splits)
  from fenced_claim[OF inv _ n, of rid] obtain c where c: "claim_of d rid = Some c" and P: "?P c" by blast
  have "touches rid (c_original_id c) d ?d1" by (rule touches_update) auto
  then have t: "touches rid (c_original_id c) d d'" unfolding d' using touches_emit touches_trans by blast
  have cs: "held d c" "c_commit_seq c = None" "\<not> positive c"
    using inv_claim[OF inv c] P by (auto simp: claim_sound_def positive_def)
  show ?thesis
    by (rule unsettled_good[OF inv t, where c' = "?f c"])
      (use c P cs in \<open>auto simp: d' row_by_update_where claim_evolves_def\<close>)
qed

lemma new_claim_simps [simp]:
  "c_reply_id (new_claim i ow tk le st now ac sq) = ci_reply_id i"
  "c_original_id (new_claim i ow tk le st now ac sq) = ci_original_id i"
  "c_state (new_claim i ow tk le st now ac sq) = st" "c_commit_seq (new_claim i ow tk le st now ac sq) = sq"
  "c_token (new_claim i ow tk le st now ac sq) = tk" "c_owner (new_claim i ow tk le st now ac sq) = ow"
  "c_lease_until (new_claim i ow tk le st now ac sq) = le"
  "c_digest (new_claim i ow tk le st now ac sq) = ci_digest i"
  "held d (new_claim i ow tk le st now ac sq) =
     (custody_relationship (ci_original_id i) (ci_reply_route i) (ci_custody_route i) (ci_custody_store_id i) d = Inr ())"
  by (simp_all add: new_claim_def held_def)

lemma insert_unsettled_good:
  assumes inv: "journal_inv d" and i: "insert_claim c d = Inr d1" and seq: "c_commit_seq c = None"
    and ops: "held d c"
    and st: "c_state c = StateReplyClaimed \<or> (c_state c = StateReplyOutcomeUnknown \<and> st = StateReplyOutcomeUnknown)"
  shows "good d (emit k '''' (c_reply_id c) st now d1)"
proof -
  note ins = touches_insert_claim[OF i refl, unfolded seq]
  have t: "touches (c_reply_id c) (c_original_id c) d (emit k '''' (c_reply_id c) st now d1)"
    using ins(1)[of "c_original_id c"] touches_emit touches_trans by (metis option.distinct(1))
  have n: "claim_of d (c_reply_id c) = None" "claim_of d1 (c_reply_id c) = Some c"
    "reply_winners d1 = reply_winners d"
    using ins by auto
  show ?thesis
    by (rule unsettled_good[OF inv t, where c' = c]) (use n ops seq st in auto)
qed

lemma claim_good:
  assumes inv: "journal_inv d" and h: "ClaimReply_tx now dur entropy inp d = (out, Inr (expired, d'))"
  shows "good d d'"
proof (cases "claim_of d (ci_reply_id inp)")
  case (Some c)
  with h consider "d' = d" | "expireClaimTx (c_reply_id c) now d = Inr d'"
    by (auto simp: ClaimReply_tx_def Let_def split: if_splits sum.splits)
  then show ?thesis using inv expire_good by cases auto
next
  case None
  from h None obtain token d1 where
    p: "custody_relationship (ci_original_id inp) (ci_reply_route inp) (ci_custody_route inp)
          (ci_custody_store_id inp) d = Inr ()" and
    i: "insert_claim (new_claim inp (ci_owner inp) token (now + dur) StateReplyClaimed now None None) d = Inr d1" and
    d': "d' = emit ''reply.claimed'' '''' (ci_reply_id inp) StateReplyClaimed now d1"
    by (auto simp: ClaimReply_tx_def Let_def bindE_Inr_iff split: sum.splits)
  from insert_unsettled_good[OF inv i, of StateReplyClaimed "''reply.claimed''" now] p
  show ?thesis by (simp add: d')
qed

lemma commit_good:
  assumes inv: "journal_inv d" and h: "CommitReply_tx now rid owner token d = Inr (r, d')"
  shows "good d d'"
proof -
  from h obtain c where c: "claim_of d rid = Some c" and st: "c_state c = StateReplyClaimed"
    and own: "c_owner c = owner" "c_token c = token"
    by (auto simp: CommitReply_tx_def split: option.splits if_splits)
  show ?thesis
  proof (cases "c_lease_until c \<le> now")
    case True
    with h c st own have "expireClaimTx rid now d = Inr d'"
      by (auto simp: CommitReply_tx_def bindE_Inr_iff)
    with inv show ?thesis by (rule expire_good)
  next
    case False
    let ?P = "\<lambda>c. c_reply_id c = rid \<and> c_owner c = owner \<and> c_token c = token \<and> c_state c = StateReplyClaimed \<and> c_lease_until c > now"
    let ?f = "\<lambda>c. c\<lparr>c_state := StateReplyAccepted, c_updated_at := now\<rparr>"
    let ?d1 = "d\<lparr>reply_claims := update_where ?P ?f (reply_claims d)\<rparr>"
    let ?o = "c_original_id c"
    from h c st own False obtain seq won d2 where
      a: "assignReplyCommitTx ?o rid now ?d1 = Inr ((seq, won), d2)" and
      d': "d' = emit ''reply.accepted'' '''' rid StateReplyAccepted now d2"
      by (auto simp: CommitReply_tx_def bindE_Inr_iff Let_def)
    have c1: "claim_of ?d1 rid = Some (?f c)"
      using c st own False row_by_key[OF c] by (simp add: row_by_update_where)
    have cs: "held d c" "c_commit_seq c = None" "\<not> positive c"
      using inv_claim[OF inv c] st by (auto simp: claim_sound_def positive_def)
    have t: "touches rid ?o d d'"
      unfolding d' by (rule touches_trans[OF touches_trans[OF touches_update assign_spec(1)[OF a c1]] touches_emit]) auto
    from assign_winner_seq[OF inv a c1] c obtain w' where
      w': "winner_of d2 ?o = Some w'" "w_reply_id w' = rid \<Longrightarrow> w_commit_seq w' = seq" by auto
    note spec = assign_spec(2,3)[OF a c1]
    show ?thesis
      by (rule positive_good[OF inv t, where c' = "assigned_claim now ?d1 (?f c)" and w' = w'])
        (use spec cs w' c st in \<open>auto simp: d' assigned_claim_def positive_def claim_evolves_def\<close>)
  qed
qed

lemma expire_loop_good:
  "journal_inv d \<Longrightarrow> expire_loop now rids n d = Inr (m, d') \<Longrightarrow> good d d'"
proof (induction rids arbitrary: n d)
  case Nil
  then show ?case by simp
next
  case (Cons rid rids)
  show ?case
  proof (cases "expireClaimTx rid now d")
    case (Inl e)
    with Cons show ?thesis by (auto split: if_splits)
  next
    case (Inr d1)
    with Cons.prems have "expire_loop now rids (n + 1) d1 = Inr (m, d')" by simp
    moreover have "good d d1" using Cons.prems(1) Inr by (rule expire_good)
    ultimately show ?thesis using Cons.IH good_trans by blast
  qed
qed

lemma expire_all_good:
  "journal_inv d \<Longrightarrow> expire_all now rids d = Inr d' \<Longrightarrow> good d d'"
proof (induction rids arbitrary: d)
  case Nil
  then show ?case by simp
next
  case (Cons rid rids)
  then obtain d1 where "expireClaimTx rid now d = Inr d1" "expire_all now rids d1 = Inr d'"
    by (auto simp: bindE_Inr_iff)
  with Cons show ?case using expire_good good_trans by blast
qed

lemma original_status_good:
  assumes "journal_inv d" "OriginalStatus_tx now orig d = Inr (out, d')"
  shows "good d d'"
  using assms expire_all_good by (auto simp: OriginalStatus_tx_def bindE_Inr_iff split: option.splits)

section \<open>Imports\<close>

lemma held_emit [simp]: "held (emit k p r st now d) c = held d c"
  by (rule held_cong) simp

lemma emit_good: "journal_inv d \<Longrightarrow> good d (emit k '''' r st now d)"
  using events_ok_emit[of "''''" k d r st now]
  by (auto simp: journal_inv_def struct_ok_def ops_ok_def claims_ok_def links_ok_def claim_sound_def
      winner_sound_def native_of_def evolves_def)

lemma import_unknown_good:
  assumes inv: "journal_inv d" and h: "importTerminalUnknownTx ci now d = Inr (u, d')"
  shows "good d d'"
proof (cases "claim_of d (ci_reply_id ci)")
  case (Some c)
  with h have "d' = ensureImportedEventTx (c_reply_id c) StateReplyOutcomeUnknown now d"
    by (auto simp: importTerminalUnknownTx_def bindE_Inr_iff split: if_splits)
  with emit_good[OF inv] inv show ?thesis by (auto simp: ensureImportedEventTx_def)
next
  case None
  let ?c = "new_claim ci '''' '''' 0 StateReplyOutcomeUnknown now None None"
  from h None obtain d1 where p: "held d ?c"
    and i: "insert_claim ?c d = Inr d1"
    and d': "d' = ensureImportedEventTx (ci_reply_id ci) StateReplyOutcomeUnknown now d1"
    by (auto simp: importTerminalUnknownTx_def bindE_Inr_iff)
  note ins = touches_insert_claim[OF i refl, simplified]
  have t: "touches (ci_reply_id ci) (ci_original_id ci) d d'"
    using ins(1) touches_trans[OF ins(1) touches_emit] by (simp add: d' ensureImportedEventTx_def)
  have ev: "\<exists>e\<in>set (events d'). e_operation_id e = '''' \<and> e_reply_id e = ci_reply_id ci \<and> e_state e = StateReplyOutcomeUnknown"
    using inv_struct[OF inv] ins(2) by (auto simp: d' ensureImportedEventTx_def count_where_def filter_empty_conv events_ok_def)
  have same: "reply_claims d' = reply_claims d1" "reply_winners d' = reply_winners d"
    using ins(2) by (auto simp: d' ensureImportedEventTx_def)
  show ?thesis
    by (rule unsettled_good[OF inv t, where c' = ?c]) (use ins same p ev None in auto)
qed

lemma provenance_simps [simp]:
  "b_reply_id (keep_provenance n x) = b_reply_id x" "b_native_item_id (keep_provenance n x) = b_native_item_id x"
  "b_reply_id (take_provenance n x) = b_reply_id x" "b_native_item_id (take_provenance n x) = b_native_item_id x"
  "b_reply_id (touch_only n x) = b_reply_id x" "b_native_item_id (touch_only n x) = b_native_item_id x"
  by (simp_all add: keep_provenance_def take_provenance_def touch_only_def)

lemma touches_new_winner:
  assumes "winner_of d orig = None" "w_original_id w = orig" "w_reply_id w = rid"
  shows "touches rid orig d (d\<lparr>reply_winners := reply_winners d @ [w]\<rparr>)"
  using touches_ignore_winner[OF assms(2,3), of d] assms by (simp add: ignore_row_def)

lemma claim_le_observable:
  "observable_state s \<Longrightarrow> claim_le s StateReplyObserved"
  "s = StateReplyOutcomeUnknown \<Longrightarrow> claim_le s StateReplyAccepted"
  by (auto simp: observable_state_def)


text \<open>Recording a native item leaves the claims and winners alone.\<close>

lemma record_native_spec:
  assumes h: "record_native cf rid native digest endpoint route now d = Inr d'"
    and cf: "\<And>b x. b_reply_id (cf b x) = b_reply_id x" "\<And>b x. b_native_item_id (cf b x) = b_native_item_id x"
  shows "touches rid orig d d'" "native_of d' rid = native" "reply_claims d' = reply_claims d"
    "reply_winners d' = reply_winners d" "events d' = events d" "operations d' = operations d"
proof -
  let ?b = "\<lparr>b_reply_id = rid, b_native_item_id = native, b_observed_at = now, b_digest = digest,
     b_endpoint_id = endpoint, b_control_route = route\<rparr>"
  from h obtain u where v: "validateObservationIdentityTx rid native digest endpoint route d = Inr u"
    and o: "put_observation cf ?b d = Inr d'"
    by (auto simp: record_native_def bindE_Inr_iff)
  have b: "b_reply_id ?b = rid" by simp
  note p = touches_put_observation[OF o b cf(1)]
  show "touches rid orig d d'" by (rule p(1))
  show "reply_claims d' = reply_claims d" "reply_winners d' = reply_winners d" "events d' = events d"
    "operations d' = operations d"
    using p(2) by simp_all
  show "native_of d' rid = native"
    using p(3) v cf(2) by (auto simp: native_of_def validateObservationIdentityTx_def split: option.splits)
qed

text \<open>
  The shape both installers share: the claim has become positive with the given number, the
  winner and the observations are still to be written.
\<close>

definition strengthened :: "string \<Rightarrow> string \<Rightarrow> int \<Rightarrow> string \<Rightarrow> db \<Rightarrow> db \<Rightarrow> bool" where
  "strengthened rid orig seq native d d1 =
     (touches rid orig d d1 \<and> reply_winners d1 = reply_winners d \<and> observations d1 = observations d \<and>
      (\<exists>c1. claim_of d1 rid = Some c1 \<and> c_original_id c1 = orig \<and> positive c1 \<and>
        c_commit_seq c1 = Some seq \<and> held d c1 \<and>
        (c_state c1 = StateReplyObserved \<longrightarrow> native \<noteq> '''' \<or> native_of d rid \<noteq> '''') \<and>
        (\<forall>c. claim_of d rid = Some c \<longrightarrow> claim_evolves c c1)))"

lemma strengthened_insert:
  assumes i: "insert_claim (new_claim ci '''' '''' 0 st now acc (Some seq)) d = Inr d0" and seq: "1 \<le> seq"
    and rel: "custody_relationship (ci_original_id ci) (ci_reply_route ci) (ci_custody_route ci) (ci_custody_store_id ci) d = Inr ()"
    and st: "st = (if native \<noteq> '''' then StateReplyObserved else StateReplyAccepted)"
  shows "strengthened (ci_reply_id ci) (ci_original_id ci) seq native d (emit k '''' (ci_reply_id ci) st now d0)"
proof -
  let ?c = "new_claim ci '''' '''' 0 st now acc (Some seq)"
  have k: "c_reply_id ?c = ci_reply_id ci" and s: "\<And>s. c_commit_seq ?c = Some s \<Longrightarrow> 1 \<le> s"
    using seq by simp_all
  note ins = touches_insert_claim[OF i k s]
  have "touches (ci_reply_id ci) (ci_original_id ci) d (emit k '''' (ci_reply_id ci) st now d0)"
    using ins(1) touches_emit by (rule touches_trans)
  with ins st rel show ?thesis by (auto simp: strengthened_def positive_def)
qed

lemma strengthened_set:
  assumes inv: "journal_inv d" and c: "claim_of d rid = Some c" and seq: "1 \<le> seq"
    and orig: "c_original_id c = orig"
    and le: "claim_le (c_state c) st" and st: "st = StateReplyAccepted \<or> st = StateReplyObserved"
    and obs: "st = StateReplyObserved \<Longrightarrow> native \<noteq> '''' \<or> c_state c = StateReplyObserved"
    and f: "f = (\<lambda>r. r\<lparr>c_state := st, c_token := '''', c_lease_until := 0, c_accepted_at := acc r,
                       c_commit_seq := Some seq, c_updated_at := now\<rparr>)"
    and d1: "d1 = (if b then emit k '''' rid st now (set_claim rid f d) else set_claim rid f d)"
  shows "strengthened rid orig seq native d d1"
proof -
  have t0: "touches rid orig d (set_claim rid f d)"
    by (rule touches_set_claim) (use seq in \<open>auto simp: f\<close>)
  have t: "touches rid orig d d1"
    using t0 touches_trans[OF t0 touches_emit] by (simp add: d1)
  have keep: "c_state c = StateReplyObserved \<Longrightarrow> native_of d rid \<noteq> ''''"
    using inv_claim[OF inv c] row_by_key[OF c] by (simp add: claim_sound_def)
  have "claim_of d1 rid = Some (f c)" by (simp add: d1 c f)
  moreover have "claim_evolves c (f c)" using le by (simp add: f claim_evolves_def)
  ultimately show ?thesis
    using t c orig st obs keep inv_claim[OF inv c] by (auto simp: strengthened_def d1 f positive_def claim_sound_def)
qed

lemma import_winner_claim_spec:
  assumes inv: "journal_inv d" and seq: "1 \<le> seq" and h: "import_winner_claim ci seq native now d = Inr d1"
    and rel: "custody_relationship (ci_original_id ci) (ci_reply_route ci) (ci_custody_route ci) (ci_custody_store_id ci) d = Inr ()"
  shows "strengthened (ci_reply_id ci) (ci_original_id ci) seq native d d1"
proof (cases "claim_of d (ci_reply_id ci)")
  case None
  with h seq rel show ?thesis
    by (auto simp: import_winner_claim_def Let_def bindE_Inr_iff intro!: strengthened_insert)
next
  case (Some c)
  let ?ws = "if native \<noteq> '''' then StateReplyObserved else StateReplyAccepted"
  let ?st = "if ?ws = StateReplyObserved \<or> c_state c = StateReplyOutcomeUnknown then ?ws else c_state c"
  from h Some have m: "claim_matches c ci" "observable_state (c_state c)"
    and d1: "d1 = (if ?st \<noteq> c_state c then emit (reply_kind ?st) '''' (ci_reply_id ci) ?st now
       (set_claim (ci_reply_id ci) (\<lambda>r. r\<lparr>c_state := ?st, c_token := '''', c_lease_until := 0,
          c_accepted_at := Some (coalesce (c_accepted_at r) now), c_commit_seq := Some seq, c_updated_at := now\<rparr>) d)
       else set_claim (ci_reply_id ci) (\<lambda>r. r\<lparr>c_state := ?st, c_token := '''', c_lease_until := 0,
          c_accepted_at := Some (coalesce (c_accepted_at r) now), c_commit_seq := Some seq, c_updated_at := now\<rparr>) d)"
    by (auto simp: import_winner_claim_def Let_def split: if_splits)
  have "claim_le (c_state c) ?st" "?st = StateReplyAccepted \<or> ?st = StateReplyObserved"
    "?st = StateReplyObserved \<Longrightarrow> native \<noteq> '''' \<or> c_state c = StateReplyObserved"
    using m(2) by (auto simp: observable_state_def split: if_splits)
  from strengthened_set[OF inv Some seq _ this refl d1] m(1) show ?thesis by (simp add: claim_matches_def)
qed

text \<open>The rest of an installation: the winner row carries the number, then the native item.\<close>

lemma strengthened_good:
  assumes inv: "journal_inv d" and s: "strengthened rid orig seq native d d1"
    and t2: "touches rid orig d1 d2" and same: "reply_claims d2 = reply_claims d1" "observations d2 = observations d1"
    and w: "winner_of d2 orig = Some w'" "w_commit_seq w' = seq"
    and d3: "(if native = '''' then Inr d2 else record_native cf rid native digest endpoint route now d2) = Inr d'"
    and cf: "\<And>b x. b_reply_id (cf b x) = b_reply_id x" "\<And>b x. b_native_item_id (cf b x) = b_native_item_id x"
  shows "good d d'" "claim_of d' rid = claim_of d1 rid" "native \<noteq> '''' \<Longrightarrow> native_of d' rid = native"
proof -
  from s obtain c1 where c1: "claim_of d1 rid = Some c1" "c_original_id c1 = orig" "positive c1" "c_commit_seq c1 = Some seq"
      "held d c1"
    and t1: "touches rid orig d d1" and obs: "observations d1 = observations d"
    and nat: "c_state c1 = StateReplyObserved \<Longrightarrow> native \<noteq> '''' \<or> native_of d rid \<noteq> ''''"
    and ev: "\<And>c. claim_of d rid = Some c \<Longrightarrow> claim_evolves c c1"
    by (auto simp: strengthened_def)
  have *: "touches rid orig d2 d' \<and> reply_claims d' = reply_claims d2 \<and> reply_winners d' = reply_winners d2 \<and>
      native_of d' rid = (if native = '''' then native_of d2 rid else native)"
  proof (cases "native = ''''")
    case False
    with d3 have "record_native cf rid native digest endpoint route now d2 = Inr d'" by simp
    from record_native_spec[OF this cf] False show ?thesis by simp
  qed (use d3 in simp)
  then have t: "touches rid orig d d'" using t1 t2 touches_trans by blast
  show "claim_of d' rid = claim_of d1 rid" using * same by simp
  show "native \<noteq> '''' \<Longrightarrow> native_of d' rid = native" using * by simp
  have n2: "native_of d2 rid = native_of d rid" using same obs by (simp add: native_of_def)
  show "good d d'"
    by (rule positive_good[OF inv t, where c' = c1 and w' = w' and seq = seq])
      (use c1 w ev nat * same n2 in \<open>auto split: if_splits\<close>)
qed

lemma winner_row_spec:
  assumes ins: "winner_of d1 orig = None \<Longrightarrow> d2 = d1\<lparr>reply_winners := reply_winners d1 @
      [\<lparr>w_original_id = orig, w_reply_id = rid, w_committed_at = now, w_commit_seq = seq\<rparr>]\<rparr>"
    and upd: "\<And>w. winner_of d1 orig = Some w \<Longrightarrow> w_reply_id w = rid \<and>
        (w_commit_seq w = seq \<and> d2 = d1 \<or>
         d2 = d1\<lparr>reply_winners := update_where (\<lambda>x. w_original_id x = orig \<and> w_reply_id x = rid)
            (\<lambda>x. x\<lparr>w_committed_at := now, w_commit_seq := seq\<rparr>) (reply_winners d1)\<rparr>)"
  shows "touches rid orig d1 d2 \<and> reply_claims d2 = reply_claims d1 \<and> observations d2 = observations d1 \<and>
    (\<exists>w'. winner_of d2 orig = Some w' \<and> w_commit_seq w' = seq)"
proof (cases "winner_of d1 orig")
  case None
  with ins have d2: "d2 = d1\<lparr>reply_winners := reply_winners d1 @
      [\<lparr>w_original_id = orig, w_reply_id = rid, w_committed_at = now, w_commit_seq = seq\<rparr>]\<rparr>" by simp
  have "touches rid orig d1 d2" unfolding d2 by (rule touches_new_winner[OF None]) simp_all
  with None show ?thesis by (auto simp: d2 row_by_append)
next
  case (Some w)
  from upd[OF Some] have r: "w_reply_id w = rid" by blast
  from upd[OF Some] consider "w_commit_seq w = seq" "d2 = d1"
    | "d2 = d1\<lparr>reply_winners := update_where (\<lambda>x. w_original_id x = orig \<and> w_reply_id x = rid)
            (\<lambda>x. x\<lparr>w_committed_at := now, w_commit_seq := seq\<rparr>) (reply_winners d1)\<rparr>" by blast
  then show ?thesis
  proof cases
    case 1
    with Some show ?thesis by auto
  next
    case 2
    have l: "links_ok d1 \<Longrightarrow> links_ok d2" by (auto simp: 2 links_ok_def map_key_update_where)
    have o: "winner_of d2 q = winner_of d1 q" if "q \<noteq> orig" for q
      using that by (cases "winner_of d1 q") (auto simp: 2 row_by_update_where dest: row_by_key)
    have w: "winner_of d2 orig = Some (w\<lparr>w_committed_at := now, w_commit_seq := seq\<rparr>)"
      using Some r row_by_key[OF Some] by (simp add: 2 row_by_update_where)
    have "touches rid orig d1 d2"
      using l o w Some r by (auto simp: touches_def struct_ok_def ops_ok_def claims_ok_def events_ok_def 2)
    with w show ?thesis by (simp add: 2)
  qed
qed

lemma import_winner_good:
  assumes inv: "journal_inv d" and seq: "1 \<le> seq"
    and h: "importObservedWinnerTx ci seq native endpoint route now d = Inr (u, d')"
  shows "good d d'"
proof -
  let ?rid = "ci_reply_id ci" and ?o = "ci_original_id ci"
  from h obtain d1 d2 where rel: "custody_relationship ?o (ci_reply_route ci) (ci_custody_route ci) (ci_custody_store_id ci) d = Inr ()"
    and win: "\<And>w. winner_of d ?o = Some w \<Longrightarrow> w_reply_id w = ?rid"
    and d1: "import_winner_claim ci seq native now d = Inr d1"
    and d2: "import_winner_row (winner_of d ?o) ?o ?rid seq now d1 = Inr d2"
    and d3: "(if native = '''' then Inr d2
       else record_native take_provenance ?rid native (ci_digest ci) endpoint route now d2) = Inr d'"
    by (auto simp: importObservedWinnerTx_def bindE_Inr_iff Let_def
        split: if_splits option.splits)
  from inv seq d1 rel have s: "strengthened ?rid ?o seq native d d1" by (rule import_winner_claim_spec)
  then have w1: "reply_winners d1 = reply_winners d" by (simp add: strengthened_def)
  have "touches ?rid ?o d1 d2 \<and> reply_claims d2 = reply_claims d1 \<and> observations d2 = observations d1 \<and>
    (\<exists>w'. winner_of d2 ?o = Some w' \<and> w_commit_seq w' = seq)"
    by (rule winner_row_spec)
      (use d2 w1 win in \<open>auto simp: import_winner_row_def tx_rows_def insert_row_def split: option.splits if_splits\<close>)
  with strengthened_good(1)[OF inv s _ _ _ _ _ d3] show ?thesis by fastforce
qed

section \<open>Observations and reconciliation\<close>

text \<open>
  Around one \<open>assignReplyCommitTx\<close>: what precedes it keeps the claim's number and the winners,
  what follows leaves the claim positive with the assigned number.
\<close>

lemma assigned_good:
  assumes inv: "journal_inv d" and ops: "held d c'"
    and t1: "touches rid orig d d1" and c1: "claim_of d1 rid = Some c1" and w1: "reply_winners d1 = reply_winners d"
    and old: "claim_of d rid = None \<or> (\<exists>c. claim_of d rid = Some c \<and> c_commit_seq c1 = c_commit_seq c)"
    and a: "assignReplyCommitTx orig rid now d1 = Inr ((seq, won), d2)"
    and t2: "touches rid orig d2 d'" and w2: "reply_winners d' = reply_winners d2"
    and c': "claim_of d' rid = Some c'" "c_original_id c' = orig" "positive c'"
      "c_commit_seq c' = c_commit_seq (assigned_claim now d1 c1)"
    and nat: "c_state c' = StateReplyObserved \<Longrightarrow> native_of d' rid \<noteq> ''''"
    and ev: "\<And>c. claim_of d rid = Some c \<Longrightarrow> claim_evolves c c'"
  shows "good d d'"
proof -
  have t: "touches rid orig d d'"
    by (rule touches_trans[OF touches_trans[OF t1 assign_spec(1)[OF a c1]] t2])
  from assign_winner_seq[OF inv a c1 w1 old] obtain w' where
    w': "winner_of d2 orig = Some w'" "w_reply_id w' = rid \<Longrightarrow> w_commit_seq w' = seq" by blast
  show ?thesis
    by (rule positive_good[OF inv t, where c' = c' and w' = w' and seq = seq])
      (use c' w' ops nat ev w2 assign_spec(3)[OF a c1] in auto)
qed

lemma assigned_claim_simps [simp]:
  "c_reply_id (assigned_claim now d c) = c_reply_id c" "c_original_id (assigned_claim now d c) = c_original_id c"
  "c_state (assigned_claim now d c) = c_state c" "positive (assigned_claim now d c) = positive c"
  "held d' (assigned_claim now d c) = held d' c"
  by (simp_all add: assigned_claim_def positive_def)

lemma claim_evolves_assigned [simp]: "claim_evolves c (assigned_claim now d c') = claim_evolves c c'"
  by (simp add: assigned_claim_def claim_evolves_def)

lemma claim_evolves_observed: "observable_state (c_state c) \<Longrightarrow> claim_evolves c (c\<lparr>c_state := StateReplyObserved, c_updated_at := t\<rparr>)"
  by (simp add: claim_evolves_def claim_le_to_observed)

lemma observed_claim_native:
  "journal_inv d \<Longrightarrow> claim_of d rid = Some c \<Longrightarrow> c_state c = StateReplyObserved \<Longrightarrow> native_of d rid \<noteq> ''''"
  using inv_claim[of d rid c] row_by_key[of c_reply_id rid] by (auto simp: claim_sound_def)

lemma inv_claim_held: "journal_inv d \<Longrightarrow> claim_of d rid = Some c \<Longrightarrow> held d c"
  using inv_claim[of d rid c] by (simp add: claim_sound_def)

lemma positive_observed [simp]: "positive (c\<lparr>c_state := StateReplyObserved, c_updated_at := t\<rparr>)"
  by (simp add: positive_def)

lemma reconcile_good:
  assumes inv: "journal_inv d" and nat: "native \<noteq> ''''"
    and h: "reconcileReplyObservationTx rid native digest now d = Inr (u, d')"
  shows "good d d'"
proof -
  let ?f = "\<lambda>r. r\<lparr>c_state := StateReplyObserved, c_updated_at := now\<rparr>"
  from h obtain c d1 where c: "claim_of d rid = Some c" and ob: "observable_state (c_state c)"
    and n: "record_native touch_only rid native digest '''' '''' now d = Inr d1"
    and rest: "(if c_state c = StateReplyObserved then Inr ((), d1)
       else bindE (assignReplyCommitTx (c_original_id c) rid now (set_claim rid ?f d1)) (\<lambda>(_, d).
            Inr ((), emit ''reply.reconciled'' '''' rid StateReplyObserved now d))) = Inr (u, d')"
    by (auto simp: reconcileReplyObservationTx_def bindE_Inr_iff Let_def split: option.splits if_splits)
  let ?o = "c_original_id c"
  note spec = record_native_spec[OF n, simplified]
  have ops: "held d c" using inv c by (rule inv_claim_held)
  show ?thesis
  proof (cases "c_state c = StateReplyObserved")
    case True
    with rest have d': "d' = d1" by simp
    have "positive c" using True by (simp add: positive_def)
    with inv_claim[OF inv c] obtain s w where "c_commit_seq c = Some s" "winner_of d ?o = Some w"
      by (auto simp: claim_sound_def)
    then show ?thesis
      using positive_good[OF inv spec(1), where c' = c and seq = s and w' = w] winner_claim_positive(2)[OF inv, of ?o w c]
        \<open>positive c\<close> ops c spec nat by (auto simp: d')
  next
    case False
    with rest obtain seq won d2 where
      a: "assignReplyCommitTx ?o rid now (set_claim rid ?f d1) = Inr ((seq, won), d2)"
      and d': "d' = emit ''reply.reconciled'' '''' rid StateReplyObserved now d2"
      by (auto simp: bindE_Inr_iff)
    have t: "touches rid ?o d (set_claim rid ?f d1)"
      using spec(1) by (rule touches_trans) (rule touches_set_claim; simp)
    have c1: "claim_of (set_claim rid ?f d1) rid = Some (?f c)"
      using c spec by simp
    note as = assign_spec[OF a c1]
    show ?thesis
      by (rule assigned_good[OF inv _ t c1 _ _ a, where c' = "assigned_claim now (set_claim rid ?f d1) (?f c)"])
        (use c spec as nat ob ops in \<open>auto simp: d' native_of_def claim_evolves_observed\<close>)
  qed
qed

lemma observe_good:
  assumes inv: "journal_inv d" and nat: "native \<noteq> ''''"
    and h: "ObserveReply_tx now rid native digest endpoint route d = Inr (u, d')"
  shows "good d d'"
proof -
  let ?f = "\<lambda>r. r\<lparr>c_state := StateReplyObserved, c_updated_at := now\<rparr>"
  from h obtain c d1 seq won d2 where c: "claim_of d rid = Some c" and ob: "observable_state (c_state c)"
    and n: "record_native keep_provenance rid native digest endpoint route now d = Inr d1"
    and a: "assignReplyCommitTx (c_original_id c) rid now d1 = Inr ((seq, won), d2)"
    and d': "d' = (if c_state c \<noteq> StateReplyObserved
        then emit ''reply.observed'' '''' rid StateReplyObserved now (set_claim rid ?f d2) else d2)"
    by (auto simp: ObserveReply_tx_def bindE_Inr_iff Let_def split: option.splits if_splits)
  let ?o = "c_original_id c"
  note spec = record_native_spec[OF n, simplified]
  have ops: "held d c" using inv c by (rule inv_claim_held)
  have c1: "claim_of d1 rid = Some c" using c spec by simp
  note as = assign_spec[OF a c1]
  let ?c = "assigned_claim now d1 c"
  have t2: "touches rid ?o d2 d'"
    using touches_trans[OF touches_set_claim touches_emit, of ?f rid ?o d2] by (auto simp: d')
  show ?thesis
    by (rule assigned_good[OF inv _ spec(1) c1 _ _ a t2,
          where c' = "if c_state c \<noteq> StateReplyObserved then ?f ?c else ?c"])
      (use c spec as nat ob ops in \<open>auto simp: d' native_of_def positive_def claim_evolves_def claim_le_to_observed assigned_claim_def\<close>)
qed

lemma touches_acceptances:
  "p_id p \<in> c_reply_id ` set (reply_claims d) \<Longrightarrow>
     touches rid orig d (d\<lparr>reply_acceptances := replace_row p_id p (reply_acceptances d)\<rparr>)"
  by (auto simp: replace_row_def touches_def struct_ok_def ops_ok_def claims_ok_def links_ok_def events_ok_def split: option.splits)

lemma reconcile_accepted_good:
  assumes inv: "journal_inv d" and h: "ReconcileReplyAccepted_tx now rid ref d = Inr (u, d')"
  shows "good d d'"
proof -
  let ?f = "\<lambda>r. r\<lparr>c_state := StateReplyAccepted, c_updated_at := now\<rparr>"
  let ?d1 = "set_claim rid ?f d"
  let ?d2 = "?d1\<lparr>reply_acceptances := replace_row p_id \<lparr>p_id = rid, p_evidence_ref = ref, p_recorded_at = now\<rparr>
                       (reply_acceptances ?d1)\<rparr>"
  from h obtain c seq won d3 where c: "claim_of d rid = Some c" and st: "c_state c = StateReplyOutcomeUnknown"
    and a: "assignReplyCommitTx (c_original_id c) rid now ?d2 = Inr ((seq, won), d3)"
    and d': "d' = emit ''reply.reconciled'' '''' rid StateReplyAccepted now d3"
    by (auto simp: ReconcileReplyAccepted_tx_def bindE_Inr_iff Let_def split: option.splits if_splits)
  let ?o = "c_original_id c"
  have ops: "held d c" using inv c by (rule inv_claim_held)
  have t0: "touches rid ?o d ?d1" by (rule touches_set_claim) auto
  then have t: "touches rid ?o d ?d2"
    by (rule touches_trans, intro touches_acceptances)
      (use row_by_SomeD[OF c] in \<open>auto simp: claim_ids_set_claim\<close>)
  have c1: "claim_of ?d2 rid = Some (?f c)" using c by simp
  have w1: "reply_winners ?d2 = reply_winners d" by simp
  have old: "claim_of d rid = None \<or> (\<exists>x. claim_of d rid = Some x \<and> c_commit_seq (?f c) = c_commit_seq x)"
    using c by simp
  have c': "claim_of d' rid = Some (assigned_claim now ?d2 (?f c))"
    unfolding d' using assign_spec(2)[OF a c1] by simp
  have "claim_evolves c (?f c)" using st by (simp add: claim_evolves_def)
  then have ev: "\<And>x. claim_of d rid = Some x \<Longrightarrow> claim_evolves x (assigned_claim now ?d2 (?f c))"
    using c by simp
  show ?thesis
    by (rule assigned_good[OF inv _ t c1 w1 old a _ _ c' _ _ _ _ ev])
      (simp_all add: d' touches_emit positive_def ops)
qed

lemma observed_reply_good:
  assumes inv: "journal_inv d" and nat: "native \<noteq> ''''"
    and h: "RecordObservedReply_tx now ci native endpoint route d = Inr (u, d')"
  shows "good d d'"
proof -
  let ?rid = "ci_reply_id ci"
  let ?f = "\<lambda>r. r\<lparr>c_state := StateReplyObserved, c_updated_at := now\<rparr>"
  define part where "part = (case claim_of d ?rid of
         Some c \<Rightarrow>
           if \<not> claim_matches c ci then Inl IdentityConflict
           else if \<not> observable_state (c_state c) then Inl InvalidTransition
           else if c_state c \<noteq> StateReplyObserved
           then Inr (emit ''reply.observed'' '''' ?rid StateReplyObserved now (set_claim ?rid ?f d))
           else Inr d
       | None \<Rightarrow>
           bindE (custody_relationship (ci_original_id ci) (ci_reply_route ci) (ci_custody_route ci)
                    (ci_custody_store_id ci) d) (\<lambda>_.
           bindE (insert_claim (new_claim ci '''' '''' 0 StateReplyObserved now None None) d) (\<lambda>d.
           Inr (emit ''reply.observed'' '''' ?rid StateReplyObserved now d))))"
  from h obtain d1 d2 c2 seq won where p: "part = Inr d1"
    and n: "record_native keep_provenance ?rid native (ci_digest ci) endpoint route now d1 = Inr d2"
    and c2: "claim_of d2 ?rid = Some c2"
    and a: "assignReplyCommitTx (c_original_id c2) ?rid now d2 = Inr ((seq, won), d')"
    unfolding RecordObservedReply_tx_def Let_def part_def[symmetric]
    by (auto simp: bindE_Inr_iff split: option.splits)
  let ?o = "ci_original_id ci"
  obtain c1 where t1: "touches ?rid ?o d d1" and c1: "claim_of d1 ?rid = Some c1" "c_original_id c1 = ?o"
      "c_state c1 = StateReplyObserved"
    and w1: "reply_winners d1 = reply_winners d" and ops: "held d c1"
    and old: "claim_of d ?rid = None \<or> (\<exists>c. claim_of d ?rid = Some c \<and> c_commit_seq c1 = c_commit_seq c)"
    and ev: "\<And>c. claim_of d ?rid = Some c \<Longrightarrow> claim_evolves c c1"
  proof (cases "claim_of d ?rid")
    case None
    with p obtain d0 where o: "held d (new_claim ci '''' '''' 0 StateReplyObserved now None None)"
      and i: "insert_claim (new_claim ci '''' '''' 0 StateReplyObserved now None None) d = Inr d0"
      and d1: "d1 = emit ''reply.observed'' '''' ?rid StateReplyObserved now d0"
      by (auto simp: part_def bindE_Inr_iff)
    note ins = touches_insert_claim[OF i refl, simplified]
    have "touches ?rid ?o d d1" unfolding d1 using ins(1) touches_emit by (rule touches_trans)
    then show ?thesis
      by (rule that[of "new_claim ci '''' '''' 0 StateReplyObserved now None None"])
        (use ins o None in \<open>auto simp: d1\<close>)
  next
    case (Some c)
    from p Some have m: "c_original_id c = ?o" "observable_state (c_state c)"
      and d1: "d1 = (if c_state c \<noteq> StateReplyObserved
        then emit ''reply.observed'' '''' ?rid StateReplyObserved now (set_claim ?rid ?f d) else d)"
      by (auto simp: part_def claim_matches_def split: if_splits)
    have "touches ?rid ?o d d1"
      using touches_trans[OF touches_set_claim touches_emit, of ?f ?rid ?o d] by (auto simp: d1)
    moreover have "held d c" using inv Some by (rule inv_claim_held)
    ultimately show ?thesis
      by (intro that[of "if c_state c \<noteq> StateReplyObserved then ?f c else c"])
        (use m Some in \<open>auto simp: d1 claim_evolves_observed\<close>)
  qed
  note spec = record_native_spec[OF n, simplified]
  from c2 c1 spec have e: "c2 = c1" by simp
  have o2: "c_original_id c2 = ?o" using e c1 by simp
  note a' = a[unfolded o2]
  have t2: "touches ?rid ?o d d2" using t1 spec(1) by (rule touches_trans)
  note as = assign_spec[OF a' c2]
  show ?thesis
    by (rule assigned_good[OF inv _ t2 c2 _ _ a' touches_refl refl, where c' = "assigned_claim now d2 c2"])
      (use as spec w1 old ev c1 e nat ops in \<open>auto simp: native_of_def positive_def\<close>)
qed

section \<open>A candidate together with its winner\<close>

lemma install_winner_claim_spec:
  assumes inv: "journal_inv d" and seq: "1 \<le> wi_commit_seq w" and h: "install_winner_claim now cand w d = Inr d1"
    and rel: "custody_relationship (ci_original_id cand) (ci_reply_route cand) (ci_custody_route cand) (ci_custody_store_id cand) d = Inr ()"
  shows "strengthened (wi_reply_id w) (ci_original_id cand) (wi_commit_seq w) (wi_native_id w) d d1"
proof (cases "claim_of d (wi_reply_id w)")
  case None
  let ?ws = "if wi_native_id w \<noteq> '''' then StateReplyObserved else StateReplyAccepted"
  from h None obtain d0 where
    i: "insert_claim (new_claim (winner_claim cand w) '''' '''' 0 ?ws now (Some now) (Some (wi_commit_seq w))) d = Inr d0"
    and d1: "d1 = emit (reply_kind ?ws) '''' (wi_reply_id w) ?ws now d0"
    by (auto simp: install_winner_claim_def Let_def bindE_Inr_iff)
  from strengthened_insert[OF i seq _ refl] rel show ?thesis unfolding d1 by (simp add: winner_claim_def)
next
  case (Some c)
  let ?st = "if wi_native_id w \<noteq> '''' then StateReplyObserved
     else if c_state c \<noteq> StateReplyObserved then StateReplyAccepted else c_state c"
  let ?f = "\<lambda>r. r\<lparr>c_state := ?st, c_token := '''', c_lease_until := 0,
          c_accepted_at := Some now, c_commit_seq := Some (wi_commit_seq w), c_updated_at := now\<rparr>"
  from h Some have m: "claim_matches c (winner_claim cand w)"
    and d1: "d1 = (if ?st \<noteq> c_state c then emit (reply_kind ?st) '''' (wi_reply_id w) ?st now
       (set_claim (wi_reply_id w) ?f d) else set_claim (wi_reply_id w) ?f d)"
    by (auto simp: install_winner_claim_def Let_def split: if_splits)
  have "c_state c = StateReplyClaimed \<or> observable_state (c_state c)"
    using inv_claim[OF inv Some] by (simp add: claim_sound_def)
  then have "claim_le (c_state c) ?st" "?st = StateReplyAccepted \<or> ?st = StateReplyObserved"
    "?st = StateReplyObserved \<Longrightarrow> wi_native_id w \<noteq> '''' \<or> c_state c = StateReplyObserved"
    by (auto simp: observable_state_def split: if_splits)
  from strengthened_set[OF inv Some seq _ this refl d1] m show ?thesis
    by (simp add: claim_matches_def winner_claim_def)
qed

lemma install_winner_good:
  assumes inv: "journal_inv d" and seq: "1 \<le> wi_commit_seq w" and ops: "custody_relationship (ci_original_id cand) (ci_reply_route cand) (ci_custody_route cand) (ci_custody_store_id cand) d = Inr ()"
    and win: "\<And>x. winner_of d (ci_original_id cand) = Some x \<Longrightarrow> w_reply_id x = wi_reply_id w"
    and h: "install_winner now cand endpoint route w d = Inr d'"
  shows "good d d'" "touches (wi_reply_id w) (ci_original_id cand) d d'"
    "\<exists>c. claim_of d' (wi_reply_id w) = Some c \<and> c_original_id c = ci_original_id cand"
proof -
  let ?rid = "wi_reply_id w" and ?o = "ci_original_id cand" and ?n = "wi_native_id w"
  from h obtain d1 d2 where d1: "install_winner_claim now cand w d = Inr d1"
    and d2: "install_winner_row (winner_of d ?o) ?o ?rid (wi_commit_seq w) now d1 = Inr d2"
    and d3: "(if ?n = '''' then Inr d2
       else record_native touch_only ?rid ?n (wi_digest w) endpoint route now d2) = Inr d'"
    by (auto simp: install_winner_def bindE_Inr_iff Let_def)
  from inv seq d1 ops have s: "strengthened ?rid ?o (wi_commit_seq w) ?n d d1" by (rule install_winner_claim_spec)
  then have w1: "reply_winners d1 = reply_winners d" and t1: "touches ?rid ?o d d1" by (simp_all add: strengthened_def)
  have r: "touches ?rid ?o d1 d2 \<and> reply_claims d2 = reply_claims d1 \<and> observations d2 = observations d1 \<and>
    (\<exists>w'. winner_of d2 ?o = Some w' \<and> w_commit_seq w' = wi_commit_seq w)"
    by (rule winner_row_spec)
      (use d2 w1 win in \<open>auto simp: install_winner_row_def tx_rows_def insert_row_def split: option.splits if_splits\<close>)
  then obtain w' where w': "winner_of d2 ?o = Some w'" "w_commit_seq w' = wi_commit_seq w" by blast
  from r have r2: "touches ?rid ?o d1 d2" "reply_claims d2 = reply_claims d1" "observations d2 = observations d1" by auto
  note g = strengthened_good[OF inv s r2 w' d3 provenance_simps(5,6)]
  show "good d d'" by (rule g(1))
  show "\<exists>c. claim_of d' ?rid = Some c \<and> c_original_id c = ?o"
    using g(2) s by (auto simp: strengthened_def)
  have "touches ?rid ?o d2 d'"
    using d3 record_native_spec(1)[of touch_only ?rid ?n "wi_digest w" endpoint route now d2 d'] by (auto split: if_splits)
  with t1 r2(1) show "touches ?rid ?o d d'" using touches_trans by blast
qed

lemma all_le_observed: "journal_inv d \<Longrightarrow> claim_of d rid = Some c \<Longrightarrow> claim_le (c_state c) StateReplyObserved"
  using inv_claim[of d rid c] by (auto simp: claim_sound_def claim_le_to_observed)

lemma install_candidate_claim_spec:
  assumes inv: "journal_inv d" and h: "install_candidate_claim now cand wid existing d = Inr d1"
    and ex: "existing \<noteq> None \<or> ci_reply_id cand = wid \<Longrightarrow>
      \<exists>c. claim_of d (ci_reply_id cand) = Some c \<and> c_original_id c = ci_original_id cand"
    and obs: "existing = None \<Longrightarrow> ci_reply_id cand = wid \<Longrightarrow>
      \<exists>c. claim_of d wid = Some c \<and> c_state c = StateReplyObserved"
    and rel: "custody_relationship (ci_original_id cand) (ci_reply_route cand) (ci_custody_route cand) (ci_custody_store_id cand) d = Inr ()"
  obtains c1 where "touches (ci_reply_id cand) (ci_original_id cand) d d1" "claim_of d1 (ci_reply_id cand) = Some c1"
    "c_original_id c1 = ci_original_id cand" "held d c1" "c_state c1 = StateReplyObserved" "reply_winners d1 = reply_winners d"
    "claim_of d (ci_reply_id cand) = None \<or>
       (\<exists>c. claim_of d (ci_reply_id cand) = Some c \<and> c_commit_seq c1 = c_commit_seq c)"
    "\<And>c. claim_of d (ci_reply_id cand) = Some c \<Longrightarrow> claim_evolves c c1"
proof (cases existing)
  case None
  show ?thesis
  proof (cases "wid = ci_reply_id cand")
    case True
    with None h have "d1 = d" by (simp add: install_candidate_claim_def)
    with True None obs ex that inv_claim_held[OF inv] show ?thesis by fastforce
  next
    case False
    with None h obtain d0 where
      i: "insert_claim (new_claim cand '''' '''' 0 StateReplyObserved now None None) d = Inr d0"
      and d1: "d1 = emit ''reply.observed'' '''' (ci_reply_id cand) StateReplyObserved now d0"
      by (auto simp: install_candidate_claim_def bindE_Inr_iff Let_def)
    note ins = touches_insert_claim[OF i refl, simplified]
    have "touches (ci_reply_id cand) (ci_original_id cand) d d1"
      unfolding d1 using ins(1) touches_emit by (rule touches_trans)
    then show ?thesis
      by (rule that[of "new_claim cand '''' '''' 0 StateReplyObserved now None None"])
        (use ins rel in \<open>auto simp: d1\<close>)
  qed
next
  case (Some c0)
  let ?f = "\<lambda>r. r\<lparr>c_state := StateReplyObserved, c_token := '''',
                       c_lease_until := 0, c_accepted_at := Some now, c_updated_at := now\<rparr>"
  let ?b = "c_state c0 \<noteq> StateReplyObserved \<and> ci_reply_id cand \<noteq> wid"
  from Some ex obtain c where c: "claim_of d (ci_reply_id cand) = Some c" "c_original_id c = ci_original_id cand" by auto
  from h Some have d1: "d1 = (if ?b
      then emit ''reply.observed'' '''' (ci_reply_id cand) StateReplyObserved now (set_claim (ci_reply_id cand) ?f d)
      else set_claim (ci_reply_id cand) ?f d)"
    by (auto simp: install_candidate_claim_def Let_def split: if_splits)
  have t0: "touches (ci_reply_id cand) (ci_original_id cand) d (set_claim (ci_reply_id cand) ?f d)"
    by (rule touches_set_claim) auto
  have t: "touches (ci_reply_id cand) (ci_original_id cand) d d1"
    using t0 touches_trans[OF t0 touches_emit] by (simp add: d1)
  have "claim_evolves c (?f c)" using all_le_observed[OF inv c(1)] by (simp add: claim_evolves_def)
  with t c inv_claim_held[OF inv c(1)] show ?thesis
    by (intro that[of "?f c"]) (auto simp: d1)
qed

lemma install_candidate_good:
  assumes inv: "journal_inv d" and nat: "native \<noteq> ''''" and ops: "custody_relationship (ci_original_id cand) (ci_reply_route cand) (ci_custody_route cand) (ci_custody_store_id cand) d = Inr ()"
    and h: "install_candidate now cand native endpoint route wid existing d = Inr (u, d')"
    and ex: "existing \<noteq> None \<or> ci_reply_id cand = wid \<Longrightarrow>
      \<exists>c. claim_of d (ci_reply_id cand) = Some c \<and> c_original_id c = ci_original_id cand"
    and obs: "existing = None \<Longrightarrow> ci_reply_id cand = wid \<Longrightarrow>
      \<exists>c. claim_of d wid = Some c \<and> c_state c = StateReplyObserved"
  shows "good d d'"
proof -
  let ?rid = "ci_reply_id cand" and ?o = "ci_original_id cand"
  from h obtain d1 seq won d2 where d1: "install_candidate_claim now cand wid existing d = Inr d1"
    and a: "assignReplyCommitTx ?o ?rid now d1 = Inr ((seq, won), d2)"
    and n: "record_native touch_only ?rid native (ci_digest cand) endpoint route now d2 = Inr d'"
    by (auto simp: install_candidate_def bindE_Inr_iff)
  from install_candidate_claim_spec[OF inv d1 ex obs ops] obtain c1 where
    t1: "touches ?rid ?o d d1" and c1: "claim_of d1 ?rid = Some c1"
    and c1': "c_original_id c1 = ?o" "held d c1" "c_state c1 = StateReplyObserved" and w1: "reply_winners d1 = reply_winners d"
    and old: "claim_of d ?rid = None \<or> (\<exists>c. claim_of d ?rid = Some c \<and> c_commit_seq c1 = c_commit_seq c)"
    and ev: "\<And>c. claim_of d ?rid = Some c \<Longrightarrow> claim_evolves c c1"
    by blast
  note spec = record_native_spec[OF n, simplified]
  note as = assign_spec[OF a c1]
  show ?thesis
    by (rule assigned_good[OF inv _ t1 c1 w1 old a spec(1) spec(4), where c' = "assigned_claim now d1 c1"])
      (use as spec c1' ev nat in \<open>auto simp: positive_def\<close>)
qed

lemma install_winner_observed:
  assumes "install_winner now cand endpoint route w d = Inr d'" "wi_native_id w \<noteq> ''''"
    "\<And>x. winner_of d (ci_original_id cand) = Some x \<Longrightarrow> w_reply_id x = wi_reply_id w"
  shows "\<exists>c. claim_of d' (wi_reply_id w) = Some c \<and> c_state c = StateReplyObserved"
proof -
  let ?rid = "wi_reply_id w" and ?o = "ci_original_id cand"
  from assms obtain d1 d2 where d1: "install_winner_claim now cand w d = Inr d1"
    and d2: "install_winner_row (winner_of d ?o) ?o ?rid (wi_commit_seq w) now d1 = Inr d2"
    and d3: "record_native touch_only ?rid (wi_native_id w) (wi_digest w) endpoint route now d2 = Inr d'"
    by (auto simp: install_winner_def bindE_Inr_iff Let_def)
  have "reply_claims d' = reply_claims d1"
    using record_native_spec(3)[OF d3] d2
    by (auto simp: install_winner_row_def tx_rows_def split: option.splits)
  moreover have "\<exists>c. claim_of d1 ?rid = Some c \<and> c_state c = StateReplyObserved"
  proof (cases "claim_of d ?rid")
    case None
    with d1 assms(2) obtain d0 where
      i: "insert_claim (new_claim (winner_claim cand w) '''' '''' 0 StateReplyObserved now (Some now) (Some (wi_commit_seq w))) d = Inr d0"
      and e: "d1 = emit (reply_kind StateReplyObserved) '''' ?rid StateReplyObserved now d0"
      by (auto simp: install_winner_claim_def Let_def bindE_Inr_iff)
    have "claim_of d0 ?rid = Some (new_claim (winner_claim cand w) '''' '''' 0 StateReplyObserved now (Some now) (Some (wi_commit_seq w)))"
      using i by (auto simp: insert_claim_def row_by_append winner_claim_def split: if_splits)
    then show ?thesis by (simp add: e)
  qed (use d1 assms(2) in \<open>auto simp: install_winner_claim_def Let_def split: if_splits\<close>)
  ultimately show ?thesis by simp
qed

lemma observed_and_winner_good:
  assumes inv: "journal_inv d" and nat: "native \<noteq> ''''" and seq: "1 \<le> wi_commit_seq w"
    and h: "RecordObservedReplyAndWinner_tx now cand native endpoint route w d = Inr (u, d')"
  shows "good d d'"
proof -
  let ?rid = "ci_reply_id cand" and ?o = "ci_original_id cand" and ?wid = "wi_reply_id w"
  from h obtain d1 where con: "\<not> winner_contradicts cand native w"
    and ops: "custody_relationship ?o (ci_reply_route cand) (ci_custody_route cand) (ci_custody_store_id cand) d = Inr ()"
    and win: "\<And>x. winner_of d ?o = Some x \<Longrightarrow> w_reply_id x = ?wid"
    and m: "\<And>c. claim_of d ?rid = Some c \<Longrightarrow> claim_matches c cand"
    and d1: "install_winner now cand endpoint route w d = Inr d1"
    and d2: "install_candidate now cand native endpoint route ?wid (claim_of d ?rid) d1 = Inr (u, d')"
    by (auto simp: RecordObservedReplyAndWinner_tx_def bindE_Inr_iff
        split: if_splits option.splits)
  note g = install_winner_good[OF inv seq ops win d1, simplified]
  have ops1: "custody_relationship ?o (ci_reply_route cand) (ci_custody_route cand) (ci_custody_store_id cand) d1 = Inr ()"
    using g(2) ops by (simp add: touches_def custody_relationship_def)
  have ex: "\<exists>c. claim_of d1 ?rid = Some c \<and> c_original_id c = ?o"
    if "claim_of d ?rid \<noteq> None \<or> ?rid = ?wid"
  proof (cases "?rid = ?wid")
    case False
    with that g(2) m show ?thesis by (auto simp: touches_def claim_matches_def)
  qed (use g(3) in simp)
  have obs: "\<exists>c. claim_of d1 ?wid = Some c \<and> c_state c = StateReplyObserved"
    if "claim_of d ?rid = None" "?rid = ?wid"
    using install_winner_observed[OF d1 _ win] con that nat by (auto simp: winner_contradicts_def)
  have "good d1 d'"
    by (rule install_candidate_good[OF _ nat ops1 d2 ex obs]) (use g(1) in blast)+
  with g(1) show ?thesis using good_trans by blast
qed

section \<open>Operations\<close>

text \<open>An operation's transaction leaves the reply tables alone.\<close>

definition same_replies :: "db \<Rightarrow> db \<Rightarrow> bool" where
  "same_replies d d' =
     (reply_claims d' = reply_claims d \<and> reply_winners d' = reply_winners d \<and>
      observations d' = observations d \<and> reply_acceptances d' = reply_acceptances d \<and>
      (\<exists>es. events d' = events d @ es) \<and> (events_ok d \<longrightarrow> events_ok d'))"

lemma same_replies_refl [simp]: "same_replies d d"
  by (simp add: same_replies_def)

lemma same_replies_trans: "same_replies a b \<Longrightarrow> same_replies b c \<Longrightarrow> same_replies a c"
  by (auto simp: same_replies_def)

lemma same_replies_emit:
  "k \<noteq> ''reply.abandoned'' \<Longrightarrow> same_replies d d1 \<Longrightarrow> same_replies d (emit k p r st now d1)"
  using events_ok_emit[of p k d1] by (auto simp: same_replies_def)

lemma same_repliesI:
  "same_replies d (d\<lparr>operations := ps\<rparr>)" "same_replies d (d\<lparr>attempts := as\<rparr>)"
  "same_replies d (d\<lparr>manual_resolutions := ms\<rparr>)" "same_replies d (d\<lparr>operation_acceptances := xs\<rparr>)"
  "same_replies d (set_operation oid f d)" "same_replies d (set_attempt_state oid st now d)"
  by (simp_all add: same_replies_def events_ok_def set_operation_def set_attempt_state_def)

lemma ops_good:
  assumes inv: "journal_inv d" and same: "same_replies d d'" and ok: "ops_ok d'"
    and ev: "\<And>oid r. row_by o_operation_id oid (operations d) = Some r \<Longrightarrow>
      \<exists>r'. row_by o_operation_id oid (operations d') = Some r' \<and> op_evolves r r'"
  shows "good d d'"
proof -
  note st = inv_struct[OF inv]
  have orig: "\<exists>r'. original_of d' m = Some r' \<and> op_ident.truncate r' = op_ident.truncate r"
    if m: "original_of d m = Some r" for m r
  proof -
    from m have r: "r \<in> set (operations d)" "o_message_id r = m"
      by (auto dest: row_by_SomeD)
    have "row_by o_operation_id (o_operation_id r) (operations d) = Some r"
      using st r(1) by (intro row_by_in_set) (simp_all add: ops_ok_def)
    from ev[OF this] obtain r' where r': "r' \<in> set (operations d')" "op_ident.truncate r' = op_ident.truncate r"
      by (auto simp: op_evolves_def dest: row_by_SomeD)
    then have "o_message_id r' = m" using r(2) by (simp add: op_ident.truncate_def)
    with r' ok row_by_in_set[of o_message_id "operations d'" r'] show ?thesis by (auto simp: ops_ok_def)
  qed
  have held: "held d' c" if "held d c" for c
    using that orig by (fastforce simp: held_def custody_relationship_def op_ident.truncate_def split: option.splits)
  have "claim_sound d' c" if "claim_of d' rid = Some c" for rid c
    using inv_claim[OF inv, of rid c] that same held by (auto simp: same_replies_def claim_sound_def native_of_def)
  moreover have "winner_sound d' w" if "winner_of d' q = Some w" for q w
    using inv_winner[OF inv, of q w] that same by (auto simp: same_replies_def winner_sound_def)
  moreover have "struct_ok d'"
    using st ok same by (simp add: struct_ok_def same_replies_def claims_ok_def links_ok_def)
  ultimately have "journal_inv d'" by (simp add: journal_inv_def)
  moreover have "evolves d d'"
    using ev same by (simp add: evolves_def same_replies_def)
  ultimately show ?thesis by blast
qed

lemma truncate_keys:
  assumes "\<And>r. op_ident.truncate (f r) = op_ident.truncate r"
  shows "o_operation_id (f r) = o_operation_id r" "o_message_id (f r) = o_message_id r"
  using assms[of r] by (simp_all add: op_ident.truncate_def)

lemma update_ops_good:
  assumes inv: "journal_inv d" and same: "same_replies d d'"
    and ops: "operations d' = update_where P f (operations d)" and att: "attempts d' = update_where Q g (attempts d)"
    and f: "\<And>r. op_ident.truncate (f r) = op_ident.truncate r" and g: "\<And>a. a_operation_id (g a) = a_operation_id a"
    and le: "\<And>r. r \<in> set (operations d) \<Longrightarrow> P r \<Longrightarrow> op_le (o_state r) (o_state (f r))"
    and side: "m_operation_id ` set (manual_resolutions d') \<subseteq> m_operation_id ` set (manual_resolutions d) \<union> o_operation_id ` set (operations d)"
      "p_id ` set (operation_acceptances d') \<subseteq> p_id ` set (operation_acceptances d) \<union> o_operation_id ` set (operations d)"
  shows "good d d'"
proof (rule ops_good[OF inv same])
  note k = truncate_keys[of f, OF f]
  have ids: "o_operation_id ` set (operations d') = o_operation_id ` set (operations d)"
    "a_operation_id ` set (attempts d') = a_operation_id ` set (attempts d)"
    by (simp_all add: ops att keys_update_where k g)
  have "\<forall>r\<in>set (operations d). o_operation_id r \<noteq> '''' \<and> o_message_id r \<noteq> ''''"
    using inv_struct[OF inv] by (simp add: ops_ok_def)
  then have "\<forall>r\<in>set (operations d'). o_operation_id r \<noteq> '''' \<and> o_message_id r \<noteq> ''''"
    by (auto simp: ops set_update_where k)
  moreover have "distinct (map o_operation_id (operations d'))" "distinct (map o_message_id (operations d'))"
    "distinct (map a_operation_id (attempts d'))"
    using inv_struct[OF inv] by (simp_all add: ops_ok_def ops att map_key_update_where k g)
  moreover have "a_operation_id ` set (attempts d) \<subseteq> o_operation_id ` set (operations d)"
    "m_operation_id ` set (manual_resolutions d') \<subseteq> o_operation_id ` set (operations d)"
    "p_id ` set (operation_acceptances d') \<subseteq> o_operation_id ` set (operations d)"
    using inv_struct[OF inv, THEN conjunct1, unfolded ops_ok_def]
    by (simp_all add: subset_trans[OF side(1)] subset_trans[OF side(2)])
  ultimately show "ops_ok d'"
    unfolding ops_ok_def ids by (intro conjI)
next
  fix oid r assume r: "row_by o_operation_id oid (operations d) = Some r"
  then have "r \<in> set (operations d)" by (auto dest: row_by_SomeD)
  with le r f show "\<exists>r'. row_by o_operation_id oid (operations d') = Some r' \<and> op_evolves r r'"
    by (auto simp: ops row_by_update_where truncate_keys[of f, OF f] op_evolves_def)
qed

lemma set_op_good:
  assumes inv: "journal_inv d" and same: "same_replies d d'" and r: "row_by o_operation_id oid (operations d) = Some r"
    and ops: "operations d' = operations (set_operation oid f d)"
    and att: "attempts d' = attempts (set_attempt_state oid st now d)"
    and f: "\<And>r. op_ident.truncate (f r) = op_ident.truncate r" and le: "op_le (o_state r) (o_state (f r))"
    and side: "m_operation_id ` set (manual_resolutions d') \<subseteq> m_operation_id ` set (manual_resolutions d) \<union> o_operation_id ` set (operations d)"
      "p_id ` set (operation_acceptances d') \<subseteq> p_id ` set (operation_acceptances d) \<union> o_operation_id ` set (operations d)"
  shows "good d d'"
proof (rule update_ops_good[OF inv same])
  show "operations d' = update_where (\<lambda>r. o_operation_id r = oid) f (operations d)"
    by (simp add: ops set_operation_def)
  show "attempts d' = update_where (\<lambda>a. a_operation_id a = oid) (\<lambda>a. a\<lparr>a_state := st, a_updated_at := now\<rparr>) (attempts d)"
    by (simp add: att set_attempt_state_def)
  show "op_le (o_state x) (o_state (f x))" if "x \<in> set (operations d)" "o_operation_id x = oid" for x
  proof -
    have "row_by o_operation_id oid (operations d) = Some x"
      using inv_struct[OF inv] that row_by_in_set[of o_operation_id "operations d" x] by (simp add: ops_ok_def)
    with r le show ?thesis by simp
  qed
qed (simp_all add: f side)

lemma op_simps [simp]:
  "attempts (set_operation oid f d) = attempts d"
  "manual_resolutions (set_operation oid f d) = manual_resolutions d"
  "operation_acceptances (set_operation oid f d) = operation_acceptances d"
  "manual_resolutions (set_attempt_state oid st now d) = manual_resolutions d"
  "operation_acceptances (set_attempt_state oid st now d) = operation_acceptances d"
  "operations (set_attempt_state oid st now d) = operations d"
  "op_ident.truncate (r\<lparr>o_state := s, o_error_code := e, o_updated_at := t, o_terminal_at := tt\<rparr>) = op_ident.truncate r"
  "op_ident.truncate (r\<lparr>o_state := s, o_updated_at := t, o_terminal_at := tt\<rparr>) = op_ident.truncate r"
  "op_ident.truncate (r\<lparr>o_state := s, o_dispatch_started_at := t0, o_updated_at := t\<rparr>) = op_ident.truncate r"
  "op_ident.truncate (r\<lparr>o_state := s, o_updated_at := t, o_terminal_at := tt, o_error_code := e\<rparr>) = op_ident.truncate r"
  by (simp_all add: set_operation_def set_attempt_state_def op_ident.truncate_def)

lemma result_allowed_le: "result_allowed s t \<Longrightarrow> op_le s t"
  by (auto simp: result_allowed_def)

lemma record_result_good:
  assumes inv: "journal_inv d" and h: "RecordResult_tx now oid st ec d = Inr (u, d')"
  shows "good d d'"
proof -
  let ?f = "\<lambda>r. r\<lparr>o_state := st, o_error_code := ec, o_updated_at := now, o_terminal_at := Some now\<rparr>"
  from h obtain r where r: "row_by o_operation_id oid (operations d) = Some r" "result_allowed (o_state r) st"
    and d': "d' = emit ''operation.result'' oid '''' st now (set_attempt_state oid st now (set_operation oid ?f d))"
    by (auto simp: RecordResult_tx_def split: option.splits if_splits)
  have same: "same_replies d d'"
    unfolding d' by (rule same_replies_emit, simp, rule same_replies_trans; rule same_repliesI)
  show ?thesis
    by (rule set_op_good[OF inv same r(1), of ?f st now])
      (simp_all add: d' set_attempt_state_def result_allowed_le[OF r(2)])
qed

lemma record_accepted_good:
  assumes inv: "journal_inv d" and h: "RecordAccepted_tx now oid ref d = Inr (u, d')"
  shows "good d d'"
proof -
  let ?f = "\<lambda>r. r\<lparr>o_state := StateAccepted, o_updated_at := now, o_terminal_at := Some now\<rparr>"
  let ?xs = "replace_row p_id \<lparr>p_id = oid, p_evidence_ref = ref, p_recorded_at = now\<rparr> (operation_acceptances d)"
  have xs: "p_id ` set ?xs \<subseteq> insert oid (p_id ` set (operation_acceptances d))"
    by (auto simp: replace_row_def)
  from h obtain r where r: "row_by o_operation_id oid (operations d) = Some r"
      "o_state r = StateDispatchStarted \<or> o_state r = StateOutcomeUnknown"
    and d': "d' = emit ''operation.accepted'' oid '''' StateAccepted now
       (set_attempt_state oid StateAccepted now ((set_operation oid ?f d)\<lparr>operation_acceptances := ?xs\<rparr>))"
    by (auto simp: RecordAccepted_tx_def Let_def split: option.splits if_splits)
  have same: "same_replies d d'"
    unfolding d' by (rule same_replies_emit, simp, rule same_replies_trans[OF same_replies_trans]; rule same_repliesI)
  show ?thesis
    by (rule set_op_good[OF inv same r(1), of ?f StateAccepted now])
      (use r(2) xs row_by_SomeD[OF r(1)] in \<open>auto simp: d' set_attempt_state_def set_operation_def\<close>)
qed

lemma manual_good:
  assumes inv: "journal_inv d" and h: "RecordManualResolution_tx now oid m d = Inr (u, d')"
  shows "good d d'"
proof -
  let ?f = "\<lambda>r. r\<lparr>o_state := StateManuallyResolved, o_updated_at := now,
                o_terminal_at := Some now, o_error_code := mr_assertion m\<rparr>"
  let ?xs = "replace_row m_operation_id \<lparr>m_operation_id = oid, m_assertion = mr_assertion m, m_actor = mr_actor m,
                 m_reason = mr_reason m, m_evidence_ref = mr_evidence_ref m, m_presentation = mr_presentation m,
                 m_resolved_at = coalesce (mr_timestamp m) now\<rparr> (manual_resolutions d)"
  have xs: "m_operation_id ` set ?xs \<subseteq> insert oid (m_operation_id ` set (manual_resolutions d))"
    by (auto simp: replace_row_def)
  from h obtain r where r: "row_by o_operation_id oid (operations d) = Some r" "o_state r = StateOutcomeUnknown"
    and d': "d' = emit ''operation.manually_resolved'' oid '''' StateManuallyResolved now
       (set_attempt_state oid StateManuallyResolved now ((set_operation oid ?f d)\<lparr>manual_resolutions := ?xs\<rparr>))"
    by (auto simp: RecordManualResolution_tx_def resolve_writes_def Let_def split: option.splits if_splits)
  have same: "same_replies d d'"
    unfolding d' by (rule same_replies_emit, simp, rule same_replies_trans[OF same_replies_trans]; rule same_repliesI)
  show ?thesis
    by (rule set_op_good[OF inv same r(1), of ?f StateManuallyResolved now])
      (use r(2) xs row_by_SomeD[OF r(1)] in \<open>auto simp: d' set_attempt_state_def set_operation_def\<close>)
qed

lemma fence_good:
  assumes inv: "journal_inv d" and h: "MarkDispatchStartedOwned now oid owner token d = Inr (u, d')"
  shows "good d d'"
proof -
  let ?P = "\<lambda>r. o_operation_id r = oid \<and> o_state r = StatePrepared \<and>
     (\<exists>a\<in>set (attempts d). a_operation_id a = oid \<and> a_owner a = owner \<and> a_token a = token \<and> a_lease_until a > now)"
  let ?f = "\<lambda>r. r\<lparr>o_state := StateDispatchStarted, o_dispatch_started_at := Some now, o_updated_at := now\<rparr>"
  let ?Q = "\<lambda>a. a_operation_id a = oid \<and> a_owner a = owner \<and> a_token a = token"
  let ?g = "\<lambda>a. a\<lparr>a_state := StateDispatchStarted, a_updated_at := now\<rparr>"
  from h have d': "d' = emit ''operation.dispatch_started'' oid '''' StateDispatchStarted now
       (d\<lparr>operations := update_where ?P ?f (operations d), attempts := update_where ?Q ?g (attempts d)\<rparr>)"
    by (auto simp: MarkDispatchStartedOwned_def Let_def split: if_splits)
  have same: "same_replies d d'"
    unfolding d' by (rule same_replies_emit, simp, rule same_replies_trans; rule same_repliesI)
  show ?thesis
    by (rule update_ops_good[OF inv same, of ?P ?f ?Q ?g]) (auto simp: d')
qed

lemma heartbeat_attempt_good:
  assumes inv: "journal_inv d" and h: "HeartbeatAttempt_tx now dur oid owner token d = Inr (u, d')"
  shows "good d d'"
proof -
  let ?Q = "\<lambda>a. a_operation_id a = oid \<and> a_owner a = owner \<and> a_token a = token \<and>
                   (a_state a = StatePrepared \<or> a_state a = StateDispatchStarted) \<and> a_lease_until a > now"
  let ?g = "\<lambda>a. a\<lparr>a_lease_until := now + dur, a_updated_at := now\<rparr>"
  from h have d': "d' = d\<lparr>attempts := update_where ?Q ?g (attempts d)\<rparr>"
    by (auto simp: HeartbeatAttempt_tx_def Let_def split: if_splits)
  show ?thesis
    by (rule update_ops_good[OF inv _, of _ "\<lambda>_. False" id ?Q ?g])
      (auto simp: d' update_where_def same_repliesI)
qed

lemma operation_row_simps [simp]:
  "o_operation_id (operation_row p st now tm ec) = o_operation_id p"
  "o_message_id (operation_row p st now tm ec) = o_message_id p"
  "o_state (operation_row p st now tm ec) = st"
  by (simp_all add: operation_row_def op_ident.extend_def op_ident.truncate_def)

lemma insert_op_good:
  assumes inv: "journal_inv d" and i: "insert_operation r d = Inr d1" and same: "same_replies d1 d'"
    and ids: "o_operation_id r \<noteq> ''''" "o_message_id r \<noteq> ''''"
    and ops: "operations d' = operations d1"
    and att: "attempts d' = attempts d \<or>
      (\<exists>a. attempts d' = attempts d @ [a] \<and> a_operation_id a = o_operation_id r \<and>
           row_by a_operation_id (a_operation_id a) (attempts d) = None)"
    and side: "manual_resolutions d' = manual_resolutions d" "operation_acceptances d' = operation_acceptances d"
  shows "good d d'"
proof (rule ops_good[OF inv])
  from i have d1: "d1 = d\<lparr>operations := operations d @ [r]\<rparr>"
    and new: "row_by o_operation_id (o_operation_id r) (operations d) = None" "row_by o_message_id (o_message_id r) (operations d) = None"
    by (auto simp: insert_operation_def split: if_splits)
  show "same_replies d d'"
    using same same_repliesI(1) unfolding d1 by (blast intro: same_replies_trans)
  show "ops_ok d'"
    using inv_struct[OF inv] att new ids ops side by (auto simp: ops_ok_def d1 row_by_None image_subset_iff)
  show "\<exists>r'. row_by o_operation_id oid (operations d') = Some r' \<and> op_evolves x r'"
    if "row_by o_operation_id oid (operations d) = Some x" for oid x
    using that ops by (simp add: d1 row_by_append)
qed

lemma import_op_good:
  assumes inv: "journal_inv d" and p: "\<not> operation_incomplete p"
    and h: "importOperationTxAt p st ec now ev rn d = Inr (u, d')"
  shows "good d d'"
proof (cases "row_by o_operation_id (o_operation_id p) (operations d)")
  case (Some x)
  with h have "d' = d" by (auto simp: importOperationTxAt_def split: if_splits)
  with inv show ?thesis by simp
next
  case None
  with h obtain d1 where i: "insert_operation (operation_row p st now (Some now) ec) d = Inr d1"
    and d': "d' = (if ev then emit ''operation.imported'' (o_operation_id p) '''' st now d1 else d1)"
    by (auto simp: importOperationTxAt_def bindE_Inr_iff split: option.splits)
  have same: "same_replies d1 d'" using same_replies_emit by (simp add: d')
  have a: "attempts d1 = attempts d" "manual_resolutions d1 = manual_resolutions d"
    "operation_acceptances d1 = operation_acceptances d" using i by (auto simp: insert_operation_def split: if_splits)
  show ?thesis
    by (rule insert_op_good[OF inv i same]) (use p a in \<open>auto simp: operation_incomplete_def d'\<close>)
qed

lemma prepare_good:
  assumes inv: "journal_inv d" and p: "\<not> operation_incomplete p"
    and h: "Prepare_tx now dur entropy p d = Inr (creator, d')"
  shows "good d d'"
proof (cases "original_of d (o_message_id p)")
  case (Some x)
  with h have "d' = d" by (auto simp: Prepare_tx_def split: if_splits)
  with inv show ?thesis by simp
next
  case None
  with h obtain a d1 d2 where
    i: "insert_operation (operation_row p StatePrepared now None '''') d = Inr d1"
    and ia: "insert_attempt a d1 = Inr d2" "a_operation_id a = o_operation_id p"
    and d': "d' = emit ''operation.prepared'' (o_operation_id p) '''' StatePrepared now d2"
    by (auto simp: Prepare_tx_def bindE_Inr_iff Let_def)
  from ia have d2: "d2 = d1\<lparr>attempts := attempts d1 @ [a]\<rparr>" "row_by a_operation_id (a_operation_id a) (attempts d1) = None"
    by (auto simp: insert_attempt_def split: if_splits)
  have a: "attempts d1 = attempts d" "manual_resolutions d1 = manual_resolutions d"
    "operation_acceptances d1 = operation_acceptances d" using i by (auto simp: insert_operation_def split: if_splits)
  have same: "same_replies d1 d'"
    unfolding d' d2 by (rule same_replies_emit, simp) (rule same_repliesI)
  show ?thesis
    by (rule insert_op_good[OF inv i same]) (use p a d2 ia in \<open>auto simp: operation_incomplete_def d'\<close>)
qed

lemma import_status_good:
  assumes inv: "journal_inv d" and v: "validateOriginalStatusImport inp = Inr u0"
    and h: "ImportOriginalStatus_tx now inp d = Inr (u, d')"
  shows "good d d'"
proof -
  have p: "\<not> operation_incomplete (si_operation inp)"
    using v by (auto simp: validateOriginalStatusImport_def split: if_splits)
  from h obtain u1 d1 where d1: "importOperationTxAt (si_operation inp) StatePrepared ''portable_import'' now False False d = Inr (u1, d1)"
    and rest: "(case si_selection inp of
       OriginalStatusPending \<Rightarrow> Inr ((), d1)
     | OriginalStatusWinner \<Rightarrow>
         importObservedWinnerTx (import_claim inp) (si_commit_seq inp) (si_native_item_id inp)
           (si_native_endpoint_id inp) (si_native_control_route inp) now d1
     | OriginalStatusTerminalUnknown \<Rightarrow> importTerminalUnknownTx (import_claim inp) now d1
     | OriginalStatusOther _ \<Rightarrow> Inl (Invalid ''journal: invalid original status selection'')) = Inr (u, d')"
    by (auto simp: ImportOriginalStatus_tx_def bindE_Inr_iff)
  have g: "good d d1" using inv p d1 by (rule import_op_good)
  moreover have "good d1 d'"
  proof (cases "si_selection inp")
    case OriginalStatusWinner
    moreover from this v have "1 \<le> si_commit_seq inp"
      by (auto simp: validateOriginalStatusImport_def split: if_splits)
    ultimately show ?thesis using rest g import_winner_good by auto
  qed (use rest g import_unknown_good in auto)
  ultimately show ?thesis by (rule good_trans)
qed

section \<open>Recovery\<close>

lemma recover_one_good:
  assumes inv: "journal_inv d" and r: "row_by o_operation_id (fst row) (operations d) = Some r" "o_state r = snd row"
    and st: "snd row = StatePrepared \<or> snd row = StateDispatchStarted"
  shows "good d (recover_one now row d)"
proof -
  let ?nxt = "recovered_state (snd row)"
  let ?f = "\<lambda>r. r\<lparr>o_state := ?nxt, o_updated_at := now, o_terminal_at := Some now\<rparr>"
  have same: "same_replies d (recover_one now row d)"
    unfolding recover_one_def Let_def by (rule same_replies_emit, simp, rule same_replies_trans; rule same_repliesI)
  have "op_le (o_state r) ?nxt" using r(2) st by (auto simp: recovered_state_def)
  then show ?thesis
    by (intro set_op_good[OF inv same r(1), of ?f ?nxt now])
      (simp_all add: recover_one_def Let_def set_attempt_state_def)
qed

lemma recover_one_row:
  "row_by o_operation_id oid (operations (recover_one now row d)) =
    map_option (\<lambda>r. if oid = fst row then r\<lparr>o_state := recovered_state (snd row), o_updated_at := now,
       o_terminal_at := Some now\<rparr> else r) (row_by o_operation_id oid (operations d))"
  by (cases "row_by o_operation_id oid (operations d)")
    (auto simp: recover_one_def Let_def set_operation_def row_by_update_where dest: row_by_key)

lemma recover_fold_good:
  assumes "journal_inv d" "distinct (map fst rows)"
    "\<And>oid st. (oid, st) \<in> set rows \<Longrightarrow> (st = StatePrepared \<or> st = StateDispatchStarted) \<and>
        (\<exists>r. row_by o_operation_id oid (operations d) = Some r \<and> o_state r = st)"
  shows "good d (fold (recover_one now) rows d)"
  using assms
proof (induction rows arbitrary: d)
  case Nil
  then show ?case by simp
next
  case (Cons row rows)
  from Cons.prems(3)[of "fst row" "snd row"] obtain r where
    r: "row_by o_operation_id (fst row) (operations d) = Some r" "o_state r = snd row"
    "snd row = StatePrepared \<or> snd row = StateDispatchStarted" by auto
  have g: "good d (recover_one now row d)" by (rule recover_one_good[OF Cons.prems(1) r])
  have "good (recover_one now row d) (fold (recover_one now) rows (recover_one now row d))"
  proof (rule Cons.IH)
    show "journal_inv (recover_one now row d)" using g by simp
    show "distinct (map fst rows)" using Cons.prems(2) by simp
    show "(st = StatePrepared \<or> st = StateDispatchStarted) \<and>
        (\<exists>r. row_by o_operation_id oid (operations (recover_one now row d)) = Some r \<and> o_state r = st)"
      if "(oid, st) \<in> set rows" for oid st
    proof -
      have "oid \<noteq> fst row" using that Cons.prems(2) by (force simp: image_iff)
      then show ?thesis using Cons.prems(3)[of oid st] that by (auto simp: recover_one_row)
    qed
  qed
  with g show ?case by (metis fold_simps(2) good_trans)
qed

lemma orphan_row_iff:
  "(oid, st) \<in> set (orphan_rows now d) \<longleftrightarrow>
     (\<exists>r\<in>set (operations d). \<exists>a\<in>set (attempts d). oid = o_operation_id r \<and> st = o_state r \<and> a_operation_id a = oid \<and>
        (st = StatePrepared \<or> st = StateDispatchStarted) \<and> a_lease_until a > 0 \<and> a_lease_until a \<le> now)"
  by (auto simp: orphan_rows_def)

lemma distinct_join:
  assumes "distinct (map key xs)" "distinct (map k2 ys)"
  shows "distinct (map fst (concat (map (\<lambda>r. map (\<lambda>a. (key r, s r)) (filter (\<lambda>a. k2 a = key r \<and> Q r a) ys)) xs)))"
  using assms(1)
proof (induction xs)
  case Nil
  then show ?case by simp
next
  case (Cons x xs)
  have "length (filter (\<lambda>a. k2 a = key x \<and> Q x a) ys) \<le> 1"
    using assms(2) by (induction ys) (auto simp: filter_empty_conv image_iff)
  then have "distinct (map fst (map (\<lambda>a. (key x, s x)) (filter (\<lambda>a. k2 a = key x \<and> Q x a) ys)))"
    by (cases "filter (\<lambda>a. k2 a = key x \<and> Q x a) ys") auto
  with Cons show ?case by force
qed

lemma concat_guard: "concat (map (\<lambda>a. if P a then [f a] else []) xs) = map f (filter P xs)"
  by (induction xs) auto

lemma distinct_orphans: "ops_ok d \<Longrightarrow> distinct (map fst (orphan_rows now d))"
  unfolding orphan_rows_def concat_guard by (rule distinct_join) (simp_all add: ops_ok_def)

lemma recover_good:
  assumes inv: "journal_inv d" and h: "RecoverOrphans_tx now d = Inr (u, d')"
  shows "good d d'"
proof -
  have ok: "ops_ok d" using inv_struct[OF inv] by simp
  have "(st = StatePrepared \<or> st = StateDispatchStarted) \<and>
        (\<exists>r. row_by o_operation_id oid (operations d) = Some r \<and> o_state r = st)"
    if "(oid, st) \<in> set (orphan_rows now d)" for oid st
    using that ok row_by_in_set[of o_operation_id "operations d"] by (auto simp: orphan_row_iff ops_ok_def)
  from recover_fold_good[OF inv distinct_orphans[OF ok] this] h show ?thesis
    by (auto simp: RecoverOrphans_tx_def)
qed

end
