(* ===== verification/Journal_Blockers.thy ===== *)
theory Journal_Blockers
  imports Journal_Db
begin

text \<open>
  Blockers, the metadata of one distinct server request: \<open>go/internal/journal/blockers.go\<close>. The
  statements run outside a transaction and append no event. A zero \<open>time.Time\<close> and a nil pointer
  are \<open>None\<close>; \<open>now\<close> is the journal's clock.
\<close>

definition MaxBlockerQueryLimit :: int where "MaxBlockerQueryLimit = 100"

record BlockerObservation =
  bo_method :: string
  bo_correlation_id :: string
  bo_generation :: string
  bo_seen_at :: "int option"
  bo_resolved_at :: "int option"
  bo_endpoint_id :: string
  bo_thread_id :: string
  bo_turn_id :: string
  bo_item_id :: string
  bo_operation_id :: string
  bo_message_id :: string

record BlockerQuery =
  bq_endpoint_id :: string
  bq_generation :: string
  bq_thread_id :: string
  bq_operation_id :: string
  bq_limit :: int

definition blocker_limit :: "BlockerQuery \<Rightarrow> jerror + int" where
  "blocker_limit q =
     (if bq_limit q < 0 \<or> bq_limit q > MaxBlockerQueryLimit
      then Inl (Invalid ''journal: blocker limit must be between 0 and 100'')
      else if bq_limit q = 0 then Inr 50 else Inr (bq_limit q))"

text \<open>The primary key of the table.\<close>

definition blocker_key :: "blocker_row \<Rightarrow> string \<times> string \<times> string \<times> string" where
  "blocker_key k = (k_endpoint_id k, k_generation k, k_method k, k_correlation_id k)"

definition new_blocker :: "int \<Rightarrow> BlockerObservation \<Rightarrow> blocker_row" where
  "new_blocker seen b = \<lparr>k_method = bo_method b, k_correlation_id = bo_correlation_id b,
     k_generation = bo_generation b, k_first_seen = seen, k_last_seen = seen,
     k_resolved_at = bo_resolved_at b, k_endpoint_id = bo_endpoint_id b,
     k_thread_id = bo_thread_id b, k_turn_id = bo_turn_id b, k_item_id = bo_item_id b,
     k_operation_id = bo_operation_id b, k_message_id = bo_message_id b\<rparr>"

definition newer_text :: "string \<Rightarrow> string \<Rightarrow> string" where
  "newer_text new old = (if new \<noteq> '''' then new else old)"

text \<open>The \<open>DO UPDATE SET\<close> clause: \<open>x\<close> is \<open>excluded\<close>, \<open>k\<close> the stored row.\<close>

definition merge_blocker :: "blocker_row \<Rightarrow> blocker_row \<Rightarrow> blocker_row" where
  "merge_blocker x k = k\<lparr>
     k_last_seen := (if k_last_seen x > k_last_seen k then k_last_seen x else k_last_seen k),
     k_resolved_at := (case k_resolved_at x of Some t \<Rightarrow> Some t | None \<Rightarrow> k_resolved_at k),
     k_endpoint_id := newer_text (k_endpoint_id x) (k_endpoint_id k),
     k_thread_id := newer_text (k_thread_id x) (k_thread_id k),
     k_turn_id := newer_text (k_turn_id x) (k_turn_id k),
     k_item_id := newer_text (k_item_id x) (k_item_id k),
     k_operation_id := newer_text (k_operation_id x) (k_operation_id k),
     k_message_id := newer_text (k_message_id x) (k_message_id k)\<rparr>"

definition UpsertBlocker :: "int \<Rightarrow> BlockerObservation \<Rightarrow> db \<Rightarrow> (jerror + unit) \<times> db" where
  "UpsertBlocker now b d =
     (if blank (bo_method b) \<or> blank (bo_correlation_id b)
      then (Inl (Invalid ''journal: blocker method and correlation ID are required''), d)
      else
        let x = new_blocker (coalesce (bo_seen_at b) now) b
        in (Inr (), d\<lparr>blockers :=
             (if row_by blocker_key (blocker_key x) (blockers d) = None then blockers d @ [x]
              else update_where (\<lambda>k. blocker_key k = blocker_key x) (merge_blocker x) (blockers d))\<rparr>))"

definition ResolveBlocker ::
  "int \<Rightarrow> string \<Rightarrow> string \<Rightarrow> string \<Rightarrow> int option \<Rightarrow> db \<Rightarrow> (jerror + unit) \<times> db" where
  "ResolveBlocker now endpoint generation correlation resolved d =
     (if blank endpoint \<or> blank generation \<or> blank correlation
      then (Inl (Invalid ''journal: blocker endpoint, generation, and correlation ID are required''), d)
      else (Inr (), d\<lparr>blockers := update_where
              (\<lambda>k. k_endpoint_id k = endpoint \<and> k_generation k = generation \<and> k_correlation_id k = correlation)
              (\<lambda>k. k\<lparr>k_resolved_at := Some (coalesce (k_resolved_at k) (coalesce resolved now))\<rparr>)
              (blockers d)\<rparr>))"

definition blocker_matches :: "BlockerQuery \<Rightarrow> blocker_row \<Rightarrow> bool" where
  "blocker_matches q k =
     ((bq_endpoint_id q = '''' \<or> k_endpoint_id k = bq_endpoint_id q) \<and>
      (bq_generation q = '''' \<or> k_generation k = bq_generation q) \<and>
      (bq_thread_id q = '''' \<or> k_thread_id k = bq_thread_id q) \<and>
      (bq_operation_id q = '''' \<or> k_operation_id k = bq_operation_id q))"

definition ListBlockers :: "BlockerQuery \<Rightarrow> db \<Rightarrow> jerror + blocker_row list" where
  "ListBlockers q d =
     bindE (blocker_limit q) (\<lambda>n.
     Inr (take (nat n)
       (sort_key (\<lambda>k. (- k_last_seen k, k_method k, k_correlation_id k))
         (filter (blocker_matches q) (blockers d)))))"

section \<open>Polling keeps one row per request and never moves its history back\<close>

lemma newer_text_same [simp]: "newer_text s s = s"
  by (simp add: newer_text_def)

lemma blocker_key_merge: "blocker_key k = blocker_key x \<Longrightarrow> blocker_key (merge_blocker x k) = blocker_key k"
  by (simp add: blocker_key_def merge_blocker_def)

lemma blocker_key_resolve: "blocker_key (k\<lparr>k_resolved_at := t\<rparr>) = blocker_key k"
  by (simp add: blocker_key_def)

text \<open>What a row keeps when a request is seen or resolved again.\<close>

definition blocker_evolves :: "blocker_row \<Rightarrow> blocker_row \<Rightarrow> bool" where
  "blocker_evolves k k' =
     (blocker_key k' = blocker_key k \<and> k_first_seen k' = k_first_seen k \<and>
      k_last_seen k \<le> k_last_seen k' \<and> (k_resolved_at k \<noteq> None \<longrightarrow> k_resolved_at k' \<noteq> None))"

lemma blocker_evolves_refl [simp]: "blocker_evolves k k"
  by (simp add: blocker_evolves_def)

lemma blocker_evolves_merge: "blocker_key k = blocker_key x \<Longrightarrow> blocker_evolves k (merge_blocker x k)"
  by (auto simp: blocker_evolves_def blocker_key_merge) (auto simp: merge_blocker_def split: option.splits)

lemma map_update_key:
  assumes "\<And>r. P r \<Longrightarrow> key (f r) = key r"
  shows "map key (update_where P f rows) = map key rows"
  using assms by (induction rows) (auto simp: update_where_def)

lemma blockers_upsert:
  assumes "UpsertBlocker now b d = (Inr u, d')"
  obtains x where "x = new_blocker (coalesce (bo_seen_at b) now) b"
    "blockers d' = (if row_by blocker_key (blocker_key x) (blockers d) = None then blockers d @ [x]
       else update_where (\<lambda>k. blocker_key k = blocker_key x) (merge_blocker x) (blockers d))"
  using assms by (auto simp: UpsertBlocker_def Let_def split: if_splits)

text \<open>
  However often a server request is reported, the journal keeps one blocker per endpoint, generation,
  method and correlation id: an upsert keeps the first sighting of every row, only moves a last
  sighting forward and never clears a resolution.
\<close>

theorem upsert_blocker_monotone:
  assumes "distinct (map blocker_key (blockers d))" "UpsertBlocker now b d = (Inr u, d')"
  shows "distinct (map blocker_key (blockers d'))
    \<and> list_all2 blocker_evolves (blockers d) (take (length (blockers d)) (blockers d'))
    \<and> (\<exists>k\<in>set (blockers d'). blocker_key k =
          (bo_endpoint_id b, bo_generation b, bo_method b, bo_correlation_id b)
        \<and> coalesce (bo_seen_at b) now \<le> k_last_seen k)"
proof -
  from assms(2) obtain x where x: "x = new_blocker (coalesce (bo_seen_at b) now) b"
    and d': "blockers d' = (if row_by blocker_key (blocker_key x) (blockers d) = None then blockers d @ [x]
       else update_where (\<lambda>k. blocker_key k = blocker_key x) (merge_blocker x) (blockers d))"
    by (rule blockers_upsert)
  have key: "blocker_key x = (bo_endpoint_id b, bo_generation b, bo_method b, bo_correlation_id b)"
    and seen: "k_last_seen x = coalesce (bo_seen_at b) now"
    by (simp_all add: x new_blocker_def blocker_key_def)
  show ?thesis
  proof (cases "row_by blocker_key (blocker_key x) (blockers d)")
    case None
    with d' assms(1) key seen show ?thesis
      by (auto simp: row_by_None list.rel_refl)
  next
    case (Some k)
    then have k: "k \<in> set (blockers d)" "blocker_key k = blocker_key x" by (auto dest: row_by_SomeD)
    from Some d' have u: "blockers d' = update_where (\<lambda>k. blocker_key k = blocker_key x) (merge_blocker x) (blockers d)"
      by simp
    have "map blocker_key (blockers d') = map blocker_key (blockers d)"
      unfolding u by (rule map_update_key) (rule blocker_key_merge)
    moreover have "list_all2 blocker_evolves (blockers d) (blockers d')"
      unfolding u update_where_def list.rel_map by (rule list.rel_refl_strong) (auto simp: blocker_evolves_merge)
    moreover have "merge_blocker x k \<in> set (blockers d')" using k by (auto simp: u set_update_where)
    moreover have "blocker_key (merge_blocker x k) = blocker_key x" "k_last_seen x \<le> k_last_seen (merge_blocker x k)"
      using k(2) blocker_key_merge by (simp_all add: merge_blocker_def)
    moreover have "length (blockers d') = length (blockers d)" by (simp add: u update_where_def)
    ultimately show ?thesis using assms(1) key seen by auto
  qed
qed

definition sample_blocker :: BlockerObservation where
  "sample_blocker = \<lparr>bo_method = ''m'', bo_correlation_id = ''7'', bo_generation = ''g'', bo_seen_at = Some 5,
     bo_resolved_at = None, bo_endpoint_id = ''e'', bo_thread_id = ''t'', bo_turn_id = '''', bo_item_id = '''',
     bo_operation_id = '''', bo_message_id = ''''\<rparr>"

lemma not_blank_sample: "\<not> blank (bo_method sample_blocker)" "\<not> blank (bo_correlation_id sample_blocker)"
  by (simp_all add: sample_blocker_def blank.simps white_space_def has_prefix_def)

theorem upsert_blocker_monotone_witness:
  "\<exists>d'. UpsertBlocker 9 sample_blocker (empty_db\<lparr>blockers := [(new_blocker 8 sample_blocker)\<lparr>k_resolved_at := Some 3\<rparr>]\<rparr>) = (Inr (), d')
    \<and> (\<exists>k\<in>set (blockers d'). blocker_key k = (''e'', ''g'', ''m'', ''7'') \<and> 5 \<le> k_last_seen k)"
proof -
  let ?d = "empty_db\<lparr>blockers := [(new_blocker 8 sample_blocker)\<lparr>k_resolved_at := Some 3\<rparr>]\<rparr>"
  have d: "distinct (map blocker_key (blockers ?d))" by simp
  obtain d' where h: "UpsertBlocker 9 sample_blocker ?d = (Inr (), d')"
    using not_blank_sample by (auto simp: UpsertBlocker_def Let_def)
  from upsert_blocker_monotone[OF d h] h show ?thesis
    by (simp add: sample_blocker_def)
qed

text \<open>
  Resolving a request touches only the resolution time of the rows of that endpoint,
  generation and correlation id, sets it where it was open and keeps the first one otherwise.
\<close>

theorem resolve_blocker_keeps_first:
  assumes "ResolveBlocker now endpoint generation correlation t d = (Inr u, d')"
  shows "blockers d' = map (\<lambda>k. if k_endpoint_id k = endpoint \<and> k_generation k = generation \<and> k_correlation_id k = correlation
        \<and> k_resolved_at k = None then k\<lparr>k_resolved_at := Some (coalesce t now)\<rparr> else k) (blockers d)
    \<and> d'\<lparr>blockers := []\<rparr> = d\<lparr>blockers := []\<rparr>"
  using assms
  by (auto simp: ResolveBlocker_def update_where_def split: if_splits option.splits)

theorem resolve_blocker_keeps_first_witness:
  "\<exists>d'. ResolveBlocker 9 ''e'' ''g'' ''7'' None (empty_db\<lparr>blockers := [new_blocker 8 sample_blocker]\<rparr>) = (Inr (), d')
    \<and> map k_resolved_at (blockers d') = [Some 9]"
proof -
  obtain d' where h: "ResolveBlocker 9 ''e'' ''g'' ''7'' None (empty_db\<lparr>blockers := [new_blocker 8 sample_blocker]\<rparr>) = (Inr (), d')"
    by (simp add: ResolveBlocker_def blank.simps white_space_def has_prefix_def)
  from resolve_blocker_keeps_first[OF h] h show ?thesis
    by (simp add: sample_blocker_def new_blocker_def)
qed

end
