(* ===== verification/Journal_Storage.thy ===== *)
theory Journal_Storage
  imports Journal_Preservation
begin

text \<open>
  Retention and checks: \<open>go/internal/journal/storage.go\<close>. The predicates are the SQL of
  \<open>retentionOperationPredicate\<close>, \<open>retentionReplyPredicate\<close> and \<open>retentionReceiptPredicate\<close>;
  \<open>prune\<close> is the transaction of \<open>StorageMaintain\<close> with the \<open>ON DELETE CASCADE\<close> of the schema.
  What the file system and SQLite's own pragmas answer is an argument.
\<close>

section \<open>Retention\<close>

definition RetentionAge :: int where "RetentionAge = 30 * 24 * 60 * 60 * 1000000000"

definition retentionOperationStates :: "int \<Rightarrow> op_row \<Rightarrow> bool" where
  "retentionOperationStates cutoff p =
     ((o_state p = StateAccepted \<or> o_state p = StateRejected \<or> o_state p = StateNotSent \<or>
       o_state p = StateManuallyResolved) \<and>
      (case o_terminal_at p of None \<Rightarrow> False | Some t \<Rightarrow> t > 0 \<and> t \<le> cutoff))"

text \<open>\<open>state IN (reply_accepted, reply_observed) AND updated_at <= cutoff\<close>.\<close>

definition settled_claim :: "int \<Rightarrow> claim_row \<Rightarrow> bool" where
  "settled_claim cutoff c =
     ((c_state c = StateReplyAccepted \<or> c_state c = StateReplyObserved) \<and> c_updated_at c \<le> cutoff)"

definition related_settled :: "int \<Rightarrow> string \<Rightarrow> db \<Rightarrow> bool" where
  "related_settled cutoff msg d =
     (\<forall>c\<in>set (reply_claims d). c_original_id c = msg \<longrightarrow> settled_claim cutoff c)"

definition retentionOperation :: "int \<Rightarrow> db \<Rightarrow> op_row \<Rightarrow> bool" where
  "retentionOperation cutoff d p =
     (retentionOperationStates cutoff p \<and>
      (o_reply_route p = '''' \<or>
       ((o_state p = StateRejected \<or> o_state p = StateNotSent \<or> o_state p = StateManuallyResolved) \<and>
        related_settled cutoff (o_message_id p) d) \<or>
       (o_state p = StateAccepted \<and>
        (\<exists>w\<in>set (reply_winners d). w_original_id w = o_message_id p \<and>
           (\<exists>c\<in>set (reply_claims d). c_reply_id c = w_reply_id w \<and> settled_claim cutoff c)) \<and>
        related_settled cutoff (o_message_id p) d)))"

definition retentionReply :: "int \<Rightarrow> db \<Rightarrow> claim_row \<Rightarrow> bool" where
  "retentionReply cutoff d c =
     (settled_claim cutoff c \<and>
      (\<exists>p\<in>set (operations d). o_message_id p = c_original_id c \<and> retentionOperation cutoff d p))"

definition retentionReceipt :: "int \<Rightarrow> db \<Rightarrow> receipt_row \<Rightarrow> bool" where
  "retentionReceipt cutoff d r =
     ((r_state r = StateAccepted \<or> r_state r = StateRejected \<or> r_state r = StateNotSent \<or>
       r_state r = StateManuallyResolved \<or> r_state r = StateReplyAccepted \<or>
       r_state r = StateReplyObserved) \<and>
      r_updated_at r \<le> cutoff \<and>
      (\<exists>p\<in>set (operations d). o_operation_id p = r_operation_id r \<and> retentionOperation cutoff d p))"

definition retentionBlocker :: "int \<Rightarrow> blocker_row \<Rightarrow> bool" where
  "retentionBlocker cutoff k = (case k_resolved_at k of None \<Rightarrow> False | Some t \<Rightarrow> t \<le> cutoff)"

definition retention_eligible :: "int \<Rightarrow> db \<Rightarrow> int" where
  "retention_eligible cutoff d =
     int (count_where (retentionOperation cutoff d) (operations d)) +
     int (count_where (retentionReply cutoff d) (reply_claims d)) +
     int (count_where (retentionReceipt cutoff d) (receipts d)) +
     int (count_where (retentionBlocker cutoff) (blockers d))"

text \<open>The temporary tables, filled before anything is deleted.\<close>

definition prune_operations :: "int \<Rightarrow> db \<Rightarrow> string list" where
  "prune_operations cutoff d = map o_operation_id (filter (retentionOperation cutoff d) (operations d))"

definition prune_replies :: "int \<Rightarrow> db \<Rightarrow> string list" where
  "prune_replies cutoff d = map c_reply_id (filter (retentionReply cutoff d) (reply_claims d))"

definition prune :: "int \<Rightarrow> int tx" where
  "prune cutoff d =
     (let ops = prune_operations cutoff d; reps = prune_replies cutoff d in
      Inr (retention_eligible cutoff d,
        d\<lparr>events := delete_where (\<lambda>e. e_reply_id e \<in> set reps)
                    (delete_where (\<lambda>e. e_operation_id e \<in> set ops) (events d)),
          operations := delete_where (\<lambda>p. o_operation_id p \<in> set ops) (operations d),
          attempts := delete_where (\<lambda>a. a_operation_id a \<in> set ops) (attempts d),
          manual_resolutions := delete_where (\<lambda>m. m_operation_id m \<in> set ops) (manual_resolutions d),
          operation_acceptances := delete_where (\<lambda>p. p_id p \<in> set ops) (operation_acceptances d),
          reply_winners := delete_where (\<lambda>w. w_reply_id w \<in> set reps) (reply_winners d),
          reply_claims := delete_where (\<lambda>c. c_reply_id c \<in> set reps) (reply_claims d),
          observations := delete_where (\<lambda>b. b_reply_id b \<in> set reps) (observations d),
          reply_acceptances := delete_where (\<lambda>p. p_id p \<in> set reps) (reply_acceptances d),
          receipts := delete_where (retentionReceipt cutoff d) (receipts d),
          blockers := delete_where (retentionBlocker cutoff) (blockers d)\<rparr>))"

section \<open>Maintenance\<close>

definition classifyStorageError :: "jerror \<Rightarrow> jerror" where
  "classifyStorageError e =
     (let m = error_text e; lower = to_lower m in
      if error_is e DeadlineExceeded then Wrapped StorageBusy m
      else if isBusy e then Wrapped StorageBusy m
      else if error_is e Corrupt \<or> contains lower ''malformed'' \<or> contains lower ''not a database'' \<or>
              contains lower ''no such table''
      then Wrapped Corrupt m
      else e)"

record MaintenanceAction =
  ma_kind :: string
  ma_attempted :: bool
  ma_applied :: bool
  ma_eligible :: int
  ma_changed :: int
  ma_busy :: bool
  ma_error :: string

record MaintenanceReceipt =
  mt_dry_run :: bool
  mt_cutoff :: int
  mt_expiry :: MaintenanceAction
  mt_prune :: MaintenanceAction
  mt_checkpoint :: MaintenanceAction
  mt_optimize :: MaintenanceAction

definition new_action :: "string \<Rightarrow> MaintenanceAction" where
  "new_action kind = \<lparr>ma_kind = kind, ma_attempted = False, ma_applied = False, ma_eligible = 0,
     ma_changed = 0, ma_busy = False, ma_error = ''''\<rparr>"

definition failed_action :: "jerror \<Rightarrow> MaintenanceAction \<Rightarrow> MaintenanceAction" where
  "failed_action e a = a\<lparr>ma_attempted := True, ma_error := error_text e, ma_busy := isBusy e\<rparr>"

definition applied_action :: "int \<Rightarrow> MaintenanceAction \<Rightarrow> MaintenanceAction" where
  "applied_action n a = a\<lparr>ma_attempted := True, ma_applied := True, ma_changed := n\<rparr>"

definition retention_cutoff :: "int \<Rightarrow> int option \<Rightarrow> int" where
  "retention_cutoff now before =
     (let cutoff = now - RetentionAge in
      case before of Some b \<Rightarrow> if b < cutoff then b else cutoff | None \<Rightarrow> cutoff)"

text \<open>
  \<open>StorageMaintain\<close>: the arguments \<open>checkpoint\<close> and \<open>optimize\<close> are what the two pragmas
  return (busy flag and checkpointed pages, or an error).
\<close>

definition StorageMaintain ::
  "int \<Rightarrow> int option \<Rightarrow> bool \<Rightarrow> jerror + bool \<times> int \<Rightarrow> jerror option \<Rightarrow> db \<Rightarrow>
   (MaintenanceReceipt \<times> jerror option) \<times> db" where
  "StorageMaintain now before dry checkpoint optimize d =
     (let cutoff = retention_cutoff now before;
          r = \<lparr>mt_dry_run = dry, mt_cutoff = cutoff,
               mt_expiry = (new_action ''expiry'')\<lparr>ma_eligible := int (length (due_claims now d))\<rparr>,
               mt_prune = (new_action ''prune'')\<lparr>ma_eligible := retention_eligible cutoff d\<rparr>,
               mt_checkpoint = new_action ''wal_checkpoint'', mt_optimize = new_action ''optimize''\<rparr>
      in if dry then ((r, None), d)
         else case expireClaimsAt now d of
           (Inl e, d) \<Rightarrow> ((r\<lparr>mt_expiry := failed_action e (mt_expiry r)\<rparr>, Some (classifyStorageError e)), d)
         | (Inr n, d) \<Rightarrow>
             (let r = r\<lparr>mt_expiry := applied_action n (mt_expiry r)\<rparr> in
              case withTx (prune cutoff) d of
                (Inl e, d) \<Rightarrow> ((r\<lparr>mt_prune := failed_action e (mt_prune r)\<rparr>, Some (classifyStorageError e)), d)
              | (Inr n, d) \<Rightarrow>
                  (let r = r\<lparr>mt_prune := applied_action n (mt_prune r)\<rparr> in
                   case checkpoint of
                     Inl e \<Rightarrow> ((r\<lparr>mt_checkpoint := failed_action e (mt_checkpoint r)\<rparr>, Some (classifyStorageError e)), d)
                   | Inr (busy, pages) \<Rightarrow>
                       (let r = r\<lparr>mt_checkpoint := (applied_action pages (mt_checkpoint r))\<lparr>ma_busy := busy\<rparr>\<rparr> in
                        case optimize of
                          Some e \<Rightarrow> ((r\<lparr>mt_optimize := failed_action e (mt_optimize r)\<rparr>, Some (classifyStorageError e)), d)
                        | None \<Rightarrow> ((r\<lparr>mt_optimize := (mt_optimize r)\<lparr>ma_attempted := True, ma_applied := True\<rparr>\<rparr>, None), d)))))"

section \<open>Integrity\<close>

definition currentSchemaVersion :: int where "currentSchemaVersion = 8"

record StorageCheckResult =
  ck_integrity :: string
  ck_foreign_keys :: "(string \<times> string) list"
  ck_relationships :: "string list"

text \<open>
  \<open>PRAGMA foreign_key_check\<close>: table and parent of every dangling reference (the code's text
  adds row and key numbers).
\<close>

definition foreign_key_issues :: "db \<Rightarrow> (string \<times> string) list" where
  "foreign_key_issues d =
     (let no_op = (\<lambda>i. row_by o_operation_id i (operations d) = None); no_claim = (\<lambda>i. claim_of d i = None) in
      map (\<lambda>_. (''attempts'', ''operations'')) (filter (\<lambda>a. no_op (a_operation_id a)) (attempts d)) @
      map (\<lambda>_. (''reply_winners'', ''reply_claims'')) (filter (\<lambda>w. no_claim (w_reply_id w)) (reply_winners d)) @
      map (\<lambda>_. (''observations'', ''reply_claims'')) (filter (\<lambda>b. no_claim (b_reply_id b)) (observations d)) @
      map (\<lambda>_. (''manual_resolutions'', ''operations''))
        (filter (\<lambda>m. no_op (m_operation_id m)) (manual_resolutions d)) @
      map (\<lambda>_. (''operation_acceptances'', ''operations''))
        (filter (\<lambda>p. no_op (p_id p)) (operation_acceptances d)) @
      map (\<lambda>_. (''reply_acceptances'', ''reply_claims'')) (filter (\<lambda>p. no_claim (p_id p)) (reply_acceptances d)))"

definition relationship_counts :: "db \<Rightarrow> (string \<times> int) list" where
  "relationship_counts d =
     [(''orphan_attempt'',
       int (count_where (\<lambda>a. row_by o_operation_id (a_operation_id a) (operations d) = None) (attempts d))),
      (''orphan_reply_claim'', int (count_where (\<lambda>c. original_of d (c_original_id c) = None) (reply_claims d))),
      (''orphan_observation'', int (count_where (\<lambda>b. claim_of d (b_reply_id b) = None) (observations d))),
      (''orphan_winner'', int (count_where (\<lambda>w. claim_of d (w_reply_id w) = None) (reply_winners d)))]"

text \<open>
  \<open>checkDB\<close>: \<open>integrity\<close> is what \<open>PRAGMA integrity_check\<close> says, \<open>version\<close> the schema version and
  \<open>manifest\<close> the verdict of \<open>validateCurrentV8Schema\<close>.
\<close>

definition checkDB ::
  "jerror + string \<Rightarrow> int \<Rightarrow> jerror + unit \<Rightarrow> db \<Rightarrow> jerror option \<times> StorageCheckResult" where
  "checkDB integrity version manifest d =
     (let r = \<lparr>ck_integrity = '''', ck_foreign_keys = [], ck_relationships = []\<rparr> in
      case integrity of
        Inl e \<Rightarrow> (Some (classifyStorageError e), r)
      | Inr s \<Rightarrow>
          (let r = r\<lparr>ck_integrity := s\<rparr> in
           if s \<noteq> ''ok'' then (Some (Wrapped Corrupt (''integrity_check: '' @ s)), r)
           else if version \<noteq> currentSchemaVersion
           then (Some (Wrapped Corrupt (''unsupported schema version '' @ decimal version)), r)
           else case manifest of
             Inl e \<Rightarrow> (Some e, r)
           | Inr _ \<Rightarrow>
               (let r = r\<lparr>ck_foreign_keys := foreign_key_issues d,
                         ck_relationships := map (\<lambda>(name, n). name @ ''='' @ decimal n)
                           (filter (\<lambda>(_, n). n \<noteq> 0) (relationship_counts d))\<rparr> in
                if ck_foreign_keys r \<noteq> [] \<or> ck_relationships r \<noteq> []
                then (Some (Wrapped Corrupt ''relationship checks failed''), r)
                else (None, r))))"

section \<open>Pruning keeps the tables consistent\<close>

text \<open>Every claim answers an original that asked for a reply on a route.\<close>

definition routed :: "db \<Rightarrow> bool" where
  "routed d = (\<forall>c\<in>set (reply_claims d). c_reply_route c \<noteq> '''')"

lemma pruned_operation_iff:
  assumes "journal_inv d" "p \<in> set (operations d)"
  shows "o_operation_id p \<in> set (prune_operations cutoff d) \<longleftrightarrow> retentionOperation cutoff d p"
proof -
  have "q = p" if "q \<in> set (operations d)" "o_operation_id q = o_operation_id p" for q
    using inv_struct[OF assms(1)] assms(2) that by (auto simp: ops_ok_def distinct_map inj_on_def)
  then show ?thesis using assms(2) by (auto simp: prune_operations_def image_iff)
qed

lemma pruned_reply_iff:
  assumes "journal_inv d" "c \<in> set (reply_claims d)"
  shows "c_reply_id c \<in> set (prune_replies cutoff d) \<longleftrightarrow> retentionReply cutoff d c"
proof -
  have "x = c" if "x \<in> set (reply_claims d)" "c_reply_id x = c_reply_id c" for x
    using inv_struct[OF assms(1)] assms(2) that by (auto simp: claims_ok_def distinct_map inj_on_def)
  then show ?thesis using assms(2) by (auto simp: prune_replies_def image_iff)
qed

lemma claim_in_inv: "journal_inv d \<Longrightarrow> c \<in> set (reply_claims d) \<Longrightarrow> claim_of d (c_reply_id c) = Some c"
  using inv_struct[of d] row_by_in_set[of c_reply_id "reply_claims d" c] by (simp add: claims_ok_def)

lemma original_in_inv:
  "journal_inv d \<Longrightarrow> p \<in> set (operations d) \<Longrightarrow> original_of d (o_message_id p) = Some p"
  using inv_struct[of d] row_by_in_set[of o_message_id "operations d" p] by (simp add: ops_ok_def)

text \<open>A claim goes exactly when its operation goes.\<close>

lemma pruned_together:
  assumes inv: "journal_inv d" and r: "routed d" and c: "c \<in> set (reply_claims d)"
    and p: "original_of d (c_original_id c) = Some p"
  shows "retentionReply cutoff d c \<longleftrightarrow> retentionOperation cutoff d p"
proof -
  have pin: "p \<in> set (operations d)" "o_message_id p = c_original_id c"
    using p by (auto dest: row_by_SomeD)
  have "held d c" using inv_claim[OF inv claim_in_inv[OF inv c]] by (simp add: claim_sound_def)
  then have "o_reply_route p \<noteq> ''''"
    using p r c by (auto simp: held_def custody_relationship_def routed_def)
  then have "retentionOperation cutoff d p \<Longrightarrow> settled_claim cutoff c"
    using c pin by (auto simp: retentionOperation_def related_settled_def)
  moreover have "q = p" if "q \<in> set (operations d)" "o_message_id q = c_original_id c" for q
    using original_in_inv[OF inv that(1)] p that(2) by simp
  ultimately show ?thesis using pin unfolding retentionReply_def by blast
qed

lemma prune_claims:
  assumes inv: "journal_inv d" and h: "prune cutoff d = Inr (n, d')"
  shows "claim_of d' rid = (case claim_of d rid of None \<Rightarrow> None
      | Some c \<Rightarrow> if retentionReply cutoff d c then None else Some c)"
    "original_of d' m = (case original_of d m of None \<Rightarrow> None
      | Some p \<Rightarrow> if retentionOperation cutoff d p then None else Some p)"
    "winner_of d' q = (case winner_of d q of None \<Rightarrow> None
      | Some w \<Rightarrow> if w_reply_id w \<in> set (prune_replies cutoff d) then None else Some w)"
    "observation_of d' rid = (case observation_of d rid of None \<Rightarrow> None
      | Some b \<Rightarrow> if rid \<in> set (prune_replies cutoff d) then None else Some b)"
proof -
  note st = inv_struct[OF inv]
  from h have d': "reply_claims d' = delete_where (\<lambda>c. c_reply_id c \<in> set (prune_replies cutoff d)) (reply_claims d)"
    "operations d' = delete_where (\<lambda>p. o_operation_id p \<in> set (prune_operations cutoff d)) (operations d)"
    "reply_winners d' = delete_where (\<lambda>w. w_reply_id w \<in> set (prune_replies cutoff d)) (reply_winners d)"
    "observations d' = delete_where (\<lambda>b. b_reply_id b \<in> set (prune_replies cutoff d)) (observations d)"
    by (auto simp: prune_def Let_def)
  show "claim_of d' rid = (case claim_of d rid of None \<Rightarrow> None
      | Some c \<Rightarrow> if retentionReply cutoff d c then None else Some c)"
  proof (cases "claim_of d rid")
    case (Some c)
    with row_by_SomeD[OF Some] st pruned_reply_iff[OF inv, of c cutoff] show ?thesis
      by (simp add: d' row_by_delete_where claims_ok_def)
  qed (use st in \<open>simp add: d' row_by_delete_where claims_ok_def\<close>)
  show "original_of d' m = (case original_of d m of None \<Rightarrow> None
      | Some p \<Rightarrow> if retentionOperation cutoff d p then None else Some p)"
  proof (cases "original_of d m")
    case (Some p)
    with row_by_SomeD[OF Some] st pruned_operation_iff[OF inv, of p cutoff] show ?thesis
      by (simp add: d' row_by_delete_where ops_ok_def)
  qed (use st in \<open>simp add: d' row_by_delete_where ops_ok_def\<close>)
  show "winner_of d' q = (case winner_of d q of None \<Rightarrow> None
      | Some w \<Rightarrow> if w_reply_id w \<in> set (prune_replies cutoff d) then None else Some w)"
    using st by (simp add: d' row_by_delete_where links_ok_def)
  show "observation_of d' rid = (case observation_of d rid of None \<Rightarrow> None
      | Some b \<Rightarrow> if rid \<in> set (prune_replies cutoff d) then None else Some b)"
    using st by (auto simp: d' row_by_delete_where links_ok_def dest: row_by_key split: option.splits)
qed

lemma image_delete_where:
  "key ` set rows \<subseteq> key2 ` set rows2 \<Longrightarrow>
     key ` set (delete_where (\<lambda>r. key r \<in> X) rows) \<subseteq> key2 ` set (delete_where (\<lambda>r. key2 r \<in> X) rows2)"
  by (force simp: image_subset_iff image_iff)

lemma prune_struct:
  assumes inv: "journal_inv d" and h: "prune cutoff d = Inr (n, d')"
  shows "struct_ok d'"
proof -
  note st = inv_struct[OF inv]
  from h have d': "d' = snd (projr (prune cutoff d))" by simp
  note f = d'[unfolded prune_def Let_def, simplified]
  have "ops_ok d'"
    using st by (simp add: ops_ok_def f distinct_delete_where image_delete_where del: set_delete_where) simp
  moreover have "claims_ok d'"
    using st by (auto simp: claims_ok_def f distinct_delete_where)
  moreover have "links_ok d'"
    using st by (simp add: links_ok_def f distinct_delete_where image_delete_where del: set_delete_where)
  moreover have "events_ok d'"
    using st by (auto simp: events_ok_def f delete_where_def sorted_wrt_map intro: sorted_wrt_filter)
  ultimately show ?thesis by (simp add: struct_ok_def)
qed

lemma prune_keeps_inv:
  assumes inv: "journal_inv d" and r: "routed d" and h: "prune cutoff d = Inr (n, d')"
  shows "journal_inv d'" "routed d'"
proof -
  note look = prune_claims[OF inv h]
  note st = inv_struct[OF inv]
  have ev: "events d' = delete_where (\<lambda>e. e_reply_id e \<in> set (prune_replies cutoff d))
      (delete_where (\<lambda>e. e_operation_id e \<in> set (prune_operations cutoff d)) (events d))"
    using h by (auto simp: prune_def Let_def)
  have kept: "claim_of d rid = Some c \<and> \<not> retentionReply cutoff d c" if "claim_of d' rid = Some c" for rid c
    using that by (auto simp: look split: option.splits if_splits)
  have cs: "claim_sound d' c" if c': "claim_of d' rid = Some c" for rid c
  proof -
    from kept[OF c'] have c: "claim_of d rid = Some c" and np: "\<not> retentionReply cutoff d c" by auto
    have cin: "c \<in> set (reply_claims d)" and key: "c_reply_id c = rid" using row_by_SomeD[OF c] by auto
    have s: "claim_sound d c" using inv c by (rule inv_claim)
    then obtain p where p: "original_of d (c_original_id c) = Some p"
      using held_original[of d c] by (auto simp: claim_sound_def)
    have live: "\<not> retentionOperation cutoff d p" using pruned_together[OF inv r cin p] np by simp
    have nr: "rid \<notin> set (prune_replies cutoff d)" using np pruned_reply_iff[OF inv cin] key by simp
    have "original_of d' (c_original_id c) = original_of d (c_original_id c)" using p live by (simp add: look)
    then have "held d' c" using s by (simp add: claim_sound_def held_def custody_relationship_def)
    moreover have "winner_of d' (c_original_id c) \<noteq> None" if "positive c"
    proof -
      from s that obtain w where w: "winner_of d (c_original_id c) = Some w" by (auto simp: claim_sound_def)
      from inv_winner[OF inv w] row_by_key[OF w] obtain x where x: "claim_of d (w_reply_id w) = Some x"
        "c_original_id x = c_original_id c" by (auto simp: winner_sound_def)
      have xin: "x \<in> set (reply_claims d)" "c_reply_id x = w_reply_id w" using row_by_SomeD[OF x(1)] by auto
      have "\<not> retentionReply cutoff d x" using pruned_together[OF inv r xin(1)] p x(2) live by simp
      with w pruned_reply_iff[OF inv xin(1)] xin(2) show ?thesis by (simp add: look)
    qed
    moreover have "native_of d' (c_reply_id c) = native_of d (c_reply_id c)"
      using nr key by (simp add: native_of_def look split: option.splits)
    moreover have "e \<in> set (events d')" if "e \<in> set (events d)" "e_operation_id e = ''''" "e_reply_id e = c_reply_id c" for e
    proof -
      have "'''' \<notin> set (prune_operations cutoff d)"
        using st by (auto simp: prune_operations_def ops_ok_def)
      with that nr key show ?thesis by (simp add: ev)
    qed
    ultimately show ?thesis using s by (auto simp: claim_sound_def)
  qed
  have ws: "winner_sound d' w" if "winner_of d' q = Some w" for q w
  proof -
    from that have w: "winner_of d q = Some w" and nr: "w_reply_id w \<notin> set (prune_replies cutoff d)"
      by (auto simp: look split: option.splits if_splits)
    from inv_winner[OF inv w] obtain x where x: "claim_of d (w_reply_id w) = Some x" "c_original_id x = w_original_id w"
      "positive x" "c_commit_seq x = Some (w_commit_seq w)" by (auto simp: winner_sound_def)
    have "x \<in> set (reply_claims d)" "c_reply_id x = w_reply_id w" using row_by_SomeD[OF x(1)] by auto
    with x nr pruned_reply_iff[OF inv, of x cutoff] show ?thesis by (simp add: winner_sound_def look)
  qed
  from prune_struct[OF inv h] cs ws show "journal_inv d'" by (simp add: journal_inv_def)
  have "set (reply_claims d') \<subseteq> set (reply_claims d)" using h by (auto simp: prune_def Let_def)
  with r show "routed d'" by (auto simp: routed_def)
qed

end
