(* ===== verification/Go_Json.thy ===== *)
theory Go_Json
  imports Prelude
begin

text \<open>
  The part of Go's \<open>unicode/utf8\<close> and \<open>encoding/json\<close> that the program relies on, over byte
  strings: validity and decoding of UTF-8, the JSON text of a string as \<open>json.Marshal\<close> writes it
  (with its HTML escapes and replacement characters), a lexer and a push-down parser for JSON
  texts, and the compact rendering of a value. The lemmas show that rendering and parsing are
  inverse. A number is kept as its literal.
\<close>

section \<open>UTF-8\<close>

definition byte :: "char \<Rightarrow> nat" where
  "byte c = of_char c"

definition cont :: "char \<Rightarrow> bool" where
  "cont c = (0x80 \<le> byte c \<and> byte c \<le> 0xBF)"

text \<open>The length of the encoding at the front of a string, 0 where \<open>utf8.DecodeRune\<close> fails.\<close>

definition lead_size :: "char \<Rightarrow> nat" where
  "lead_size c =
     (if byte c < 0x80 then 1 else if byte c < 0xC2 then 0 else if byte c < 0xE0 then 2
      else if byte c < 0xF0 then 3 else if byte c < 0xF5 then 4 else 0)"

definition second_ok :: "char \<Rightarrow> char \<Rightarrow> bool" where
  "second_ok c d =
     ((byte c = 0xE0 \<longrightarrow> 0xA0 \<le> byte d) \<and> (byte c = 0xED \<longrightarrow> byte d \<le> 0x9F) \<and>
      (byte c = 0xF0 \<longrightarrow> 0x90 \<le> byte d) \<and> (byte c = 0xF4 \<longrightarrow> byte d \<le> 0x8F))"

definition rune_size :: "string \<Rightarrow> nat" where
  "rune_size s = (case s of [] \<Rightarrow> 0 | c # r \<Rightarrow>
     let n = lead_size c in
     if n \<le> 1 then n
     else if n \<le> length s \<and> second_ok c (hd r) \<and> list_all cont (take (n - 1) r) then n else 0)"

lemma rune_size_Nil [simp]: "rune_size [] = 0"
  by (simp add: rune_size_def)

lemma rune_size_le: "rune_size s \<le> length s"
  by (cases s) (auto simp: rune_size_def Let_def)

lemma rune_size_ascii [simp]: "byte c < 0x80 \<Longrightarrow> rune_size (c # s) = Suc 0"
  by (simp add: rune_size_def lead_size_def)

lemma rune_size_1 [simp]: "rune_size (c # s) = Suc 0 \<longleftrightarrow> byte c < 0x80"
  by (auto simp: rune_size_def Let_def lead_size_def)

lemma rune_size_append:
  assumes "rune_size s \<noteq> 0"
  shows "rune_size (s @ t) = rune_size s"
proof (cases s)
  case (Cons c r)
  show ?thesis
  proof (cases "lead_size c \<le> 1")
    case False
    with assms Cons have "r \<noteq> []" by (cases r) (auto simp: rune_size_def Let_def)
    with False assms Cons show ?thesis by (auto simp: rune_size_def Let_def split: if_splits)
  qed (simp add: Cons rune_size_def)
qed (use assms in simp)

lemma rune_size_take:
  assumes "rune_size s \<noteq> 0"
  shows "rune_size (take (rune_size s) s @ t) = rune_size s"
proof (cases s)
  case (Cons c r)
  show ?thesis
  proof (cases "lead_size c \<le> 1")
    case True
    with assms Cons show ?thesis by (cases "lead_size c") (auto simp: rune_size_def Let_def)
  next
    case False
    with assms Cons have n: "rune_size s = lead_size c" and r: "r \<noteq> []"
      by (cases r; auto simp: rune_size_def Let_def split: if_splits)+
    then have "take (rune_size s) s = c # take (lead_size c - 1) r"
      using False by (cases "lead_size c") (auto simp: Cons)
    moreover from False obtain k where "lead_size c - 1 = Suc k" by (cases "lead_size c - 1") auto
    ultimately show ?thesis
      using False assms Cons n r
      by (cases r) (auto simp: rune_size_def Let_def split: if_splits)
  qed
qed (use assms in simp)

text \<open>\<open>utf8.ValidString\<close>.\<close>

function utf8_valid :: "string \<Rightarrow> bool" where
  "utf8_valid s = (if s = [] then True else if rune_size s = 0 then False else utf8_valid (drop (rune_size s) s))"
  by auto
termination
  by (relation "measure length") auto

declare utf8_valid.simps [simp del]

lemma utf8_valid_Nil [simp]: "utf8_valid []"
  by (simp add: utf8_valid.simps)

lemma utf8_valid_ascii: "byte c < 0x80 \<Longrightarrow> utf8_valid (c # s) = utf8_valid s"
  by (subst utf8_valid.simps) (simp add: rune_size_ascii)

lemma utf8_valid_step: "utf8_valid s \<Longrightarrow> s \<noteq> [] \<Longrightarrow> rune_size s \<noteq> 0 \<and> utf8_valid (drop (rune_size s) s)"
  by (metis utf8_valid.simps)

lemma utf8_valid_append: "utf8_valid s \<Longrightarrow> utf8_valid (s @ t) = utf8_valid t"
proof (induction s rule: utf8_valid.induct)
  case (1 s)
  show ?case
  proof (cases "s = []")
    case False
    with 1 have "rune_size s \<noteq> 0" "utf8_valid (drop (rune_size s) s)" by (auto dest: utf8_valid_step)
    moreover from this have "rune_size (s @ t) = rune_size s" by (simp add: rune_size_append)
    moreover have "drop (rune_size s) (s @ t) = drop (rune_size s) s @ t"
      using rune_size_le[of s] by simp
    ultimately show ?thesis using 1 False by (subst utf8_valid.simps) simp
  qed simp
qed

lemma utf8_valid_all_ascii: "\<forall>c\<in>set s. byte c < 0x80 \<Longrightarrow> utf8_valid s"
  by (induction s) (auto simp: utf8_valid_ascii)

text \<open>The encoding of a code point, as \<open>utf8.AppendRune\<close> writes it.\<close>

definition rune_bytes :: "nat \<Rightarrow> string" where
  "rune_bytes r =
     (if r < 0x80 then [char_of r]
      else if r < 0x800 then [char_of (0xC0 + r div 64), char_of (0x80 + r mod 64)]
      else if r < 0x10000 then [char_of (0xE0 + r div 4096), char_of (0x80 + r div 64 mod 64), char_of (0x80 + r mod 64)]
      else [char_of (0xF0 + r div 262144), char_of (0x80 + r div 4096 mod 64),
            char_of (0x80 + r div 64 mod 64), char_of (0x80 + r mod 64)])"

definition replacement :: string where
  "replacement = [CHR 0xEF, CHR 0xBF, CHR 0xBD]"

section \<open>JSON strings\<close>

definition is_control :: "char \<Rightarrow> bool" where
  "is_control c = (byte c < 0x20)"

text \<open>One ASCII byte as \<open>appendString\<close> of \<open>encoding/json\<close> writes it, HTML escapes included.\<close>

definition escape_byte :: "char \<Rightarrow> string" where
  "escape_byte c =
     (if c = CHR 0x22 then [CHR 0x5C, CHR 0x22]
      else if c = CHR 0x5C then [CHR 0x5C, CHR 0x5C]
      else if c = CHR 0x08 then [CHR 0x5C, CHR ''b'']
      else if c = CHR 0x0C then [CHR 0x5C, CHR ''f'']
      else if c = CHR 0x0A then [CHR 0x5C, CHR ''n'']
      else if c = CHR 0x0D then [CHR 0x5C, CHR ''r'']
      else if c = CHR 0x09 then [CHR 0x5C, CHR ''t'']
      else if is_control c \<or> c = CHR ''<'' \<or> c = CHR ''>'' \<or> c = CHR ''&''
        then [CHR 0x5C, CHR ''u'', CHR ''0'', CHR ''0'', hex_digit (byte c div 16), hex_digit (byte c mod 16)]
      else [c])"

text \<open>U+2028 and U+2029 are escaped too.\<close>

definition line_separator :: "string \<Rightarrow> char option" where
  "line_separator s =
     (if take 3 s = [CHR 0xE2, CHR 0x80, CHR 0xA8] then Some CHR ''8''
      else if take 3 s = [CHR 0xE2, CHR 0x80, CHR 0xA9] then Some CHR ''9'' else None)"

function quote_body :: "string \<Rightarrow> string" where
  "quote_body s = (case s of [] \<Rightarrow> [] | c # r \<Rightarrow>
     if rune_size s = 0 then [CHR 0x5C] @ ''ufffd'' @ quote_body r
     else if rune_size s = 1 then escape_byte c @ quote_body r
     else case line_separator s of
       Some x \<Rightarrow> [CHR 0x5C] @ ''u202'' @ [x] @ quote_body (drop (rune_size s) s)
     | None \<Rightarrow> take (rune_size s) s @ quote_body (drop (rune_size s) s))"
  by auto
termination
  by (relation "measure length") auto

declare quote_body.simps [simp del]

lemma quote_body_Nil [simp]: "quote_body [] = []"
  by (subst quote_body.simps) simp

definition quote :: "string \<Rightarrow> string" where
  "quote s = [CHR 0x22] @ quote_body s @ [CHR 0x22]"

text \<open>Hexadecimal digits in either case.\<close>

definition hex_val :: "char \<Rightarrow> nat option" where
  "hex_val c =
     (if is_digit c then Some (byte c - 48)
      else if in_range CHR ''a'' CHR ''f'' c then Some (byte c - 87)
      else if in_range CHR ''A'' CHR ''F'' c then Some (byte c - 55) else None)"

definition hex4 :: "string \<Rightarrow> nat option" where
  "hex4 s = (case s of a # b # c # d # _ \<Rightarrow>
       (case (hex_val a, hex_val b, hex_val c, hex_val d) of
          (Some w, Some x, Some y, Some z) \<Rightarrow> Some (((w * 16 + x) * 16 + y) * 16 + z)
        | _ \<Rightarrow> None)
     | _ \<Rightarrow> None)"

definition high_surrogate :: "nat \<Rightarrow> bool" where
  "high_surrogate r = (0xD800 \<le> r \<and> r < 0xDC00)"

definition low_surrogate :: "nat \<Rightarrow> bool" where
  "low_surrogate r = (0xDC00 \<le> r \<and> r < 0xE000)"

text \<open>The second half of a surrogate pair, when the text goes on with one.\<close>

definition pair_tail :: "string \<Rightarrow> nat option" where
  "pair_tail s = (case s of b # u # r \<Rightarrow>
       if b = CHR 0x5C \<and> u = CHR ''u'' then
         (case hex4 r of Some x \<Rightarrow> if low_surrogate x then Some x else None | None \<Rightarrow> None)
       else None
     | _ \<Rightarrow> None)"

definition simple_escape :: "char \<Rightarrow> char option" where
  "simple_escape c =
     (if c = CHR 0x22 \<or> c = CHR 0x5C \<or> c = CHR ''/'' then Some c
      else if c = CHR ''b'' then Some CHR 0x08
      else if c = CHR ''f'' then Some CHR 0x0C
      else if c = CHR ''n'' then Some CHR 0x0A
      else if c = CHR ''r'' then Some CHR 0x0D
      else if c = CHR ''t'' then Some CHR 0x09 else None)"

text \<open>One escape after its backslash: the bytes it stands for and how many bytes it takes.\<close>

definition unescape :: "string \<Rightarrow> (string \<times> nat) option" where
  "unescape s = (case s of [] \<Rightarrow> None | c # r \<Rightarrow>
     if c = CHR ''u'' then
       (case hex4 r of None \<Rightarrow> None
        | Some x \<Rightarrow>
            if high_surrogate x then
              (case pair_tail (drop 4 r) of
                 Some y \<Rightarrow> Some (rune_bytes ((x - 0xD800) * 1024 + (y - 0xDC00) + 0x10000), 11)
               | None \<Rightarrow> Some (replacement, 5))
            else if low_surrogate x then Some (replacement, 5)
            else Some (rune_bytes x, 5))
     else map_option (\<lambda>x. ([x], 1)) (simple_escape c))"

lemma unescape_pos: "unescape s = Some (b, n) \<Longrightarrow> 0 < n"
  by (auto simp: unescape_def split: list.splits if_splits option.splits)

text \<open>A string's value and the text after its closing quote.\<close>

function unquote :: "string \<Rightarrow> (string \<times> string) option" where
  "unquote s = (case s of [] \<Rightarrow> None | c # r \<Rightarrow>
     if c = CHR 0x22 then Some ([], r)
     else if c = CHR 0x5C then
       (case unescape r of None \<Rightarrow> None
        | Some (b, n) \<Rightarrow> map_option (apfst ((@) b)) (unquote (drop n r)))
     else if is_control c then None
     else if rune_size s = 0 then map_option (apfst ((@) replacement)) (unquote r)
     else map_option (apfst ((@) (take (rune_size s) s))) (unquote (drop (rune_size s) s)))"
  by auto
termination
  by (relation "measure length") auto

declare unquote.simps [simp del]

lemma unquote_Nil [simp]: "unquote [] = None"
  by (subst unquote.simps) simp

lemma unquote_Cons: "unquote (c # r) =
    (if c = CHR 0x22 then Some ([], r)
     else if c = CHR 0x5C then
       (case unescape r of None \<Rightarrow> None
        | Some (b, n) \<Rightarrow> map_option (apfst ((@) b)) (unquote (drop n r)))
     else if is_control c then None
     else if rune_size (c # r) = 0 then map_option (apfst ((@) replacement)) (unquote r)
     else map_option (apfst ((@) (take (rune_size (c # r)) (c # r)))) (unquote (drop (rune_size (c # r)) (c # r))))"
  by (subst unquote.simps) simp

lemma unquote_len: "unquote s = Some (v, r) \<Longrightarrow> length r < length s"
proof (induction s arbitrary: v rule: unquote.induct)
  case (1 s)
  show ?case
  proof (cases s)
    case (Cons c t)
    note u = 1(4)[unfolded Cons unquote_Cons]
    consider "c = CHR 0x22" | b n where "c = CHR 0x5C" "unescape t = Some (b, n)"
      | "c \<noteq> CHR 0x22" "c \<noteq> CHR 0x5C" "\<not> is_control c" "rune_size s = 0"
      | "c \<noteq> CHR 0x22" "c \<noteq> CHR 0x5C" "\<not> is_control c" "rune_size s \<noteq> 0"
      using u by (cases "unescape t") (auto split: if_splits)
    then show ?thesis
    proof cases
      case 1
      with u Cons show ?thesis by simp
    next
      case (2 b n)
      with u obtain v' where "unquote (drop n t) = Some (v', r)"
        by (auto simp: apfst_def map_prod_def split: prod.splits)
      from "1.IH"(1)[OF Cons _ _ _ _ this] 2 show ?thesis by (fastforce simp: Cons)
    next
      case 3
      with u Cons obtain v' where "unquote t = Some (v', r)"
        by (auto simp: apfst_def map_prod_def split: prod.splits)
      from "1.IH"(2)[OF Cons _ _ _ _ this] 3 show ?thesis by (simp add: Cons)
    next
      case 4
      with u Cons obtain v' where "unquote (drop (rune_size s) s) = Some (v', r)"
        by (auto simp: apfst_def map_prod_def split: prod.splits)
      from "1.IH"(3)[OF Cons _ _ _ _ this] 4 show ?thesis by (simp add: Cons)
    qed
  qed (use 1(4) in simp)
qed

lemma hex_val_digit: "n < 16 \<Longrightarrow> hex_val (hex_digit n) = Some n"
proof -
  have "\<forall>n\<in>set [0..<16]. hex_val (hex_digit n) = Some n" by code_simp
  then show "n < 16 \<Longrightarrow> hex_val (hex_digit n) = Some n" by simp
qed

lemma byte_bound: "byte c < 256"
  by (simp add: byte_def)

lemma byte_eq: "byte c = byte d \<longleftrightarrow> c = d"
  by (simp add: byte_def)

lemma char_of_byte [simp]: "char_of (byte c) = c"
  by (simp add: byte_def)

lemma append_one [simp]: "(@) [c] = (#) c"
  by (rule ext) simp

lemma unquote_escape_byte:
  assumes "byte c < 0x80"
  shows "unquote (escape_byte c @ t) = map_option (apfst ((#) c)) (unquote t)"
proof (cases "length (escape_byte c) = 6")
  case True
  then have esc: "escape_byte c = [CHR 0x5C, CHR ''u'', CHR ''0'', CHR ''0'', hex_digit (byte c div 16), hex_digit (byte c mod 16)]"
    by (auto simp: escape_byte_def split: if_splits)
  have "byte c div 16 < 16" "byte c mod 16 < 16" using assms by auto
  then have "hex4 (CHR ''0'' # CHR ''0'' # hex_digit (byte c div 16) # hex_digit (byte c mod 16) # t) = Some (byte c)"
    using hex_val_digit[of 0] by (simp add: hex4_def hex_val_digit hex_digit_def[of 0])
  then show ?thesis
    using assms by (simp add: esc unquote_Cons unescape_def high_surrogate_def low_surrogate_def rune_bytes_def append_Cons[abs_def])
next
  case False
  then have "escape_byte c = [c] \<and> c \<noteq> CHR 0x22 \<and> c \<noteq> CHR 0x5C \<and> \<not> is_control c \<or>
     (\<exists>x. escape_byte c = [CHR 0x5C, x] \<and> unescape (x # t) = Some ([c], 1))"
    by (auto simp: escape_byte_def unescape_def simple_escape_def split: if_splits)
  then show ?thesis
  proof (elim disjE exE conjE)
    assume "escape_byte c = [c]" "c \<noteq> CHR 0x22" "c \<noteq> CHR 0x5C" "\<not> is_control c"
    then show ?thesis using rune_size_ascii[OF assms, of t] by (simp add: unquote_Cons)
  next
    fix x assume "escape_byte c = [CHR 0x5C, x]" "unescape (x # t) = Some ([c], 1)"
    then show ?thesis by (simp add: unquote_Cons)
  qed
qed

lemma line_separator_Some:
  assumes "line_separator s = Some x" "rune_size s \<noteq> 0"
  shows "rune_size s = 3 \<and> unescape (''u202'' @ x # t) = Some (take 3 s, 5)"
proof -
  have three: "rune_size s = 3" if "take 3 s = [CHR 0xE2, CHR 0x80, y]" for y
    using that assms(2) by (cases s) (auto simp: rune_size_def Let_def lead_size_def byte_def split: if_splits)
  have sep: "rune_bytes 0x2028 = [CHR 0xE2, CHR 0x80, CHR 0xA8]" "rune_bytes 0x2029 = [CHR 0xE2, CHR 0x80, CHR 0xA9]"
    by (simp_all add: rune_bytes_def char_of_def bit_Suc_0_iff)
  have two: "unescape (''u2028'' @ t) = Some (rune_bytes 0x2028, 5)" "unescape (''u2029'' @ t) = Some (rune_bytes 0x2029, 5)"
    by (simp_all add: unescape_def hex4_def hex_val_def is_digit_def in_range_def byte_def high_surrogate_def low_surrogate_def)
  show ?thesis
    using assms(1) three two[unfolded sep] by (auto simp: line_separator_def split: if_splits)
qed

text \<open>The JSON text of a valid string is read back as that string.\<close>

theorem quote_round_trip: "utf8_valid s \<Longrightarrow> unquote (quote_body s @ CHR 0x22 # t) = Some (s, t)"
proof (induction s rule: quote_body.induct)
  case (1 s)
  show ?case
  proof (cases s)
    case (Cons c r)
    let ?n = "rune_size s"
    from utf8_valid_step[OF 1(5)] Cons have n: "?n \<noteq> 0" and v: "utf8_valid (drop ?n s)" by auto
    show ?thesis
    proof (cases "?n = 1")
      case True
      with v Cons have "utf8_valid r" by simp
      from "1.IH"(2)[OF Cons n True this] have "unquote (quote_body r @ CHR 0x22 # t) = Some (r, t)" .
      moreover have "byte c < 0x80" using True Cons by simp
      moreover have "quote_body s = escape_byte c @ quote_body r"
        using True Cons by (subst quote_body.simps) simp
      ultimately show ?thesis by (simp add: unquote_escape_byte Cons)
    next
      case False
      note app = append_take_drop_id[of ?n s, symmetric]
      show ?thesis
      proof (cases "line_separator s")
        case None
        from "1.IH"(3)[OF Cons n False None v] have IH: "unquote (quote_body (drop ?n s) @ CHR 0x22 # t) = Some (drop ?n s, t)" .
        have q: "quote_body s = take ?n s @ quote_body (drop ?n s)"
          using False n None Cons by (subst quote_body.simps) simp
        obtain m where m: "?n = Suc m" using n by (cases ?n) auto
        let ?u = "take ?n s @ quote_body (drop ?n s) @ CHR 0x22 # t"
        have "rune_size ?u = ?n" using rune_size_take[OF n] by simp
        moreover have "?u = c # take m r @ quote_body (drop ?n s) @ CHR 0x22 # t" using m Cons by simp
        moreover have "drop ?n ?u = quote_body (drop ?n s) @ CHR 0x22 # t" "take ?n ?u = take ?n s"
          using rune_size_le[of s] by simp_all
        moreover have "0x80 \<le> byte c" using False n Cons rune_size_ascii[of c r] by (cases "byte c < 0x80") auto
        then have "c \<noteq> CHR 0x22" "c \<noteq> CHR 0x5C" "\<not> is_control c" by (auto simp: is_control_def byte_def)
        ultimately have "unquote ?u = Some (take ?n s @ drop ?n s, t)"
          using unquote_Cons[of c "take m r @ quote_body (drop ?n s) @ CHR 0x22 # t"] IH n by simp
        then show ?thesis by (simp add: q)
      next
        case (Some x)
        from "1.IH"(4)[OF Cons n False Some v] have IH: "unquote (quote_body (drop ?n s) @ CHR 0x22 # t) = Some (drop ?n s, t)" .
        have q: "quote_body s = CHR 0x5C # ''u202'' @ x # quote_body (drop ?n s)"
          using False n Some Cons by (subst quote_body.simps) simp
        from line_separator_Some[OF Some n] have n3: "?n = 3"
          and un: "unescape (''u202'' @ x # quote_body (drop ?n s) @ CHR 0x22 # t) = Some (take ?n s, 5)" by auto
        show ?thesis
          using un IH n3 unquote_Cons[of "CHR 0x5C"] by (simp add: q)
      qed
    qed
  qed (simp add: unquote_Cons)
qed

section \<open>JSON numbers\<close>

text \<open>A literal of the JSON number grammar and the text after it.\<close>

definition lex_int :: "string \<Rightarrow> (string \<times> string) option" where
  "lex_int s = (case s of [] \<Rightarrow> None | c # r \<Rightarrow>
     if c = CHR ''0'' then Some ([c], r)
     else if is_digit c then Some (takeWhile is_digit s, dropWhile is_digit s) else None)"

definition lex_digits :: "string \<Rightarrow> string \<Rightarrow> (string \<times> string) option" where
  "lex_digits p s = (if takeWhile is_digit s = [] then None else Some (p @ takeWhile is_digit s, dropWhile is_digit s))"

definition lex_frac :: "string \<Rightarrow> (string \<times> string) option" where
  "lex_frac s = (case s of c # r \<Rightarrow> if c = CHR ''.'' then lex_digits [c] r else Some ([], s) | [] \<Rightarrow> Some ([], s))"

definition lex_exp :: "string \<Rightarrow> (string \<times> string) option" where
  "lex_exp s = (case s of [] \<Rightarrow> Some ([], s) | c # r \<Rightarrow>
     if c = CHR ''e'' \<or> c = CHR ''E'' then
       (case r of [] \<Rightarrow> None | d # r' \<Rightarrow>
          if d = CHR ''+'' \<or> d = CHR ''-'' then lex_digits [c, d] r' else lex_digits [c] r)
     else Some ([], s))"

definition lex_unsigned :: "string \<Rightarrow> (string \<times> string) option" where
  "lex_unsigned s =
     (case lex_int s of None \<Rightarrow> None | Some (i, s1) \<Rightarrow>
      (case lex_frac s1 of None \<Rightarrow> None | Some (f, s2) \<Rightarrow>
       (case lex_exp s2 of None \<Rightarrow> None | Some (e, s3) \<Rightarrow> Some (i @ f @ e, s3))))"

definition lex_number :: "string \<Rightarrow> (string \<times> string) option" where
  "lex_number s =
     (if s \<noteq> [] \<and> hd s = CHR ''-'' then map_option (apfst ((#) CHR ''-'')) (lex_unsigned (tl s))
      else lex_unsigned s)"

text \<open>A number literal, and the characters that can go on with one.\<close>

definition number_literal :: "string \<Rightarrow> bool" where
  "number_literal s = (lex_number s = Some (s, []))"

definition number_char :: "char \<Rightarrow> bool" where
  "number_char c = (is_digit c \<or> c = CHR ''.'' \<or> c = CHR ''e'' \<or> c = CHR ''E'')"

definition stops :: "string \<Rightarrow> bool" where
  "stops t = (t = [] \<or> \<not> number_char (hd t))"

lemma span_stop:
  assumes "stops t"
  shows "takeWhile is_digit (s @ t) = takeWhile is_digit s" "dropWhile is_digit (s @ t) = dropWhile is_digit s @ t"
proof -
  have t: "takeWhile is_digit t = []" "dropWhile is_digit t = t"
    using assms by (cases t; auto simp: stops_def number_char_def)+
  show "takeWhile is_digit (s @ t) = takeWhile is_digit s"
    using t by (auto simp: takeWhile_append takeWhile_eq_all_conv[THEN iffD2])
  show "dropWhile is_digit (s @ t) = dropWhile is_digit s @ t"
    using t by (auto simp: dropWhile_append)
qed

lemma lex_digits_stop: "stops t \<Longrightarrow> lex_digits p s = Some (v, r) \<Longrightarrow> lex_digits p (s @ t) = Some (v, r @ t)"
  by (auto simp: lex_digits_def span_stop split: if_splits)

lemma lex_int_stop: "stops t \<Longrightarrow> lex_int s = Some (v, r) \<Longrightarrow> lex_int (s @ t) = Some (v, r @ t)"
  using span_stop[of t s] by (cases s) (auto simp: lex_int_def split: if_splits)

lemma lex_frac_stop: "stops t \<Longrightarrow> lex_frac s = Some (v, r) \<Longrightarrow> lex_frac (s @ t) = Some (v, r @ t)"
  by (cases s; cases t) (auto simp: lex_frac_def stops_def number_char_def dest: lex_digits_stop[rotated] split: if_splits
      intro: lex_digits_stop)

lemma lex_exp_stop: "stops t \<Longrightarrow> lex_exp s = Some (v, r) \<Longrightarrow> lex_exp (s @ t) = Some (v, r @ t)"
proof (cases s)
  case Nil
  then show "stops t \<Longrightarrow> lex_exp s = Some (v, r) \<Longrightarrow> ?thesis"
    by (cases t) (auto simp: lex_exp_def stops_def number_char_def)
next
  case (Cons c s')
  then show "stops t \<Longrightarrow> lex_exp s = Some (v, r) \<Longrightarrow> ?thesis"
    using lex_digits_stop[of t _ "tl s'"] lex_digits_stop[of t _ s']
    by (cases s') (auto simp: lex_exp_def split: if_splits)
qed

lemma lex_unsignedE:
  assumes "lex_unsigned s = Some (v, r)"
  obtains i s1 f s2 e where "lex_int s = Some (i, s1)" "lex_frac s1 = Some (f, s2)" "lex_exp s2 = Some (e, r)" "v = i @ f @ e"
  using assms by (auto simp: lex_unsigned_def split: option.splits)

lemma lex_unsigned_stop:
  assumes t: "stops t" and "lex_unsigned s = Some (v, r)"
  shows "lex_unsigned (s @ t) = Some (v, r @ t)"
  using assms(2)
proof (rule lex_unsignedE)
  fix i s1 f s2 e
  assume "lex_int s = Some (i, s1)" "lex_frac s1 = Some (f, s2)" "lex_exp s2 = Some (e, r)" and v: "v = i @ f @ e"
  from this(1)[THEN lex_int_stop[OF t]] this(2)[THEN lex_frac_stop[OF t]] this(3)[THEN lex_exp_stop[OF t]]
  show ?thesis by (simp add: lex_unsigned_def v)
qed

lemma lex_number_stop:
  assumes "stops t" "lex_number s = Some (v, r)"
  shows "lex_number (s @ t) = Some (v, r @ t)"
proof (cases s)
  case Nil
  with assms show ?thesis by (simp add: lex_number_def lex_unsigned_def lex_int_def)
next
  case (Cons c s')
  with assms show ?thesis
    using lex_unsigned_stop[of t s' _ r] lex_unsigned_stop[of t s v r]
    by (auto simp: lex_number_def split: if_splits)
qed

lemma lex_number_literal: "number_literal s \<Longrightarrow> stops t \<Longrightarrow> lex_number (s @ t) = Some (s, t)"
  using lex_number_stop[of t s s "[]"] by (simp add: number_literal_def)

lemma lex_int_len: "lex_int s = Some (v, r) \<Longrightarrow> length r < length s"
  by (cases s) (auto simp: lex_int_def length_dropWhile_le le_imp_less_Suc split: if_splits)

lemma lex_digits_len: "lex_digits p s = Some (v, r) \<Longrightarrow> length r \<le> length s"
  by (auto simp: lex_digits_def length_dropWhile_le split: if_splits)

lemma lex_frac_len: "lex_frac s = Some (v, r) \<Longrightarrow> length r \<le> length s"
  by (cases s) (auto simp: lex_frac_def dest: lex_digits_len split: if_splits)

lemma lex_exp_len: "lex_exp s = Some (v, r) \<Longrightarrow> length r \<le> length s"
  by (cases s; cases "tl s") (auto simp: lex_exp_def dest: lex_digits_len split: if_splits)

lemma lex_unsigned_len: "lex_unsigned s = Some (v, r) \<Longrightarrow> length r < length s"
  by (erule lex_unsignedE) (fastforce dest!: lex_int_len lex_frac_len lex_exp_len)

lemma lex_number_len: "lex_number s = Some (v, r) \<Longrightarrow> length r < length s"
  by (cases s) (auto simp: lex_number_def dest!: lex_unsigned_len split: if_splits)

section \<open>JSON texts\<close>

datatype json =
    JNull
  | JBool bool
  | JNum string
  | JStr string
  | JArr "json list"
  | JObj "(string \<times> json) list"

datatype token =
    TNull | TBool bool | TNum string | TStr string
  | TOpenArr | TCloseArr | TOpenObj | TCloseObj | TColon | TComma

definition json_space :: "char \<Rightarrow> bool" where
  "json_space c = (c = CHR 0x20 \<or> c = CHR 0x09 \<or> c = CHR 0x0A \<or> c = CHR 0x0D)"

definition punctuation :: "char \<Rightarrow> token option" where
  "punctuation c =
     (if c = CHR ''['' then Some TOpenArr else if c = CHR '']'' then Some TCloseArr
      else if c = CHR 0x7B then Some TOpenObj else if c = CHR 0x7D then Some TCloseObj
      else if c = CHR '':'' then Some TColon else if c = CHR '','' then Some TComma else None)"

text \<open>The token at the front of a non-empty text, and the text after it.\<close>

definition lex_one :: "string \<Rightarrow> (token \<times> string) option" where
  "lex_one s =
     (case punctuation (hd s) of Some t \<Rightarrow> Some (t, tl s)
      | None \<Rightarrow>
          if hd s = CHR 0x22 then map_option (apfst TStr) (unquote (tl s))
          else if has_prefix s ''null'' then Some (TNull, drop 4 s)
          else if has_prefix s ''true'' then Some (TBool True, drop 4 s)
          else if has_prefix s ''false'' then Some (TBool False, drop 5 s)
          else map_option (apfst TNum) (lex_number s))"

lemma lex_one_len: "lex_one s = Some (t, r) \<Longrightarrow> s \<noteq> [] \<Longrightarrow> length r < length s"
proof (cases s)
  case (Cons c s')
  then show "lex_one s = Some (t, r) \<Longrightarrow> ?thesis"
    by (auto simp: lex_one_def has_prefix_def dest: lex_number_len less_SucI[OF unquote_len]
        split: option.splits if_splits prod.splits)
qed simp

function lex :: "string \<Rightarrow> token list option" where
  "lex s = (case s of [] \<Rightarrow> Some [] | c # r \<Rightarrow>
     if json_space c then lex r
     else case lex_one s of None \<Rightarrow> None | Some (t, r') \<Rightarrow> map_option ((#) t) (lex r'))"
  by auto
termination
  by (relation "measure length") (auto dest: lex_one_len)

declare lex.simps [simp del]

lemma lex_Nil [simp]: "lex [] = Some []"
  by (subst lex.simps) simp

lemma lex_Cons: "lex (c # r) = (if json_space c then lex r
    else case lex_one (c # r) of None \<Rightarrow> None | Some (t, r') \<Rightarrow> map_option ((#) t) (lex r'))"
  by (subst lex.simps) simp

text \<open>
  The parser keeps a stack of the arrays and objects it is inside of. An open array holds its
  elements so far, an open object its entries so far and, while a value is awaited, the key.
\<close>

datatype frame = FArr "json list" | FObj "(string \<times> json) list" | FKey "(string \<times> json) list" string

datatype mode = WantValue | WantFirst | WantKey | WantFirstKey | AfterValue | Finished json

fun deliver :: "json \<Rightarrow> frame list \<Rightarrow> frame list \<times> mode" where
  "deliver v [] = ([], Finished v)"
| "deliver v (FArr vs # st) = (FArr (v # vs) # st, AfterValue)"
| "deliver v (FKey kvs k # st) = (FObj ((k, v) # kvs) # st, AfterValue)"
| "deliver v (FObj kvs # st) = (FObj kvs # st, AfterValue)"

text \<open>\<open>maxNestingDepth\<close> of \<open>encoding/json\<close>.\<close>

definition max_depth :: nat where
  "max_depth = 10000"

fun scalar_of :: "token \<Rightarrow> json option" where
  "scalar_of TNull = Some JNull"
| "scalar_of (TBool b) = Some (JBool b)"
| "scalar_of (TNum n) = Some (JNum n)"
| "scalar_of (TStr s) = Some (JStr s)"
| "scalar_of _ = None"

text \<open>One token; \<open>None\<close> for a syntax error.\<close>

definition start_value :: "frame list \<Rightarrow> token \<Rightarrow> (frame list \<times> mode) option" where
  "start_value st t =
     (case scalar_of t of Some v \<Rightarrow> Some (deliver v st)
      | None \<Rightarrow>
          if max_depth \<le> length st then None
          else if t = TOpenArr then Some (FArr [] # st, WantFirst)
          else if t = TOpenObj then Some (FObj [] # st, WantFirstKey)
          else None)"

fun step_token :: "frame list \<Rightarrow> mode \<Rightarrow> token \<Rightarrow> (frame list \<times> mode) option" where
  "step_token st WantValue t = start_value st t"
| "step_token (FArr vs # st) WantFirst t =
     (if t = TCloseArr then Some (deliver (JArr (rev vs)) st) else start_value (FArr vs # st) t)"
| "step_token (FObj kvs # st) WantFirstKey t =
     (if t = TCloseObj then Some (deliver (JObj (rev kvs)) st)
      else case t of TStr k \<Rightarrow> Some (FKey kvs k # st, WantKey) | _ \<Rightarrow> None)"
| "step_token (FKey kvs k # st) WantKey t =
     (if t = TColon then Some (FKey kvs k # st, WantValue) else None)"
| "step_token (FObj kvs # st) WantKey t = (case t of TStr k \<Rightarrow> Some (FKey kvs k # st, WantKey) | _ \<Rightarrow> None)"
| "step_token (FArr vs # st) AfterValue t =
     (if t = TComma then Some (FArr vs # st, WantValue)
      else if t = TCloseArr then Some (deliver (JArr (rev vs)) st) else None)"
| "step_token (FObj kvs # st) AfterValue t =
     (if t = TComma then Some (FObj kvs # st, WantKey)
      else if t = TCloseObj then Some (deliver (JObj (rev kvs)) st) else None)"
| "step_token st m t = None"

fun parse_tokens :: "frame list \<times> mode \<Rightarrow> token list \<Rightarrow> json option" where
  "parse_tokens (st, m) [] = (case (st, m) of ([], Finished v) \<Rightarrow> Some v | _ \<Rightarrow> None)"
| "parse_tokens (st, m) (t # ts) = (case step_token st m t of None \<Rightarrow> None | Some x \<Rightarrow> parse_tokens x ts)"

definition parse_json :: "string \<Rightarrow> json option" where
  "parse_json s = (case lex s of None \<Rightarrow> None | Some ts \<Rightarrow> parse_tokens ([], WantValue) ts)"

section \<open>Compact rendering\<close>

fun intersperse :: "'a \<Rightarrow> 'a list list \<Rightarrow> 'a list" where
  "intersperse c [] = []"
| "intersperse c [x] = x"
| "intersperse c (x # y # xs) = x @ c # intersperse c (y # xs)"

fun render_json :: "json \<Rightarrow> string" where
  "render_json JNull = ''null''"
| "render_json (JBool b) = (if b then ''true'' else ''false'')"
| "render_json (JNum n) = n"
| "render_json (JStr s) = quote s"
| "render_json (JArr vs) = ''['' @ intersperse CHR '','' (map render_json vs) @ '']''"
| "render_json (JObj kvs) =
     [CHR 0x7B] @ intersperse CHR '','' (map (\<lambda>(k, v). quote k @ '':'' @ render_json v) kvs) @ [CHR 0x7D]"

fun json_ok :: "json \<Rightarrow> bool" where
  "json_ok (JNum n) = number_literal n"
| "json_ok (JStr s) = utf8_valid s"
| "json_ok (JArr vs) = (\<forall>v\<in>set vs. json_ok v)"
| "json_ok (JObj kvs) = (\<forall>kv\<in>set kvs. utf8_valid (fst kv) \<and> json_ok (snd kv))"
| "json_ok _ = True"

fun depth :: "json \<Rightarrow> nat" where
  "depth (JArr vs) = Suc (fold max (map depth vs) 0)"
| "depth (JObj kvs) = Suc (fold max (map (\<lambda>kv. depth (snd kv)) kvs) 0)"
| "depth _ = 0"

fun tokens :: "json \<Rightarrow> token list" where
  "tokens JNull = [TNull]"
| "tokens (JBool b) = [TBool b]"
| "tokens (JNum n) = [TNum n]"
| "tokens (JStr s) = [TStr s]"
| "tokens (JArr vs) = TOpenArr # intersperse TComma (map tokens vs) @ [TCloseArr]"
| "tokens (JObj kvs) =
     TOpenObj # intersperse TComma (map (\<lambda>(k, v). TStr k # TColon # tokens v) kvs) @ [TCloseObj]"

section \<open>Parsing a rendered value\<close>

definition prepend :: "'a list \<Rightarrow> 'a list option \<Rightarrow> 'a list option" where
  "prepend ts m = map_option ((@) ts) m"

lemma prepend_prepend [simp]: "prepend xs (prepend ys m) = prepend (xs @ ys) m"
  by (cases m) (simp_all add: prepend_def)

lemma prepend_Some [simp]: "prepend xs (Some ys) = Some (xs @ ys)"
  by (simp add: prepend_def)

lemma prepend_Nil [simp]: "prepend [] m = m"
  by (cases m) (simp_all add: prepend_def)

lemma map_option_Cons: "map_option ((#) x) m = prepend [x] m"
  by (simp add: prepend_def)

lemma lex_punctuation:
  assumes "punctuation c = Some t"
  shows "lex (c # r) = prepend [t] (lex r)"
proof -
  have "\<not> json_space c" using assms by (auto simp: punctuation_def json_space_def split: if_splits)
  then show ?thesis using assms by (simp add: lex_Cons lex_one_def map_option_Cons)
qed

lemma lex_punctuations [simp]:
  "lex (CHR ''['' # r) = prepend [TOpenArr] (lex r)"
  "lex (CHR '']'' # r) = prepend [TCloseArr] (lex r)"
  "lex (CHR 0x7B # r) = prepend [TOpenObj] (lex r)"
  "lex (CHR 0x7D # r) = prepend [TCloseObj] (lex r)"
  "lex (CHR '':'' # r) = prepend [TColon] (lex r)"
  "lex (CHR '','' # r) = prepend [TComma] (lex r)"
  by (rule lex_punctuation, simp add: punctuation_def)+

lemma lex_quote: "utf8_valid s \<Longrightarrow> lex (quote s @ r) = prepend [TStr s] (lex r)"
  by (simp add: quote_def lex_Cons json_space_def lex_one_def punctuation_def quote_round_trip map_option_Cons)

lemma lex_words [simp]:
  "lex (''null'' @ r) = prepend [TNull] (lex r)"
  "lex (''true'' @ r) = prepend [TBool True] (lex r)"
  "lex (''false'' @ r) = prepend [TBool False] (lex r)"
  by (simp_all add: lex_Cons json_space_def lex_one_def punctuation_def has_prefix_def map_option_Cons)

lemma number_head: "number_literal n \<Longrightarrow> \<exists>c r. n = c # r \<and> (is_digit c \<or> c = CHR ''-'')"
  by (cases n) (auto simp: number_literal_def lex_number_def lex_unsigned_def lex_int_def is_digit_def in_range_def
      split: if_splits option.splits)

lemma lex_number_render:
  assumes "number_literal n" "stops r"
  shows "lex (n @ r) = prepend [TNum n] (lex r)"
proof -
  obtain c n' where n: "n = c # n'" and c: "is_digit c \<or> c = CHR ''-''" using number_head[OF assms(1)] by blast
  have "\<not> json_space c" "punctuation c = None" "c \<noteq> CHR 0x22" "c \<noteq> CHR ''n''" "c \<noteq> CHR ''t''" "c \<noteq> CHR ''f''"
    using c by (auto simp: json_space_def punctuation_def is_digit_def in_range_def)
  then show ?thesis
    using lex_number_literal[OF assms] by (simp add: n lex_Cons lex_one_def has_prefix_def map_option_Cons)
qed

lemma stops_punct [simp]:
  "stops (CHR '','' # r)" "stops (CHR '']'' # r)" "stops (CHR 0x7D # r)" "stops []"
  by (simp_all add: stops_def number_char_def is_digit_def in_range_def)

lemma lex_intersperse:
  assumes "\<And>x t. x \<in> set xs \<Longrightarrow> stops t \<Longrightarrow> lex (f x @ t) = prepend (g x) (lex t)" "stops t"
  shows "lex (intersperse CHR '','' (map f xs) @ t) = prepend (intersperse TComma (map g xs)) (lex t)"
  using assms(1)
proof (induction xs rule: induct_list012)
  case 1
  then show ?case by (cases "lex t") simp_all
next
  case (2 x)
  then show ?case using assms(2) by simp
next
  case (3 x y zs)
  have "lex (f x @ CHR '','' # intersperse CHR '','' (map f (y # zs)) @ t)
     = prepend (g x) (lex (CHR '','' # intersperse CHR '','' (map f (y # zs)) @ t))"
    using 3 by (intro 3(3)) simp_all
  with 3 show ?case by simp
qed

lemma lex_render: "json_ok v \<Longrightarrow> stops t \<Longrightarrow> lex (render_json v @ t) = prepend (tokens v) (lex t)"
proof (induction v arbitrary: t)
  case (JArr vs)
  have "lex (intersperse CHR '','' (map render_json vs) @ CHR '']'' # t)
    = prepend (intersperse TComma (map tokens vs)) (lex (CHR '']'' # t))"
    using JArr by (intro lex_intersperse) auto
  then show ?case by simp
next
  case (JObj kvs)
  have *: "lex ((\<lambda>(k, v). quote k @ '':'' @ render_json v) kv @ r) = prepend ((\<lambda>(k, v). TStr k # TColon # tokens v) kv) (lex r)"
    if "kv \<in> set kvs" "stops r" for kv r
  proof -
    obtain k v where kv: "kv = (k, v)" by (cases kv)
    have "lex (render_json v @ r) = prepend (tokens v) (lex r)"
      using JObj.IH[of kv v r] JObj.prems(1) that kv by auto
    then show ?thesis
      using JObj.prems(1) that kv by (auto simp: lex_quote)
  qed
  have "lex (intersperse CHR '','' (map (\<lambda>(k, v). quote k @ '':'' @ render_json v) kvs) @ CHR 0x7D # t)
    = prepend (intersperse TComma (map (\<lambda>(k, v). TStr k # TColon # tokens v) kvs)) (lex (CHR 0x7D # t))"
    using * by (intro lex_intersperse) auto
  then show ?case by simp
next
  case (JBool b)
  then show ?case using lex_words by (cases b) (simp_all del: lex_words)
next
  case JNull
  then show ?case using lex_words by (simp del: lex_words)
qed (simp_all add: lex_quote lex_number_render)

lemma fold_max_le: "fold max xs (a::nat) \<le> n \<longleftrightarrow> a \<le> n \<and> (\<forall>x\<in>set xs. x \<le> n)"
  by (induction xs arbitrary: a) auto

lemma not_scalar_of_start: "start_value st TComma = None" "start_value st TColon = None"
  "start_value st TCloseArr = None" "start_value st TCloseObj = None"
  by (simp_all add: start_value_def)

lemma parse_items:
  assumes "\<And>x st ts. x \<in> set xs \<Longrightarrow> length st + d \<le> max_depth \<Longrightarrow>
      parse_tokens (st, WantValue) (f x @ ts) = parse_tokens (deliver (g x) st) ts"
    and "length st + d < max_depth" "xs \<noteq> []"
  shows "parse_tokens (FArr acc # st, WantValue) (intersperse TComma (map f xs) @ ts)
     = parse_tokens (FArr (rev (map g xs) @ acc) # st, AfterValue) ts"
  using assms(1,3)
proof (induction xs arbitrary: acc rule: induct_list012)
  case (3 x y zs)
  have "parse_tokens (FArr acc # st, WantValue) (f x @ TComma # intersperse TComma (map f (y # zs)) @ ts)
    = parse_tokens (FArr (g x # acc) # st, AfterValue) (TComma # intersperse TComma (map f (y # zs)) @ ts)"
    using 3(3)[of x "FArr acc # st"] assms(2) by simp
  with 3 show ?case by simp
qed (use assms(2) in auto)

lemma parse_entries:
  assumes "\<And>x st ts. x \<in> set xs \<Longrightarrow> length st + d \<le> max_depth \<Longrightarrow>
      parse_tokens (st, WantValue) (f (snd x) @ ts) = parse_tokens (deliver (snd x) st) ts"
    and "length st + d < max_depth" "xs \<noteq> []"
  shows "parse_tokens (FObj acc # st, WantKey) (intersperse TComma (map (\<lambda>(k, v). TStr k # TColon # f v) xs) @ ts)
     = parse_tokens (FObj (rev xs @ acc) # st, AfterValue) ts"
  using assms(1,3)
proof (induction xs arbitrary: acc rule: induct_list012)
  case (2 x)
  then show ?case using assms(2) by (cases x) force
next
  case (3 x y zs)
  obtain k v where x: "x = (k, v)" by (cases x)
  let ?r = "intersperse TComma (map (\<lambda>(k, v). TStr k # TColon # f v) (y # zs)) @ ts"
  have "parse_tokens (FKey acc k # st, WantValue) (f v @ TComma # ?r)
    = parse_tokens (FObj ((k, v) # acc) # st, AfterValue) (TComma # ?r)"
    using 3(3)[of x "FKey acc k # st"] assms(2) by (simp add: x)
  with 3 show ?case by (simp add: x)
qed simp

lemma tokens_start: "\<exists>t ts. tokens v = t # ts \<and> t \<noteq> TCloseArr"
  by (cases v) auto

lemma parse_want_first: "v = tokens x @ ts \<Longrightarrow> parse_tokens (FArr acc # st, WantFirst) v = parse_tokens (FArr acc # st, WantValue) v"
  using tokens_start[of x] by auto

lemma parse_tokens_value:
  "length st + depth v \<le> max_depth \<Longrightarrow> parse_tokens (st, WantValue) (tokens v @ ts) = parse_tokens (deliver v st) ts"
proof (induction v arbitrary: st ts)
  case (JArr vs)
  let ?d = "fold max (map depth vs) 0"
  show ?case
  proof (cases "vs = []")
    case True
    with JArr.prems show ?thesis by (simp add: start_value_def)
  next
    case False
    have "parse_tokens (FArr [] # st, WantValue) (intersperse TComma (map tokens vs) @ TCloseArr # ts)
      = parse_tokens (FArr (rev (map (\<lambda>x. x) vs) @ []) # st, AfterValue) (TCloseArr # ts)"
    proof (rule parse_items[where d = ?d])
      fix x st' ts' assume x: "x \<in> set vs" and "length (st' :: frame list) + ?d \<le> max_depth"
      moreover have "depth x \<le> ?d" using x by (metis fold_max_le image_eqI list.set_map order_refl)
      ultimately show "parse_tokens (st', WantValue) (tokens x @ ts') = parse_tokens (deliver x st') ts'"
        using JArr.IH[OF x, of st' ts'] by simp
    qed (use JArr.prems False in auto)
    moreover obtain v0 vr where "vs = v0 # vr" using False by (cases vs) auto
    then have "\<exists>r. intersperse TComma (map tokens vs) @ TCloseArr # ts = tokens v0 @ r" by (cases vr) auto
    ultimately show ?thesis
      using JArr.prems parse_want_first[of _ v0 _ "[]" st] by (auto simp: start_value_def)
  qed
next
  case (JObj kvs)
  let ?d = "fold max (map (\<lambda>kv. depth (snd kv)) kvs) 0"
  show ?case
  proof (cases "kvs = []")
    case True
    with JObj.prems show ?thesis by (simp add: start_value_def)
  next
    case False
    have "parse_tokens (FObj [] # st, WantKey) (intersperse TComma (map (\<lambda>(k, v). TStr k # TColon # tokens v) kvs) @ TCloseObj # ts)
      = parse_tokens (FObj (rev kvs @ []) # st, AfterValue) (TCloseObj # ts)"
    proof (rule parse_entries[where d = ?d])
      fix x st' ts' assume x: "x \<in> set kvs" and "length (st' :: frame list) + ?d \<le> max_depth"
      moreover have "depth (snd x) \<le> ?d" using x by (metis (mono_tags, lifting) fold_max_le image_eqI list.set_map order_refl)
      ultimately show "parse_tokens (st', WantValue) (tokens (snd x) @ ts') = parse_tokens (deliver (snd x) st') ts'"
        using JObj.IH[OF x snds.intros, of st' ts'] by simp
    qed (use JObj.prems False in auto)
    moreover obtain k v r where "kvs = (k, v) # r" using False by (cases kvs) auto
    then have "\<exists>q. intersperse TComma (map (\<lambda>(k, v). TStr k # TColon # tokens v) kvs) = TStr k # q" by (cases r) auto
    ultimately show ?thesis using JObj.prems by (auto simp: start_value_def)
  qed
qed (simp_all add: start_value_def)

text \<open>A well-formed value that is not nested too deep is read back from its text.\<close>

theorem parse_render: "json_ok v \<Longrightarrow> depth v \<le> max_depth \<Longrightarrow> parse_json (render_json v) = Some v"
  using lex_render[of v "[]"] parse_tokens_value[of "[]" v "[]"] by (simp add: parse_json_def)

end
