(* ===== verification/Go_Codec.thy ===== *)
theory Go_Codec
  imports Go_Json
begin

text \<open>
  How \<open>encoding/json\<close> maps Go values to JSON: struct fields by their tags, matched exactly or
  else without regard to case, entries in order, unknown keys ignored, a \<open>null\<close> leaving scalars
  alone; \<open>omitempty\<close>; maps with sorted keys; 64-bit unsigned integers. A Go map from strings to
  \<open>any\<close> is \<open>None\<close> for nil, else its entries in the order of their keys; a struct's decoder is a
  table from tag to what the entry does to the struct.
\<close>

section \<open>Dynamic values\<close>

type_synonym go_map = "(string \<times> json) list option"

text \<open>Storing an entry in a map kept in key order.\<close>

fun put_entry :: "(string \<times> 'v) list \<Rightarrow> string \<times> 'v \<Rightarrow> (string \<times> 'v) list" where
  "put_entry [] kv = [kv]"
| "put_entry ((k', v') # m) (k, v) =
     (if k = k' then (k, v) # m
      else if k < k' then (k, v) # (k', v') # m
      else (k', v') # put_entry m (k, v))"

text \<open>The \<open>any\<close> that a JSON value decodes to: of several entries with one key the last stays.\<close>

fun any_of :: "json \<Rightarrow> json" where
  "any_of (JArr vs) = JArr (map any_of vs)"
| "any_of (JObj kvs) = JObj (foldl put_entry [] (map (\<lambda>kv. (fst kv, any_of (snd kv))) kvs))"
| "any_of v = v"

definition entries_sorted :: "(string \<times> 'v) list \<Rightarrow> bool" where
  "entries_sorted kvs = sorted_wrt (<) (map fst kvs)"

fun canonical :: "json \<Rightarrow> bool" where
  "canonical (JArr vs) = (\<forall>v\<in>set vs. canonical v)"
| "canonical (JObj kvs) = (entries_sorted kvs \<and> (\<forall>kv\<in>set kvs. canonical (snd kv)))"
| "canonical v = True"

lemma entries_sorted_Nil [simp]: "entries_sorted []"
  by (simp add: entries_sorted_def)

lemma put_entry_last: "\<forall>x\<in>set m. fst x < k \<Longrightarrow> put_entry m (k, v) = m @ [(k, v)]"
  by (induction m) auto

lemma foldl_put_entry_sorted:
  "entries_sorted (acc @ kvs) \<Longrightarrow> foldl put_entry acc kvs = acc @ kvs"
proof (induction kvs arbitrary: acc)
  case (Cons kv kvs)
  obtain k v where kv: "kv = (k, v)" by (cases kv)
  from Cons.prems have "\<forall>x\<in>set acc. fst x < k"
    by (auto simp: entries_sorted_def sorted_wrt_append kv)
  then have "put_entry acc kv = acc @ [kv]" by (simp add: kv put_entry_last)
  with Cons.IH[of "acc @ [kv]"] Cons.prems show ?case by simp
qed simp

lemma any_of_canonical: "canonical v \<Longrightarrow> any_of v = v"
proof (induction v)
  case (JArr vs)
  then show ?case by (simp add: map_idI)
next
  case (JObj kvs)
  have "map (\<lambda>kv. (fst kv, any_of (snd kv))) kvs = kvs"
    using JObj by (intro map_idI) (auto intro: snds.intros)
  then show ?case using JObj.prems foldl_put_entry_sorted[of "[]" kvs] by simp
qed simp_all

lemma fst_put_entry: "fst ` set (put_entry m (k, v)) = insert k (fst ` set m)"
proof (induction m)
  case (Cons x m)
  then show ?case
    by (cases x; cases "k = fst x"; cases "k < fst x") (simp_all add: insert_commute)
qed simp

lemma put_entry_sorted: "entries_sorted m \<Longrightarrow> entries_sorted (put_entry m (k, v))"
proof (induction m)
  case (Cons x m)
  obtain k' v' where x: "x = (k', v')" by (cases x)
  have "\<forall>y\<in>fst ` set m. k' < y" using Cons.prems by (auto simp: entries_sorted_def x)
  moreover have "entries_sorted m" using Cons.prems by (simp add: entries_sorted_def)
  moreover consider "k = k'" | "k < k'" | "k' < k" by fastforce
  ultimately show ?case
    using Cons.IH fst_put_entry[of m k v]
    by cases (auto simp: entries_sorted_def x intro: less_trans simp flip: set_map)
qed (simp add: entries_sorted_def)

lemma foldl_put_entry_is_sorted: "entries_sorted acc \<Longrightarrow> entries_sorted (foldl put_entry acc kvs)"
  by (induction kvs arbitrary: acc) (auto simp: put_entry_sorted)

lemma set_put_entry: "set (put_entry m (k, v)) \<subseteq> insert (k, v) (set m)"
  by (induction m) (auto split: if_splits)

lemma set_foldl_put_entry: "set (foldl put_entry acc kvs) \<subseteq> set acc \<union> set kvs"
proof (induction kvs arbitrary: acc)
  case (Cons kv kvs)
  then show ?case using set_put_entry[of acc "fst kv" "snd kv"] by fastforce
qed simp

lemma canonical_any_of: "canonical (any_of v)"
proof (induction v)
  case (JObj kvs)
  have "\<forall>kv\<in>set (foldl put_entry [] (map (\<lambda>kv. (fst kv, any_of (snd kv))) kvs)). canonical (snd kv)"
    using set_foldl_put_entry[of "[]" "map (\<lambda>kv. (fst kv, any_of (snd kv))) kvs"] JObj
    by (fastforce intro: snds.intros)
  then show ?case by (simp add: foldl_put_entry_is_sorted)
qed simp_all

section \<open>Writing struct fields\<close>

definition field :: "string \<Rightarrow> string \<Rightarrow> (string \<times> json) list" where
  "field k v = [(k, JStr v)]"

text \<open>With \<open>omitempty\<close>.\<close>

definition opt_field :: "string \<Rightarrow> string \<Rightarrow> (string \<times> json) list" where
  "opt_field k v = (if v = '''' then [] else [(k, JStr v)])"

definition opt_map_field :: "string \<Rightarrow> go_map \<Rightarrow> (string \<times> json) list" where
  "opt_map_field k m = (case m of None \<Rightarrow> [] | Some kvs \<Rightarrow> if kvs = [] then [] else [(k, JObj kvs)])"

definition json_uint :: "64 word \<Rightarrow> json" where
  "json_uint w = JNum (decimal (uint w))"

section \<open>Reading struct fields\<close>

text \<open>\<open>foldName\<close>: ASCII letters to lower case, and the two other characters that fold to one.\<close>

fun fold_key :: "string \<Rightarrow> string" where
  "fold_key (a # b # c # s) =
     (if [a, b, c] = [CHR 0xE2, CHR 0x84, CHR 0xAA] then CHR ''k'' # fold_key s
      else if [a, b] = [CHR 0xC5, CHR 0xBF] then CHR ''s'' # fold_key (c # s)
      else lower_char a # fold_key (b # c # s))"
| "fold_key [a, b] = (if [a, b] = [CHR 0xC5, CHR 0xBF] then ''s'' else [lower_char a, lower_char b])"
| "fold_key [a] = [lower_char a]"
| "fold_key [] = []"

definition find_field :: "(string \<times> 'f) list \<Rightarrow> string \<Rightarrow> 'f option" where
  "find_field fs k =
     (case map_of fs k of Some f \<Rightarrow> Some f
      | None \<Rightarrow> map_option snd (find (\<lambda>(n, _). fold_key n = fold_key k) fs))"

type_synonym 'r fields = "(string \<times> (json \<Rightarrow> 'r \<Rightarrow> 'r option)) list"

fun decode_entries :: "'r fields \<Rightarrow> (string \<times> json) list \<Rightarrow> 'r \<Rightarrow> 'r option" where
  "decode_entries fs [] r = Some r"
| "decode_entries fs ((k, v) # kvs) r =
     (case find_field fs k of None \<Rightarrow> decode_entries fs kvs r
      | Some f \<Rightarrow> (case f v r of None \<Rightarrow> None | Some r' \<Rightarrow> decode_entries fs kvs r'))"

fun decode_struct :: "'r fields \<Rightarrow> json \<Rightarrow> 'r \<Rightarrow> 'r option" where
  "decode_struct fs JNull r = Some r"
| "decode_struct fs (JObj kvs) r = decode_entries fs kvs r"
| "decode_struct fs _ r = None"

fun into_string :: "(string \<Rightarrow> 'r \<Rightarrow> 'r) \<Rightarrow> json \<Rightarrow> 'r \<Rightarrow> 'r option" where
  "into_string set_field (JStr s) r = Some (set_field s r)"
| "into_string set_field JNull r = Some r"
| "into_string set_field _ r = None"

fun into_bool :: "(bool \<Rightarrow> 'r \<Rightarrow> 'r) \<Rightarrow> json \<Rightarrow> 'r \<Rightarrow> 'r option" where
  "into_bool set_field (JBool b) r = Some (set_field b r)"
| "into_bool set_field JNull r = Some r"
| "into_bool set_field _ r = None"

text \<open>\<open>strconv.ParseUint\<close> of a number literal, 64 bits.\<close>

definition parse_uint :: "string \<Rightarrow> nat option" where
  "parse_uint s =
     (let n = foldl (\<lambda>n c. 10 * n + (byte c - 48)) 0 s in
      if s = [] \<or> \<not> list_all is_digit s \<or> 2 ^ 64 \<le> n then None else Some n)"

fun into_uint :: "(64 word \<Rightarrow> 'r \<Rightarrow> 'r) \<Rightarrow> json \<Rightarrow> 'r \<Rightarrow> 'r option" where
  "into_uint set_field (JNum s) r = map_option (\<lambda>n. set_field (word_of_nat n) r) (parse_uint s)"
| "into_uint set_field JNull r = Some r"
| "into_uint set_field _ r = None"

text \<open>A map field: \<open>null\<close> makes it nil, an object adds its entries.\<close>

fun into_map :: "('r \<Rightarrow> go_map) \<Rightarrow> (go_map \<Rightarrow> 'r \<Rightarrow> 'r) \<Rightarrow> json \<Rightarrow> 'r \<Rightarrow> 'r option" where
  "into_map get set_field JNull r = Some (set_field None r)"
| "into_map get set_field (JObj kvs) r =
     Some (set_field (Some (foldl put_entry (case get r of None \<Rightarrow> [] | Some m \<Rightarrow> m)
        (map (\<lambda>kv. (fst kv, any_of (snd kv))) kvs))) r)"
| "into_map get set_field _ r = None"

text \<open>A nested struct, a pointer to one, and a slice of them.\<close>

definition into_struct ::
  "'s fields \<Rightarrow> ('r \<Rightarrow> 's) \<Rightarrow> ('s \<Rightarrow> 'r \<Rightarrow> 'r) \<Rightarrow> json \<Rightarrow> 'r \<Rightarrow> 'r option" where
  "into_struct fs get set_field v r = map_option (\<lambda>s. set_field s r) (decode_struct fs v (get r))"

definition into_pointer ::
  "'s fields \<Rightarrow> 's \<Rightarrow> ('r \<Rightarrow> 's option) \<Rightarrow> ('s option \<Rightarrow> 'r \<Rightarrow> 'r) \<Rightarrow> json \<Rightarrow> 'r \<Rightarrow> 'r option" where
  "into_pointer fs zero get set_field v r =
     (if v = JNull then Some (set_field None r)
      else map_option (\<lambda>s. set_field (Some s) r)
             (decode_struct fs v (case get r of None \<Rightarrow> zero | Some s \<Rightarrow> s)))"

fun decode_all :: "'s fields \<Rightarrow> 's \<Rightarrow> json list \<Rightarrow> 's list option" where
  "decode_all fs zero [] = Some []"
| "decode_all fs zero (v # vs) =
     (case decode_struct fs v zero of None \<Rightarrow> None
      | Some s \<Rightarrow> map_option ((#) s) (decode_all fs zero vs))"

fun into_slice :: "'s fields \<Rightarrow> 's \<Rightarrow> ('s list option \<Rightarrow> 'r \<Rightarrow> 'r) \<Rightarrow> json \<Rightarrow> 'r \<Rightarrow> 'r option" where
  "into_slice fs zero set_field JNull r = Some (set_field None r)"
| "into_slice fs zero set_field (JArr vs) r = map_option (\<lambda>ss. set_field (Some ss) r) (decode_all fs zero vs)"
| "into_slice fs zero set_field _ r = None"

section \<open>Reading back what was written\<close>

lemma decode_entries_append:
  "decode_entries fs (xs @ ys) r = (case decode_entries fs xs r of None \<Rightarrow> None | Some r' \<Rightarrow> decode_entries fs ys r')"
  by (induction xs arbitrary: r) (auto split: option.splits)

lemma find_field_exact: "map_of fs k = Some f \<Longrightarrow> find_field fs k = Some f"
  by (simp add: find_field_def)

text \<open>What an entry does to the struct; the rules below let the simplifier run a whole encoding.\<close>

definition entry_effect :: "'r fields \<Rightarrow> string \<Rightarrow> json \<Rightarrow> 'r \<Rightarrow> 'r option" where
  "entry_effect fs k v r = (case map_of fs k of None \<Rightarrow> None | Some f \<Rightarrow> f v r)"

lemma decode_entry:
  "entry_effect fs k v r \<noteq> None \<Longrightarrow> decode_entries fs ((k, v) # kvs) r = decode_entries fs kvs (the (entry_effect fs k v r))"
  by (auto simp: entry_effect_def find_field_exact split: option.splits)

declare decode_entries.simps(2) [simp del]

lemma decode_field:
  "entry_effect fs k (JStr v) r \<noteq> None \<Longrightarrow>
     decode_entries fs (field k v @ kvs) r = decode_entries fs kvs (the (entry_effect fs k (JStr v) r))"
  by (simp add: field_def decode_entry)

lemma decode_opt_field:
  "entry_effect fs k (JStr v) r \<noteq> None \<Longrightarrow> entry_effect fs k (JStr []) r = Some r \<Longrightarrow>
     decode_entries fs (opt_field k v @ kvs) r = decode_entries fs kvs (the (entry_effect fs k (JStr v) r))"
  by (simp add: opt_field_def decode_entry)

text \<open>An empty map is written as none at all.\<close>

definition norm_map :: "go_map \<Rightarrow> go_map" where
  "norm_map m = (if m = Some [] then None else m)"

fun map_canonical :: "go_map \<Rightarrow> bool" where
  "map_canonical None = True"
| "map_canonical (Some kvs) = canonical (JObj kvs)"

lemma put_canonical [simp]:
  "entries_sorted x \<Longrightarrow> \<forall>kv\<in>set x. canonical (snd kv) \<Longrightarrow> foldl put_entry [] (map (\<lambda>kv. (fst kv, any_of (snd kv))) x) = x"
  using any_of_canonical[of "JObj x"] by simp

lemma decode_opt_map_field:
  assumes "entry_effect fs k JNull r = Some r" "map_canonical m"
    and "\<And>x. map_canonical (Some x) \<Longrightarrow> entry_effect fs k (JObj x) r = Some (u (Some x) r)" "u None r = r"
  shows "decode_entries fs (opt_map_field k m @ kvs) r = decode_entries fs kvs (u (norm_map m) r)"
  using assms by (cases m) (simp_all add: opt_map_field_def norm_map_def decode_entry)

lemma decode_pointer_field:
  assumes "\<And>a. x = Some a \<Longrightarrow> entry_effect fs k (f a) r = Some (u (Some a) r)" "u None r = r"
  shows "decode_entries fs ((case x of None \<Rightarrow> [] | Some a \<Rightarrow> [(k, f a)]) @ kvs) r = decode_entries fs kvs (u x r)"
  using assms by (cases x) (simp_all add: decode_entry)

lemma decode_all_map:
  "(\<And>x. x \<in> set xs \<Longrightarrow> decode_struct fs (f x) zero = Some (g x)) \<Longrightarrow> decode_all fs zero (map f xs) = Some (map g xs)"
  by (induction xs) auto

lemma byte_of_digit: "n < 10 \<Longrightarrow> byte (char_of (48 + n)) = 48 + n"
  by (simp add: byte_def)

lemma decimal_digit: "n < 10 \<Longrightarrow> is_digit (char_of (48 + n :: nat))"
  by (simp add: is_digit_def in_range_def)

lemma decimal_nat_digits: "list_all is_digit (decimal_nat n) \<and> decimal_nat n \<noteq> []"
proof (induction n rule: decimal_nat.induct)
  case (1 n)
  show ?case
  proof (cases "n < 10")
    case True
    then show ?thesis by (subst (1 2) decimal_nat.simps) (simp add: decimal_digit)
  next
    case False
    then show ?thesis using 1 decimal_digit[of "n mod 10"] by (subst (1 2) decimal_nat.simps) simp
  qed
qed

lemma decimal_nat_value: "foldl (\<lambda>n c. 10 * n + (byte c - 48)) 0 (decimal_nat n) = n"
proof (induction n rule: decimal_nat.induct)
  case (1 n)
  show ?case
  proof (cases "n < 10")
    case True
    then show ?thesis by (subst decimal_nat.simps) (simp add: byte_of_digit)
  next
    case False
    then show ?thesis using 1 byte_of_digit[of "n mod 10"] by (subst decimal_nat.simps) simp
  qed
qed

lemma parse_uint_decimal: "parse_uint (decimal (uint (w :: 64 word))) = Some (unat w)"
proof -
  have "decimal (uint w) = decimal_nat (unat w)" by (simp add: decimal_def)
  moreover have "unat w < 2 ^ 64" using unsigned_less[of w] by simp
  ultimately show ?thesis
    using decimal_nat_digits[of "unat w"] decimal_nat_value[of "unat w"] by (simp add: parse_uint_def)
qed

lemma into_uint_json_uint [simp]: "into_uint u (json_uint w) r = Some (u w r)"
  by (simp add: json_uint_def parse_uint_decimal)

end
