(* ===== verification/Go_Json_Lines.thy ===== *)
theory Go_Json_Lines
  imports Go_Json
begin

text \<open>
  The text that \<open>encoding/json\<close> renders holds no control character of its own, so a compact
  value is always one line, whatever its strings hold.
\<close>

definition no_control :: "string \<Rightarrow> bool" where
  "no_control s = list_all (\<lambda>c. \<not> is_control c) s"

lemma no_control_simps [simp]:
  "no_control []"
  "no_control (c # s) = (\<not> is_control c \<and> no_control s)"
  "no_control (s @ t) = (no_control s \<and> no_control t)"
  by (simp_all add: no_control_def)

lemma not_control [simp]:
  "\<not> is_control CHR 0x22" "\<not> is_control CHR 0x5C" "\<not> is_control CHR ''b''" "\<not> is_control CHR ''f''"
  "\<not> is_control CHR ''n''" "\<not> is_control CHR ''r''" "\<not> is_control CHR ''t''" "\<not> is_control CHR ''u''"
  "\<not> is_control CHR ''0''" "\<not> is_control CHR ''2''" "\<not> is_control CHR ''8''" "\<not> is_control CHR ''9''"
  "\<not> is_control CHR ''d''" "\<not> is_control CHR ''e''" "\<not> is_control CHR ''E''" "\<not> is_control CHR ''+''"
  "\<not> is_control CHR ''-''" "\<not> is_control CHR ''.''" "\<not> is_control CHR '',''" "\<not> is_control CHR '':''"
  "\<not> is_control CHR ''[''" "\<not> is_control CHR '']''" "\<not> is_control CHR 0x7B" "\<not> is_control CHR 0x7D"
  "\<not> is_control CHR ''l''" "\<not> is_control CHR ''a''" "\<not> is_control CHR ''s''"
  by (simp_all add: is_control_def byte_def)

lemma hex_digit_printable: "n < 16 \<Longrightarrow> \<not> is_control (hex_digit n)"
proof -
  have "\<forall>n\<in>set [0..<16]. \<not> is_control (hex_digit n)" by code_simp
  then show "n < 16 \<Longrightarrow> \<not> is_control (hex_digit n)" by simp
qed

lemma escape_byte_printable: "byte c < 0x80 \<Longrightarrow> no_control (escape_byte c)"
  by (simp add: escape_byte_def hex_digit_printable)

lemma high_printable: "0x80 \<le> byte c \<Longrightarrow> \<not> is_control c"
  by (simp add: is_control_def)

lemma rune_bytes_high:
  assumes "2 \<le> rune_size s"
  shows "no_control (take (rune_size s) s)"
proof (cases s)
  case (Cons c r)
  with assms have l: "2 \<le> lead_size c" "rune_size s = lead_size c" "list_all cont (take (lead_size c - 1) r)"
    by (auto simp: rune_size_def Let_def split: if_splits)
  then have "0x80 \<le> byte c" by (auto simp: lead_size_def split: if_splits)
  moreover have "take (rune_size s) s = c # take (lead_size c - 1) r" using l by (cases "lead_size c") (auto simp: Cons)
  moreover have "no_control (take (lead_size c - 1) r)"
    using l(3) by (auto simp: no_control_def list_all_iff cont_def high_printable)
  ultimately show ?thesis by (simp add: high_printable)
qed simp

lemma quote_body_cases:
  assumes "s = c # r"
  obtains "rune_size s = 0" "quote_body s = CHR 0x5C # ''ufffd'' @ quote_body r"
  | "rune_size s = 1" "quote_body s = escape_byte c @ quote_body r"
  | x where "2 \<le> rune_size s" "line_separator s = Some x" "quote_body s = CHR 0x5C # ''u202'' @ x # quote_body (drop (rune_size s) s)"
  | "2 \<le> rune_size s" "line_separator s = None" "quote_body s = take (rune_size s) s @ quote_body (drop (rune_size s) s)"
proof -
  note q = quote_body.simps[of s, unfolded assms list.case]
  consider "rune_size s = 0" | "rune_size s = 1" | "2 \<le> rune_size s" by linarith
  then show ?thesis
  proof cases
    case 1
    with q show ?thesis by (intro that(1)) (simp_all add: assms)
  next
    case 2
    with q show ?thesis by (intro that(2)) (simp_all add: assms)
  next
    case 3
    then show ?thesis
    proof (cases "line_separator s")
      case None
      with 3 q show ?thesis by (intro that(4)) (auto simp add: assms)
    next
      case (Some x)
      with 3 q show ?thesis by (intro that(3)[of x]) (auto simp add: assms)
    qed
  qed
qed

lemma quote_body_printable: "no_control (quote_body s)"
proof (induction s rule: quote_body.induct)
  case (1 s)
  show ?case
  proof (cases s)
    case (Cons c r)
    show ?thesis
    proof (rule quote_body_cases[OF Cons])
      assume "rune_size s = 0" "quote_body s = CHR 0x5C # ''ufffd'' @ quote_body r"
      with "1.IH"(1)[OF Cons] show ?thesis by simp
    next
      assume n: "rune_size s = 1" and "quote_body s = escape_byte c @ quote_body r"
      with "1.IH"(2)[OF Cons] Cons show ?thesis by (simp add: escape_byte_printable)
    next
      fix x assume n: "2 \<le> rune_size s" "line_separator s = Some x"
        and q: "quote_body s = CHR 0x5C # ''u202'' @ x # quote_body (drop (rune_size s) s)"
      have "x = CHR ''8'' \<or> x = CHR ''9''" using n(2) by (auto simp: line_separator_def split: if_splits)
      moreover have "no_control (quote_body (drop (rune_size s) s))" using "1.IH"(4)[OF Cons _ _ n(2)] n(1) by simp
      ultimately show ?thesis unfolding q by auto
    next
      assume n: "2 \<le> rune_size s" "line_separator s = None"
        and q: "quote_body s = take (rune_size s) s @ quote_body (drop (rune_size s) s)"
      have "no_control (quote_body (drop (rune_size s) s))" using "1.IH"(3)[OF Cons _ _ n(2)] n(1) by simp
      then show ?thesis unfolding q using rune_bytes_high[OF n(1)] by simp
    qed
  qed simp
qed

lemma digits_printable: "no_control (takeWhile is_digit s)"
proof -
  have "\<not> is_control c" if "is_digit c" for c
    using that by (auto simp: is_digit_def in_range_def is_control_def byte_def)
  then show ?thesis by (induction s) auto
qed

lemma lex_digits_printable: "no_control p \<Longrightarrow> lex_digits p s = Some (v, r) \<Longrightarrow> no_control v"
  by (auto simp: lex_digits_def digits_printable split: if_splits)

lemma lex_int_printable: "lex_int s = Some (v, r) \<Longrightarrow> no_control v"
  using digits_printable[of s] by (cases s) (auto simp: lex_int_def split: if_splits)

lemma lex_frac_printable: "lex_frac s = Some (v, r) \<Longrightarrow> no_control v"
  by (cases s) (auto simp: lex_frac_def split: if_splits elim: lex_digits_printable[rotated])

lemma lex_exp_printable: "lex_exp s = Some (v, r) \<Longrightarrow> no_control v"
  by (cases s; cases "tl s") (auto simp: lex_exp_def split: if_splits elim: lex_digits_printable[rotated])

lemma lex_unsigned_printable: "lex_unsigned s = Some (v, r) \<Longrightarrow> no_control v"
  by (auto elim!: lex_unsignedE dest: lex_int_printable lex_frac_printable lex_exp_printable)

lemma number_literal_printable: "number_literal n \<Longrightarrow> no_control n"
  by (cases n) (auto simp: number_literal_def lex_number_def dest: lex_unsigned_printable split: if_splits)

lemma no_control_intersperse: "\<not> is_control c \<Longrightarrow> list_all no_control xss \<Longrightarrow> no_control (intersperse c xss)"
  by (induction c xss rule: intersperse.induct) auto

lemma render_printable: "json_ok v \<Longrightarrow> no_control (render_json v)"
proof (induction v)
  case (JArr vs)
  then show ?case by (simp add: list_all_iff no_control_intersperse)
next
  case (JObj kvs)
  have "no_control (quote (fst kv) @ '':'' @ render_json (snd kv))" if "kv \<in> set kvs" for kv
    using JObj.IH[OF that snds.intros] JObj.prems that by (simp add: quote_def quote_body_printable)
  then show ?case by (auto simp: list_all_iff intro!: no_control_intersperse)
qed (simp_all add: quote_def quote_body_printable number_literal_printable)

end
