(* ===== verification/Go_Time.thy ===== *)
theory Go_Time
  imports Prelude
begin

text \<open>
  \<open>time.Parse(time.RFC3339Nano, ...)\<close> of Go's standard library, which validates and orders every
  timestamp of the program. The result is the number of nanoseconds since the Unix epoch. The
  parser follows the general one of package \<open>time\<close>, which also takes an hour of one digit, a
  comma before the fraction and an offset of 24 hours or 60 minutes; its fast path accepts a
  subset with the same results.
\<close>

definition digit :: "char \<Rightarrow> int" where
  "digit c = int (of_char c) - 48"

definition number :: "string \<Rightarrow> int" where
  "number s = foldl (\<lambda>n c. 10 * n + digit c) 0 s"

text \<open>\<open>getnum\<close>: two digits, or one where that is allowed.\<close>

definition getnum :: "bool \<Rightarrow> string \<Rightarrow> (int \<times> string) option" where
  "getnum fixed s = (case s of
       a # b # r \<Rightarrow>
         if \<not> is_digit a then None
         else if is_digit b then Some (number [a, b], r)
         else if fixed then None else Some (digit a, b # r)
     | [a] \<Rightarrow> if is_digit a \<and> \<not> fixed then Some (digit a, []) else None
     | [] \<Rightarrow> None)"

definition expect :: "char \<Rightarrow> string \<Rightarrow> string option" where
  "expect c s = (case s of x # r \<Rightarrow> if x = c then Some r else None | [] \<Rightarrow> None)"

definition is_leap :: "int \<Rightarrow> bool" where
  "is_leap y = (y mod 4 = 0 \<and> (y mod 100 \<noteq> 0 \<or> y mod 400 = 0))"

definition days_in :: "int \<Rightarrow> int \<Rightarrow> int" where
  "days_in y m =
     (if m = 2 then (if is_leap y then 29 else 28) else if m = 4 \<or> m = 6 \<or> m = 9 \<or> m = 11 then 30 else 31)"

definition days_before_month :: "int \<Rightarrow> int \<Rightarrow> int" where
  "days_before_month y m =
     [0, 31, 59, 90, 120, 151, 181, 212, 243, 273, 304, 334] ! nat (m - 1) + (if 2 < m \<and> is_leap y then 1 else 0)"

text \<open>Days from 1970-01-01; 719528 days lie between the year 0 and it.\<close>

definition unix_day :: "int \<Rightarrow> int \<Rightarrow> int \<Rightarrow> int" where
  "unix_day y m d =
     365 * y + (y + 3) div 4 - (y + 99) div 100 + (y + 399) div 400 + days_before_month y m + (d - 1) - 719528"

text \<open>The fraction: nanoseconds from the first nine digits.\<close>

definition fraction :: "string \<Rightarrow> int \<times> string" where
  "fraction s = (case s of
       p # d # r \<Rightarrow>
         if (p = CHR ''.'' \<or> p = CHR '','') \<and> is_digit d then
           let ds = takeWhile is_digit (d # r) in
           (number (take 9 ds) * 10 ^ (9 - length (take 9 ds)), dropWhile is_digit (d # r))
         else (0, s)
     | _ \<Rightarrow> (0, s))"

text \<open>The zone: \<open>Z\<close> or a signed offset, in seconds.\<close>

definition offset :: "char \<Rightarrow> int \<Rightarrow> int \<Rightarrow> int option" where
  "offset sign h m =
     (if h > 24 \<or> m > 60 then None
      else if sign = CHR ''+'' then Some ((h * 60 + m) * 60)
      else if sign = CHR ''-'' then Some (- ((h * 60 + m) * 60)) else None)"

definition zone :: "string \<Rightarrow> (int \<times> string) option" where
  "zone s =
     (if s = [] then None
      else if hd s = CHR ''Z'' then Some (0, tl s)
      else if length s < 6 \<or> s ! 3 \<noteq> CHR '':'' then None
      else Option.bind (getnum True (take 2 (drop 1 s))) (\<lambda>(h, _).
           Option.bind (getnum True (take 2 (drop 4 s))) (\<lambda>(m, _).
             map_option (\<lambda>off. (off, drop 6 s)) (offset (hd s) h m))))"

text \<open>\<open>2006-01-02\<close> and \<open>15:04:05\<close>.\<close>

definition parse_date :: "string \<Rightarrow> ((int \<times> int \<times> int) \<times> string) option" where
  "parse_date s =
     (if length s < 4 \<or> \<not> list_all is_digit (take 4 s) then None
      else Option.bind (expect CHR ''-'' (drop 4 s)) (\<lambda>s1.
           Option.bind (getnum True s1) (\<lambda>(m, s2).
           Option.bind (expect CHR ''-'' s2) (\<lambda>s3.
           Option.bind (getnum True s3) (\<lambda>(d, s4). Some ((number (take 4 s), m, d), s4))))))"

definition parse_clock :: "string \<Rightarrow> ((int \<times> int \<times> int) \<times> string) option" where
  "parse_clock s =
     Option.bind (getnum False s) (\<lambda>(h, s1).
     Option.bind (expect CHR '':'' s1) (\<lambda>s2.
     Option.bind (getnum True s2) (\<lambda>(m, s3).
     Option.bind (expect CHR '':'' s3) (\<lambda>s4.
     Option.bind (getnum True s4) (\<lambda>(sec, s5). Some ((h, m, sec), s5))))))"

definition in_calendar :: "int \<Rightarrow> int \<Rightarrow> int \<Rightarrow> int \<Rightarrow> int \<Rightarrow> int \<Rightarrow> bool" where
  "in_calendar y m d h mi sec =
     (1 \<le> m \<and> m \<le> 12 \<and> 1 \<le> d \<and> d \<le> days_in y m \<and> h < 24 \<and> mi < 60 \<and> sec < 60)"

definition parse_rfc3339 :: "string \<Rightarrow> int option" where
  "parse_rfc3339 s =
     Option.bind (parse_date s) (\<lambda>((y, m, d), s1).
     Option.bind (expect CHR ''T'' s1) (\<lambda>s2.
     Option.bind (parse_clock s2) (\<lambda>((h, mi, sec), s3).
     Option.bind (zone (snd (fraction s3))) (\<lambda>(off, rest).
       if rest = [] \<and> in_calendar y m d h mi sec
       then Some ((((unix_day y m d * 24 + h) * 60 + mi) * 60 + sec - off) * 1000000000 + fst (fraction s3))
       else None))))"

text \<open>\<open>Time.UnixNano\<close>: the value wraps at 64 bits.\<close>

definition unix_nano :: "int \<Rightarrow> int" where
  "unix_nano t = (t + 2 ^ 63) mod 2 ^ 64 - 2 ^ 63"

lemma unix_nano_bounds: "- (2 ^ 63) \<le> unix_nano t \<and> unix_nano t < 2 ^ 63"
  by (simp add: unix_nano_def)

lemma unix_nano_id: "- (2 ^ 63) \<le> t \<Longrightarrow> t < 2 ^ 63 \<Longrightarrow> unix_nano t = t"
  by (simp add: unix_nano_def)

end
