(* ===== verification/Models.thy ===== *)
theory Models
  imports Status Ids Go_Codec Go_Json_Lines Go_Time
begin

text \<open>
  The portable wire models of \<open>go/models.go\<close>: receipts and lifecycle events with their
  validation, their JSON form (\<open>MarshalJSON\<close>, struct tags) and their parsers. A nil and an
  empty slice of evidence or warnings are one list, since \<open>MarshalJSON\<close> writes both as an
  empty array and no other code tells them apart. Details are JSON values as
  \<open>json.Unmarshal\<close> would give them.
\<close>

section \<open>Receipts\<close>

definition ReceiptSchema :: string where "ReceiptSchema = ''mektup/receipt/v1''"
definition EventSchema :: string where "EventSchema = ''mektup/event/v1''"

record ReceiptIdentity =
  id_endpoint_id :: string
  id_alias :: string
  id_transport :: string
  id_server_version :: string
  id_compatibility :: string
  id_thread_id :: string
  id_requested :: string
  id_resolved :: string
  id_evidence :: go_map

record ReceiptMessage =
  mg_message_id :: string
  mg_in_reply_to :: string
  mg_kind :: string
  mg_reply_requested :: bool
  mg_payload_bytes :: "64 word"
  mg_payload_sha256 :: string
  mg_client_message_id :: string
  mg_turn_id :: string
  mg_accepted_at :: string
  mg_reply_at :: string

record ContentRef =
  ct_endpoint_id :: string
  ct_thread_id :: string
  ct_turn_id :: string
  ct_item_id :: string
  ct_client_message_id :: string
  ct_payload_bytes :: "64 word"
  ct_payload_sha256 :: string

record EvidenceRecord =
  ev_state :: EvidenceState
  ev_at :: string
  ev_kind :: string
  ev_reference :: string
  ev_details :: go_map

record ReceiptResolution =
  rs_assertion :: string
  rs_actor :: string
  rs_reason :: string
  rs_timestamp :: string
  rs_evidence_ref :: string
  rs_presentation :: string

record Receipt =
  rp_schema :: string
  rp_receipt_id :: string
  rp_operation_id :: string
  rp_operation :: string
  rp_state :: EvidenceState
  rp_source :: ReceiptIdentity
  rp_target :: ReceiptIdentity
  rp_message :: ReceiptMessage
  rp_content_ref :: "ContentRef option"
  rp_evidence :: "EvidenceRecord list"
  rp_warnings :: "go_map Warning list"
  rp_manual_resolution :: "ReceiptResolution option"
  rp_resolution :: "ReceiptResolution option"
  rp_created_at :: string
  rp_updated_at :: string

section \<open>Validation\<close>

text \<open>\<open>fmt.Errorf("...: %w", err)\<close>.\<close>

definition in_context :: "string \<Rightarrow> string + 'a \<Rightarrow> string + 'a" where
  "in_context c r = (case r of Inl e \<Rightarrow> Inl (c @ '': '' @ e) | Inr a \<Rightarrow> Inr a)"

lemma in_context_Inr [simp]: "in_context c r = Inr a \<longleftrightarrow> r = Inr a"
  by (cases r) (auto simp: in_context_def)

definition validateTimestamp :: "string \<Rightarrow> string \<Rightarrow> string + unit" where
  "validateTimestamp value field_name =
     (if value = '''' then Inl (''mektup: '' @ field_name @ '' is required'')
      else if parse_rfc3339 value = None then Inl (''mektup: invalid '' @ field_name)
      else Inr ())"

definition validDigest :: "string \<Rightarrow> bool" where
  "validDigest value =
     (length value = 71 \<and> has_prefix value ''sha256:'' \<and> to_lower value = value \<and>
      list_all is_lower_hex (drop 7 value))"

definition resolution_validate :: "ReceiptResolution \<Rightarrow> string + unit" where
  "resolution_validate m =
     (if rs_assertion m \<noteq> ''accepted'' \<and> rs_assertion m \<noteq> ''not_delivered''
      then Inl ''mektup: invalid manual resolution assertion''
      else if rs_actor m = '''' \<or> rs_reason m = '''' \<or> rs_evidence_ref m = '''' \<or> rs_presentation m = ''''
      then Inl ''mektup: manual resolution actor, reason, evidenceRef, and presentation are required''
      else validateTimestamp (rs_timestamp m) ''manualResolution.timestamp'')"

fun each :: "('a \<Rightarrow> 'e + unit) \<Rightarrow> 'a list \<Rightarrow> 'e + unit" where
  "each f [] = Inr ()"
| "each f (x # xs) = bindE (f x) (\<lambda>_. each f xs)"

lemma each_Inr: "each f xs = Inr u \<longleftrightarrow> (\<forall>x\<in>set xs. f x = Inr ())"
  by (induction xs) (auto simp: bindE_Inr_iff)

definition evidence_validate :: "EvidenceRecord \<Rightarrow> string + unit" where
  "evidence_validate ev =
     bindE (check (state_valid (ev_state ev)) ''mektup: evidence has invalid state'') (\<lambda>_.
     if ev_at ev \<noteq> '''' then validateTimestamp (ev_at ev) ''evidence.at'' else Inr ())"

definition content_ref_validate :: "ContentRef \<Rightarrow> string + unit" where
  "content_ref_validate c =
     (if ct_endpoint_id c = '''' \<or> ValidateID (ct_endpoint_id c) EndpointIDPrefix \<noteq> Inr ()
      then Inl ''mektup: invalid content endpoint''
      else if ct_thread_id c = '''' then Inl ''mektup: content thread locator is required''
      else if ct_item_id c = '''' \<and> ct_client_message_id c = ''''
      then Inl ''mektup: content item or client-message locator is required''
      else check (validDigest (ct_payload_sha256 c)) ''mektup: invalid content digest'')"

text \<open>The contract field, or the deprecated alias where it is absent.\<close>

definition effective_resolution :: "Receipt \<Rightarrow> ReceiptResolution option" where
  "effective_resolution r =
     (case rp_manual_resolution r of None \<Rightarrow> rp_resolution r | Some m \<Rightarrow> Some m)"

definition receipt_validate :: "Receipt \<Rightarrow> string + unit" where
  "receipt_validate r =
     bindE (check (rp_schema r = ReceiptSchema) ''mektup: unsupported receipt schema'') (\<lambda>_.
     bindE (in_context ''receipt id'' (ValidateID (rp_receipt_id r) ReceiptIDPrefix)) (\<lambda>_.
     bindE (in_context ''operation id'' (ValidateID (rp_operation_id r) OperationIDPrefix)) (\<lambda>_.
     bindE (check (\<not> blank (rp_operation r)) ''mektup: receipt operation is required'') (\<lambda>_.
     bindE (check (state_valid (rp_state r)) ''mektup: invalid receipt state'') (\<lambda>_.
     bindE (validateTimestamp (rp_created_at r) ''createdAt'') (\<lambda>_.
     bindE (validateTimestamp (rp_updated_at r) ''updatedAt'') (\<lambda>_.
     bindE (check (id_endpoint_id (rp_source r) \<noteq> '''' \<and> id_endpoint_id (rp_target r) \<noteq> '''')
              ''mektup: receipt source and target endpoint IDs are required'') (\<lambda>_.
     bindE (ValidateID (id_endpoint_id (rp_source r)) EndpointIDPrefix) (\<lambda>_.
     bindE (ValidateID (id_endpoint_id (rp_target r)) EndpointIDPrefix) (\<lambda>_.
     bindE (in_context ''message id'' (ValidateID (mg_message_id (rp_message r)) MessageIDPrefix)) (\<lambda>_.
     bindE (check (mg_kind (rp_message r) = ''message'' \<or> mg_kind (rp_message r) = ''reply'')
              ''mektup: invalid message kind'') (\<lambda>_.
     bindE (check (validDigest (mg_payload_sha256 (rp_message r))) ''mektup: invalid message payload digest'') (\<lambda>_.
     bindE (each evidence_validate (rp_evidence r)) (\<lambda>_.
     bindE (each warning_validate (rp_warnings r)) (\<lambda>_.
     bindE (case effective_resolution r of None \<Rightarrow> Inr () | Some m \<Rightarrow> resolution_validate m) (\<lambda>_.
     case rp_content_ref r of None \<Rightarrow> Inr () | Some c \<Rightarrow> content_ref_validate c))))))))))))))))"

section \<open>JSON form\<close>

definition identity_json :: "ReceiptIdentity \<Rightarrow> json" where
  "identity_json x = JObj (
     opt_field ''endpointId'' (id_endpoint_id x) @ opt_field ''alias'' (id_alias x) @
     opt_field ''transport'' (id_transport x) @ opt_field ''serverVersion'' (id_server_version x) @
     opt_field ''compatibility'' (id_compatibility x) @ opt_field ''threadId'' (id_thread_id x) @
     opt_field ''requested'' (id_requested x) @ opt_field ''resolved'' (id_resolved x) @
     opt_map_field ''evidence'' (id_evidence x) @ [])"

definition message_json :: "ReceiptMessage \<Rightarrow> json" where
  "message_json x = JObj (
     field ''messageId'' (mg_message_id x) @ opt_field ''inReplyTo'' (mg_in_reply_to x) @
     field ''kind'' (mg_kind x) @ [(''replyRequested'', JBool (mg_reply_requested x)),
     (''payloadBytes'', json_uint (mg_payload_bytes x))] @ field ''payloadSha256'' (mg_payload_sha256 x) @
     opt_field ''clientMessageId'' (mg_client_message_id x) @ opt_field ''turnId'' (mg_turn_id x) @
     opt_field ''acceptedAt'' (mg_accepted_at x) @ opt_field ''replyAt'' (mg_reply_at x) @ [])"

definition content_ref_json :: "ContentRef \<Rightarrow> json" where
  "content_ref_json x = JObj (
     field ''endpointId'' (ct_endpoint_id x) @ field ''threadId'' (ct_thread_id x) @
     opt_field ''turnId'' (ct_turn_id x) @ opt_field ''itemId'' (ct_item_id x) @
     opt_field ''clientMessageId'' (ct_client_message_id x) @
     [(''payloadBytes'', json_uint (ct_payload_bytes x))] @ field ''payloadSha256'' (ct_payload_sha256 x) @ [])"

definition evidence_json :: "EvidenceRecord \<Rightarrow> json" where
  "evidence_json x = JObj (
     field ''state'' (state_string (ev_state x)) @ opt_field ''at'' (ev_at x) @ opt_field ''kind'' (ev_kind x) @
     opt_field ''reference'' (ev_reference x) @ opt_map_field ''details'' (ev_details x) @ [])"

definition warning_json :: "go_map Warning \<Rightarrow> json" where
  "warning_json x = JObj (
     field ''code'' (warn_code x) @ field ''message'' (warn_message x) @ opt_map_field ''details'' (warn_details x) @ [])"

definition resolution_json :: "ReceiptResolution \<Rightarrow> json" where
  "resolution_json x = JObj (
     field ''assertion'' (rs_assertion x) @ field ''actor'' (rs_actor x) @ field ''reason'' (rs_reason x) @
     field ''timestamp'' (rs_timestamp x) @ field ''evidenceRef'' (rs_evidence_ref x) @
     field ''presentationMode'' (rs_presentation x) @ [])"

definition pointer_field :: "string \<Rightarrow> ('a \<Rightarrow> json) \<Rightarrow> 'a option \<Rightarrow> (string \<times> json) list" where
  "pointer_field k f x = (case x of None \<Rightarrow> [] | Some a \<Rightarrow> [(k, f a)])"

text \<open>\<open>Receipt.MarshalJSON\<close>.\<close>

definition receipt_json :: "Receipt \<Rightarrow> json" where
  "receipt_json r = JObj (
     field ''schema'' (rp_schema r) @ field ''receiptId'' (rp_receipt_id r) @
     field ''operationId'' (rp_operation_id r) @ field ''operation'' (rp_operation r) @
     field ''state'' (state_string (rp_state r)) @
     [(''source'', identity_json (rp_source r)), (''target'', identity_json (rp_target r)),
      (''message'', message_json (rp_message r))] @
     pointer_field ''contentRef'' content_ref_json (rp_content_ref r) @
     [(''evidence'', JArr (map evidence_json (rp_evidence r))),
      (''warnings'', JArr (map warning_json (rp_warnings r)))] @
     pointer_field ''manualResolution'' resolution_json (effective_resolution r) @
     field ''createdAt'' (rp_created_at r) @ field ''updatedAt'' (rp_updated_at r) @ [])"

definition MarshalReceipt :: "Receipt \<Rightarrow> string" where
  "MarshalReceipt r = render_json (receipt_json r)"

section \<open>Parsing\<close>

definition into_state :: "(EvidenceState \<Rightarrow> 'r \<Rightarrow> 'r) \<Rightarrow> json \<Rightarrow> 'r \<Rightarrow> 'r option" where
  "into_state u = into_string (\<lambda>s. u (state_of_string s))"

definition zero_identity :: ReceiptIdentity where
  "zero_identity = \<lparr>id_endpoint_id = '''', id_alias = '''', id_transport = '''', id_server_version = '''',
     id_compatibility = '''', id_thread_id = '''', id_requested = '''', id_resolved = '''', id_evidence = None\<rparr>"

definition identity_fields :: "ReceiptIdentity fields" where
  "identity_fields = [
     (''endpointId'', into_string (\<lambda>s r. r\<lparr>id_endpoint_id := s\<rparr>)),
     (''alias'', into_string (\<lambda>s r. r\<lparr>id_alias := s\<rparr>)),
     (''transport'', into_string (\<lambda>s r. r\<lparr>id_transport := s\<rparr>)),
     (''serverVersion'', into_string (\<lambda>s r. r\<lparr>id_server_version := s\<rparr>)),
     (''compatibility'', into_string (\<lambda>s r. r\<lparr>id_compatibility := s\<rparr>)),
     (''threadId'', into_string (\<lambda>s r. r\<lparr>id_thread_id := s\<rparr>)),
     (''requested'', into_string (\<lambda>s r. r\<lparr>id_requested := s\<rparr>)),
     (''resolved'', into_string (\<lambda>s r. r\<lparr>id_resolved := s\<rparr>)),
     (''evidence'', into_map id_evidence (\<lambda>m r. r\<lparr>id_evidence := m\<rparr>))]"

definition zero_message :: ReceiptMessage where
  "zero_message = \<lparr>mg_message_id = '''', mg_in_reply_to = '''', mg_kind = '''', mg_reply_requested = False,
     mg_payload_bytes = 0, mg_payload_sha256 = '''', mg_client_message_id = '''', mg_turn_id = '''',
     mg_accepted_at = '''', mg_reply_at = ''''\<rparr>"

definition message_fields :: "ReceiptMessage fields" where
  "message_fields = [
     (''messageId'', into_string (\<lambda>s r. r\<lparr>mg_message_id := s\<rparr>)),
     (''inReplyTo'', into_string (\<lambda>s r. r\<lparr>mg_in_reply_to := s\<rparr>)),
     (''kind'', into_string (\<lambda>s r. r\<lparr>mg_kind := s\<rparr>)),
     (''replyRequested'', into_bool (\<lambda>b r. r\<lparr>mg_reply_requested := b\<rparr>)),
     (''payloadBytes'', into_uint (\<lambda>w r. r\<lparr>mg_payload_bytes := w\<rparr>)),
     (''payloadSha256'', into_string (\<lambda>s r. r\<lparr>mg_payload_sha256 := s\<rparr>)),
     (''clientMessageId'', into_string (\<lambda>s r. r\<lparr>mg_client_message_id := s\<rparr>)),
     (''turnId'', into_string (\<lambda>s r. r\<lparr>mg_turn_id := s\<rparr>)),
     (''acceptedAt'', into_string (\<lambda>s r. r\<lparr>mg_accepted_at := s\<rparr>)),
     (''replyAt'', into_string (\<lambda>s r. r\<lparr>mg_reply_at := s\<rparr>))]"

definition zero_content_ref :: ContentRef where
  "zero_content_ref = \<lparr>ct_endpoint_id = '''', ct_thread_id = '''', ct_turn_id = '''', ct_item_id = '''',
     ct_client_message_id = '''', ct_payload_bytes = 0, ct_payload_sha256 = ''''\<rparr>"

definition content_ref_fields :: "ContentRef fields" where
  "content_ref_fields = [
     (''endpointId'', into_string (\<lambda>s r. r\<lparr>ct_endpoint_id := s\<rparr>)),
     (''threadId'', into_string (\<lambda>s r. r\<lparr>ct_thread_id := s\<rparr>)),
     (''turnId'', into_string (\<lambda>s r. r\<lparr>ct_turn_id := s\<rparr>)),
     (''itemId'', into_string (\<lambda>s r. r\<lparr>ct_item_id := s\<rparr>)),
     (''clientMessageId'', into_string (\<lambda>s r. r\<lparr>ct_client_message_id := s\<rparr>)),
     (''payloadBytes'', into_uint (\<lambda>w r. r\<lparr>ct_payload_bytes := w\<rparr>)),
     (''payloadSha256'', into_string (\<lambda>s r. r\<lparr>ct_payload_sha256 := s\<rparr>))]"

definition zero_evidence :: EvidenceRecord where
  "zero_evidence = \<lparr>ev_state = StateOther '''', ev_at = '''', ev_kind = '''', ev_reference = '''', ev_details = None\<rparr>"

definition evidence_fields :: "EvidenceRecord fields" where
  "evidence_fields = [
     (''state'', into_state (\<lambda>s r. r\<lparr>ev_state := s\<rparr>)),
     (''at'', into_string (\<lambda>s r. r\<lparr>ev_at := s\<rparr>)),
     (''kind'', into_string (\<lambda>s r. r\<lparr>ev_kind := s\<rparr>)),
     (''reference'', into_string (\<lambda>s r. r\<lparr>ev_reference := s\<rparr>)),
     (''details'', into_map ev_details (\<lambda>m r. r\<lparr>ev_details := m\<rparr>))]"

definition zero_warning :: "go_map Warning" where
  "zero_warning = \<lparr>warn_code = '''', warn_message = '''', warn_details = None\<rparr>"

definition warning_fields :: "go_map Warning fields" where
  "warning_fields = [
     (''code'', into_string (\<lambda>s r. r\<lparr>warn_code := s\<rparr>)),
     (''message'', into_string (\<lambda>s r. r\<lparr>warn_message := s\<rparr>)),
     (''details'', into_map warn_details (\<lambda>m r. r\<lparr>warn_details := m\<rparr>))]"

definition zero_resolution :: ReceiptResolution where
  "zero_resolution = \<lparr>rs_assertion = '''', rs_actor = '''', rs_reason = '''', rs_timestamp = '''',
     rs_evidence_ref = '''', rs_presentation = ''''\<rparr>"

definition resolution_fields :: "ReceiptResolution fields" where
  "resolution_fields = [
     (''assertion'', into_string (\<lambda>s r. r\<lparr>rs_assertion := s\<rparr>)),
     (''actor'', into_string (\<lambda>s r. r\<lparr>rs_actor := s\<rparr>)),
     (''reason'', into_string (\<lambda>s r. r\<lparr>rs_reason := s\<rparr>)),
     (''timestamp'', into_string (\<lambda>s r. r\<lparr>rs_timestamp := s\<rparr>)),
     (''evidenceRef'', into_string (\<lambda>s r. r\<lparr>rs_evidence_ref := s\<rparr>)),
     (''presentationMode'', into_string (\<lambda>s r. r\<lparr>rs_presentation := s\<rparr>))]"

definition zero_receipt :: Receipt where
  "zero_receipt = \<lparr>rp_schema = '''', rp_receipt_id = '''', rp_operation_id = '''', rp_operation = '''',
     rp_state = StateOther '''', rp_source = zero_identity, rp_target = zero_identity, rp_message = zero_message,
     rp_content_ref = None, rp_evidence = [], rp_warnings = [], rp_manual_resolution = None,
     rp_resolution = None, rp_created_at = '''', rp_updated_at = ''''\<rparr>"

definition receipt_fields :: "Receipt fields" where
  "receipt_fields = [
     (''schema'', into_string (\<lambda>s r. r\<lparr>rp_schema := s\<rparr>)),
     (''receiptId'', into_string (\<lambda>s r. r\<lparr>rp_receipt_id := s\<rparr>)),
     (''operationId'', into_string (\<lambda>s r. r\<lparr>rp_operation_id := s\<rparr>)),
     (''operation'', into_string (\<lambda>s r. r\<lparr>rp_operation := s\<rparr>)),
     (''state'', into_state (\<lambda>s r. r\<lparr>rp_state := s\<rparr>)),
     (''source'', into_struct identity_fields rp_source (\<lambda>x r. r\<lparr>rp_source := x\<rparr>)),
     (''target'', into_struct identity_fields rp_target (\<lambda>x r. r\<lparr>rp_target := x\<rparr>)),
     (''message'', into_struct message_fields rp_message (\<lambda>x r. r\<lparr>rp_message := x\<rparr>)),
     (''contentRef'', into_pointer content_ref_fields zero_content_ref rp_content_ref (\<lambda>x r. r\<lparr>rp_content_ref := x\<rparr>)),
     (''evidence'', into_slice evidence_fields zero_evidence (\<lambda>x r. r\<lparr>rp_evidence := coalesce x []\<rparr>)),
     (''warnings'', into_slice warning_fields zero_warning (\<lambda>x r. r\<lparr>rp_warnings := coalesce x []\<rparr>)),
     (''manualResolution'', into_pointer resolution_fields zero_resolution rp_manual_resolution
        (\<lambda>x r. r\<lparr>rp_manual_resolution := x\<rparr>)),
     (''createdAt'', into_string (\<lambda>s r. r\<lparr>rp_created_at := s\<rparr>)),
     (''updatedAt'', into_string (\<lambda>s r. r\<lparr>rp_updated_at := s\<rparr>))]"

definition ParseReceipt :: "string \<Rightarrow> string + Receipt" where
  "ParseReceipt data =
     (case parse_json data of None \<Rightarrow> Inl ''invalid JSON''
      | Some v \<Rightarrow>
          (case decode_struct receipt_fields v zero_receipt of None \<Rightarrow> Inl ''cannot unmarshal''
           | Some r \<Rightarrow> bindE (receipt_validate r) (\<lambda>_. Inr r)))"

section \<open>Receipts survive their JSON form\<close>

definition norm_identity :: "ReceiptIdentity \<Rightarrow> ReceiptIdentity" where
  "norm_identity x = x\<lparr>id_evidence := norm_map (id_evidence x)\<rparr>"

definition norm_evidence :: "EvidenceRecord \<Rightarrow> EvidenceRecord" where
  "norm_evidence x = x\<lparr>ev_details := norm_map (ev_details x)\<rparr>"

definition norm_warning :: "go_map Warning \<Rightarrow> go_map Warning" where
  "norm_warning x = x\<lparr>warn_details := norm_map (warn_details x)\<rparr>"

text \<open>The receipt as its JSON form shows it: empty maps absent, the resolution in its contract field.\<close>

definition norm_receipt :: "Receipt \<Rightarrow> Receipt" where
  "norm_receipt r = r\<lparr>rp_source := norm_identity (rp_source r), rp_target := norm_identity (rp_target r),
     rp_evidence := map norm_evidence (rp_evidence r), rp_warnings := map norm_warning (rp_warnings r),
     rp_manual_resolution := effective_resolution r, rp_resolution := None\<rparr>"

text \<open>All its text is UTF-8, its maps are in key order and nested no deeper than the decoder allows.\<close>

definition receipt_portable :: "Receipt \<Rightarrow> bool" where
  "receipt_portable r =
     (json_ok (receipt_json r) \<and> depth (receipt_json r) \<le> max_depth \<and>
      map_canonical (id_evidence (rp_source r)) \<and> map_canonical (id_evidence (rp_target r)) \<and>
      list_all (\<lambda>e. map_canonical (ev_details e)) (rp_evidence r) \<and>
      list_all (\<lambda>w. map_canonical (warn_details w)) (rp_warnings r))"

lemmas decode_last = decode_field[where kvs = "[]", simplified] decode_opt_field[where kvs = "[]", simplified]

lemmas decode_simps = decode_field decode_opt_field decode_entry decode_last entry_effect_def into_state_def

lemma decode_identity:
  assumes "map_canonical (id_evidence x)"
  shows "decode_struct identity_fields (identity_json x) zero_identity = Some (norm_identity x)"
proof -
  have "decode_entries identity_fields (opt_map_field ''evidence'' (id_evidence x) @ []) (x\<lparr>id_evidence := None\<rparr>)
    = Some (x\<lparr>id_evidence := norm_map (id_evidence x)\<rparr>)"
    using assms
    by (subst decode_opt_map_field[where u = "\<lambda>m r. r\<lparr>id_evidence := m\<rparr>"])
      (simp_all add: identity_fields_def entry_effect_def)
  then show ?thesis
    by (cases x) (simp add: identity_json_def zero_identity_def norm_identity_def identity_fields_def decode_simps)
qed

lemma decode_message: "decode_struct message_fields (message_json x) zero_message = Some x"
  by (cases x) (simp add: message_json_def zero_message_def message_fields_def decode_simps)

lemma decode_content_ref: "decode_struct content_ref_fields (content_ref_json x) zero_content_ref = Some x"
  by (cases x) (simp add: content_ref_json_def zero_content_ref_def content_ref_fields_def decode_simps)

lemma decode_resolution: "decode_struct resolution_fields (resolution_json x) zero_resolution = Some x"
  by (cases x) (simp add: resolution_json_def zero_resolution_def resolution_fields_def decode_simps)

lemma decode_evidence:
  assumes "map_canonical (ev_details x)" "state_valid (ev_state x)"
  shows "decode_struct evidence_fields (evidence_json x) zero_evidence = Some (norm_evidence x)"
proof -
  have "decode_entries evidence_fields (opt_map_field ''details'' (ev_details x) @ []) (x\<lparr>ev_details := None\<rparr>)
    = Some (x\<lparr>ev_details := norm_map (ev_details x)\<rparr>)"
    using assms(1)
    by (subst decode_opt_map_field[where u = "\<lambda>m r. r\<lparr>ev_details := m\<rparr>"])
      (simp_all add: evidence_fields_def entry_effect_def)
  then show ?thesis
    using assms(2)
    by (cases x) (simp add: evidence_json_def zero_evidence_def norm_evidence_def evidence_fields_def decode_simps state_of_string_inverse)
qed

lemma decode_warning:
  assumes "map_canonical (warn_details x)"
  shows "decode_struct warning_fields (warning_json x) zero_warning = Some (norm_warning x)"
proof -
  have "decode_entries warning_fields (opt_map_field ''details'' (warn_details x) @ []) (x\<lparr>warn_details := None\<rparr>)
    = Some (x\<lparr>warn_details := norm_map (warn_details x)\<rparr>)"
    using assms
    by (subst decode_opt_map_field[where u = "\<lambda>m r. r\<lparr>warn_details := m\<rparr>"])
      (simp_all add: warning_fields_def entry_effect_def)
  then show ?thesis
    by (cases x) (simp add: warning_json_def zero_warning_def norm_warning_def warning_fields_def decode_simps)
qed

lemma receipt_parts_valid:
  assumes "receipt_validate r = Inr u"
  shows "state_valid (rp_state r)" "\<forall>e\<in>set (rp_evidence r). state_valid (ev_state e)"
  using assms by (auto simp: receipt_validate_def bindE_Inr_iff each_Inr evidence_validate_def)

lemma decode_receipt:
  assumes "receipt_validate r = Inr u" "receipt_portable r"
  shows "decode_struct receipt_fields (receipt_json r) zero_receipt = Some (norm_receipt r)"
proof -
  have ev: "decode_all evidence_fields zero_evidence (map evidence_json (rp_evidence r)) = Some (map norm_evidence (rp_evidence r))"
    using receipt_parts_valid(2)[OF assms(1)] assms(2)
    by (intro decode_all_map decode_evidence) (auto simp: receipt_portable_def list_all_iff)
  have wa: "decode_all warning_fields zero_warning (map warning_json (rp_warnings r)) = Some (map norm_warning (rp_warnings r))"
    using assms(2) by (intro decode_all_map decode_warning) (auto simp: receipt_portable_def list_all_iff)
  have src: "decode_struct identity_fields (identity_json (rp_source r)) zero_identity = Some (norm_identity (rp_source r))"
    "decode_struct identity_fields (identity_json (rp_target r)) zero_identity = Some (norm_identity (rp_target r))"
    using assms(2) by (simp_all add: decode_identity receipt_portable_def)
  have ne: "content_ref_json c \<noteq> JNull" "resolution_json m \<noteq> JNull" for c m
    by (simp_all add: content_ref_json_def resolution_json_def)
  note st = state_of_string_inverse[OF receipt_parts_valid(1)[OF assms(1)]]
  show ?thesis
    by (cases "rp_content_ref r"; cases "effective_resolution r")
      (simp_all add: receipt_json_def norm_receipt_def pointer_field_def receipt_fields_def zero_receipt_def decode_simps
        into_struct_def into_pointer_def ev wa src ne st decode_message decode_content_ref decode_resolution)
qed

lemma norm_receipt_valid: "receipt_validate (norm_receipt r) = receipt_validate r"
proof -
  have e: "each evidence_validate (map norm_evidence es) = each evidence_validate es" for es
    by (induction es) (simp_all add: evidence_validate_def norm_evidence_def)
  have w: "each warning_validate (map norm_warning ws) = each warning_validate ws" for ws
    by (induction ws) (simp_all add: warning_validate_def norm_warning_def)
  have m: "effective_resolution (norm_receipt r) = effective_resolution r"
    by (simp add: effective_resolution_def norm_receipt_def split: option.splits)
  show ?thesis
    unfolding receipt_validate_def m by (simp add: norm_receipt_def norm_identity_def e w)
qed

text \<open>
  C20: A valid receipt whose text is UTF-8 survives its portable form: what \<open>MarshalReceipt\<close>
  writes, \<open>ParseReceipt\<close> accepts and reads back as the same receipt, with empty maps absent and
  the resolution in its contract field.
\<close>

theorem receipt_round_trip:
  assumes "receipt_validate r = Inr ()" "receipt_portable r"
  shows "ParseReceipt (MarshalReceipt r) = Inr (norm_receipt r)"
proof -
  have "parse_json (MarshalReceipt r) = Some (receipt_json r)"
    using assms(2) by (simp add: MarshalReceipt_def parse_render receipt_portable_def)
  then show ?thesis
    by (simp add: ParseReceipt_def decode_receipt[OF assms] norm_receipt_valid assms(1))
qed

definition sample_receipt :: Receipt where
  "sample_receipt = zero_receipt\<lparr>rp_schema := ReceiptSchema,
     rp_receipt_id := ''rcpt_01890000-0000-7000-8000-000000000001'',
     rp_operation_id := ''op_01890000-0000-7000-8000-000000000002'', rp_operation := ''send'',
     rp_state := StateManuallyResolved,
     rp_source := zero_identity\<lparr>id_endpoint_id := ''ep_01890000-0000-7000-8000-000000000003'', id_thread_id := ''1''\<rparr>,
     rp_target := zero_identity\<lparr>id_endpoint_id := ''ep_01890000-0000-7000-8000-000000000004'',
       id_evidence := Some [(''a'', JArr [JNull, JNum ''1.5e3'']), (''b'', JStr ''x<y'')]\<rparr>,
     rp_message := zero_message\<lparr>mg_message_id := ''msg_01890000-0000-7000-8000-000000000005'', mg_kind := ''message'',
       mg_payload_bytes := 7, mg_payload_sha256 := ''sha256:'' @ replicate 64 CHR ''0''\<rparr>,
     rp_evidence := [zero_evidence\<lparr>ev_state := StateAccepted, ev_at := ''2026-01-02T03:04:05Z''\<rparr>],
     rp_warnings := [\<lparr>warn_code = ''evidence_gap'', warn_message = ''m'', warn_details = Some []\<rparr>],
     rp_resolution := Some \<lparr>rs_assertion = ''accepted'', rs_actor = ''a'', rs_reason = ''r'',
       rs_timestamp = ''2026-01-02T03:04:05Z'', rs_evidence_ref = ''e'', rs_presentation = ''interactive''\<rparr>,
     rp_created_at := ''2026-01-02T03:04:05Z'', rp_updated_at := ''2026-01-02T03:04:06Z''\<rparr>"

theorem receipt_round_trip_witness:
  "ParseReceipt (MarshalReceipt sample_receipt) = Inr (norm_receipt sample_receipt)"
  by (rule receipt_round_trip) code_simp+

section \<open>Lifecycle events\<close>

record Event =
  le_schema :: string
  le_event :: string
  le_event_id :: string
  le_sequence :: "64 word"
  le_operation_id :: string
  le_timestamp :: string
  le_terminal :: bool
  le_ok :: bool
  le_warnings :: "go_map Warning list"
  le_data :: "(string \<times> json) list"
  le_error :: "go_map Error option"

definition named_codes :: "ErrorCode list" where
  "named_codes = [ErrInvalidArguments, ErrInvalidTarget, ErrResolverUnavailable, ErrTargetAmbiguous,
     ErrRouteUnavailable, ErrEndpointUnavailable, ErrUnsupportedServerVersion, ErrInputTooLarge, ErrInvalidUTF8,
     ErrMessageNotFound, ErrMessageIdentityConflict, ErrReplyRouteRequired, ErrReplyRouteUnavailable,
     ErrReplyNotRequested, ErrInvalidRawWait, ErrInvalidRawReplyRequest, ErrReplyOutcomeUnknown,
     ErrMessageNotAddressedThread, ErrContentUnavailable, ErrDeliveryRejected, ErrDeliveryTemporarilyUnavailable,
     ErrOutcomeUnknown, ErrWaitIncomplete, ErrWaitInterrupted, ErrEffectAcknowledgmentRequired,
     ErrExperimentalMethodUnavailable, ErrOutputTooLarge, ErrCompactOutputTooLarge, ErrStorageBusy,
     ErrStorageCorrupt, ErrStorageMigrationRequired, ErrRepairRequired, ErrInternal]"

definition code_of_string :: "string \<Rightarrow> ErrorCode" where
  "code_of_string s = (case find (\<lambda>c. code_string c = s) named_codes of Some c \<Rightarrow> c | None \<Rightarrow> ErrOther s)"

lemma code_of_string_inverse: "code_valid c \<Longrightarrow> code_of_string (code_string c) = c"
  by (cases c) (simp_all add: code_of_string_def named_codes_def)

definition error_json :: "go_map Error \<Rightarrow> json" where
  "error_json x = JObj (
     field ''code'' (code_string (err_code x)) @ field ''message'' (err_message x) @
     [(''retryable'', JBool (err_retryable x))] @ field ''effectState'' (err_effect_state x) @
     opt_map_field ''details'' (err_details x) @ [])"

definition zero_error :: "go_map Error" where
  "zero_error = \<lparr>err_code = ErrOther '''', err_message = '''', err_retryable = False, err_effect_state = '''', err_details = None\<rparr>"

definition error_fields :: "go_map Error fields" where
  "error_fields = [
     (''code'', into_string (\<lambda>s r. r\<lparr>err_code := code_of_string s\<rparr>)),
     (''message'', into_string (\<lambda>s r. r\<lparr>err_message := s\<rparr>)),
     (''retryable'', into_bool (\<lambda>b r. r\<lparr>err_retryable := b\<rparr>)),
     (''effectState'', into_string (\<lambda>s r. r\<lparr>err_effect_state := s\<rparr>)),
     (''details'', into_map err_details (\<lambda>m r. r\<lparr>err_details := m\<rparr>))]"

text \<open>The data with the ergonomic error nested in it; an error already there has to agree.\<close>

definition event_data :: "Event \<Rightarrow> string + (string \<times> json) list" where
  "event_data e =
     (case le_error e of None \<Rightarrow> Inr (le_data e)
      | Some err \<Rightarrow>
          let agrees = (case map_of (le_data e) ''error'' of None \<Rightarrow> True
            | Some v \<Rightarrow> (case decode_struct error_fields v zero_error of None \<Rightarrow> False
                | Some p \<Rightarrow> err_code p = err_code err \<and> err_message p = err_message err))
          in if agrees then Inr (put_entry (le_data e) (''error'', error_json err))
             else Inl ''mektup: event data.error conflicts with Event.Error'')"

text \<open>\<open>Event.MarshalJSON\<close>.\<close>

definition event_json :: "Event \<Rightarrow> string + json" where
  "event_json e = bindE (event_data e) (\<lambda>data. Inr (JObj (
     field ''schema'' (le_schema e) @ field ''event'' (le_event e) @ field ''eventId'' (le_event_id e) @
     [(''sequence'', json_uint (le_sequence e))] @ field ''operationId'' (le_operation_id e) @
     field ''timestamp'' (le_timestamp e) @ [(''terminal'', JBool (le_terminal e)), (''ok'', JBool (le_ok e)),
     (''warnings'', JArr (map warning_json (le_warnings e))), (''data'', JObj data)])))"

definition MarshalEvent :: "Event \<Rightarrow> string + string" where
  "MarshalEvent e = bindE (event_json e) (\<lambda>v. Inr (render_json v))"

definition event_validate :: "Event \<Rightarrow> string + unit" where
  "event_validate e =
     bindE (check (le_schema e = EventSchema) ''mektup: unsupported event schema'') (\<lambda>_.
     bindE (check (le_event e \<noteq> '''') ''mektup: event name is required'') (\<lambda>_.
     bindE (in_context ''event id'' (ValidateID (le_event_id e) EventIDPrefix)) (\<lambda>_.
     bindE (check (le_sequence e \<noteq> 0) ''mektup: event sequence starts at one'') (\<lambda>_.
     bindE (in_context ''operation id'' (ValidateID (le_operation_id e) OperationIDPrefix)) (\<lambda>_.
     bindE (validateTimestamp (le_timestamp e) ''timestamp'') (\<lambda>_.
     bindE (each warning_validate (le_warnings e)) (\<lambda>_.
     case le_error e of None \<Rightarrow> Inr () | Some err \<Rightarrow> error_validate err)))))))"

definition zero_event :: Event where
  "zero_event = \<lparr>le_schema = '''', le_event = '''', le_event_id = '''', le_sequence = 0, le_operation_id = '''',
     le_timestamp = '''', le_terminal = False, le_ok = False, le_warnings = [], le_data = [], le_error = None\<rparr>"

definition event_fields :: "Event fields" where
  "event_fields = [
     (''schema'', into_string (\<lambda>s r. r\<lparr>le_schema := s\<rparr>)),
     (''event'', into_string (\<lambda>s r. r\<lparr>le_event := s\<rparr>)),
     (''eventId'', into_string (\<lambda>s r. r\<lparr>le_event_id := s\<rparr>)),
     (''sequence'', into_uint (\<lambda>w r. r\<lparr>le_sequence := w\<rparr>)),
     (''operationId'', into_string (\<lambda>s r. r\<lparr>le_operation_id := s\<rparr>)),
     (''timestamp'', into_string (\<lambda>s r. r\<lparr>le_timestamp := s\<rparr>)),
     (''terminal'', into_bool (\<lambda>b r. r\<lparr>le_terminal := b\<rparr>)),
     (''ok'', into_bool (\<lambda>b r. r\<lparr>le_ok := b\<rparr>)),
     (''warnings'', into_slice warning_fields zero_warning (\<lambda>x r. r\<lparr>le_warnings := coalesce x []\<rparr>)),
     (''data'', into_map (\<lambda>r. Some (le_data r)) (\<lambda>m r. r\<lparr>le_data := coalesce m []\<rparr>))]"

text \<open>\<open>Event.UnmarshalJSON\<close>.\<close>

definition event_unmarshal :: "json \<Rightarrow> string + Event" where
  "event_unmarshal v =
     (case decode_struct event_fields v zero_event of None \<Rightarrow> Inl ''cannot unmarshal''
      | Some e \<Rightarrow>
          (case map_of (le_data e) ''error'' of None \<Rightarrow> Inr e
           | Some raw \<Rightarrow>
               (case decode_struct error_fields raw zero_error of None \<Rightarrow> Inl ''mektup: malformed data.error''
                | Some err \<Rightarrow> Inr (e\<lparr>le_error := Some err\<rparr>))))"

definition ParseEvent :: "string \<Rightarrow> string + Event" where
  "ParseEvent data =
     (case parse_json data of None \<Rightarrow> Inl ''invalid JSON''
      | Some v \<Rightarrow> bindE (event_unmarshal v) (\<lambda>e. bindE (event_validate e) (\<lambda>_. Inr e)))"

text \<open>\<open>EncodeJSONLine\<close>; the argument is what \<open>json.Marshal\<close> makes of the value, a JSON value or an error.\<close>

definition EncodeJSONLine :: "string + json \<Rightarrow> string + string" where
  "EncodeJSONLine value = bindE value (\<lambda>v. Inr (render_json v @ [CHR 0x0A]))"

section \<open>Events survive their JSON form\<close>

definition norm_error :: "go_map Error \<Rightarrow> go_map Error" where
  "norm_error x = x\<lparr>err_details := norm_map (err_details x)\<rparr>"

definition norm_event :: "(string \<times> json) list \<Rightarrow> Event \<Rightarrow> Event" where
  "norm_event data e = e\<lparr>le_warnings := map norm_warning (le_warnings e), le_data := data,
     le_error := map_option norm_error (le_error e)\<rparr>"

definition event_portable :: "Event \<Rightarrow> bool" where
  "event_portable e =
     (case event_json e of Inl _ \<Rightarrow> False | Inr v \<Rightarrow>
        json_ok v \<and> depth v \<le> max_depth \<and> map_canonical (Some (le_data e)) \<and>
        list_all (\<lambda>w. map_canonical (warn_details w)) (le_warnings e) \<and>
        (case le_error e of None \<Rightarrow> map_of (le_data e) ''error'' = None | Some err \<Rightarrow> map_canonical (err_details err)))"

text \<open>The error as it comes back inside the data: a map, its entries in key order.\<close>

lemma any_of_error_json:
  "map_canonical (err_details x) \<Longrightarrow> any_of (error_json x) = JObj (
     field ''code'' (code_string (err_code x)) @ opt_map_field ''details'' (err_details x) @
     field ''effectState'' (err_effect_state x) @ field ''message'' (err_message x) @
     [(''retryable'', JBool (err_retryable x))])"
  by (cases "err_details x") (simp_all add: error_json_def field_def opt_map_field_def)

lemma decode_error_map:
  assumes "map_canonical (err_details x)" "code_valid (err_code x)"
  shows "decode_struct error_fields (any_of (error_json x)) zero_error = Some (norm_error x)"
proof -
  let ?r = "zero_error\<lparr>err_code := err_code x\<rparr>"
  let ?rest = "field ''effectState'' (err_effect_state x) @ field ''message'' (err_message x) @
     [(''retryable'', JBool (err_retryable x))]"
  have "decode_entries error_fields (opt_map_field ''details'' (err_details x) @ ?rest) ?r
    = decode_entries error_fields ?rest (?r\<lparr>err_details := norm_map (err_details x)\<rparr>)"
    using assms(1)
    by (subst decode_opt_map_field[where u = "\<lambda>m r. r\<lparr>err_details := m\<rparr>"])
      (simp_all add: error_fields_def entry_effect_def zero_error_def)
  then show ?thesis
    using assms(2) unfolding any_of_error_json[OF assms(1)]
    by (cases x) (simp add: zero_error_def norm_error_def error_fields_def decode_simps code_of_string_inverse)
qed

lemma map_of_put_entry: "map_of (put_entry m (k, v)) = (map_of m)(k \<mapsto> v)"
  by (induction m) (auto simp: fun_upd_twist)

text \<open>The data of an event as it comes back.\<close>

definition parsed_data :: "(string \<times> json) list \<Rightarrow> (string \<times> json) list" where
  "parsed_data data = map (\<lambda>kv. (fst kv, any_of (snd kv))) data"

lemma map_of_parsed_data: "map_of (parsed_data data) k = map_option any_of (map_of data k)"
  by (induction data) (auto simp: parsed_data_def)

lemma event_data_sorted:
  assumes "event_data e = Inr data" "event_portable e"
  shows "entries_sorted data"
  using assms
  by (auto simp: event_data_def event_portable_def Let_def put_entry_sorted split: option.splits sum.splits if_splits)

lemma decode_event:
  assumes "event_data e = Inr data" "event_json e = Inr v" "event_portable e"
  shows "decode_struct event_fields v zero_event = Some ((norm_event (parsed_data data) e)\<lparr>le_error := None\<rparr>)"
proof -
  have wa: "decode_all warning_fields zero_warning (map warning_json (le_warnings e)) = Some (map norm_warning (le_warnings e))"
    using assms(3) by (intro decode_all_map decode_warning) (auto simp: event_portable_def list_all_iff split: sum.splits)
  have "entries_sorted (parsed_data data)"
    using event_data_sorted[OF assms(1,3)] by (simp add: entries_sorted_def parsed_data_def comp_def)
  then have dc: "foldl put_entry [] (map (\<lambda>kv. (fst kv, any_of (snd kv))) data) = parsed_data data"
    using foldl_put_entry_sorted[of "[]" "parsed_data data"] by (simp add: parsed_data_def)
  show ?thesis
    using assms(1,2) wa dc
    by (cases e) (auto simp: event_json_def norm_event_def event_fields_def zero_event_def decode_simps)
qed

text \<open>
  C21: A valid lifecycle event that is portable survives its JSON line: what \<open>MarshalEvent\<close> writes,
  \<open>ParseEvent\<close> accepts, with the same sequence number, terminal flag and data, and with the error,
  written only under \<open>data.error\<close>, back in its place. Portable (\<open>event_portable\<close>) says that the
  strings are UTF-8, the nesting is within the decoder's bound, the numbers are JSON numbers, and an
  event without an error has no \<open>error\<close> entry of its own in its data: such an entry would come back
  as the event's error, or be refused.
\<close>

theorem event_round_trip:
  assumes "event_validate e = Inr ()" "event_portable e" "MarshalEvent e = Inr s"
  shows "\<exists>data. event_data e = Inr data \<and> ParseEvent s = Inr (norm_event (parsed_data data) e)"
proof -
  obtain v data where v: "event_json e = Inr v" "s = render_json v" and data: "event_data e = Inr data"
    using assms(3) by (auto simp: MarshalEvent_def event_json_def bindE_Inr_iff)
  have "parse_json s = Some v" using assms(2) v by (simp add: event_portable_def parse_render)
  moreover have w: "each warning_validate (map norm_warning ws) = each warning_validate ws" for ws
    by (induction ws) (simp_all add: warning_validate_def norm_warning_def)
  have "event_unmarshal v = Inr (norm_event (parsed_data data) e)"
  proof (cases "le_error e")
    case None
    with data assms(2) v have "map_of (parsed_data data) ''error'' = None"
      by (auto simp: event_data_def event_portable_def map_of_parsed_data)
    with None show ?thesis
      by (simp add: event_unmarshal_def decode_event[OF data v(1) assms(2)] norm_event_def)
  next
    case (Some err)
    with data have "data = put_entry (le_data e) (''error'', error_json err)"
      by (auto simp: event_data_def Let_def split: if_splits)
    moreover have "decode_struct error_fields (any_of (error_json err)) zero_error = Some (norm_error err)"
      using Some assms(1,2) v(1) by (intro decode_error_map)
        (auto simp: event_portable_def event_validate_def error_validate_def bindE_Inr_iff split: if_splits)
    ultimately show ?thesis
      using Some by (simp add: event_unmarshal_def decode_event[OF data v(1) assms(2)] norm_event_def
          map_of_parsed_data map_of_put_entry)
  qed
  moreover have "event_validate (norm_event (parsed_data data) e) = event_validate e"
    unfolding event_validate_def norm_event_def
    by (simp add: w error_validate_def norm_error_def split: option.splits)
  ultimately show ?thesis using data assms(1) by (simp add: ParseEvent_def)
qed

definition sample_event :: Event where
  "sample_event = zero_event\<lparr>le_schema := EventSchema, le_event := ''send.failed'',
     le_event_id := ''evt_01890000-0000-7000-8000-000000000001'', le_sequence := 3,
     le_operation_id := ''op_01890000-0000-7000-8000-000000000002'', le_timestamp := ''2026-01-02T03:04:05.000000Z'',
     le_terminal := True, le_data := [(''attempt'', JNum ''2''), (''state'', JStr ''rejected'')],
     le_error := Some \<lparr>err_code = ErrDeliveryRejected, err_message = ''no'', err_retryable = False,
       err_effect_state = ''rejected'', err_details = None\<rparr>\<rparr>"

theorem event_round_trip_witness:
  "\<exists>s data. MarshalEvent sample_event = Inr s \<and> ParseEvent s = Inr (norm_event (parsed_data data) sample_event) \<and>
     map fst data = [''attempt'', ''error'', ''state'']"
proof -
  have v: "event_validate sample_event = Inr ()" and p: "event_portable sample_event" by code_simp+
  have "case event_data sample_event of Inl _ \<Rightarrow> False | Inr data \<Rightarrow> map fst data = [''attempt'', ''error'', ''state'']"
    by code_simp
  moreover obtain s where s: "MarshalEvent sample_event = Inr s"
    using p by (auto simp: MarshalEvent_def event_portable_def split: sum.splits)
  ultimately show ?thesis using event_round_trip[OF v p s] by auto
qed

section \<open>One line per record\<close>

text \<open>
  A lifecycle record is one line: the text of a value with well-formed strings and numbers has no line
  feed of its own.
\<close>

lemma json_line_is_one_line:
  assumes "json_ok v"
  shows "\<exists>body. EncodeJSONLine (Inr v) = Inr (body @ [CHR 0x0A]) \<and> CHR 0x0A \<notin> set body"
  using render_printable[OF assms]
  by (auto simp: EncodeJSONLine_def no_control_def list_all_iff is_control_def byte_def)

end
