(* ===== verification/Journal_Receipts.thy ===== *)
theory Journal_Receipts
  imports Journal_Evidence Models
begin

text \<open>
  \<open>go/internal/journal/receipts.go\<close>: the portable receipts in the \<open>receipts\<close> table, their merge
  with what is stored, the check that no body is stored, lookup and paged listing; and the two
  transactions of \<open>operations.go\<close> and \<open>replies.go\<close> that publish a receipt with a custody change.
  The \<open>document\<close> column holds the JSON text itself.
\<close>

section \<open>Bodies are kept out\<close>

definition body_keys :: "string list" where
  "body_keys = [''body'', ''bodytext'', ''replybody'', ''payload'', ''payloadtext'']"

fun walk_body :: "json \<Rightarrow> bool" where
  "walk_body (JObj kvs) = (\<exists>kv\<in>set kvs. to_lower (fst kv) \<in> set body_keys \<or> walk_body (snd kv))"
| "walk_body (JArr vs) = (\<exists>v\<in>set vs. walk_body v)"
| "walk_body v = False"

definition containsBodyKey :: "string \<Rightarrow> bool" where
  "containsBodyKey document = (case parse_json document of None \<Rightarrow> True | Some v \<Rightarrow> walk_body (any_of v))"

section \<open>Merging with a stored receipt\<close>

text \<open>An optional locator: an incoming one is taken unless it contradicts the stored one.\<close>

definition merge_locator :: "string \<Rightarrow> string \<Rightarrow> jerror + string" where
  "merge_locator e i =
     (if i = '''' then Inr e else if e \<noteq> '''' \<and> e \<noteq> i then Inl IdentityConflict else Inr i)"

definition mergeContentRef :: "ContentRef option \<Rightarrow> ContentRef option \<Rightarrow> jerror + ContentRef option" where
  "mergeContentRef existing incoming =
     (case existing of None \<Rightarrow> Inr incoming
      | Some e \<Rightarrow>
          (case incoming of None \<Rightarrow> Inr (Some e)
           | Some i \<Rightarrow>
               bindE (check (ct_endpoint_id e = ct_endpoint_id i \<and> ct_thread_id e = ct_thread_id i \<and>
                        ct_payload_bytes e = ct_payload_bytes i \<and> ct_payload_sha256 e = ct_payload_sha256 i)
                        IdentityConflict) (\<lambda>_.
               bindE (merge_locator (ct_turn_id e) (ct_turn_id i)) (\<lambda>turn.
               bindE (merge_locator (ct_item_id e) (ct_item_id i)) (\<lambda>item.
               bindE (merge_locator (ct_client_message_id e) (ct_client_message_id i)) (\<lambda>client.
               Inr (Some (e\<lparr>ct_turn_id := turn, ct_item_id := item, ct_client_message_id := client\<rparr>))))))))"

definition mergeWarnings :: "go_map Warning list \<Rightarrow> go_map Warning list \<Rightarrow> go_map Warning list" where
  "mergeWarnings existing incoming = foldl (\<lambda>m w. if w \<in> set m then m else m @ [w]) existing incoming"

definition merge_evidence :: "EvidenceRecord list \<Rightarrow> EvidenceRecord list \<Rightarrow> EvidenceRecord list" where
  "merge_evidence existing incoming = foldl (\<lambda>inc prior. if prior \<in> set inc then inc else prior # inc) incoming existing"

definition same_receipt :: "Receipt \<Rightarrow> Receipt \<Rightarrow> bool" where
  "same_receipt a b =
     (rp_schema a = rp_schema b \<and> rp_receipt_id a = rp_receipt_id b \<and> rp_operation_id a = rp_operation_id b \<and>
      rp_operation a = rp_operation b \<and> mg_message_id (rp_message a) = mg_message_id (rp_message b) \<and>
      mg_in_reply_to (rp_message a) = mg_in_reply_to (rp_message b) \<and> mg_kind (rp_message a) = mg_kind (rp_message b) \<and>
      mg_reply_requested (rp_message a) = mg_reply_requested (rp_message b) \<and>
      mg_client_message_id (rp_message a) = mg_client_message_id (rp_message b) \<and>
      mg_payload_bytes (rp_message a) = mg_payload_bytes (rp_message b) \<and>
      mg_payload_sha256 (rp_message a) = mg_payload_sha256 (rp_message b) \<and>
      id_endpoint_id (rp_source a) = id_endpoint_id (rp_source b) \<and> id_thread_id (rp_source a) = id_thread_id (rp_source b) \<and>
      id_resolved (rp_source a) = id_resolved (rp_source b) \<and>
      id_endpoint_id (rp_target a) = id_endpoint_id (rp_target b) \<and> id_thread_id (rp_target a) = id_thread_id (rp_target b) \<and>
      id_resolved (rp_target a) = id_resolved (rp_target b) \<and> rp_created_at a = rp_created_at b)"

definition mergeReceiptProjection :: "Receipt \<Rightarrow> Receipt \<Rightarrow> jerror + Receipt" where
  "mergeReceiptProjection existing incoming =
     (if \<not> same_receipt existing incoming then Inl IdentityConflict
      else bindE (mergeContentRef (rp_content_ref existing) (rp_content_ref incoming)) (\<lambda>ref.
        Inr (incoming\<lparr>rp_content_ref := ref,
          rp_warnings := mergeWarnings (rp_warnings existing) (rp_warnings incoming),
          rp_manual_resolution := (case rp_manual_resolution incoming of None \<Rightarrow> rp_manual_resolution existing | Some m \<Rightarrow> Some m),
          rp_evidence := merge_evidence (rp_evidence existing) (rp_evidence incoming)\<rparr>)))"

section \<open>Storing a receipt\<close>

definition parseStoredReceipt :: "string \<Rightarrow> jerror + Receipt" where
  "parseStoredReceipt document =
     (case ParseReceipt document of Inl e \<Rightarrow> Inl (Wrapped Corrupt (''invalid stored receipt: '' @ e)) | Inr r \<Rightarrow> Inr r)"

definition parseReceiptTime :: "string \<Rightarrow> jerror + int" where
  "parseReceiptTime value =
     (case parse_rfc3339 value of None \<Rightarrow> Inl (Invalid ''journal: invalid receipt timestamp'') | Some t \<Rightarrow> Inr t)"

definition receipt_row_of :: "Receipt \<Rightarrow> int \<Rightarrow> int \<Rightarrow> string \<Rightarrow> receipt_row" where
  "receipt_row_of r created updated document =
     \<lparr>r_receipt_id = rp_receipt_id r, r_operation_id = rp_operation_id r, r_message_id = mg_message_id (rp_message r),
      r_state = rp_state r, r_created_at = unix_nano created, r_updated_at = unix_nano updated,
      r_source_endpoint_id = id_endpoint_id (rp_source r), r_source_thread_id = id_thread_id (rp_source r),
      r_target_endpoint_id = id_endpoint_id (rp_target r), r_target_thread_id = id_thread_id (rp_target r),
      r_document = document\<rparr>"

text \<open>The receipt to store: the given one, or its merge with the stored one.\<close>

definition receipt_to_store :: "Receipt \<Rightarrow> db \<Rightarrow> jerror + Receipt" where
  "receipt_to_store r d =
     (case row_by r_receipt_id (rp_receipt_id r) (receipts d) of
        None \<Rightarrow> Inr r
      | Some row \<Rightarrow> bindE (parseStoredReceipt (r_document row)) (\<lambda>existing. mergeReceiptProjection existing r))"

definition putReceiptTx :: "Receipt \<Rightarrow> unit tx" where
  "putReceiptTx r d =
     (case receipt_validate r of Inl e \<Rightarrow> Inl (Invalid (''journal: invalid receipt: '' @ e))
      | Inr _ \<Rightarrow>
          if containsBodyKey (MarshalReceipt r) then Inl ReceiptBody
          else bindE (parseReceiptTime (rp_created_at r)) (\<lambda>_.
               bindE (parseReceiptTime (rp_updated_at r)) (\<lambda>_.
               bindE (receipt_to_store r d) (\<lambda>m.
               bindE (parseReceiptTime (rp_created_at m)) (\<lambda>created.
               bindE (parseReceiptTime (rp_updated_at m)) (\<lambda>updated.
               let row = receipt_row_of m created updated (MarshalReceipt m)
               in Inr ((), d\<lparr>receipts := upsert_row r_receipt_id row (\<lambda>_. row) (receipts d)\<rparr>)))))))"

definition PutReceipt :: "Receipt \<Rightarrow> db \<Rightarrow> (jerror + unit) \<times> db" where
  "PutReceipt r d = withTx (putReceiptTx r) d"

section \<open>Reading\<close>

definition MaxReceiptQueryLimit :: int where
  "MaxReceiptQueryLimit = 100"

record ReceiptQuery =
  rq_state :: EvidenceState
  rq_since :: "int option"
  rq_endpoint_id :: string
  rq_thread_id :: string
  rq_anchor_at :: "int option"
  rq_anchor_id :: string
  rq_before_at :: "int option"
  rq_before_id :: string
  rq_limit :: int

definition receipt_limit :: "ReceiptQuery \<Rightarrow> jerror + int" where
  "receipt_limit q =
     (if rq_limit q < 0 \<or> MaxReceiptQueryLimit < rq_limit q
      then Inl (Invalid ''journal: receipt limit must be between 0 and 100'')
      else if rq_limit q = 0 then Inr 50 else Inr (rq_limit q))"

text \<open>Several rows of one operation or message are an error unless they hold one receipt id.\<close>

fun scan_receipts :: "string list \<Rightarrow> Receipt option \<Rightarrow> jerror + Receipt option" where
  "scan_receipts [] out = Inr out"
| "scan_receipts (document # docs) out =
     bindE (parseStoredReceipt document) (\<lambda>r.
     case out of None \<Rightarrow> scan_receipts docs (Some r)
     | Some o1 \<Rightarrow> if rp_receipt_id r \<noteq> rp_receipt_id o1 then Inl ReceiptConflict else scan_receipts docs (Some o1))"

definition ReceiptLookup :: "string \<Rightarrow> db \<Rightarrow> jerror + Receipt" where
  "ReceiptLookup reference d =
     (case row_by r_receipt_id reference (receipts d) of
        Some row \<Rightarrow> parseStoredReceipt (r_document row)
      | None \<Rightarrow>
          let rows = rev (sort_key (\<lambda>r. (r_updated_at r, r_receipt_id r))
                (filter (\<lambda>r. r_operation_id r = reference \<or> r_message_id r = reference) (receipts d)))
          in bindE (scan_receipts (map r_document rows) None) (\<lambda>out.
             case out of None \<Rightarrow> Inl NotFound | Some r \<Rightarrow> Inr r))"

definition at_or_before :: "int \<times> string \<Rightarrow> receipt_row \<Rightarrow> bool" where
  "at_or_before a r = (r_created_at r < fst a \<or> r_created_at r = fst a \<and> r_receipt_id r \<le> snd a)"

definition strictly_before :: "int \<times> string \<Rightarrow> receipt_row \<Rightarrow> bool" where
  "strictly_before a r = (r_created_at r < fst a \<or> r_created_at r = fst a \<and> r_receipt_id r < snd a)"

definition in_scope :: "ReceiptQuery \<Rightarrow> receipt_row \<Rightarrow> bool" where
  "in_scope q r =
     ((rq_state q \<noteq> StateOther '''' \<longrightarrow> r_state r = rq_state q) \<and>
      (case rq_since q of None \<Rightarrow> True | Some t \<Rightarrow> unix_nano t \<le> r_created_at r) \<and>
      (if rq_endpoint_id q \<noteq> '''' \<and> rq_thread_id q \<noteq> '''' then
         (r_source_endpoint_id r = rq_endpoint_id q \<and> r_source_thread_id r = rq_thread_id q) \<or>
         (r_target_endpoint_id r = rq_endpoint_id q \<and> r_target_thread_id r = rq_thread_id q)
       else if rq_endpoint_id q \<noteq> '''' then
         r_source_endpoint_id r = rq_endpoint_id q \<or> r_target_endpoint_id r = rq_endpoint_id q
       else if rq_thread_id q \<noteq> '''' then
         r_source_thread_id r = rq_thread_id q \<or> r_target_thread_id r = rq_thread_id q
       else True) \<and>
      (case rq_anchor_at q of None \<Rightarrow> True | Some t \<Rightarrow> at_or_before (unix_nano t, rq_anchor_id q) r))"

definition past_cursor :: "ReceiptQuery \<Rightarrow> receipt_row \<Rightarrow> bool" where
  "past_cursor q r =
     (case rq_before_at q of None \<Rightarrow> True | Some t \<Rightarrow> strictly_before (unix_nano t, rq_before_id q) r)"

definition receiptPredicates :: "ReceiptQuery \<Rightarrow> jerror + (receipt_row \<Rightarrow> bool)" where
  "receiptPredicates q =
     (if rq_state q \<noteq> StateOther '''' \<and> \<not> state_valid (rq_state q)
      then Inl (Invalid ''journal: invalid receipt state'')
      else Inr (\<lambda>r. in_scope q r \<and> past_cursor q r))"

fun parse_rows :: "string list \<Rightarrow> jerror + Receipt list" where
  "parse_rows [] = Inr []"
| "parse_rows (document # docs) =
     bindE (parseStoredReceipt document) (\<lambda>r. bindE (parse_rows docs) (\<lambda>rs. Inr (r # rs)))"

text \<open>\<open>ORDER BY created_at DESC, receipt_id DESC\<close>.\<close>

definition receipt_order :: "receipt_row list \<Rightarrow> receipt_row list" where
  "receipt_order rows = rev (sort_key (\<lambda>r. (r_created_at r, r_receipt_id r)) rows)"

definition receipt_page :: "ReceiptQuery \<Rightarrow> db \<Rightarrow> jerror + receipt_row list" where
  "receipt_page q d =
     bindE (receipt_limit q) (\<lambda>limit.
     bindE (receiptPredicates q) (\<lambda>P. Inr (take (nat limit) (receipt_order (filter P (receipts d))))))"

definition ListReceipts :: "ReceiptQuery \<Rightarrow> db \<Rightarrow> jerror + Receipt list" where
  "ListReceipts q d = bindE (receipt_page q d) (\<lambda>rows. parse_rows (map r_document rows))"

definition HasReceiptAfter :: "ReceiptQuery \<Rightarrow> db \<Rightarrow> jerror + bool" where
  "HasReceiptAfter q d = bindE (receiptPredicates q) (\<lambda>P. Inr (list_ex P (receipts d)))"

section \<open>Custody changes that publish a receipt\<close>

definition ResolveWithReceipt_tx :: "int \<Rightarrow> string \<Rightarrow> ManualResolution \<Rightarrow> Receipt \<Rightarrow> Receipt tx" where
  "ResolveWithReceipt_tx now oid m receipt d =
     (case row_by o_operation_id oid (operations d) of
        None \<Rightarrow> Inl NotFound
      | Some r \<Rightarrow>
          if o_state r = StateManuallyResolved then
            (case row_by r_receipt_id (rp_receipt_id receipt) (receipts d) of
               None \<Rightarrow> Inl NotFound
             | Some row \<Rightarrow> bindE (parseStoredReceipt (r_document row)) (\<lambda>committed. Inr (committed, d)))
          else if o_state r \<noteq> StateOutcomeUnknown then Inl InvalidTransition
          else bindE (putReceiptTx receipt (resolve_writes now oid m d)) (\<lambda>(_, d). Inr (receipt, d)))"

definition ResolveWithReceipt ::
  "int \<Rightarrow> string \<Rightarrow> ManualResolution \<Rightarrow> Receipt \<Rightarrow> db \<Rightarrow> (jerror + Receipt) \<times> db" where
  "ResolveWithReceipt now oid m receipt d =
     (if oid = '''' \<or> rp_operation_id receipt \<noteq> oid \<or> resolution_incomplete m
      then (Inl (Invalid ''journal: incomplete atomic manual resolution''), d)
      else if rp_state receipt \<noteq> StateManuallyResolved
      then (Inl (Invalid ''journal: atomic manual receipt must be manually_resolved''), d)
      else withTx (ResolveWithReceipt_tx now oid m receipt) d)"

definition ReconcileReplyObservationWithReceipt_tx ::
  "int \<Rightarrow> string \<Rightarrow> string \<Rightarrow> string \<Rightarrow> Receipt \<Rightarrow> unit tx" where
  "ReconcileReplyObservationWithReceipt_tx now rid native digest receipt d =
     (case claim_of d rid of
        None \<Rightarrow> Inl NotFound
      | Some c \<Rightarrow>
          (case winner_of d (c_original_id c) of
             Some w \<Rightarrow> if w_reply_id w \<noteq> rid then Inl AlreadyWon
                       else bindE (reconcileReplyObservationTx rid native digest now d) (\<lambda>(_, d). putReceiptTx receipt d)
           | None \<Rightarrow> bindE (reconcileReplyObservationTx rid native digest now d) (\<lambda>(_, d). putReceiptTx receipt d)))"

definition ReconcileReplyObservationWithReceipt ::
  "int \<Rightarrow> string \<Rightarrow> string \<Rightarrow> string \<Rightarrow> Receipt \<Rightarrow> db \<Rightarrow> (jerror + unit) \<times> db" where
  "ReconcileReplyObservationWithReceipt now rid native digest receipt d =
     (if native = '''' \<or> digest = '''' then (Inl (Invalid ''journal: invalid reconciliation''), d)
      else if rp_state receipt \<noteq> StateReplyObserved \<or> rp_content_ref receipt = None
      then (Inl (Invalid ''journal: observed receipt projection is incomplete''), d)
      else withTx (ReconcileReplyObservationWithReceipt_tx now rid native digest receipt) d)"

end
