(* ===== verification/Journal_System.thy ===== *)
theory Journal_System
  imports Journal_Storage Journal_Blockers Journal_Receipts
begin

text \<open>
  The journal as a whole: one step per exported operation of \<open>*Journal\<close> that writes rows, taken by
  any process at any time with any arguments (\<open>ObserveReply\<close> and \<open>ImportPortableOriginalStatus\<close> only
  call another one). \<open>StorageMaintain\<close> is not one of these steps, because it alone deletes: it has a
  rule of its own in \<open>journal_reachable\<close>, and \<open>maintain_only_deletes\<close> says what it may do.
\<close>

section \<open>Steps\<close>

inductive journal_step :: "db \<Rightarrow> db \<Rightarrow> bool" where
  step_prepare: "Prepare now dur entropy p d = (r1, d') \<Longrightarrow> journal_step d d'"
| step_import_operation: "ImportOperation now p st ec d = (r2, d') \<Longrightarrow> journal_step d d'"
| step_fence: "withTx (MarkDispatchStartedOwned now oid owner token) d = (r3, d') \<Longrightarrow> journal_step d d'"
| step_mark_started: "MarkDispatchStarted now oid d = (r4, d') \<Longrightarrow> journal_step d d'"
| step_heartbeat_attempt: "HeartbeatAttempt now dur oid owner token d = (r5, d') \<Longrightarrow> journal_step d d'"
| step_result: "RecordResult now oid st ec d = (r6, d') \<Longrightarrow> journal_step d d'"
| step_accepted: "RecordAccepted now oid ref d = (r7, d') \<Longrightarrow> journal_step d d'"
| step_manual: "RecordManualResolution now oid m d = (r8, d') \<Longrightarrow> journal_step d d'"
| step_recover: "RecoverOrphans now d = (r9, d') \<Longrightarrow> journal_step d d'"
| step_claim: "ClaimReply now dur entropy inp d = (r10, d') \<Longrightarrow> journal_step d d'"
| step_heartbeat: "Heartbeat now dur rid owner token d = (r11, d') \<Longrightarrow> journal_step d d'"
| step_commit: "CommitReply now rid owner token d = (r12, d') \<Longrightarrow> journal_step d d'"
| step_expire: "ExpireClaims now d = (r13, d') \<Longrightarrow> journal_step d d'"
| step_abandon: "AbandonReply now rid owner token d = (r14, d') \<Longrightarrow> journal_step d d'"
| step_status: "OriginalStatus now orig d = (r15, d') \<Longrightarrow> journal_step d d'"
| step_import_status: "ImportOriginalStatus now si d = (r16, d') \<Longrightarrow> journal_step d d'"
| step_import_unknown: "ImportTerminalUnknown now ci d = (r17, d') \<Longrightarrow> journal_step d d'"
| step_observed_winner: "RecordObservedWinner now ci native ep route seq d = (r18, d') \<Longrightarrow> journal_step d d'"
| step_observed_reply: "RecordObservedReply now ci native ep route d = (r19, d') \<Longrightarrow> journal_step d d'"
| step_observe: "ObserveReplyWithProvenance now rid native digest ep route d = (r20, d') \<Longrightarrow> journal_step d d'"
| step_reconcile: "ReconcileReplyObservation now rid native digest d = (r21, d') \<Longrightarrow> journal_step d d'"
| step_reconcile_accepted: "ReconcileReplyAccepted now rid ref d = (r22, d') \<Longrightarrow> journal_step d d'"
| step_observed_and_winner:
    "RecordObservedReplyAndWinner now ci native ep route w d = (r23, d') \<Longrightarrow> journal_step d d'"
| step_upsert_blocker: "UpsertBlocker now b d = (r24, d') \<Longrightarrow> journal_step d d'"
| step_resolve_blocker: "ResolveBlocker now ep gen corr t d = (r25, d') \<Longrightarrow> journal_step d d'"
| step_put_receipt: "PutReceipt rcpt d = (r26, d') \<Longrightarrow> journal_step d d'"
| step_resolve_receipt: "ResolveWithReceipt now oid m rcpt d = (r27, d') \<Longrightarrow> journal_step d d'"
| step_reconcile_receipt:
    "ReconcileReplyObservationWithReceipt now rid native digest rcpt d = (r28, d') \<Longrightarrow> journal_step d d'"

text \<open>
  Retention runs between the steps, on a database whose claims all name a reply route. Claiming and
  observing check that; only \<open>ImportOriginalStatus\<close> takes a reply to an original that asked for none,
  and deleting that original can leave such a reply behind.
\<close>

inductive journal_reachable :: "db \<Rightarrow> bool" where
  reach_empty: "journal_reachable empty_db"
| reach_step: "journal_reachable d \<Longrightarrow> journal_step d d' \<Longrightarrow> journal_reachable d'"
| reach_maintain: "journal_reachable d \<Longrightarrow> routed d \<Longrightarrow>
    StorageMaintain now before dry checkpoint optimize d = (r, d') \<Longrightarrow> journal_reachable d'"

section \<open>Every step keeps the invariant and the history\<close>

definition tx_good :: "'a tx \<Rightarrow> db \<Rightarrow> bool" where
  "tx_good fn d = (\<forall>a d1. fn d = Inr (a, d1) \<longrightarrow> good d d1)"

lemma withTx_good: "journal_inv d \<Longrightarrow> tx_good fn d \<Longrightarrow> withTx fn d = (r, d') \<Longrightarrow> good d d'"
  by (cases r) (auto dest: withTx_Inl simp: withTx_Inr tx_good_def)

lemma tx_goodI: "(\<And>a d1. fn d = Inr (a, d1) \<Longrightarrow> good d d1) \<Longrightarrow> tx_good fn d"
  by (simp add: tx_good_def)

lemma operation_tx_goods:
  assumes "journal_inv d"
  shows "\<not> operation_incomplete p \<Longrightarrow> tx_good (Prepare_tx now dur entropy p) d"
    "\<not> operation_incomplete p \<Longrightarrow> tx_good (importOperationTxAt p st ec now ev rn) d"
    "tx_good (MarkDispatchStartedOwned now oid owner token) d"
    "tx_good (HeartbeatAttempt_tx now dur oid owner token) d"
    "tx_good (RecordResult_tx now oid st ec) d" "tx_good (RecordAccepted_tx now oid ref) d"
    "tx_good (RecordManualResolution_tx now oid m) d" "tx_good (RecoverOrphans_tx now) d"
  by (auto intro!: tx_goodI dest: prepare_good[OF assms] import_op_good[OF assms] fence_good[OF assms] heartbeat_attempt_good[OF assms]
    record_result_good[OF assms] record_accepted_good[OF assms] manual_good[OF assms] recover_good[OF assms])

lemma custody_tx_goods:
  assumes "journal_inv d"
  shows "tx_good (Heartbeat_tx now dur rid owner token) d" "tx_good (CommitReply_tx now rid owner token) d"
    "tx_good (\<lambda>d. expire_loop now (due_claims now d) 0 d) d" "tx_good (AbandonReply_tx now rid owner token) d"
    "tx_good (OriginalStatus_tx now orig) d"
    "validateOriginalStatusImport si = Inr u \<Longrightarrow> tx_good (ImportOriginalStatus_tx now si) d"
    "tx_good (importTerminalUnknownTx ci now) d"
    "1 \<le> seq \<Longrightarrow> tx_good (importObservedWinnerTx ci seq native ep route now) d"
  by (auto intro!: tx_goodI dest: heartbeat_good[OF assms] commit_good[OF assms] expire_loop_good[OF assms] abandon_good[OF assms]
    original_status_good[OF assms] import_status_good[OF assms] import_unknown_good[OF assms]
    import_winner_good[OF assms])

lemma observation_tx_goods:
  assumes "journal_inv d" and "native \<noteq> ''''"
  shows "tx_good (RecordObservedReply_tx now ci native ep route) d"
    "tx_good (ObserveReply_tx now rid native digest ep route) d"
    "tx_good (reconcileReplyObservationTx rid native digest now) d"
    "1 \<le> wi_commit_seq w \<Longrightarrow> tx_good (RecordObservedReplyAndWinner_tx now ci native ep route w) d"
  by (auto intro!: tx_goodI dest: observed_reply_good[OF assms] observe_good[OF assms] reconcile_good[OF assms]
    observed_and_winner_good[OF assms])

lemma reconcile_accepted_tx_good: "journal_inv d \<Longrightarrow> tx_good (ReconcileReplyAccepted_tx now rid ref) d"
  unfolding tx_good_def using reconcile_accepted_good by blast

lemma blockers_good: "journal_inv d \<Longrightarrow> good d (d\<lparr>blockers := ks\<rparr>)"
  by (simp add: journal_inv_def struct_ok_def ops_ok_def claims_ok_def links_ok_def events_ok_def
      claim_sound_def winner_sound_def held_def custody_relationship_def native_of_def evolves_def)

text \<open>Publishing a receipt writes the receipts only.\<close>

lemma receipts_good: "journal_inv d \<Longrightarrow> good d (d\<lparr>receipts := rs\<rparr>)"
  by (simp add: journal_inv_def struct_ok_def ops_ok_def claims_ok_def links_ok_def events_ok_def
      claim_sound_def winner_sound_def held_def custody_relationship_def native_of_def evolves_def)

lemma put_receipt_good: "journal_inv d \<Longrightarrow> putReceiptTx rcpt d = Inr (u, d') \<Longrightarrow> good d d'"
  using receipts_good by (auto simp: putReceiptTx_def bindE_Inr_iff Let_def split: sum.splits if_splits)

lemma resolve_receipt_tx_good:
  assumes "journal_inv d"
  shows "tx_good (ResolveWithReceipt_tx now oid m rcpt) d"
proof (rule tx_goodI)
  fix a d'
  assume h: "ResolveWithReceipt_tx now oid m rcpt d = Inr (a, d')"
  show "good d d'"
  proof (cases "d' = d")
    case False
    with h obtain u d1 where "RecordManualResolution_tx now oid m d = Inr (u, d1)" "putReceiptTx rcpt d1 = Inr ((), d')"
      by (auto simp: ResolveWithReceipt_tx_def RecordManualResolution_tx_def bindE_Inr_iff split: option.splits if_splits)
    with assms show ?thesis using manual_good put_receipt_good good_trans by blast
  qed (use assms in simp)
qed

lemma reconcile_receipt_tx_good:
  assumes "journal_inv d" "native \<noteq> ''''"
  shows "tx_good (ReconcileReplyObservationWithReceipt_tx now rid native digest rcpt) d"
proof (rule tx_goodI)
  fix a d'
  assume "ReconcileReplyObservationWithReceipt_tx now rid native digest rcpt d = Inr (a, d')"
  then obtain u d1 where "reconcileReplyObservationTx rid native digest now d = Inr (u, d1)" "putReceiptTx rcpt d1 = Inr (a, d')"
    by (auto simp: ReconcileReplyObservationWithReceipt_tx_def bindE_Inr_iff split: option.splits if_splits)
  with assms show "good d d'" using reconcile_good put_receipt_good good_trans by blast
qed

lemma claim_step_good:
  assumes inv: "journal_inv d" and h: "ClaimReply now dur entropy inp d = (r, d')"
  shows "good d d'"
proof (cases "claim_input_valid inp")
  case True
  obtain out res where t: "ClaimReply_tx now dur entropy inp d = (out, res)" by fastforce
  show ?thesis
  proof (cases res)
    case (Inl e)
    with h t True inv show ?thesis by (auto simp: ClaimReply_def)
  next
    case (Inr x)
    obtain expired d1 where x: "x = (expired, d1)" by fastforce
    from h t True Inr x have "d' = d1" by (auto simp: ClaimReply_def)
    with claim_good[OF inv] t Inr x show ?thesis by simp
  qed
qed (use h inv in \<open>auto simp: ClaimReply_def\<close>)

lemma step_good:
  assumes inv: "journal_inv d" and step: "journal_step d d'"
  shows "good d d'"
  using step
proof cases
  case (step_prepare now dur entropy p r1)
  then show ?thesis
    using inv withTx_good[OF inv operation_tx_goods(1)[OF inv, of p now dur entropy]]
    by (cases "withTx (Prepare_tx now dur entropy p) d") (auto simp: Prepare_def split: if_splits sum.splits)
next
  case (step_import_operation now p st ec r2)
  then show ?thesis
    using inv withTx_good[OF inv operation_tx_goods(2)[OF inv]] by (auto simp: ImportOperation_def split: if_splits)
next
  case (step_fence now oid owner token r3)
  then show ?thesis by (rule withTx_good[OF inv operation_tx_goods(3)[OF inv]])
next
  case (step_mark_started now oid r4)
  then show ?thesis
    using inv withTx_good[OF inv operation_tx_goods(3)[OF inv]] by (auto simp: MarkDispatchStarted_def split: sum.splits)
next
  case (step_heartbeat_attempt now dur oid owner token r5)
  then show ?thesis
    using withTx_good[OF inv operation_tx_goods(4)[OF inv, of now dur oid owner token]]
    by (auto simp: HeartbeatAttempt_def split: prod.splits sum.splits)
next
  case (step_result now oid st ec r6)
  then show ?thesis
    using inv withTx_good[OF inv operation_tx_goods(5)[OF inv]] by (auto simp: RecordResult_def split: if_splits)
next
  case (step_accepted now oid ref r7)
  then show ?thesis
    using inv withTx_good[OF inv operation_tx_goods(6)[OF inv]] by (auto simp: RecordAccepted_def split: if_splits)
next
  case (step_manual now oid m r8)
  then show ?thesis
    using inv withTx_good[OF inv operation_tx_goods(7)[OF inv]] by (auto simp: RecordManualResolution_def split: if_splits)
next
  case (step_recover now r9)
  then show ?thesis unfolding RecoverOrphans_def by (rule withTx_good[OF inv operation_tx_goods(8)[OF inv]])
next
  case step_claim
  with inv show ?thesis using claim_step_good by blast
next
  case (step_heartbeat now dur rid owner token r11)
  then show ?thesis
    using withTx_good[OF inv custody_tx_goods(1)[OF inv, of now dur rid owner token]]
    by (auto simp: Heartbeat_def split: prod.splits sum.splits)
next
  case (step_commit now rid owner token r12)
  then show ?thesis
    using withTx_good[OF inv custody_tx_goods(2)[OF inv, of now rid owner token]]
    by (auto simp: CommitReply_def split: prod.splits sum.splits option.splits)
next
  case (step_expire now r13)
  then show ?thesis
    using withTx_good[OF inv custody_tx_goods(3)[OF inv, of now]]
    by (auto simp: ExpireClaims_def expireClaimsAt_def split: prod.splits sum.splits)
next
  case (step_abandon now rid owner token r14)
  then show ?thesis unfolding AbandonReply_def by (rule withTx_good[OF inv custody_tx_goods(4)[OF inv]])
next
  case (step_status now orig r15)
  then show ?thesis
    using inv withTx_good[OF inv custody_tx_goods(5)[OF inv]] by (auto simp: OriginalStatus_def split: if_splits)
next
  case (step_import_status now si r16)
  then show ?thesis
    using inv withTx_good[OF inv custody_tx_goods(6)[OF inv]] by (auto simp: ImportOriginalStatus_def split: sum.splits)
next
  case (step_import_unknown now ci r17)
  then show ?thesis
    using inv withTx_good[OF inv custody_tx_goods(7)[OF inv]] by (auto simp: ImportTerminalUnknown_def split: if_splits)
next
  case (step_observed_winner now ci native ep route seq r18)
  then show ?thesis
    using inv withTx_good[OF inv custody_tx_goods(8)[OF inv]] by (auto simp: RecordObservedWinner_def not_less split: if_splits)
next
  case (step_observed_reply now ci native ep route r19)
  then show ?thesis
    using inv withTx_good[OF inv observation_tx_goods(1)[OF inv]] by (auto simp: RecordObservedReply_def split: if_splits)
next
  case (step_observe now rid native digest ep route r20)
  then show ?thesis
    using inv withTx_good[OF inv observation_tx_goods(2)[OF inv]]
    by (auto simp: ObserveReplyWithProvenance_def split: if_splits)
next
  case (step_reconcile now rid native digest r21)
  then show ?thesis
    using inv withTx_good[OF inv observation_tx_goods(3)[OF inv]]
    by (auto simp: ReconcileReplyObservation_def split: if_splits)
next
  case (step_reconcile_accepted now rid ref r22)
  then show ?thesis
    using inv withTx_good[OF inv reconcile_accepted_tx_good[OF inv]]
    by (auto simp: ReconcileReplyAccepted_def split: if_splits)
next
  case (step_observed_and_winner now ci native ep route w r23)
  then show ?thesis
    using inv withTx_good[OF inv observation_tx_goods(4)[OF inv]]
    by (auto simp: RecordObservedReplyAndWinner_def not_less split: if_splits)
next
  case (step_upsert_blocker now b r24)
  with inv blockers_good show ?thesis by (auto simp: UpsertBlocker_def Let_def split: if_splits)
next
  case (step_resolve_blocker now ep gen corr t r25)
  with inv blockers_good show ?thesis by (auto simp: ResolveBlocker_def split: if_splits)
next
  case (step_put_receipt rcpt r26)
  then show ?thesis
    using withTx_good[OF inv tx_goodI[of "putReceiptTx rcpt" d]] put_receipt_good[OF inv] by (simp add: PutReceipt_def)
next
  case (step_resolve_receipt now oid m rcpt r27)
  then show ?thesis
    using inv withTx_good[OF inv resolve_receipt_tx_good[OF inv]]
    by (auto simp: ResolveWithReceipt_def split: if_splits)
next
  case (step_reconcile_receipt now rid native digest rcpt r28)
  then show ?thesis
    using inv withTx_good[OF inv reconcile_receipt_tx_good[OF inv]]
    by (auto simp: ReconcileReplyObservationWithReceipt_def split: if_splits)
qed

section \<open>Retention keeps the invariant\<close>

lemma routed_map: "routed d \<longleftrightarrow> '''' \<notin> set (map c_reply_route (reply_claims d))"
  by (auto simp: routed_def image_iff)

lemma expireClaimTx_routed: "expireClaimTx rid now d = Inr d' \<Longrightarrow> routed d' = routed d"
  by (auto simp: expireClaimTx_def Let_def map_key_update_where routed_map simp del: set_map split: if_splits)

lemma expire_loop_routed: "expire_loop now rids n d = Inr (m, d') \<Longrightarrow> routed d' = routed d"
  by (induction rids arbitrary: n d) (auto simp: expireClaimTx_routed split: sum.splits if_splits)

text \<open>A maintenance call expires the due claims and prunes, or stops in between.\<close>

lemma maintain_cases:
  assumes "StorageMaintain now before dry checkpoint optimize d = (r, d')"
  obtains "d' = d"
  | m d1 n where "expire_loop now (due_claims now d) 0 d = Inr (m, d1)"
      "prune (retention_cutoff now before) d1 = Inr (n, d')"
proof (cases "expire_loop now (due_claims now d) 0 d")
  case (Inl e)
  with assms that(1) show ?thesis
    by (auto simp: StorageMaintain_def expireClaimsAt_def withTx_def Let_def split: if_splits)
next
  case (Inr x)
  obtain m d1 where x: "x = (m, d1)" by fastforce
  obtain n d2 where p: "prune (retention_cutoff now before) d1 = Inr (n, d2)" by (auto simp: prune_def Let_def)
  from assms Inr x p have "d' = d \<or> d' = d2"
    by (auto simp: StorageMaintain_def expireClaimsAt_def withTx_def Let_def split: if_splits sum.splits prod.splits option.splits)
  with that(1) that(2)[of m d1 n] Inr x p show ?thesis by auto
qed

lemma maintain_inv:
  assumes inv: "journal_inv d" and r: "routed d"
    and h: "StorageMaintain now before dry checkpoint optimize d = (res, d')"
  shows "journal_inv d'"
  using h
proof (cases rule: maintain_cases)
  case (2 m d1 n)
  have "journal_inv d1" "routed d1"
    using expire_loop_good[OF inv 2(1)] expire_loop_routed[OF 2(1)] r by simp_all
  then show ?thesis using prune_keeps_inv(1) 2(2) by blast
qed (use inv in simp)

lemma reachable_inv: "journal_reachable d \<Longrightarrow> journal_inv d"
  by (induction rule: journal_reachable.induct) (auto simp: journal_inv_empty dest: step_good maintain_inv)

lemma steps_good: "journal_step\<^sup>*\<^sup>* d d' \<Longrightarrow> journal_inv d \<Longrightarrow> good d d'"
proof (induction rule: rtranclp_induct)
  case base
  then show ?case by simp
next
  case (step b c)
  then have "good d b" by simp
  with step_good[of b c] step.hyps(2) show ?case using good_trans by blast
qed

section \<open>A sample run\<close>

text \<open>
  One operation that asks for a reply, the reply's claim and its commit, through the operations
  of the journal; the states the instances of the theorems are evaluated on.
\<close>

definition sample_operation :: Operation where
  "sample_operation = \<lparr>o_operation_id = ''op_1'', o_message_id = ''msg_1'', o_source_route = ''codex://a/thread/1'',
     o_target_route = ''codex://b/thread/2'', o_semantics = ''idle'', o_source_endpoint_id = ''ep_a'',
     o_target_endpoint_id = ''ep_b'', o_reply_route = ''codex://a/thread/1'', o_reply_endpoint_id = ''ep_a'',
     o_reply_thread_id = ''1'', o_custody_route = ''ep_a'', o_custody_store_id = ''store_1'',
     o_digest = ''sha256:0'', o_body_size = 3, op_attempt_owner = ''sender''\<rparr>"

definition sample_claim :: ClaimInput where
  "sample_claim = \<lparr>ci_reply_id = ''msg_01890000-0000-7000-8000-000000000001'', ci_original_id = ''msg_1'',
     ci_digest = ''sha256:'' @ replicate 64 CHR ''0'', ci_body_size = 5, ci_status = ''success'',
     ci_reply_route = ''codex://a/thread/1'', ci_custody_route = ''ep_a'', ci_custody_store_id = ''store_1'',
     ci_owner = ''receiver'', ci_error_code = ''''\<rparr>"

definition sample_prepared :: db where
  "sample_prepared = snd (Prepare 100 60 (Some (replicate 24 7)) sample_operation empty_db)"

definition sample_claimed :: db where
  "sample_claimed = snd (ClaimReply 110 60 (Some (replicate 24 9)) sample_claim sample_prepared)"

definition sample_committed :: db where
  "sample_committed = snd (CommitReply 120 (ci_reply_id sample_claim) ''receiver'' (hex_encode (replicate 24 9)) sample_claimed)"

lemma sample_prepared_reachable: "journal_reachable sample_prepared"
  unfolding sample_prepared_def
  by (rule reach_step[OF reach_empty], rule step_prepare, rule prod.collapse[symmetric])

lemma sample_claimed_reachable: "journal_reachable sample_claimed"
  unfolding sample_claimed_def
  by (rule reach_step[OF sample_prepared_reachable], rule step_claim, rule prod.collapse[symmetric])

lemma sample_committed_reachable: "journal_reachable sample_committed"
  unfolding sample_committed_def
  by (rule reach_step[OF sample_claimed_reachable], rule step_commit, rule prod.collapse[symmetric])

lemma sample_run: "journal_step\<^sup>*\<^sup>* sample_prepared sample_committed"
proof -
  have "journal_step sample_prepared sample_claimed"
    unfolding sample_claimed_def by (rule step_claim, rule prod.collapse[symmetric])
  moreover have "journal_step sample_claimed sample_committed"
    unfolding sample_committed_def by (rule step_commit, rule prod.collapse[symmetric])
  ultimately show ?thesis by (meson converse_rtranclp_into_rtranclp rtranclp.rtrancl_refl)
qed

end
