(* ===== verification/Journal_Retention.thy ===== *)
theory Journal_Retention
  imports Journal_System
begin

text \<open>
  What forgetting may do: expiry changes exactly the overdue claims, and \<open>StorageMaintain\<close> (expiry,
  then pruning) removes whole rows of settled operations and replies, and changes no row it keeps
  but the overdue claims.
\<close>

section \<open>Expiry, claim by claim\<close>

lemma count_where_0: "count_where P rows = 0 \<longleftrightarrow> (\<forall>r\<in>set rows. \<not> P r)"
  by (auto simp: count_where_def filter_empty_conv)

text \<open>What expiring one claim does.\<close>

definition expired_claim :: "int \<Rightarrow> claim_row \<Rightarrow> claim_row" where
  "expired_claim now c = c\<lparr>c_state := StateReplyOutcomeUnknown, c_updated_at := now,
     c_error_code := ''reply_outcome_unknown''\<rparr>"

definition due :: "int \<Rightarrow> claim_row \<Rightarrow> bool" where
  "due now c = (c_state c = StateReplyClaimed \<and> c_lease_until c \<le> now)"

lemma expire_effect:
  assumes "expireClaimTx rid now d = Inr d'"
  shows "claim_of d' r = map_option (\<lambda>c. if r = rid \<and> due now c then expired_claim now c else c) (claim_of d r)"
    "reply_winners d' = reply_winners d" "operations d' = operations d" "observations d' = observations d"
    "map c_reply_id (reply_claims d') = map c_reply_id (reply_claims d)"
proof -
  from assms have d': "d' = emit ''reply.expired'' '''' rid StateReplyOutcomeUnknown now
      (d\<lparr>reply_claims := update_where (\<lambda>c. c_reply_id c = rid \<and> c_state c = StateReplyClaimed \<and> c_lease_until c \<le> now)
         (expired_claim now) (reply_claims d)\<rparr>)"
    by (auto simp: expireClaimTx_def Let_def expired_claim_def[abs_def] split: if_splits)
  show "reply_winners d' = reply_winners d" "operations d' = operations d" "observations d' = observations d"
    by (simp_all add: d')
  show "map c_reply_id (reply_claims d') = map c_reply_id (reply_claims d)"
    by (simp add: d' map_key_update_where expired_claim_def)
  show "claim_of d' r = map_option (\<lambda>c. if r = rid \<and> due now c then expired_claim now c else c) (claim_of d r)"
    by (cases "claim_of d r") (auto simp: d' row_by_update_where expired_claim_def due_def dest: row_by_key)
qed

lemma expire_Inr_iff:
  assumes "journal_inv d"
  shows "(\<exists>d'. expireClaimTx rid now d = Inr d') \<longleftrightarrow> (\<exists>c. claim_of d rid = Some c \<and> due now c)"
proof
  assume "\<exists>d'. expireClaimTx rid now d = Inr d'"
  then obtain c where "c \<in> set (reply_claims d)" "c_reply_id c = rid" "due now c"
    by (auto simp: expireClaimTx_def Let_def count_where_0 due_def split: if_splits)
  with claim_in_inv[OF assms] show "\<exists>c. claim_of d rid = Some c \<and> due now c" by blast
next
  assume "\<exists>c. claim_of d rid = Some c \<and> due now c"
  then show "\<exists>d'. expireClaimTx rid now d = Inr d'"
    by (auto simp: expireClaimTx_def Let_def count_where_0 due_def dest!: row_by_SomeD)
qed

lemma expire_loop_effect:
  assumes "journal_inv d"
  shows "expire_loop now rids n d = Inr (m, d') \<Longrightarrow>
    (\<forall>r. claim_of d' r = map_option (\<lambda>c. if r \<in> set rids \<and> due now c then expired_claim now c else c) (claim_of d r))
    \<and> reply_winners d' = reply_winners d \<and> operations d' = operations d
    \<and> map c_reply_id (reply_claims d') = map c_reply_id (reply_claims d)"
  using assms
proof (induction rids arbitrary: n d)
  case Nil
  then show ?case by (simp add: option.map_ident)
next
  case (Cons rid rids)
  show ?case
  proof (cases "expireClaimTx rid now d")
    case (Inl e)
    then have no: "\<And>c. claim_of d rid = Some c \<Longrightarrow> \<not> due now c"
      using expire_Inr_iff[OF Cons.prems(2), of rid now] by auto
    from Cons.prems Inl have "expire_loop now rids n d = Inr (m, d')" by (auto split: if_splits)
    moreover have "map_option (\<lambda>c. if r \<in> set (rid # rids) \<and> due now c then expired_claim now c else c) (claim_of d r)
      = map_option (\<lambda>c. if r \<in> set rids \<and> due now c then expired_claim now c else c) (claim_of d r)" for r
      using no by (cases "claim_of d r") auto
    ultimately show ?thesis using Cons.IH[OF _ Cons.prems(2)] by simp
  next
    case (Inr d1)
    with Cons.prems have "expire_loop now rids (n + 1) d1 = Inr (m, d')" by simp
    moreover have "journal_inv d1" using expire_good[OF Cons.prems(2) Inr] by simp
    ultimately have IH: "claim_of d' r = map_option (\<lambda>c. if r \<in> set rids \<and> due now c then expired_claim now c else c) (claim_of d1 r)"
      "reply_winners d' = reply_winners d1 \<and> operations d' = operations d1
       \<and> map c_reply_id (reply_claims d') = map c_reply_id (reply_claims d1)" for r
      using Cons.IH[of "n + 1" d1] by blast+
    have "\<not> due now (expired_claim now c)" for c by (simp add: due_def expired_claim_def)
    then have "claim_of d' r = map_option (\<lambda>c. if r \<in> set (rid # rids) \<and> due now c then expired_claim now c else c) (claim_of d r)" for r
      unfolding IH(1) expire_effect(1)[OF Inr] by (cases "claim_of d r") auto
    with IH(2) expire_effect(2,3,5)[OF Inr] show ?thesis by simp
  qed
qed

section \<open>Maintenance\<close>

lemma prune_rows:
  assumes inv: "journal_inv d" and h: "prune cutoff d = Inr (n, d')"
  shows "row_by o_operation_id oid (operations d') = (case row_by o_operation_id oid (operations d) of None \<Rightarrow> None
      | Some p \<Rightarrow> if retentionOperation cutoff d p then None else Some p)"
    "\<exists>keep. events d' = filter keep (events d)"
proof -
  from h have ops: "operations d' = delete_where (\<lambda>p. o_operation_id p \<in> set (prune_operations cutoff d)) (operations d)"
    and ev: "events d' = delete_where (\<lambda>e. e_reply_id e \<in> set (prune_replies cutoff d))
      (delete_where (\<lambda>e. e_operation_id e \<in> set (prune_operations cutoff d)) (events d))"
    by (auto simp: prune_def Let_def)
  show "row_by o_operation_id oid (operations d') = (case row_by o_operation_id oid (operations d) of None \<Rightarrow> None
      | Some p \<Rightarrow> if retentionOperation cutoff d p then None else Some p)"
  proof (cases "row_by o_operation_id oid (operations d)")
    case (Some p)
    with row_by_SomeD[OF Some] inv_struct[OF inv] pruned_operation_iff[OF inv, of p cutoff] show ?thesis
      by (auto simp: ops row_by_delete_where ops_ok_def)
  qed (use inv_struct[OF inv] in \<open>simp add: ops row_by_delete_where ops_ok_def\<close>)
  show "\<exists>keep. events d' = filter keep (events d)"
    unfolding ev delete_where_def filter_filter by blast
qed

lemma prune_winner:
  assumes inv: "journal_inv d" and h: "prune cutoff d = Inr (n, d')"
    and w: "winner_of d q = Some w" "winner_of d' q \<noteq> Some w"
  shows "winner_of d' q = None \<and> original_of d' q = None \<and> claim_of d' (w_reply_id w) = None"
proof -
  note look = prune_claims[OF inv h]
  from w have gone: "w_reply_id w \<in> set (prune_replies cutoff d)" by (auto simp: look split: if_splits)
  from inv_winner[OF inv w(1)] row_by_key[OF w(1)] obtain c where
    c: "claim_of d (w_reply_id w) = Some c" "c_original_id c = q" by (auto simp: winner_sound_def)
  have "c \<in> set (reply_claims d)" "c_reply_id c = w_reply_id w" using row_by_SomeD[OF c(1)] by auto
  with gone pruned_reply_iff[OF inv, of c cutoff] have r: "retentionReply cutoff d c" by simp
  then obtain p where "p \<in> set (operations d)" "o_message_id p = q" "retentionOperation cutoff d p"
    using c(2) by (auto simp: retentionReply_def)
  with original_in_inv[OF inv] have "original_of d q = Some p" "retentionOperation cutoff d p" by auto
  with c w(1) gone r show ?thesis by (simp add: look)
qed

definition closed_state :: "EvidenceState \<Rightarrow> bool" where
  "closed_state s = (s \<in> {StateAccepted, StateRejected, StateNotSent, StateManuallyResolved})"

lemma maintain_only_deletes:
  assumes inv: "journal_inv d" and h: "StorageMaintain now before dry checkpoint optimize d = (res, d')"
  shows "(claim_of d' rid = claim_of d rid
      \<or> claim_of d' rid = map_option (\<lambda>c. if due now c then expired_claim now c else c) (claim_of d rid)
      \<or> claim_of d' rid = None \<and> (\<forall>c. claim_of d rid = Some c \<longrightarrow> positive c)) \<and>
    (row_by o_operation_id oid (operations d') = row_by o_operation_id oid (operations d)
      \<or> row_by o_operation_id oid (operations d') = None
        \<and> (\<forall>p. row_by o_operation_id oid (operations d) = Some p \<longrightarrow> closed_state (o_state p))) \<and>
    (winner_of d q = Some w \<longrightarrow> winner_of d' q = Some w
      \<or> winner_of d' q = None \<and> original_of d' q = None \<and> claim_of d' (w_reply_id w) = None) \<and>
    (\<exists>es keep. events d' = filter keep (events d @ es) \<and> sorted_wrt (<) (map e_seq (events d @ es)))"
  using h
proof (cases rule: maintain_cases)
  case 1
  have srt: "sorted_wrt (<) (map e_seq (events d))" using inv_struct[OF inv] by (simp add: events_ok_def)
  have "events d = filter (\<lambda>_. True) (events d @ [])" by simp
  then have "\<exists>es keep. events d = filter keep (events d @ es) \<and> sorted_wrt (<) (map e_seq (events d @ es))"
    using srt by (metis append_Nil2)
  with 1 show ?thesis by auto
next
  case (2 m d1 n)
  have g: "journal_inv d1" "evolves d d1" using expire_loop_good[OF inv 2(1)] by simp_all
  note eff = expire_loop_effect[OF inv 2(1)]
  have in_due: "c_reply_id c \<in> set (due_claims now d)" if "claim_of d rid = Some c" "due now c" for c
    using row_by_SomeD[OF that(1)] that(2) by (auto simp: due_claims_def due_def)
  have c1: "claim_of d1 rid = map_option (\<lambda>c. if due now c then expired_claim now c else c) (claim_of d rid)"
    using eff in_due row_by_key[of c_reply_id rid "reply_claims d"] by (cases "claim_of d rid") auto
  have claims: "claim_of d' rid = claim_of d1 rid \<or> claim_of d' rid = None \<and> (\<forall>c. claim_of d rid = Some c \<longrightarrow> positive c)"
    using c1 prune_claims(1)[OF g(1) 2(2), of rid]
    by (cases "claim_of d rid") (auto simp: retentionReply_def settled_claim_def positive_def expired_claim_def split: if_splits)
  have ops: "row_by o_operation_id oid (operations d') = row_by o_operation_id oid (operations d)
    \<or> row_by o_operation_id oid (operations d') = None
      \<and> (\<forall>p. row_by o_operation_id oid (operations d) = Some p \<longrightarrow> closed_state (o_state p))"
    using eff prune_rows(1)[OF g(1) 2(2), of oid]
    by (cases "row_by o_operation_id oid (operations d)")
      (auto simp: retentionOperation_def retentionOperationStates_def closed_state_def)
  have wins: "winner_of d q = Some w \<longrightarrow> winner_of d' q = Some w
    \<or> winner_of d' q = None \<and> original_of d' q = None \<and> claim_of d' (w_reply_id w) = None"
    using prune_winner[OF g(1) 2(2), of q w] eff by auto
  from g(2) obtain es where es: "events d1 = events d @ es" unfolding evolves_def by blast
  moreover obtain keep where "events d' = filter keep (events d1)" using prune_rows(2)[OF g(1) 2(2)] by blast
  moreover have "sorted_wrt (<) (map e_seq (events d1))" using inv_struct[OF g(1)] by (simp add: events_ok_def)
  ultimately have "\<exists>es keep. events d' = filter keep (events d @ es) \<and> sorted_wrt (<) (map e_seq (events d @ es))"
    by auto
  with claims c1 ops wins show ?thesis by auto
qed

lemmas maintain_claim = maintain_only_deletes[THEN conjunct1]
lemmas maintain_operation = maintain_only_deletes[THEN conjunct2, THEN conjunct1]
lemmas maintain_winner = maintain_only_deletes[THEN conjunct2, THEN conjunct2, THEN conjunct1, THEN mp]
lemmas maintain_events = maintain_only_deletes[THEN conjunct2, THEN conjunct2, THEN conjunct2]

section \<open>A reply nobody asked for\<close>

text \<open>
  Why retention is tied to routes: \<open>ImportOriginalStatus\<close> takes an unknown reply to an operation that
  asked for none; retention then deletes the operation, which it judges by its own state alone, and
  leaves the reply behind. \<open>StorageCheck\<close> reports that journal as corrupt from then on.
\<close>

definition unasked_operation :: Operation where
  "unasked_operation = sample_operation\<lparr>o_reply_route := '''', o_custody_route := '''', o_custody_store_id := ''''\<rparr>"

definition unasked_status :: OriginalStatusImport where
  "unasked_status = \<lparr>si_operation = unasked_operation, si_selection = OriginalStatusTerminalUnknown,
     si_reply_id = ci_reply_id sample_claim, si_digest = ci_digest sample_claim, si_body_size = 5,
     si_status = ''success'', si_error_code = '''', si_commit_seq = 0, si_event_seq = 1,
     si_native_item_id = '''', si_native_endpoint_id = '''', si_native_control_route = ''''\<rparr>"

definition unasked_db :: db where
  "unasked_db = snd (ImportOriginalStatus 200 unasked_status (snd (ImportOperation 100 unasked_operation StateAccepted '''' empty_db)))"

lemma unasked_reachable: "journal_reachable unasked_db"
  unfolding unasked_db_def
  by (rule reach_step[OF reach_step[OF reach_empty]])
    (rule step_import_operation step_import_status, rule prod.collapse[symmetric])+

lemma retention_can_orphan_a_reply:
  "map c_original_id (reply_claims unasked_db) = [''msg_1''] \<and> original_of unasked_db ''msg_1'' \<noteq> None"
  "(let d = snd (StorageMaintain (RetentionAge + 300) None False (Inr (False, 0)) None unasked_db) in
    map c_original_id (reply_claims d) = [''msg_1''] \<and> original_of d ''msg_1'' = None \<and>
    fst (checkDB (Inr ''ok'') currentSchemaVersion (Inr ()) d) = Some (Wrapped Corrupt ''relationship checks failed''))"
  by code_simp+

end
