(* ===== verification/Journal_Laws.thy ===== *)
theory Journal_Laws
  imports Journal_Retention
begin

text \<open>
  What the journal promises its clients: consistency of every reachable database, what no step
  undoes and what retention alone may remove, and the fencing of reply claims. The \<open>later\<close> states
  of these theorems are those of \<open>journal_step\<close>: every writer of the journal but retention, whose
  effect on such a state is stated beside them.
\<close>

section \<open>Every reachable journal\<close>

lemma evolvesD:
  assumes "evolves d d'"
  shows "claim_of d rid = Some c \<Longrightarrow> \<exists>c'. claim_of d' rid = Some c' \<and> claim_evolves c c'"
    "winner_of d q = Some w \<Longrightarrow> \<exists>w'. winner_of d' q = Some w' \<and> w_reply_id w' = w_reply_id w"
    "row_by o_operation_id oid (operations d) = Some r \<Longrightarrow>
       \<exists>r'. row_by o_operation_id oid (operations d') = Some r' \<and> op_evolves r r'"
    "\<exists>es. events d' = events d @ es"
  using assms unfolding evolves_def by blast+

lemma fold_min_in: "fold min xs (x::int) \<in> insert x (set xs)"
proof (induction xs arbitrary: x)
  case Nil
  then show ?case by simp
next
  case (Cons a xs)
  from Cons.IH[of "min a x"] show ?case by (auto simp: min_def split: if_splits)
qed

lemma first_event_pos:
  assumes "events_ok d" "e \<in> set (events d)" "e_reply_id e = rid" "e_state e = st"
  shows "1 \<le> first_event_seq d rid st"
proof -
  define ss where "ss = map e_seq (filter (\<lambda>e. e_reply_id e = rid \<and> e_state e = st) (events d))"
  have "ss \<noteq> []" using assms by (auto simp: ss_def filter_empty_conv)
  then obtain s ss' where ss: "ss = s # ss'" by (cases ss) auto
  have "\<forall>x\<in>set ss. 1 \<le> x" using assms(1) by (auto simp: ss_def events_ok_def)
  with ss fold_min_in[of ss' s] show ?thesis by (auto simp: first_event_seq_def ss_def[symmetric])
qed

text \<open>
  C1: However the writers of the journal interleave, in any number of processes, and retention
  between them whenever every claim names a reply route, a claim is accepted or observed exactly when
  it has a commit number, which is at least one; its original then has a winner, and every winner is
  such a claim of that original with that number. An observed claim has a native item, an unknown
  one its event.
\<close>

theorem journal_stays_consistent:
  assumes "journal_reachable d"
  shows "(\<forall>c\<in>set (reply_claims d).
      (positive c \<longleftrightarrow> c_commit_seq c \<noteq> None) \<and> (\<forall>s. c_commit_seq c = Some s \<longrightarrow> 1 \<le> s) \<and>
      (positive c \<longrightarrow> winner_of d (c_original_id c) \<noteq> None) \<and>
      (c_state c = StateReplyObserved \<longrightarrow> native_of d (c_reply_id c) \<noteq> '''') \<and>
      (c_state c = StateReplyOutcomeUnknown \<longrightarrow> 1 \<le> first_event_seq d (c_reply_id c) StateReplyOutcomeUnknown))
    \<and> (\<forall>w\<in>set (reply_winners d). \<exists>c. claim_of d (w_reply_id w) = Some c \<and> positive c \<and>
        c_original_id c = w_original_id w \<and> c_commit_seq c = Some (w_commit_seq w))"
proof -
  have inv: "journal_inv d" using assms by (rule reachable_inv)
  note st = inv_struct[OF inv]
  have "claim_sound d c \<and> (\<forall>s. c_commit_seq c = Some s \<longrightarrow> 1 \<le> s)" if "c \<in> set (reply_claims d)" for c
    using inv_claim[OF inv claim_in_inv[OF inv that]] st that by (auto simp: claims_ok_def)
  moreover have "winner_sound d w" if "w \<in> set (reply_winners d)" for w
    using inv_winner[OF inv] row_by_in_set[of w_original_id "reply_winners d" w] st that by (auto simp: links_ok_def)
  ultimately show ?thesis
    using first_event_pos st by (fastforce simp: claim_sound_def winner_sound_def)
qed

theorem journal_stays_consistent_witness:
  "\<exists>w c. reply_winners sample_committed = [w] \<and> claim_of sample_committed (w_reply_id w) = Some c \<and> positive c
    \<and> c_commit_seq c = Some (w_commit_seq w)"
proof -
  have "length (reply_winners sample_committed) = 1" by code_simp
  then obtain w where w: "reply_winners sample_committed = [w]" by (auto simp: length_Suc_conv)
  with journal_stays_consistent[OF sample_committed_reachable] show ?thesis by auto
qed

text \<open>
  C2: Once an original has a winner, no later writer of any process replaces it: until retention
  removes it, the same reply stays the winner, and it stays accepted or observed. Retention
  (\<open>StorageMaintain\<close>) keeps the winner's row as it is or removes it together with the original and the
  winning claim.
\<close>

theorem winner_never_changes:
  assumes "journal_reachable d" "journal_step\<^sup>*\<^sup>* d d'" "winner_of d q = Some w"
  shows "\<exists>w' c. winner_of d' q = Some w' \<and> w_reply_id w' = w_reply_id w \<and>
    claim_of d' (w_reply_id w) = Some c \<and> positive c \<and> c_original_id c = q \<and>
    (\<forall>now before dry checkpoint optimize r d2. StorageMaintain now before dry checkpoint optimize d' = (r, d2) \<longrightarrow>
      winner_of d2 q = Some w' \<or>
      winner_of d2 q = None \<and> original_of d2 q = None \<and> claim_of d2 (w_reply_id w) = None)"
proof -
  have good: "good d d'" using assms(2) reachable_inv[OF assms(1)] by (rule steps_good)
  then obtain w' where w': "winner_of d' q = Some w'" "w_reply_id w' = w_reply_id w"
    using assms(3) evolvesD by blast
  have kept: "winner_of d2 q = Some w' \<or>
      winner_of d2 q = None \<and> original_of d2 q = None \<and> claim_of d2 (w_reply_id w) = None"
    if "StorageMaintain now before dry checkpoint optimize d' = (r, d2)" for now before dry checkpoint optimize r d2
    using maintain_winner[OF _ that w'(1)] good w'(2) by simp
  from inv_winner[of d' q w'] good row_by_key[OF w'(1)] w' obtain c where
    "claim_of d' (w_reply_id w) = Some c" "positive c" "c_original_id c = q" by (auto simp: winner_sound_def)
  with w' kept show ?thesis by blast
qed

theorem winner_never_changes_witness:
  "\<exists>w c. winner_of (snd (ExpireClaims 999 sample_committed)) ''msg_1'' = Some w
    \<and> w_reply_id w = ci_reply_id sample_claim
    \<and> claim_of (snd (ExpireClaims 999 sample_committed)) (ci_reply_id sample_claim) = Some c \<and> positive c"
proof -
  have step: "journal_step\<^sup>*\<^sup>* sample_committed (snd (ExpireClaims 999 sample_committed))"
    by (rule r_into_rtranclp, rule step_expire, rule prod.collapse[symmetric])
  have "map_option w_reply_id (winner_of sample_committed ''msg_1'') = Some (ci_reply_id sample_claim)"
    by code_simp
  then obtain w where "winner_of sample_committed ''msg_1'' = Some w" "w_reply_id w = ci_reply_id sample_claim"
    by auto
  with winner_never_changes[OF sample_committed_reachable step, of "''msg_1''" w] show ?thesis by auto
qed

text \<open>
  C4: The evidence about a reply only gets stronger. Until retention removes it, a later journal
  still has the claim, with the digest, size, status, error code and routes it was made with and the
  same owner; its state is the same or of higher rank, so an accepted reply is never claimed or
  unknown again and an observed one stays observed. Retention (\<open>StorageMaintain\<close>) removes none but
  accepted and observed claims, and changes a claim it keeps only by expiring an overdue one.
\<close>

theorem reply_evidence_only_strengthens:
  assumes "journal_reachable d" "journal_step\<^sup>*\<^sup>* d d'" "claim_of d rid = Some c"
  shows "\<exists>c'. claim_of d' rid = Some c' \<and> c_original_id c' = c_original_id c \<and> c_digest c' = c_digest c \<and>
    c_body_size c' = c_body_size c \<and> c_status c' = c_status c \<and>
    c_reply_error_code c' = c_reply_error_code c \<and> c_reply_route c' = c_reply_route c \<and>
    c_custody_route c' = c_custody_route c \<and> c_custody_store_id c' = c_custody_store_id c \<and>
    c_owner c' = c_owner c \<and>
    (c_state c' = c_state c \<or> claim_rank (c_state c) < claim_rank (c_state c')) \<and>
    (c_state c = StateReplyObserved \<longrightarrow> c_state c' = StateReplyObserved) \<and>
    (\<forall>now before dry checkpoint optimize r d2. StorageMaintain now before dry checkpoint optimize d' = (r, d2) \<longrightarrow>
      claim_of d2 rid = (if due now c' then Some (expired_claim now c') else Some c') \<or> claim_of d2 rid = Some c' \<or>
      claim_of d2 rid = None \<and> c_state c' \<in> {StateReplyAccepted, StateReplyObserved})"
proof -
  have good: "good d d'" using assms(2) reachable_inv[OF assms(1)] by (rule steps_good)
  then obtain c' where c': "claim_of d' rid = Some c'" "claim_evolves c c'"
    using assms(3) evolvesD by blast
  then have "claim_le (c_state c) (c_state c')" by (simp add: claim_evolves_def)
  then have "c_state c' = c_state c \<or> claim_rank (c_state c) < claim_rank (c_state c')"
    using claim_order.plus_rank by (metis rtranclpD)
  moreover have "claim_of d2 rid = (if due now c' then Some (expired_claim now c') else Some c') \<or> claim_of d2 rid = Some c' \<or>
      claim_of d2 rid = None \<and> c_state c' \<in> {StateReplyAccepted, StateReplyObserved}"
    if "StorageMaintain now before dry checkpoint optimize d' = (r, d2)" for now before dry checkpoint optimize r d2
    using maintain_claim[OF _ that, of rid] good c'(1) by (auto simp: positive_def)
  ultimately show ?thesis using c' claim_observed_final by (auto simp: claim_evolves_def)
qed

theorem reply_evidence_only_strengthens_witness:
  "\<exists>c. claim_of sample_committed (ci_reply_id sample_claim) = Some c \<and> c_digest c = ci_digest sample_claim
     \<and> c_owner c = ''receiver''"
proof -
  have step: "journal_step\<^sup>*\<^sup>* sample_claimed sample_committed"
    unfolding sample_committed_def by (rule r_into_rtranclp, rule step_commit, rule prod.collapse[symmetric])
  have "map_option (\<lambda>c. (c_digest c, c_owner c)) (claim_of sample_claimed (ci_reply_id sample_claim))
     = Some (ci_digest sample_claim, ''receiver'')"
    by code_simp
  then obtain c where "claim_of sample_claimed (ci_reply_id sample_claim) = Some c"
    "c_digest c = ci_digest sample_claim" "c_owner c = ''receiver''" by auto
  with reply_evidence_only_strengthens[OF sample_claimed_reachable step] show ?thesis by fastforce
qed

text \<open>
  C5: What is recorded of an outbound operation never weakens: until retention removes it, its
  identity, routes, digest and size stay as prepared, and its state is the same or of higher rank, so
  that an accepted, rejected, unsent or manually resolved operation is final. Retention
  (\<open>StorageMaintain\<close>) removes no operation but such a final one, and changes none.
\<close>

theorem operation_evidence_only_strengthens:
  assumes "journal_reachable d" "journal_step\<^sup>*\<^sup>* d d'" "row_by o_operation_id oid (operations d) = Some r"
  shows "\<exists>r'. row_by o_operation_id oid (operations d') = Some r' \<and>
    op_ident.truncate r' = op_ident.truncate r \<and>
    (o_state r' = o_state r \<or> op_rank (o_state r) < op_rank (o_state r')) \<and>
    (o_state r \<in> {StateAccepted, StateRejected, StateNotSent, StateManuallyResolved} \<longrightarrow> o_state r' = o_state r) \<and>
    (\<forall>now before dry checkpoint optimize res d2. StorageMaintain now before dry checkpoint optimize d' = (res, d2) \<longrightarrow>
      row_by o_operation_id oid (operations d2) = Some r' \<or>
      row_by o_operation_id oid (operations d2) = None \<and>
        o_state r' \<in> {StateAccepted, StateRejected, StateNotSent, StateManuallyResolved})"
proof -
  have good: "good d d'" using assms(2) reachable_inv[OF assms(1)] by (rule steps_good)
  then obtain r' where r': "row_by o_operation_id oid (operations d') = Some r'" "op_evolves r r'"
    using assms(3) evolvesD by blast
  then have "op_le (o_state r) (o_state r')" by (simp add: op_evolves_def)
  then have "o_state r' = o_state r \<or> op_rank (o_state r) < op_rank (o_state r')"
    using op_order.plus_rank by (metis rtranclpD)
  moreover have "op_rank s \<le> 3" for s by (cases s) simp_all
  moreover have "row_by o_operation_id oid (operations d2) = Some r' \<or>
      row_by o_operation_id oid (operations d2) = None \<and>
        o_state r' \<in> {StateAccepted, StateRejected, StateNotSent, StateManuallyResolved}"
    if "StorageMaintain now before dry checkpoint optimize d' = (res, d2)" for now before dry checkpoint optimize res d2
    using maintain_operation[OF _ that, of oid] good r'(1) by (auto simp: closed_state_def)
  ultimately show ?thesis using r' by (fastforce simp: op_evolves_def not_less[symmetric])
qed

theorem operation_evidence_only_strengthens_witness:
  "\<exists>r. row_by o_operation_id ''op_1'' (operations sample_committed) = Some r \<and>
     o_digest r = ''sha256:0'' \<and> op_rank StatePrepared \<le> op_rank (o_state r)"
proof -
  have "map_option (\<lambda>r. (o_digest r, o_state r)) (row_by o_operation_id ''op_1'' (operations sample_prepared))
     = Some (''sha256:0'', StatePrepared)"
    by code_simp
  then obtain r where "row_by o_operation_id ''op_1'' (operations sample_prepared) = Some r"
    "o_digest r = ''sha256:0''" "o_state r = StatePrepared" by auto
  with operation_evidence_only_strengthens[OF sample_prepared_reachable sample_run] show ?thesis
    by (fastforce simp: op_ident.truncate_def)
qed

text \<open>
  C14: The event log is append-only but for retention: until then what was logged stays, in place,
  and every later event has a greater sequence number than every earlier one. Retention
  (\<open>StorageMaintain\<close>) appends too and then deletes some of the events, without changing or moving
  the others.
\<close>

theorem event_log_append_only:
  assumes "journal_reachable d" "journal_step\<^sup>*\<^sup>* d d'"
  shows "\<exists>es. events d' = events d @ es \<and>
    (\<forall>e\<in>set (events d). \<forall>e'\<in>set es. e_seq e < e_seq e') \<and> sorted_wrt (<) (map e_seq es) \<and>
    (\<forall>now before dry checkpoint optimize r d2. StorageMaintain now before dry checkpoint optimize d' = (r, d2) \<longrightarrow>
      (\<exists>more keep. events d2 = filter keep (events d' @ more) \<and> sorted_wrt (<) (map e_seq (events d' @ more))))"
proof -
  have good: "good d d'" using assms(2) reachable_inv[OF assms(1)] by (rule steps_good)
  then obtain es where es: "events d' = events d @ es" using evolvesD(4) by blast
  have "sorted_wrt (<) (map e_seq (events d'))"
    using good inv_struct[of d'] by (simp add: events_ok_def)
  moreover have "\<exists>more keep. events d2 = filter keep (events d' @ more) \<and> sorted_wrt (<) (map e_seq (events d' @ more))"
    if "StorageMaintain now before dry checkpoint optimize d' = (r, d2)" for now before dry checkpoint optimize r d2
    using maintain_events[OF _ that] good by blast
  ultimately show ?thesis using es by (auto simp: sorted_wrt_append)
qed

theorem event_log_append_only_witness:
  "\<exists>es. events sample_committed = events sample_prepared @ es \<and> length es = 2 \<and> sorted_wrt (<) (map e_seq es)"
proof -
  have "length (events sample_prepared) = 1" "length (events sample_committed) = 3" by code_simp+
  with event_log_append_only[OF sample_prepared_reachable sample_run] show ?thesis by fastforce
qed

section \<open>Claims\<close>

text \<open>
  C8: A successful \<open>ClaimReply\<close> hands out a fencing token exactly when the reply had no claim
  before: then the stored claim carries that token, its owner and a full lease. A retry, whoever
  makes it, changes nothing, is marked as joined and gets no token.
\<close>

theorem claim_grants_one_token:
  assumes "ClaimReply now dur entropy inp d = ((out, None), d')"
  shows "if claim_of d (ci_reply_id inp) = None
    then \<exists>c. claim_of d' (ci_reply_id inp) = Some c \<and> c_token c = rc_token out \<and>
      length (rc_token out) = 48 \<and> c_state c = StateReplyClaimed \<and> c_lease_until c = now + dur \<and>
      c_owner c = ci_owner inp \<and> claim_matches c inp \<and> \<not> rc_joined out
    else d' = d \<and> rc_token out = '''' \<and> rc_joined out"
proof (cases "claim_of d (ci_reply_id inp)")
  case None
  with assms obtain token d1 where
    t: "randomToken entropy = Inr token" and
    i: "insert_claim (new_claim inp (ci_owner inp) token (now + dur) StateReplyClaimed now None None) d = Inr d1" and
    o: "out = scanClaim (new_claim inp (ci_owner inp) token (now + dur) StateReplyClaimed now None None)"
      "d' = emit ''reply.claimed'' '''' (ci_reply_id inp) StateReplyClaimed now d1"
    by (auto simp: ClaimReply_def ClaimReply_tx_def Let_def bindE_def split: sum.splits if_splits)
  have "claim_of d1 (ci_reply_id inp) = Some (new_claim inp (ci_owner inp) token (now + dur) StateReplyClaimed now None None)"
    using touches_insert_claim(4)[OF i refl] by simp
  then show ?thesis
    using None o randomToken_length[OF t] by (simp add: scanClaim_def claim_matches_def new_claim_def)
next
  case (Some c)
  with assms show ?thesis
    by (auto simp: ClaimReply_def ClaimReply_tx_def Let_def split: sum.splits if_splits)
qed

theorem claim_grants_one_token_witness:
  "\<exists>out. ClaimReply 110 60 (Some (replicate 24 9)) sample_claim sample_prepared = ((out, None), sample_claimed)
     \<and> (\<exists>c. claim_of sample_claimed (ci_reply_id sample_claim) = Some c \<and> c_token c = rc_token out)"
proof -
  let ?r = "ClaimReply 110 60 (Some (replicate 24 9)) sample_claim sample_prepared"
  have "snd (fst ?r) = None" by code_simp
  then have h: "?r = ((fst (fst ?r), None), sample_claimed)" by (simp add: sample_claimed_def prod_eq_iff)
  have n: "claim_of sample_prepared (ci_reply_id sample_claim) = None" by code_simp
  show ?thesis using claim_grants_one_token[OF h] h n by auto
qed

text \<open>
  A failed \<open>ClaimReply\<close> writes nothing, except that finding a claim past its lease expires it. It
  returns a token only with a claim that is already unknown: there the code hands back the stored
  claim, token included.
\<close>

theorem failed_claim_grants_nothing:
  assumes "journal_reachable d" "ClaimReply now dur entropy inp d = ((out, Some e), d')"
  shows "(d' = d \<or> e = ClaimExpired \<and> expireClaimTx (ci_reply_id inp) now d = Inr d') \<and>
    (rc_token out \<noteq> '''' \<longrightarrow>
      (\<exists>c. claim_of d (ci_reply_id inp) = Some c \<and> out = scanClaim c \<and> c_state c = StateReplyOutcomeUnknown
        \<and> e = ClaimExpired))"
proof (cases "claim_of d (ci_reply_id inp)")
  case None
  with assms(2) show ?thesis
    by (auto simp: ClaimReply_def ClaimReply_tx_def zero_claim_def Let_def split: if_splits sum.splits)
next
  case (Some c)
  have "c_state c = StateReplyClaimed \<or> observable_state (c_state c)"
    using inv_claim[OF reachable_inv[OF assms(1)] Some] by (simp add: claim_sound_def)
  with assms(2) Some row_by_key[OF Some] show ?thesis
    by (auto simp: ClaimReply_def ClaimReply_tx_def zero_claim_def Let_def observable_state_def split: if_splits sum.splits)
qed

definition sample_abandoned :: db where
  "sample_abandoned = snd (AbandonReply 115 (ci_reply_id sample_claim) ''receiver'' (hex_encode (replicate 24 9)) sample_claimed)"

lemma sample_abandoned_reachable: "journal_reachable sample_abandoned"
  unfolding sample_abandoned_def
  by (rule reach_step[OF sample_claimed_reachable], rule step_abandon, rule prod.collapse[symmetric])

theorem failed_claim_grants_nothing_witness:
  "\<exists>out. ClaimReply 116 60 (Some (replicate 24 1)) sample_claim sample_abandoned = ((out, Some ClaimExpired), sample_abandoned)
    \<and> rc_token out = hex_encode (replicate 24 9)
    \<and> (\<exists>c. claim_of sample_abandoned (ci_reply_id sample_claim) = Some c \<and> out = scanClaim c)"
proof -
  let ?r = "ClaimReply 116 60 (Some (replicate 24 1)) sample_claim sample_abandoned"
  have t: "snd (fst ?r) = Some ClaimExpired \<and> rc_token (fst (fst ?r)) = hex_encode (replicate 24 9)" by code_simp
  have "\<not> (claim_of sample_abandoned (ci_reply_id sample_claim) = None)"
    "map_option (\<lambda>c. c_state c) (claim_of sample_abandoned (ci_reply_id sample_claim)) = Some StateReplyOutcomeUnknown" by code_simp+
  then have s: "snd ?r = sample_abandoned"
    by (auto simp: ClaimReply_def ClaimReply_tx_def Let_def split: if_splits)
  have h: "?r = ((fst (fst ?r), Some ClaimExpired), sample_abandoned)" using t s by (simp add: prod_eq_iff)
  have "rc_token (fst (fst ?r)) \<noteq> ''''" using t by (simp add: hex_encode_def hex_byte_def)
  with failed_claim_grants_nothing[OF sample_abandoned_reachable h] h t show ?thesis by auto
qed

lemma commit_refused:
  assumes "claim_of d rid = Some c"
    and "c_state c \<noteq> StateReplyClaimed \<or> c_owner c \<noteq> owner \<or> c_token c \<noteq> token \<or> c_lease_until c \<le> now"
  shows "CommitReply now rid owner token d =
    (if c_owner c \<noteq> owner \<or> c_token c \<noteq> token then (Inl ClaimNotOwned, d)
     else if c_state c \<noteq> StateReplyClaimed then (Inl ClaimExpired, d)
     else case expireClaimTx rid now d of Inl e \<Rightarrow> (Inl e, d) | Inr d1 \<Rightarrow> (Inl ClaimExpired, d1))"
  using assms by (cases "expireClaimTx rid now d") (simp_all add: CommitReply_def CommitReply_tx_def withTx_def)

text \<open>
  C6: A holder that is not the live holder is fenced off. Unless the claim is still claimed, under
  exactly this owner and token, with its lease running, a heartbeat is refused without a write and a
  commit fails, leaves every winner as it was and makes no claim positive. An abandonment, which does
  not look at the lease, is refused without a write unless the claim is still claimed under exactly
  this owner and token.
\<close>

theorem stale_holder_is_fenced:
  assumes "journal_reachable d" "claim_of d rid = Some c"
    and "c_state c \<noteq> StateReplyClaimed \<or> c_owner c \<noteq> owner \<or> c_token c \<noteq> token \<or> c_lease_until c \<le> now"
  shows "Heartbeat now dur rid owner token d = (Inl ClaimNotOwned, d)
    \<and> (\<exists>e d'. CommitReply now rid owner token d = (Inl e, d') \<and> reply_winners d' = reply_winners d
        \<and> (\<forall>c'. claim_of d' rid = Some c' \<longrightarrow> positive c' \<longrightarrow> c' = c))
    \<and> (c_state c \<noteq> StateReplyClaimed \<or> c_owner c \<noteq> owner \<or> c_token c \<noteq> token \<longrightarrow>
        AbandonReply now rid owner token d = (Inl ClaimNotOwned, d))"
proof -
  note inv = reachable_inv[OF assms(1)]
  have only: "x = c" if "x \<in> set (reply_claims d)" "c_reply_id x = rid" for x
    using claim_in_inv[OF inv that(1)] that(2) assms(2) by simp
  have hb: "Heartbeat now dur rid owner token d = (Inl ClaimNotOwned, d)"
    using only assms(3) by (auto simp: Heartbeat_def Heartbeat_tx_def withTx_def Let_def count_where_0)
  have ab: "AbandonReply now rid owner token d = (Inl ClaimNotOwned, d)"
    if "c_state c \<noteq> StateReplyClaimed \<or> c_owner c \<noteq> owner \<or> c_token c \<noteq> token"
    using only that by (auto simp: AbandonReply_def AbandonReply_tx_def withTx_def Let_def count_where_0)
  have ex: "reply_winners d' = reply_winners d \<and> (\<forall>c'. claim_of d' rid = Some c' \<longrightarrow> \<not> positive c')"
    if "expireClaimTx rid now d = Inr d'" for d'
  proof -
    have "due now c" using expire_Inr_iff[OF inv, of rid now] that assms(2) by simp
    then show ?thesis
      using expire_effect(1)[OF that, of rid] expire_effect(2)[OF that] assms(2)
      by (simp add: positive_def expired_claim_def)
  qed
  have "\<exists>e d'. CommitReply now rid owner token d = (Inl e, d') \<and> reply_winners d' = reply_winners d
        \<and> (\<forall>c'. claim_of d' rid = Some c' \<longrightarrow> positive c' \<longrightarrow> c' = c)"
    using commit_refused[OF assms(2,3)] assms(2) ex by (auto split: if_splits sum.splits)
  with hb ab show ?thesis by blast
qed

theorem stale_holder_is_fenced_witness:
  "Heartbeat 115 60 (ci_reply_id sample_claim) ''intruder'' ''guess'' sample_claimed = (Inl ClaimNotOwned, sample_claimed)
   \<and> (\<exists>e d'. CommitReply 115 (ci_reply_id sample_claim) ''intruder'' ''guess'' sample_claimed = (Inl e, d')
        \<and> reply_winners d' = reply_winners sample_claimed)"
proof -
  have "map_option (\<lambda>c. c_owner c) (claim_of sample_claimed (ci_reply_id sample_claim)) = Some ''receiver''" by code_simp
  then obtain c where "claim_of sample_claimed (ci_reply_id sample_claim) = Some c" "c_owner c \<noteq> ''intruder''" by auto
  with stale_holder_is_fenced[OF sample_claimed_reachable, of "ci_reply_id sample_claim" c "''intruder''" "''guess''" 115 60]
  show ?thesis by blast
qed

section \<open>Commit and expiry\<close>

text \<open>
  C13: The lease is a fence in time: a holder that commits at or after the end of its lease gets
  \<open>ErrClaimExpired\<close>, its claim becomes \<open>reply_outcome_unknown\<close> with no commit number, and no
  winner is written.
\<close>

theorem late_commit_is_unknown:
  assumes "journal_reachable d" "claim_of d rid = Some c" "c_state c = StateReplyClaimed"
    "c_owner c = owner" "c_token c = token" "c_lease_until c \<le> now"
  shows "\<exists>d'. CommitReply now rid owner token d = (Inl ClaimExpired, d') \<and>
    claim_of d' rid = Some (expired_claim now c) \<and> c_commit_seq (expired_claim now c) = None \<and>
    reply_winners d' = reply_winners d"
proof -
  note inv = reachable_inv[OF assms(1)]
  from assms(2,3,6) have "\<exists>d'. expireClaimTx rid now d = Inr d'"
    using expire_Inr_iff[OF inv] by (auto simp: due_def)
  then obtain d' where d': "expireClaimTx rid now d = Inr d'" ..
  have "c_commit_seq c = None" using inv_claim[OF inv assms(2)] assms(3) by (simp add: claim_sound_def positive_def)
  then show ?thesis
    using commit_refused[OF assms(2), of owner token now] expire_effect(1)[OF d', of rid] expire_effect(2)[OF d'] d' assms
    by (simp add: due_def expired_claim_def)
qed

theorem late_commit_is_unknown_witness:
  "\<exists>d'. CommitReply 170 (ci_reply_id sample_claim) ''receiver'' (hex_encode (replicate 24 9)) sample_claimed
     = (Inl ClaimExpired, d') \<and> reply_winners d' = reply_winners sample_claimed"
proof -
  have "map_option (\<lambda>c. (c_state c, c_owner c, c_token c, c_lease_until c)) (claim_of sample_claimed (ci_reply_id sample_claim))
     = Some (StateReplyClaimed, ''receiver'', hex_encode (replicate 24 9), 170)" by code_simp
  then obtain c where "claim_of sample_claimed (ci_reply_id sample_claim) = Some c" "c_state c = StateReplyClaimed"
    "c_owner c = ''receiver''" "c_token c = hex_encode (replicate 24 9)" "c_lease_until c \<le> 170" by auto
  from late_commit_is_unknown[OF sample_claimed_reachable this] show ?thesis by auto
qed

lemma next_commit_seq_greater:
  "c \<in> set (reply_claims d) \<Longrightarrow> c_commit_seq c = Some s \<Longrightarrow> s < next_commit_seq d"
  using max_or_0_ge[of s "List.map_filter c_commit_seq (reply_claims d)"]
  by (force simp: next_commit_seq_def List.map_filter_def)

lemma commit_effect:
  assumes inv: "journal_inv d" and h: "CommitReply now rid owner token d = (Inr r, d')"
  obtains c where "claim_of d rid = Some c" "c_state c = StateReplyClaimed" "c_owner c = owner"
    "c_token c = token" "now < c_lease_until c"
    "claim_of d' rid = Some (c\<lparr>c_state := StateReplyAccepted, c_updated_at := now,
       c_accepted_at := Some now, c_commit_seq := Some (next_commit_seq d)\<rparr>)"
    "rc_commit_seq (cr_claim r) = next_commit_seq d"
    "winner_of d' (c_original_id c) = Some (coalesce (winner_of d (c_original_id c))
       \<lparr>w_original_id = c_original_id c, w_reply_id = rid, w_committed_at = now, w_commit_seq = next_commit_seq d\<rparr>)"
    "cr_won r \<longleftrightarrow> winner_of d (c_original_id c) = None"
proof -
  from h obtain r0 where "CommitReply_tx now rid owner token d = Inr (Some r, d')"
    by (auto simp: CommitReply_def withTx_def split: sum.splits option.splits prod.splits)
  then obtain c where c: "claim_of d rid = Some c" and own: "c_owner c = owner" "c_token c = token"
    and st: "c_state c = StateReplyClaimed" and lease: "now < c_lease_until c"
    by (auto simp: CommitReply_tx_def bindE_Inr_iff split: option.splits if_splits)
  let ?P = "\<lambda>c. c_reply_id c = rid \<and> c_owner c = owner \<and> c_token c = token \<and> c_state c = StateReplyClaimed \<and> c_lease_until c > now"
  let ?f = "\<lambda>c. c\<lparr>c_state := StateReplyAccepted, c_updated_at := now\<rparr>"
  let ?d1 = "d\<lparr>reply_claims := update_where ?P ?f (reply_claims d)\<rparr>"
  have c1: "claim_of ?d1 rid = Some (?f c)"
    using c own st lease row_by_key[OF c] by (simp add: row_by_update_where)
  from \<open>CommitReply_tx now rid owner token d = Inr (Some r, d')\<close> obtain seq won d2 where
    a: "assignReplyCommitTx (c_original_id c) rid now ?d1 = Inr ((seq, won), d2)" and
    d': "d' = emit ''reply.accepted'' '''' rid StateReplyAccepted now d2" and
    r: "cr_won r = won" "rc_commit_seq (cr_claim r) = seq"
    using c own st lease by (auto simp: CommitReply_tx_def bindE_Inr_iff Let_def)
  have none: "c_commit_seq c = None" using inv_claim[OF inv c] st by (simp add: claim_sound_def positive_def)
  have "map c_commit_seq (reply_claims ?d1) = map c_commit_seq (reply_claims d)"
    by (simp add: update_where_def)
  then have "map_option id \<circ> c_commit_seq = c_commit_seq \<Longrightarrow> next_commit_seq ?d1 = next_commit_seq d"
    by (simp add: next_commit_seq_def List.map_filter_def update_where_def filter_map o_def if_distrib cong: if_cong)
  then have nx: "next_commit_seq ?d1 = next_commit_seq d" by (simp add: fun_eq_iff option.map_id)
  note as = assign_spec[OF a c1]
  have seq: "seq = next_commit_seq d" using as(3) none nx by (simp add: assigned_claim_def)
  have w2: "winner_of d2 (c_original_id c) = Some (coalesce (winner_of d (c_original_id c))
       \<lparr>w_original_id = c_original_id c, w_reply_id = rid, w_committed_at = now, w_commit_seq = next_commit_seq d\<rparr>)"
    using as(4) seq by simp
  have won: "won \<longleftrightarrow> (\<exists>w\<in>set (reply_winners d2). w_original_id w = c_original_id c \<and> w_reply_id w = rid)"
    using a c1 by (auto simp: assignReplyCommitTx_def Let_def)
  show ?thesis
  proof (rule that[OF c st own lease])
    show "claim_of d' rid = Some (c\<lparr>c_state := StateReplyAccepted, c_updated_at := now,
       c_accepted_at := Some now, c_commit_seq := Some (next_commit_seq d)\<rparr>)"
      using as(2) none nx by (simp add: d' assigned_claim_def)
    show "rc_commit_seq (cr_claim r) = next_commit_seq d" using r seq by simp
    show "winner_of d' (c_original_id c) = Some (coalesce (winner_of d (c_original_id c))
       \<lparr>w_original_id = c_original_id c, w_reply_id = rid, w_committed_at = now, w_commit_seq = next_commit_seq d\<rparr>)"
      using w2 by (simp add: d')
    have links: "distinct (map w_original_id (reply_winners d2))"
      using inv_struct[OF inv] a c1 by (auto simp: assignReplyCommitTx_def Let_def links_ok_def distinct_ignore_row split: if_splits)
    have "won \<longleftrightarrow> (\<exists>w. winner_of d2 (c_original_id c) = Some w \<and> w_reply_id w = rid)"
      unfolding won using row_by_in_set[OF links] row_by_SomeD[of w_original_id "c_original_id c" "reply_winners d2"]
      by fastforce
    also have "\<dots> \<longleftrightarrow> winner_of d (c_original_id c) = None"
    proof (cases "winner_of d (c_original_id c)")
      case (Some w)
      have "\<not> positive c" using st by (simp add: positive_def)
      then have "w_reply_id w \<noteq> rid" using not_winner[OF inv Some] c by blast
      with Some w2 show ?thesis by simp
    qed (use w2 in simp)
    finally show "cr_won r \<longleftrightarrow> winner_of d (c_original_id c) = None" using r by simp
  qed
qed

text \<open>
  C3: A successful commit turns the holder's live claim into \<open>reply_accepted\<close> under a commit
  number above every earlier one; it reports a win exactly when the original had no winner yet,
  and then becomes the winner under that number, while an earlier winner stays as it was.
\<close>

theorem commit_wins_at_most_once:
  assumes "journal_reachable d" "CommitReply now rid owner token d = (Inr r, d')"
  shows "\<exists>c c'. claim_of d rid = Some c \<and> c_state c = StateReplyClaimed \<and> c_owner c = owner \<and>
    c_token c = token \<and> now < c_lease_until c \<and>
    claim_of d' rid = Some c' \<and> c_state c' = StateReplyAccepted \<and>
    c_commit_seq c' = Some (rc_commit_seq (cr_claim r)) \<and>
    (\<forall>x\<in>set (reply_claims d). \<forall>s. c_commit_seq x = Some s \<longrightarrow> s < rc_commit_seq (cr_claim r)) \<and>
    (cr_won r \<longleftrightarrow> winner_of d (c_original_id c) = None) \<and>
    winner_of d' (c_original_id c) = (if cr_won r
      then Some \<lparr>w_original_id = c_original_id c, w_reply_id = rid, w_committed_at = now,
                 w_commit_seq = rc_commit_seq (cr_claim r)\<rparr>
      else winner_of d (c_original_id c))"
proof -
  from commit_effect[OF reachable_inv[OF assms(1)] assms(2)] obtain c where
    c: "claim_of d rid = Some c" "c_state c = StateReplyClaimed" "c_owner c = owner" "c_token c = token" "now < c_lease_until c"
    and c': "claim_of d' rid = Some (c\<lparr>c_state := StateReplyAccepted, c_updated_at := now,
       c_accepted_at := Some now, c_commit_seq := Some (next_commit_seq d)\<rparr>)"
    and seq: "rc_commit_seq (cr_claim r) = next_commit_seq d"
    and w: "winner_of d' (c_original_id c) = Some (coalesce (winner_of d (c_original_id c))
       \<lparr>w_original_id = c_original_id c, w_reply_id = rid, w_committed_at = now, w_commit_seq = next_commit_seq d\<rparr>)"
      "cr_won r \<longleftrightarrow> winner_of d (c_original_id c) = None" by blast
  have "winner_of d' (c_original_id c) = (if cr_won r
      then Some \<lparr>w_original_id = c_original_id c, w_reply_id = rid, w_committed_at = now,
                 w_commit_seq = rc_commit_seq (cr_claim r)\<rparr>
      else winner_of d (c_original_id c))"
    using w seq by (cases "winner_of d (c_original_id c)") auto
  with c c' seq w(2) next_commit_seq_greater[of _ d] show ?thesis by auto
qed

theorem commit_wins_at_most_once_witness:
  "\<exists>r. CommitReply 120 (ci_reply_id sample_claim) ''receiver'' (hex_encode (replicate 24 9)) sample_claimed
      = (Inr r, sample_committed) \<and> cr_won r \<and>
     (\<exists>c. claim_of sample_committed (ci_reply_id sample_claim) = Some c \<and> c_state c = StateReplyAccepted)"
proof -
  let ?x = "CommitReply 120 (ci_reply_id sample_claim) ''receiver'' (hex_encode (replicate 24 9)) sample_claimed"
  have "case fst ?x of Inl _ \<Rightarrow> False | Inr r \<Rightarrow> cr_won r" by code_simp
  then obtain r where r: "fst ?x = Inr r" "cr_won r" by (cases "fst ?x") auto
  then have h: "?x = (Inr r, sample_committed)" by (simp add: sample_committed_def prod_eq_iff)
  from commit_wins_at_most_once[OF sample_claimed_reachable h] h r(2) show ?thesis by auto
qed

text \<open>
  C12: Expiry is exact: it succeeds, turns precisely the claims whose lease has run out into
  \<open>reply_outcome_unknown\<close>, leaves every other claim and every winner as it was, and afterwards no
  claim is due.
\<close>

theorem expiry_is_exact:
  assumes "journal_reachable d"
  shows "\<exists>d'. ExpireClaims now d = (Inr (), d') \<and>
    (\<forall>rid. claim_of d' rid = map_option (\<lambda>c. if due now c then expired_claim now c else c) (claim_of d rid)) \<and>
    reply_winners d' = reply_winners d \<and> due_claims now d' = []"
proof -
  note inv = reachable_inv[OF assms]
  have tot: "\<exists>m d'. expire_loop now rids n d = Inr (m, d')" for rids n d
  proof (induction rids arbitrary: n d)
    case (Cons rid rids)
    have "expireClaimTx rid now d = Inl e \<Longrightarrow> e = ClaimExpired" for e
      by (auto simp: expireClaimTx_def Let_def split: if_splits)
    with Cons show ?case by (auto split: sum.splits)
  qed simp
  then obtain m d' where h: "expire_loop now (due_claims now d) 0 d = Inr (m, d')" by blast
  have e: "ExpireClaims now d = (Inr (), d')"
    using h by (simp add: ExpireClaims_def expireClaimsAt_def withTx_def)
  note eff = expire_loop_effect[OF inv h]
  have rid: "rid \<in> set (due_claims now d)" if "claim_of d rid = Some c" "due now c" for rid c
    using row_by_SomeD[OF that(1)] that(2) by (auto simp: due_claims_def due_def)
  have claims: "claim_of d' rid = map_option (\<lambda>c. if due now c then expired_claim now c else c) (claim_of d rid)" for rid
    using eff rid by (cases "claim_of d rid") auto
  have inv': "journal_inv d'" using expire_loop_good[OF inv h] by simp
  have "\<not> due now c" if "c \<in> set (reply_claims d')" for c
    using claim_in_inv[OF inv' that] claims[of "c_reply_id c"]
    by (cases "claim_of d (c_reply_id c)") (auto simp: due_def expired_claim_def split: if_splits)
  then have "due_claims now d' = []" by (auto simp: due_claims_def due_def filter_empty_conv)
  with e claims eff show ?thesis by blast
qed

theorem expiry_is_exact_witness:
  "\<exists>d'. ExpireClaims 170 sample_claimed = (Inr (), d') \<and> due_claims 170 d' = [] \<and>
     map_option c_state (claim_of d' (ci_reply_id sample_claim)) = Some StateReplyOutcomeUnknown"
proof -
  have "map_option (\<lambda>c. (c_state c, c_lease_until c)) (claim_of sample_claimed (ci_reply_id sample_claim))
     = Some (StateReplyClaimed, 170)" by code_simp
  then obtain c where c: "claim_of sample_claimed (ci_reply_id sample_claim) = Some c" "due 170 c"
    by (auto simp: due_def)
  from expiry_is_exact[OF sample_claimed_reachable, of 170] obtain d' where
    "ExpireClaims 170 sample_claimed = (Inr (), d')" "due_claims 170 d' = []"
    "claim_of d' (ci_reply_id sample_claim) = map_option (\<lambda>c. if due 170 c then expired_claim 170 c else c) (claim_of sample_claimed (ci_reply_id sample_claim))"
    by blast
  with c show ?thesis by (auto simp: expired_claim_def)
qed

section \<open>The status of an original\<close>

lemma expire_all_effect:
  assumes "journal_inv d" "expire_all now rids d = Inr d'"
  shows "(\<forall>r. claim_of d' r = map_option (\<lambda>c. if r \<in> set rids \<and> due now c then expired_claim now c else c) (claim_of d r))
    \<and> reply_winners d' = reply_winners d \<and> operations d' = operations d
    \<and> map c_reply_id (reply_claims d') = map c_reply_id (reply_claims d)"
proof -
  have "\<exists>m. expire_loop now rids n d = Inr (m, d')" for n
    using assms(2)
  proof (induction rids arbitrary: n d)
    case (Cons rid rids)
    then obtain d1 where "expireClaimTx rid now d = Inr d1" "expire_all now rids d1 = Inr d'"
      by (auto simp: bindE_Inr_iff)
    with Cons.IH show ?case by simp
  qed simp
  with expire_loop_effect[OF assms(1)] show ?thesis by blast
qed

text \<open>Reply metadata as a well-formed envelope and claim have it.\<close>

definition portable_claim :: "claim_row \<Rightarrow> bool" where
  "portable_claim c =
     (ValidateID (c_reply_id c) MessageIDPrefix = Inr () \<and> journal_validDigest (c_digest c) \<and>
      0 \<le> c_body_size c \<and> (c_status c = ''success'' \<or> c_status c = ''error'') \<and>
      (c_status c = ''success'' \<longrightarrow> c_reply_error_code c = ''''))"

lemma portable_expired [simp]: "portable_claim (expired_claim now c) = portable_claim c"
  by (simp add: portable_claim_def expired_claim_def)

lemma select_status_portable:
  assumes inv: "journal_inv d"
    and port: "\<And>c. c \<in> set (reply_claims d) \<Longrightarrow> c_original_id c = orig \<Longrightarrow> portable_claim c"
  shows "\<exists>out. select_status orig d = Inr out \<and>
    (case winner_of d orig of
       Some w \<Rightarrow> sr_selection out = OriginalStatusWinner \<and>
         (\<exists>c. claim_of d (w_reply_id w) = Some c \<and> sr_claim out = Some ((scanClaim c)\<lparr>rc_token := ''''\<rparr>) \<and>
              sr_event_seq out = w_commit_seq w)
     | None \<Rightarrow>
         (case unknown_claims orig d of
            [] \<Rightarrow> sr_selection out = OriginalStatusPending \<and> sr_claim out = None
          | (seq, rid) # _ \<Rightarrow> sr_selection out = OriginalStatusTerminalUnknown \<and>
              (\<exists>c. claim_of d rid = Some c \<and> c_original_id c = orig \<and> c_state c = StateReplyOutcomeUnknown \<and>
                   sr_claim out = Some ((scanClaim c)\<lparr>rc_token := ''''\<rparr>) \<and> sr_terminal_event_seq out = seq)))"
proof (cases "winner_of d orig")
  case (Some w)
  from inv_winner[OF inv Some] row_by_key[OF Some] obtain c where
    c: "claim_of d (w_reply_id w) = Some c" "c_original_id c = orig" "positive c" "c_commit_seq c = Some (w_commit_seq w)"
    by (auto simp: winner_sound_def)
  have cin: "c \<in> set (reply_claims d)" "c_reply_id c = w_reply_id w" using row_by_SomeD[OF c(1)] by auto
  have "1 \<le> w_commit_seq w" using inv_struct[OF inv] cin(1) c(4) by (auto simp: claims_ok_def)
  moreover have "c_state c = StateReplyObserved \<longrightarrow> native_of d (w_reply_id w) \<noteq> ''''"
    using inv_claim[OF inv c(1)] cin(2) by (simp add: claim_sound_def)
  ultimately have "validateOriginalSelectedClaim (scanClaim c) (w_commit_seq w) (native_of d (w_reply_id w)) True = Inr ()"
    using port[OF cin(1) c(2)] c(3,4)
    by (auto simp: validateOriginalSelectedClaim_def portable_claim_def scanClaim_def positive_def)
  with Some c(1) show ?thesis by (simp add: select_status_def select_winner_def)
next
  case None
  have nz: "1 \<le> fst u \<and> (\<exists>c. claim_of d (snd u) = Some c \<and> c_original_id c = orig \<and> c_state c = StateReplyOutcomeUnknown
      \<and> c \<in> set (reply_claims d))" if u: "u \<in> set (unknown_claims orig d)" for u
  proof -
    from u obtain c where c: "c \<in> set (reply_claims d)" "c_original_id c = orig" "c_state c = StateReplyOutcomeUnknown"
      "u = (first_event_seq d (c_reply_id c) StateReplyOutcomeUnknown, c_reply_id c)"
      by (auto simp: unknown_claims_def)
    from inv_claim[OF inv claim_in_inv[OF inv c(1)]] c(3) obtain e where
      "e \<in> set (events d)" "e_reply_id e = c_reply_id c" "e_state e = StateReplyOutcomeUnknown"
      by (auto simp: claim_sound_def)
    with first_event_pos inv_struct[OF inv] c claim_in_inv[OF inv c(1)] show ?thesis by auto
  qed
  then have nozero: "\<not> (\<exists>u\<in>set (unknown_claims orig d). fst u = 0)" by fastforce
  show ?thesis
  proof (cases "unknown_claims orig d")
    case Nil
    with None show ?thesis by (simp add: select_status_def select_winner_def)
  next
    case (Cons u us)
    obtain seq rid where u: "u = (seq, rid)" by fastforce
    from nz[of u] Cons u obtain c where c: "claim_of d rid = Some c" "c_original_id c = orig"
      "c_state c = StateReplyOutcomeUnknown" "c \<in> set (reply_claims d)" and seq: "1 \<le> seq" by auto
    have "validateOriginalSelectedClaim (scanClaim c) seq '''' False = Inr ()"
      using port[OF c(4,2)] c(3) seq
      by (auto simp: validateOriginalSelectedClaim_def portable_claim_def scanClaim_def)
    with None Cons u c nozero show ?thesis by (simp add: select_status_def select_winner_def)
  qed
qed

lemma expire_all_total:
  assumes "journal_inv d" "distinct rids" "\<And>rid. rid \<in> set rids \<Longrightarrow> \<exists>c. claim_of d rid = Some c \<and> due now c"
  shows "\<exists>d'. expire_all now rids d = Inr d'"
  using assms
proof (induction rids arbitrary: d)
  case Nil
  then show ?case by simp
next
  case (Cons rid rids)
  from Cons.prems(3)[of rid] obtain d1 where d1: "expireClaimTx rid now d = Inr d1"
    using expire_Inr_iff[OF Cons.prems(1), of rid now] by auto
  have "\<exists>d'. expire_all now rids d1 = Inr d'"
  proof (rule Cons.IH)
    show "journal_inv d1" using expire_good[OF Cons.prems(1) d1] by simp
    show "distinct rids" using Cons.prems(2) by simp
    show "\<exists>c. claim_of d1 r = Some c \<and> due now c" if "r \<in> set rids" for r
    proof -
      have "r \<noteq> rid" using that Cons.prems(2) by auto
      with Cons.prems(3)[of r] that show ?thesis by (auto simp: expire_effect(1)[OF d1])
    qed
  qed
  with d1 show ?case by simp
qed

lemma due_for_due:
  assumes "journal_inv d"
  shows "distinct (due_for now orig d)"
    "rid \<in> set (due_for now orig d) \<longleftrightarrow> (\<exists>c. claim_of d rid = Some c \<and> c_original_id c = orig \<and> due now c)"
proof -
  show "distinct (due_for now orig d)"
    using inv_struct[OF assms] by (simp add: due_for_def claims_ok_def distinct_map_filter)
  show "rid \<in> set (due_for now orig d) \<longleftrightarrow> (\<exists>c. claim_of d rid = Some c \<and> c_original_id c = orig \<and> due now c)"
    using claim_in_inv[OF assms] by (auto simp: due_for_def due_def dest: row_by_SomeD)
qed

lemma unknown_claims_empty:
  "unknown_claims orig d = [] \<longleftrightarrow>
     (\<forall>c\<in>set (reply_claims d). c_original_id c = orig \<longrightarrow> c_state c \<noteq> StateReplyOutcomeUnknown)"
proof -
  have "unknown_claims orig d = [] \<longleftrightarrow> set (unknown_claims orig d) = {}" by simp
  then show ?thesis by (auto simp: unknown_claims_def)
qed

lemma expire_all_portable:
  assumes inv: "journal_inv d" and inv': "journal_inv d'" and h: "expire_all now rids d = Inr d'"
    and port: "\<forall>c\<in>set (reply_claims d). c_original_id c = orig \<longrightarrow> portable_claim c"
    and c: "c \<in> set (reply_claims d')" "c_original_id c = orig"
  shows "portable_claim c"
proof -
  from claim_in_inv[OF inv' c(1)] expire_all_effect[OF inv h] obtain c0 where
    "claim_of d (c_reply_id c) = Some c0" "c = c0 \<or> c = expired_claim now c0"
    by (auto split: if_splits)
  with port c(2) show ?thesis by (auto simp: expired_claim_def portable_claim_def dest!: row_by_SomeD)
qed

text \<open>
  C9: The authoritative status of an original whose replies have well-formed metadata is never an
  error: asking for it expires that original's overdue claims, then names the winner if there is
  one, else an unknown reply if there is one, else says pending; it never shows a token.
\<close>

theorem original_status_is_authoritative:
  assumes "journal_reachable d" "orig \<noteq> ''''" "original_of d orig \<noteq> None"
    and "\<forall>c\<in>set (reply_claims d). c_original_id c = orig \<longrightarrow> portable_claim c"
  shows "\<exists>out d'. OriginalStatus now orig d = (Inr out, d') \<and> due_for now orig d' = [] \<and>
    reply_winners d' = reply_winners d \<and>
    (case winner_of d orig of
       Some w \<Rightarrow> sr_selection out = OriginalStatusWinner \<and>
         (\<exists>c. claim_of d' (w_reply_id w) = Some c \<and> sr_claim out = Some ((scanClaim c)\<lparr>rc_token := ''''\<rparr>))
     | None \<Rightarrow>
         if \<exists>c\<in>set (reply_claims d'). c_original_id c = orig \<and> c_state c = StateReplyOutcomeUnknown
         then sr_selection out = OriginalStatusTerminalUnknown \<and>
           (\<exists>rid c. claim_of d' rid = Some c \<and> c_original_id c = orig \<and> c_state c = StateReplyOutcomeUnknown \<and>
              sr_claim out = Some ((scanClaim c)\<lparr>rc_token := ''''\<rparr>))
         else sr_selection out = OriginalStatusPending \<and> sr_claim out = None)"
proof -
  note inv = reachable_inv[OF assms(1)]
  obtain d' where d': "expire_all now (due_for now orig d) d = Inr d'"
    using expire_all_total[OF inv due_for_due(1)[OF inv]] due_for_due(2)[OF inv] by blast
  note eff = expire_all_effect[OF inv d']
  have inv': "journal_inv d'" using expire_all_good[OF inv d'] by simp
  have "\<not> (\<exists>c. claim_of d' rid = Some c \<and> c_original_id c = orig \<and> due now c)" for rid
    using eff due_for_due(2)[OF inv, of rid now orig]
    by (cases "claim_of d rid") (auto simp: due_def expired_claim_def split: if_splits)
  then have nodue: "due_for now orig d' = []" using due_for_due(2)[OF inv', of _ now orig] by (metis list.set_intros(1) neq_Nil_conv)
  obtain out where out: "select_status orig d' = Inr out" and sel: "(case winner_of d' orig of
       Some w \<Rightarrow> sr_selection out = OriginalStatusWinner \<and>
         (\<exists>c. claim_of d' (w_reply_id w) = Some c \<and> sr_claim out = Some ((scanClaim c)\<lparr>rc_token := ''''\<rparr>) \<and>
              sr_event_seq out = w_commit_seq w)
     | None \<Rightarrow>
         (case unknown_claims orig d' of
            [] \<Rightarrow> sr_selection out = OriginalStatusPending \<and> sr_claim out = None
          | (seq, rid) # _ \<Rightarrow> sr_selection out = OriginalStatusTerminalUnknown \<and>
              (\<exists>c. claim_of d' rid = Some c \<and> c_original_id c = orig \<and> c_state c = StateReplyOutcomeUnknown \<and>
                   sr_claim out = Some ((scanClaim c)\<lparr>rc_token := ''''\<rparr>) \<and> sr_terminal_event_seq out = seq)))"
    using select_status_portable[OF inv' expire_all_portable[OF inv inv' d' assms(4)]] by blast
  have run: "OriginalStatus now orig d = (Inr out, d')"
    using assms(2,3) d' out by (auto simp: OriginalStatus_def OriginalStatus_tx_def withTx_def)
  have same: "reply_winners d' = reply_winners d" using eff by simp
  show ?thesis
  proof (rule exI[of _ out], rule exI[of _ d'], intro conjI run nodue same)
    show "(case winner_of d orig of
       Some w \<Rightarrow> sr_selection out = OriginalStatusWinner \<and>
         (\<exists>c. claim_of d' (w_reply_id w) = Some c \<and> sr_claim out = Some ((scanClaim c)\<lparr>rc_token := ''''\<rparr>))
     | None \<Rightarrow>
         if \<exists>c\<in>set (reply_claims d'). c_original_id c = orig \<and> c_state c = StateReplyOutcomeUnknown
         then sr_selection out = OriginalStatusTerminalUnknown \<and>
           (\<exists>rid c. claim_of d' rid = Some c \<and> c_original_id c = orig \<and> c_state c = StateReplyOutcomeUnknown \<and>
              sr_claim out = Some ((scanClaim c)\<lparr>rc_token := ''''\<rparr>))
         else sr_selection out = OriginalStatusPending \<and> sr_claim out = None)"
      using sel[unfolded same] unknown_claims_empty[of orig d']
      by (cases "winner_of d orig"; cases "unknown_claims orig d'") auto
  qed
qed

theorem original_status_is_authoritative_witness:
  "\<exists>out d'. OriginalStatus 130 ''msg_1'' sample_committed = (Inr out, d') \<and> sr_selection out = OriginalStatusWinner"
proof -
  have o: "original_of sample_committed ''msg_1'' \<noteq> None" by code_simp
  have p: "\<forall>c\<in>set (reply_claims sample_committed). c_original_id c = ''msg_1'' \<longrightarrow> portable_claim c"
    by code_simp
  have "winner_of sample_committed ''msg_1'' \<noteq> None" by code_simp
  then obtain w where w: "winner_of sample_committed ''msg_1'' = Some w" by blast
  from original_status_is_authoritative[OF sample_committed_reachable _ o p, of 130] w show ?thesis by auto
qed

text \<open>
  No read shows a fencing token: neither a claim, the claims of an original, a winner, the
  status of an original, nor an operation, looked up, found by message or listed.
\<close>

theorem reads_hide_tokens:
  "(\<forall>c. Reply rid d = Inr c \<longrightarrow> rc_token c = '''') \<and> (\<forall>c\<in>set (RepliesFor orig d). rc_token c = '''') \<and>
   (\<forall>c native s. WinnerDetails orig d = Inr (c, native, s) \<longrightarrow> rc_token c = '''') \<and>
   (\<forall>out d' c. OriginalStatus now orig d = (Inr out, d') \<longrightarrow> sr_claim out = Some c \<longrightarrow> rc_token c = '''') \<and>
   (\<forall>p. OperationLookup oid d = Inr p \<longrightarrow> or_attempt_token p = '''') \<and>
   (\<forall>p. OperationByMessage msg d = Inr p \<longrightarrow> or_attempt_token p = '''') \<and>
   (\<forall>ps. ListOperations q d = Inr ps \<longrightarrow> (\<forall>p\<in>set ps. or_attempt_token p = ''''))"
proof (intro conjI)
  have reply: "Reply r d = Inr c \<Longrightarrow> rc_token c = ''''" for r c
    by (auto simp: Reply_def split: option.splits)
  then show "\<forall>c. Reply rid d = Inr c \<longrightarrow> rc_token c = ''''" by blast
  show "\<forall>c native s. WinnerDetails orig d = Inr (c, native, s) \<longrightarrow> rc_token c = ''''"
    using reply by (auto simp: WinnerDetails_def bindE_Inr_iff)
  have "select_status orig x = Inr out \<Longrightarrow> sr_claim out = Some c \<Longrightarrow> rc_token c = ''''" for x out c
    by (auto simp: select_status_def bindE_Inr_iff split: option.splits if_splits list.splits)
  then show "\<forall>out d' c. OriginalStatus now orig d = (Inr out, d') \<longrightarrow> sr_claim out = Some c \<longrightarrow> rc_token c = ''''"
    by (auto simp: OriginalStatus_def withTx_Inr OriginalStatus_tx_def bindE_Inr_iff split: if_splits option.splits)
  have load: "or_attempt_token (loadManualResolution d r) = or_attempt_token r" for r
    by (simp add: loadManualResolution_def)
  show "\<forall>p. OperationLookup oid d = Inr p \<longrightarrow> or_attempt_token p = ''''"
    by (auto simp: OperationLookup_def operation_read_def load split: option.splits)
  show "\<forall>p. OperationByMessage msg d = Inr p \<longrightarrow> or_attempt_token p = ''''"
    by (auto simp: OperationByMessage_def load split: option.splits)
  show "\<forall>ps. ListOperations q d = Inr ps \<longrightarrow> (\<forall>p\<in>set ps. or_attempt_token p = '''')"
    by (auto simp: ListOperations_def load split: if_splits)
qed (auto simp: RepliesFor_def)

theorem reads_hide_tokens_witness:
  "\<exists>c. Reply (ci_reply_id sample_claim) sample_claimed = Inr c \<and> rc_owner c = ''receiver'' \<and> rc_token c = ''''"
proof -
  have "case Reply (ci_reply_id sample_claim) sample_claimed of Inl _ \<Rightarrow> False | Inr c \<Rightarrow> rc_owner c = ''receiver''"
    by code_simp
  then obtain c where "Reply (ci_reply_id sample_claim) sample_claimed = Inr c" "rc_owner c = ''receiver''"
    by (auto split: sum.splits)
  with reads_hide_tokens[of "ci_reply_id sample_claim" sample_claimed] show ?thesis by blast
qed

end
