(* ===== verification/Journal_Operation_Laws.thy ===== *)
theory Journal_Operation_Laws
  imports Journal_Laws
begin

text \<open>
  What the journal promises a sender: at most one dispatch per preparation, results only along
  the allowed transitions, recovery that never claims more than is known, imports that create no
  authority to dispatch.
\<close>

section \<open>Lookups\<close>

abbreviation op_of :: "db \<Rightarrow> string \<Rightarrow> op_row option" where
  "op_of d oid \<equiv> row_by o_operation_id oid (operations d)"

abbreviation attempt_of :: "db \<Rightarrow> string \<Rightarrow> attempt_row option" where
  "attempt_of d oid \<equiv> row_by a_operation_id oid (attempts d)"

lemma op_in_inv: "journal_inv d \<Longrightarrow> p \<in> set (operations d) \<Longrightarrow> op_of d (o_operation_id p) = Some p"
  using inv_struct[of d] row_by_in_set[of o_operation_id "operations d" p] by (simp add: ops_ok_def)

lemma attempt_in_inv: "journal_inv d \<Longrightarrow> a \<in> set (attempts d) \<Longrightarrow> attempt_of d (a_operation_id a) = Some a"
  using inv_struct[of d] row_by_in_set[of a_operation_id "attempts d" a] by (simp add: ops_ok_def)

lemma op_of_set_operation [simp]:
  assumes "\<And>r. o_operation_id (f r) = o_operation_id r"
  shows "op_of (set_operation oid f d) i = (if i = oid then map_option f (op_of d i) else op_of d i)"
  using assms by (cases "op_of d i") (auto simp: set_operation_def row_by_update_where dest: row_by_key)

section \<open>The dispatch fence\<close>

definition may_dispatch :: "int \<Rightarrow> string \<Rightarrow> string \<Rightarrow> string \<Rightarrow> db \<Rightarrow> bool" where
  "may_dispatch now oid owner token d =
     (case (op_of d oid, attempt_of d oid) of
        (Some p, Some a) \<Rightarrow> o_state p = StatePrepared \<and> a_owner a = owner \<and> a_token a = token \<and> now < a_lease_until a
      | _ \<Rightarrow> False)"

lemma op_of_iff: "journal_inv d \<Longrightarrow> op_of d oid = Some p \<longleftrightarrow> p \<in> set (operations d) \<and> o_operation_id p = oid"
  using inv_struct[of d] by (simp add: row_by_iff_in_set ops_ok_def)

lemma attempt_of_iff: "journal_inv d \<Longrightarrow> attempt_of d oid = Some a \<longleftrightarrow> a \<in> set (attempts d) \<and> a_operation_id a = oid"
  using inv_struct[of d] by (simp add: row_by_iff_in_set ops_ok_def)

lemma may_dispatch_iff:
  assumes inv: "journal_inv d"
  shows "may_dispatch now oid owner token d \<longleftrightarrow>
    (\<exists>p\<in>set (operations d). o_operation_id p = oid \<and> o_state p = StatePrepared \<and>
      (\<exists>a\<in>set (attempts d). a_operation_id a = oid \<and> a_owner a = owner \<and> a_token a = token \<and> now < a_lease_until a))"
proof -
  have "may_dispatch now oid owner token d \<longleftrightarrow> (\<exists>p a. op_of d oid = Some p \<and> attempt_of d oid = Some a \<and>
      o_state p = StatePrepared \<and> a_owner a = owner \<and> a_token a = token \<and> now < a_lease_until a)"
    by (auto simp: may_dispatch_def split: option.splits)
  then show ?thesis unfolding op_of_iff[OF inv] attempt_of_iff[OF inv] by blast
qed

text \<open>An operation past its fence is refused at every later one.\<close>

lemma fence_stays_shut:
  assumes inv: "journal_inv d" and steps: "journal_step\<^sup>*\<^sup>* d d2"
    and p: "op_of d oid = Some p" "op_le StateDispatchStarted (o_state p)"
  shows "withTx (MarkDispatchStartedOwned now oid owner token) d2 = (Inl ClaimNotOwned, d2)"
proof -
  have g: "journal_inv d2" "evolves d d2" using steps_good[OF steps inv] by simp_all
  then obtain p2 where p2: "op_of d2 oid = Some p2" "op_le (o_state p) (o_state p2)"
    using p(1) evolvesD(3) by (metis op_evolves_def)
  have "op_rank StateDispatchStarted \<le> op_rank (o_state p2)"
    using op_order.star_rank[OF p(2)] op_order.star_rank[OF p2(2)] by (rule le_trans)
  then have "o_state p2 \<noteq> StatePrepared" by auto
  with p2(1) op_in_inv[OF g(1)] have "\<not> (\<exists>x\<in>set (operations d2). o_operation_id x = oid \<and> o_state x = StatePrepared)"
    by fastforce
  then show ?thesis by (auto simp: withTx_def MarkDispatchStartedOwned_def Let_def count_where_0)
qed

text \<open>
  C7: The dispatch fence opens exactly for the owner of the attempt's token, on an operation still
  prepared, while its lease runs. It records the start of the dispatch in the same write, refuses
  without a write otherwise, and never opens twice: in no later journal, whatever writers of any
  process ran in between, does a holder pass it again (until retention removes the operation).
\<close>

theorem dispatch_fence_opens_once:
  assumes "journal_reachable d" "withTx (MarkDispatchStartedOwned now oid owner token) d = (r, d')"
  shows "if may_dispatch now oid owner token d
    then r = Inr () \<and> op_of d' oid = map_option (\<lambda>p. p\<lparr>o_state := StateDispatchStarted,
           o_dispatch_started_at := Some now, o_updated_at := now\<rparr>) (op_of d oid) \<and>
         (\<forall>d2 now' owner' token'. journal_step\<^sup>*\<^sup>* d' d2 \<longrightarrow>
            withTx (MarkDispatchStartedOwned now' oid owner' token') d2 = (Inl ClaimNotOwned, d2))
    else r = Inl ClaimNotOwned \<and> d' = d"
proof -
  note inv = reachable_inv[OF assms(1)]
  let ?owned = "\<exists>a\<in>set (attempts d). a_operation_id a = oid \<and> a_owner a = owner \<and> a_token a = token \<and> now < a_lease_until a"
  have may: "may_dispatch now oid owner token d \<longleftrightarrow> (\<exists>p\<in>set (operations d). o_operation_id p = oid \<and> o_state p = StatePrepared \<and> ?owned)"
    by (rule may_dispatch_iff[OF inv])
  show ?thesis
  proof (cases "may_dispatch now oid owner token d")
    case True
    then obtain p where p: "op_of d oid = Some p" "o_state p = StatePrepared"
      by (auto simp: may_dispatch_def split: option.splits)
    from True may assms(2) have r: "r = Inr ()"
      and d': "operations d' = update_where (\<lambda>r. o_operation_id r = oid \<and> o_state r = StatePrepared \<and> ?owned)
        (\<lambda>r. r\<lparr>o_state := StateDispatchStarted, o_dispatch_started_at := Some now, o_updated_at := now\<rparr>) (operations d)"
      by (auto simp: withTx_def MarkDispatchStartedOwned_def Let_def count_where_0 split: if_splits)
    from may True have own: ?owned by blast
    have look: "op_of d' oid = Some (p\<lparr>o_state := StateDispatchStarted, o_dispatch_started_at := Some now, o_updated_at := now\<rparr>)"
      using p own row_by_key[OF p(1)] by (simp add: d' row_by_update_where)
    have "journal_inv d'"
      using withTx_good[OF inv operation_tx_goods(3)[OF inv] assms(2)] by simp
    then have "\<forall>d2 now' owner' token'. journal_step\<^sup>*\<^sup>* d' d2 \<longrightarrow>
        withTx (MarkDispatchStartedOwned now' oid owner' token') d2 = (Inl ClaimNotOwned, d2)"
      using fence_stays_shut[OF _ _ look] by simp
    with True r look p show ?thesis by simp
  next
    case False
    with may assms(2) show ?thesis
      by (auto simp: withTx_def MarkDispatchStartedOwned_def Let_def count_where_0)
  qed
qed

theorem dispatch_fence_opens_once_witness:
  "\<exists>d'. withTx (MarkDispatchStartedOwned 105 ''op_1'' ''sender'' (hex_encode (replicate 24 7))) sample_prepared = (Inr (), d') \<and>
     withTx (MarkDispatchStartedOwned 106 ''op_1'' ''sender'' (hex_encode (replicate 24 7))) d' = (Inl ClaimNotOwned, d')"
proof -
  have m: "may_dispatch 105 ''op_1'' ''sender'' (hex_encode (replicate 24 7)) sample_prepared" by code_simp
  obtain r d' where h: "withTx (MarkDispatchStartedOwned 105 ''op_1'' ''sender'' (hex_encode (replicate 24 7))) sample_prepared = (r, d')"
    by fastforce
  from dispatch_fence_opens_once[OF sample_prepared_reachable h] m h show ?thesis by auto
qed

section \<open>Results\<close>

text \<open>
  C11: A result is recorded exactly along these transitions: accepted, rejected or unknown after
  the dispatch started, accepted after unknown, not sent before the dispatch. It then is the
  operation's state with its error code and end time, no other operation changes, and a refused
  result changes nothing.
\<close>

theorem result_follows_transitions:
  assumes "RecordResult now oid st ec d = (r, d')"
  shows "if \<exists>p. op_of d oid = Some p \<and> (o_state p, st) \<in>
        {(StateDispatchStarted, StateAccepted), (StateDispatchStarted, StateRejected),
         (StateDispatchStarted, StateOutcomeUnknown), (StateOutcomeUnknown, StateAccepted), (StatePrepared, StateNotSent)}
    then r = Inr () \<and> (\<forall>i. op_of d' i = (if i = oid
        then map_option (\<lambda>p. p\<lparr>o_state := st, o_error_code := ec, o_updated_at := now, o_terminal_at := Some now\<rparr>) (op_of d i)
        else op_of d i)) \<and> reply_claims d' = reply_claims d
    else r \<noteq> Inr () \<and> d' = d"
proof -
  have allowed: "result_allowed s st \<longleftrightarrow> (s, st) \<in>
      {(StateDispatchStarted, StateAccepted), (StateDispatchStarted, StateRejected),
       (StateDispatchStarted, StateOutcomeUnknown), (StateOutcomeUnknown, StateAccepted), (StatePrepared, StateNotSent)}" for s
    by (auto simp: result_allowed_def)
  have ok: "result_allowed s st \<Longrightarrow> st = StateAccepted \<or> st = StateRejected \<or> st = StateOutcomeUnknown \<or> st = StateNotSent" for s
    by (auto simp: result_allowed_def)
  show ?thesis
  proof (cases "\<exists>p. op_of d oid = Some p \<and> result_allowed (o_state p) st")
    case True
    then obtain p where p: "op_of d oid = Some p" "result_allowed (o_state p) st" by blast
    with ok[OF p(2)] assms have "r = Inr ()" and d': "d' = emit ''operation.result'' oid '''' st now
        (set_attempt_state oid st now (set_operation oid (\<lambda>r. r\<lparr>o_state := st, o_error_code := ec,
           o_updated_at := now, o_terminal_at := Some now\<rparr>) d))"
      by (auto simp: RecordResult_def RecordResult_tx_def withTx_def split: if_splits)
    moreover have "op_of d' i = (if i = oid
        then map_option (\<lambda>p. p\<lparr>o_state := st, o_error_code := ec, o_updated_at := now, o_terminal_at := Some now\<rparr>) (op_of d i)
        else op_of d i)" for i
      by (simp add: d')
    moreover have "reply_claims d' = reply_claims d"
      by (simp add: d' set_attempt_state_def set_operation_def)
    ultimately show ?thesis using True unfolding allowed by simp
  next
    case False
    with assms have "r \<noteq> Inr () \<and> d' = d"
      by (cases "op_of d oid") (auto simp: RecordResult_def RecordResult_tx_def withTx_def split: if_splits)
    with False show ?thesis unfolding allowed by simp
  qed
qed

theorem result_follows_transitions_witness:
  "RecordResult 107 ''op_1'' StateAccepted '''' sample_prepared = (Inl InvalidTransition, sample_prepared)
   \<and> (\<exists>d'. RecordResult 107 ''op_1'' StateNotSent ''x'' sample_prepared = (Inr (), d') \<and> map_option o_state (op_of d' ''op_1'') = Some StateNotSent)"
proof -
  have s: "map_option o_state (op_of sample_prepared ''op_1'') = Some StatePrepared" by code_simp
  have e: "fst (RecordResult 107 ''op_1'' StateAccepted '''' sample_prepared) = Inl InvalidTransition" by code_simp
  obtain r d' where h: "RecordResult 107 ''op_1'' StateNotSent ''x'' sample_prepared = (r, d')" by fastforce
  obtain r2 d2 where h2: "RecordResult 107 ''op_1'' StateAccepted '''' sample_prepared = (r2, d2)" by fastforce
  from result_follows_transitions[OF h] result_follows_transitions[OF h2] h h2 s e show ?thesis
    by auto
qed

section \<open>Preparation\<close>

lemma same_identity_truncate: "same_identity x p \<longleftrightarrow> op_ident.truncate x = op_ident.truncate p"
  by (auto simp: same_identity_def op_ident.truncate_def)

lemma truncate_read: "operation_read oid creator d = Inr r \<Longrightarrow> op_of d oid = Some x \<Longrightarrow>
    op_ident.truncate r = op_ident.truncate x \<and> or_state r = o_state x \<and>
    or_attempt_token r = (if creator then coalesce (map_option a_token (attempt_of d oid)) '''' else '''')"
  by (auto simp: operation_read_def loadManualResolution_def scanOperation_def Let_def op_ident.defs dest!: row_by_key split: if_splits)

abbreviation well_formed_operation :: "Operation \<Rightarrow> bool" where
  "well_formed_operation p \<equiv> \<not> operation_incomplete p \<and> \<not> custody_incomplete p"

lemma prepare_new:
  assumes inv: "journal_inv d" and new: "original_of d (o_message_id p) = None" and wf: "well_formed_operation p"
    and tok: "randomToken entropy = Inr token" and fresh: "op_of d (o_operation_id p) = None"
  shows "\<exists>r d' a. Prepare now dur entropy p d = (Inr r, d') \<and>
    op_of d' (o_operation_id p) = Some (operation_row p StatePrepared now None '''') \<and>
    (\<forall>i. i \<noteq> o_operation_id p \<longrightarrow> op_of d' i = op_of d i) \<and>
    attempt_of d' (o_operation_id p) = Some a \<and> a_token a = token \<and> a_lease_until a = now + dur \<and>
    (op_attempt_owner p \<noteq> '''' \<longrightarrow> a_owner a = op_attempt_owner p) \<and> operation_read (o_operation_id p) True d' = Inr r"
proof -
  let ?x = "operation_row p StatePrepared now None ''''"
  define a where "a = \<lparr>a_operation_id = o_operation_id p, a_state = StatePrepared, a_created_at = now, a_updated_at = now,
    a_owner = (if op_attempt_owner p = '''' then ''local-'' @ take 12 token else op_attempt_owner p), a_token = token,
    a_lease_until = now + dur\<rparr>"
  have x: "o_operation_id ?x = o_operation_id p" "o_message_id ?x = o_message_id p" "o_body_size ?x = o_body_size p"
    by (simp_all add: operation_row_def op_ident.defs)
  have size: "\<not> o_body_size p < 0" using wf by (simp add: operation_incomplete_def)
  have att: "attempt_of d (o_operation_id p) = None"
    using inv_struct[OF inv] fresh by (auto simp: row_by_None ops_ok_def)
  define d' where "d' = emit ''operation.prepared'' (o_operation_id p) '''' StatePrepared now
    (d\<lparr>operations := operations d @ [?x], attempts := attempts d @ [a]\<rparr>)"
  have t: "Prepare_tx now dur entropy p d = Inr (True, d')"
    using new tok fresh att size x
    by (simp add: Prepare_tx_def insert_operation_def insert_attempt_def Let_def row_by_append d'_def a_def)
  have ops: "op_of d' i = (if i = o_operation_id p then Some ?x else op_of d i)" for i
    using fresh x by (auto simp: d'_def row_by_append split: option.splits)
  have "attempt_of d' (o_operation_id p) = Some a" using att by (simp add: d'_def row_by_append a_def)
  moreover obtain r where "operation_read (o_operation_id p) True d' = Inr r"
    using ops[of "o_operation_id p"] by (simp add: operation_read_def Let_def)
  ultimately show ?thesis
    using wf t ops by (intro exI[of _ r] exI[of _ d'] exI[of _ a]) (simp add: Prepare_def withTx_def a_def)
qed

text \<open>
  C17: Preparing a message is idempotent under its identity. A new message with a free operation id
  gets one operation, stored as given, and one attempt with a fresh token and a full lease, under the
  owner named if one is, returned to its creator. A repetition succeeds and changes nothing, whatever
  has become of the operation since; it is refused when any identity field differs, and shows the
  stored token exactly to a caller that names the owner of the stored attempt.
\<close>

theorem prepare_is_idempotent:
  assumes "journal_reachable d" "\<not> operation_incomplete p" "\<not> custody_incomplete p"
  shows "case original_of d (o_message_id p) of
      None \<Rightarrow>
        if randomToken entropy = Inl NoEntropy \<or> op_of d (o_operation_id p) \<noteq> None
        then \<exists>e. Prepare now dur entropy p d = (Inl e, d)
        else \<exists>r d' x a. Prepare now dur entropy p d = (Inr r, d') \<and>
          op_ident.truncate r = op_ident.truncate p \<and> or_state r = StatePrepared \<and>
          op_of d' (o_operation_id p) = Some x \<and> op_ident.truncate x = op_ident.truncate p \<and> o_state x = StatePrepared \<and>
          (\<forall>i. i \<noteq> o_operation_id p \<longrightarrow> op_of d' i = op_of d i) \<and>
          attempt_of d' (o_operation_id p) = Some a \<and> a_token a = or_attempt_token r \<and> length (a_token a) = 48 \<and>
          a_lease_until a = now + dur \<and> (op_attempt_owner p \<noteq> '''' \<longrightarrow> a_owner a = op_attempt_owner p)
    | Some x \<Rightarrow>
        if op_ident.truncate x = op_ident.truncate p
        then \<exists>r. Prepare now dur entropy p d = (Inr r, d) \<and> op_ident.truncate r = op_ident.truncate p \<and>
          or_state r = o_state x \<and>
          or_attempt_token r = (case attempt_of d (o_operation_id p) of None \<Rightarrow> ''''
            | Some a \<Rightarrow> if op_attempt_owner p \<noteq> '''' \<and> a_owner a = op_attempt_owner p then a_token a else '''')
        else Prepare now dur entropy p d = (Inl IdentityConflict, d)"
proof (cases "original_of d (o_message_id p)")
  case (Some x)
  note inv = reachable_inv[OF assms(1)]
  show ?thesis
  proof (cases "same_identity x p")
    case True
    then have id: "o_operation_id x = o_operation_id p" by (simp add: same_identity_def)
    have "x \<in> set (operations d)" using Some by (auto dest: row_by_SomeD)
    then have x: "op_of d (o_operation_id p) = Some x" using op_in_inv[OF inv, of x] id by simp
    let ?a = "attempt_of d (o_operation_id p)"
    define creator where "creator \<longleftrightarrow> op_attempt_owner p \<noteq> '''' \<and> op_attempt_owner p = coalesce (map_option a_owner ?a) ''''"
    obtain r where r: "operation_read (o_operation_id p) creator d = Inr r"
      using x by (simp add: operation_read_def Let_def)
    have "or_attempt_owner (scanOperation d x) = coalesce (map_option a_owner ?a) ''''"
      using id by (simp add: scanOperation_def Let_def op_ident.extend_def)
    with Some True assms(2,3) r have "Prepare now dur entropy p d = (Inr r, d)"
      by (simp add: Prepare_def Prepare_tx_def withTx_def creator_def)
    with truncate_read[OF r x] Some True show ?thesis
      by (cases ?a) (auto simp: creator_def same_identity_truncate)
  next
    case False
    with Some assms(2,3) show ?thesis
      by (simp add: Prepare_def Prepare_tx_def withTx_def same_identity_truncate)
  qed
next
  case None
  show ?thesis
  proof (cases "randomToken entropy = Inl NoEntropy \<or> op_of d (o_operation_id p) \<noteq> None")
    case True
    have "o_operation_id (operation_row p StatePrepared now None '''') = o_operation_id p"
      by (simp add: operation_row_def op_ident.defs)
    with True None assms(2,3) have "\<exists>e. Prepare now dur entropy p d = (Inl e, d)"
      by (cases "randomToken entropy") (auto simp: Prepare_def Prepare_tx_def withTx_def insert_operation_def Let_def)
    with True None show ?thesis by simp
  next
    case False
    then obtain token where tok: "randomToken entropy = Inr token"
      by (auto simp: randomToken_def split: option.splits if_splits)
    from prepare_new[OF reachable_inv[OF assms(1)] None _ tok, of now dur] False assms(2,3) obtain r d' a where
      h: "Prepare now dur entropy p d = (Inr r, d')" "op_of d' (o_operation_id p) = Some (operation_row p StatePrepared now None '''')"
      "\<forall>i. i \<noteq> o_operation_id p \<longrightarrow> op_of d' i = op_of d i" "attempt_of d' (o_operation_id p) = Some a" "a_token a = token"
      "a_lease_until a = now + dur" "op_attempt_owner p \<noteq> '''' \<longrightarrow> a_owner a = op_attempt_owner p"
      and rd: "operation_read (o_operation_id p) True d' = Inr r" by blast
    have "op_ident.truncate (operation_row p StatePrepared now None '''') = op_ident.truncate p"
      "o_state (operation_row p StatePrepared now None '''') = StatePrepared"
      by (simp_all add: operation_row_def op_ident.defs)
    with truncate_read[OF rd h(2)] h None False randomToken_length[OF tok] show ?thesis by auto
  qed
qed

theorem prepare_is_idempotent_witness:
  "(\<exists>r. Prepare 100 60 (Some (replicate 24 7)) sample_operation empty_db = (Inr r, sample_prepared) \<and> length (or_attempt_token r) = 48)
   \<and> (\<exists>r. Prepare 900 60 None sample_operation sample_prepared = (Inr r, sample_prepared) \<and> or_attempt_token r \<noteq> '''')"
proof
  have wf: "\<not> operation_incomplete sample_operation" "\<not> custody_incomplete sample_operation" by code_simp+
  have e: "randomToken (Some (replicate 24 7)) \<noteq> Inl NoEntropy" by code_simp
  show "\<exists>r. Prepare 100 60 (Some (replicate 24 7)) sample_operation empty_db = (Inr r, sample_prepared) \<and> length (or_attempt_token r) = 48"
    using prepare_is_idempotent[OF reach_empty wf, of "Some (replicate 24 7)" 100 60] e
    by (auto simp: empty_db_def sample_prepared_def)
  have "map_option op_ident.truncate (original_of sample_prepared (o_message_id sample_operation)) = Some (op_ident.truncate sample_operation)"
    "map_option (\<lambda>a. (a_owner a, a_token a)) (attempt_of sample_prepared (o_operation_id sample_operation))
      = Some (op_attempt_owner sample_operation, hex_encode (replicate 24 7))" by code_simp+
  then obtain x a where "original_of sample_prepared (o_message_id sample_operation) = Some x" "op_ident.truncate x = op_ident.truncate sample_operation"
    "attempt_of sample_prepared (o_operation_id sample_operation) = Some a" "a_owner a = op_attempt_owner sample_operation"
    "a_token a = hex_encode (replicate 24 7)" by auto
  with prepare_is_idempotent[OF sample_prepared_reachable wf, of None 900 60]
  show "\<exists>r. Prepare 900 60 None sample_operation sample_prepared = (Inr r, sample_prepared) \<and> or_attempt_token r \<noteq> ''''"
    by (auto simp: sample_operation_def hex_encode_def hex_byte_def)
qed

section \<open>Recovery\<close>

text \<open>An operation still open whose attempt's lease has run out.\<close>

definition orphaned :: "int \<Rightarrow> db \<Rightarrow> op_row \<Rightarrow> bool" where
  "orphaned now d p =
     ((o_state p = StatePrepared \<or> o_state p = StateDispatchStarted) \<and>
      (case attempt_of d (o_operation_id p) of None \<Rightarrow> False
       | Some a \<Rightarrow> 0 < a_lease_until a \<and> a_lease_until a \<le> now))"

lemma orphan_rows_iff:
  assumes inv: "journal_inv d"
  shows "(oid, st) \<in> set (orphan_rows now d) \<longleftrightarrow> (\<exists>p. op_of d oid = Some p \<and> o_state p = st \<and> orphaned now d p)"
proof -
  have "(\<exists>p. op_of d oid = Some p \<and> o_state p = st \<and> orphaned now d p) \<longleftrightarrow>
    (\<exists>p a. op_of d oid = Some p \<and> attempt_of d oid = Some a \<and> o_state p = st \<and>
       (st = StatePrepared \<or> st = StateDispatchStarted) \<and> 0 < a_lease_until a \<and> a_lease_until a \<le> now)"
  proof
    assume "\<exists>p. op_of d oid = Some p \<and> o_state p = st \<and> orphaned now d p"
    then obtain p where p: "op_of d oid = Some p" "o_state p = st" "orphaned now d p" by blast
    with row_by_key[OF p(1)] show "\<exists>p a. op_of d oid = Some p \<and> attempt_of d oid = Some a \<and> o_state p = st \<and>
       (st = StatePrepared \<or> st = StateDispatchStarted) \<and> 0 < a_lease_until a \<and> a_lease_until a \<le> now"
      by (cases "attempt_of d oid") (simp_all add: orphaned_def)
  next
    assume "\<exists>p a. op_of d oid = Some p \<and> attempt_of d oid = Some a \<and> o_state p = st \<and>
       (st = StatePrepared \<or> st = StateDispatchStarted) \<and> 0 < a_lease_until a \<and> a_lease_until a \<le> now"
    then obtain p a where p: "op_of d oid = Some p" "attempt_of d oid = Some a" "o_state p = st"
      "st = StatePrepared \<or> st = StateDispatchStarted" "0 < a_lease_until a" "a_lease_until a \<le> now" by blast
    with row_by_key[OF p(1)] show "\<exists>p. op_of d oid = Some p \<and> o_state p = st \<and> orphaned now d p"
      by (simp add: orphaned_def)
  qed
  then show ?thesis
    unfolding orphan_row_iff op_of_iff[OF inv] attempt_of_iff[OF inv] by metis
qed

lemma recover_fold_rows:
  "distinct (map fst rows) \<Longrightarrow> op_of (fold (recover_one now) rows d) oid =
    map_option (\<lambda>p. case map_of rows oid of None \<Rightarrow> p
       | Some st \<Rightarrow> p\<lparr>o_state := recovered_state st, o_updated_at := now, o_terminal_at := Some now\<rparr>) (op_of d oid)"
proof (induction rows arbitrary: d)
  case Nil
  then show ?case by (simp add: option.map_ident)
next
  case (Cons row rows)
  have no: "fst row = oid \<Longrightarrow> map_of rows oid = None"
    using Cons.prems by (auto simp: map_of_eq_None_iff)
  have IH: "op_of (fold (recover_one now) rows (recover_one now row d)) oid =
    map_option (\<lambda>p. case map_of rows oid of None \<Rightarrow> p
       | Some st \<Rightarrow> p\<lparr>o_state := recovered_state st, o_updated_at := now, o_terminal_at := Some now\<rparr>) (op_of (recover_one now row d) oid)"
    using Cons by simp
  show ?case
    using no IH by (cases row; cases "op_of d oid") (auto simp: recover_one_row)
qed

lemma attempt_lease_map:
  "map_option a_lease_until (row_by a_operation_id oid as) = map_of (map (\<lambda>a. (a_operation_id a, a_lease_until a)) as) oid"
  by (induction as) (simp_all add: row_by_Cons)

lemma recover_fold_attempts:
  "map (\<lambda>a. (a_operation_id a, a_lease_until a)) (attempts (fold (recover_one now) rows d))
     = map (\<lambda>a. (a_operation_id a, a_lease_until a)) (attempts d)"
proof (induction rows arbitrary: d)
  case (Cons row rows)
  have "map (\<lambda>a. (a_operation_id a, a_lease_until a)) (attempts (recover_one now row d))
    = map (\<lambda>a. (a_operation_id a, a_lease_until a)) (attempts d)"
    by (simp add: recover_one_def Let_def set_attempt_state_def update_where_def)
  with Cons show ?case by simp
qed simp

text \<open>
  C18: Recovery after a crash is conservative and idempotent. An orphaned operation that had not
  started its dispatch becomes not sent, one that had started becomes outcome unknown, never
  accepted or rejected; every other operation is left exactly as it was; and recovering again at
  the same time changes nothing.
\<close>

theorem recovery_is_conservative:
  assumes "journal_reachable d"
  shows "\<exists>d'. RecoverOrphans now d = (Inr (), d') \<and>
    (\<forall>oid. op_of d' oid = map_option (\<lambda>p. if orphaned now d p
       then p\<lparr>o_state := (if o_state p = StateDispatchStarted then StateOutcomeUnknown else StateNotSent),
              o_updated_at := now, o_terminal_at := Some now\<rparr> else p) (op_of d oid)) \<and>
    RecoverOrphans now d' = (Inr (), d')"
proof -
  note inv = reachable_inv[OF assms]
  let ?rows = "orphan_rows now d"
  define d' where "d' = fold (recover_one now) ?rows d"
  have dist: "distinct (map fst ?rows)" using inv_struct[OF inv] by (intro distinct_orphans) simp
  have run: "RecoverOrphans now x = (Inr (), fold (recover_one now) (orphan_rows now x) x)" for x
    by (simp add: RecoverOrphans_def RecoverOrphans_tx_def withTx_def)
  have m: "map_of ?rows oid = (if orphaned now d p then Some (o_state p) else None)" if p: "op_of d oid = Some p" for oid p
  proof (cases "orphaned now d p")
    case True
    with p have "(oid, o_state p) \<in> set ?rows" by (auto simp: orphan_rows_iff[OF inv])
    with dist True show ?thesis by simp
  next
    case False
    with p have "oid \<notin> fst ` set ?rows" by (auto simp: orphan_rows_iff[OF inv])
    with False show ?thesis by (simp add: map_of_eq_None_iff)
  qed
  have look: "op_of d' oid = map_option (\<lambda>p. if orphaned now d p
       then p\<lparr>o_state := (if o_state p = StateDispatchStarted then StateOutcomeUnknown else StateNotSent),
              o_updated_at := now, o_terminal_at := Some now\<rparr> else p) (op_of d oid)" for oid
    unfolding d'_def recover_fold_rows[OF dist] by (cases "op_of d oid") (auto simp: m recovered_state_def)
  have inv': "journal_inv d'"
    using recover_good[OF inv, of now "()" d'] by (simp add: RecoverOrphans_tx_def d'_def)
  have lease: "map_option a_lease_until (attempt_of d' oid) = map_option a_lease_until (attempt_of d oid)" for oid
    by (simp add: attempt_lease_map d'_def recover_fold_attempts)
  have "\<not> orphaned now d' p" if p: "op_of d' oid = Some p" for oid p
  proof -
    from p obtain p0 where p0: "op_of d oid = Some p0" "p = (if orphaned now d p0
       then p0\<lparr>o_state := (if o_state p0 = StateDispatchStarted then StateOutcomeUnknown else StateNotSent),
              o_updated_at := now, o_terminal_at := Some now\<rparr> else p0)"
      by (auto simp: look)
    have "orphaned now d' p0 = orphaned now d p0"
      using lease[of "o_operation_id p0"]
      by (cases "attempt_of d (o_operation_id p0)"; cases "attempt_of d' (o_operation_id p0)") (simp_all add: orphaned_def)
    then show ?thesis
      by (cases "orphaned now d p0") (simp add: p0(2) orphaned_def, simp add: p0(2))
  qed
  then have "orphan_rows now d' = []"
    using orphan_rows_iff[OF inv'] by (metis list.set_intros(1) neq_Nil_conv surj_pair)
  then have "RecoverOrphans now d' = (Inr (), d')" by (simp add: run)
  with run[of d] look show ?thesis unfolding d'_def by blast
qed

theorem recovery_is_conservative_witness:
  "\<exists>d'. RecoverOrphans 999 sample_prepared = (Inr (), d') \<and> map_option o_state (op_of d' ''op_1'') = Some StateNotSent"
proof -
  have "case op_of sample_prepared ''op_1'' of None \<Rightarrow> False | Some p \<Rightarrow> orphaned 999 sample_prepared p \<and> o_state p = StatePrepared"
    by code_simp
  then obtain p where p: "op_of sample_prepared ''op_1'' = Some p" "orphaned 999 sample_prepared p" "o_state p = StatePrepared"
    by (cases "op_of sample_prepared ''op_1''") simp_all
  from recovery_is_conservative[OF sample_prepared_reachable, of 999] obtain d' where
    d': "RecoverOrphans 999 sample_prepared = (Inr (), d')" and
    look: "\<And>oid. op_of d' oid = map_option (\<lambda>p. if orphaned 999 sample_prepared p
       then p\<lparr>o_state := (if o_state p = StateDispatchStarted then StateOutcomeUnknown else StateNotSent),
              o_updated_at := 999, o_terminal_at := Some 999\<rparr> else p) (op_of sample_prepared oid)" by blast
  from p have "map_option o_state (op_of d' ''op_1'') = Some StateNotSent" by (simp add: look)
  with d' show ?thesis by blast
qed

end
