(* ===== verification/Sequencer.thy ===== *)
theory Sequencer
  imports Models
begin

text \<open>
  The event sequencer of \<open>go/sequencer.go\<close>. Its mutex makes every call atomic, so a process is
  a sequence of calls. The fresh event id and the formatted clock of \<open>Next\<close> are its inputs.
\<close>

record EventSequencer =
  sq_operation_id :: string
  sq_next :: "64 word"
  sq_terminal :: bool

text \<open>\<open>NewEventSequencer\<close>: an empty operation id is replaced by a generated one.\<close>

definition NewEventSequencer :: "string \<Rightarrow> string \<Rightarrow> EventSequencer" where
  "NewEventSequencer generated operation_id =
     \<lparr>sq_operation_id = (if operation_id = '''' then generated else operation_id), sq_next = 0, sq_terminal = False\<rparr>"

definition sequencer_Next ::
  "string \<Rightarrow> string \<Rightarrow> string \<Rightarrow> bool \<Rightarrow> bool \<Rightarrow> (string \<times> json) list \<Rightarrow> EventSequencer
     \<Rightarrow> (string + Event) \<times> EventSequencer" where
  "sequencer_Next event_id timestamp name terminal ok data s =
     (if sq_terminal s then (Inl ''mektup: event sequencer is already terminal'', s)
      else if name = '''' then (Inl ''mektup: event name is required'', s)
      else
        let s1 = s\<lparr>sq_next := sq_next s + 1\<rparr>;
            e = \<lparr>le_schema = EventSchema, le_event = name, le_event_id = event_id, le_sequence = sq_next s1,
                 le_operation_id = sq_operation_id s1, le_timestamp = timestamp, le_terminal = terminal,
                 le_ok = ok, le_warnings = [], le_data = data, le_error = None\<rparr>
        in case event_validate e of
             Inl err \<Rightarrow> (Inl err, s1\<lparr>sq_next := sq_next s1 - 1\<rparr>)
           | Inr _ \<Rightarrow> (Inr e, if terminal then s1\<lparr>sq_terminal := True\<rparr> else s1))"

definition sequencer_Append :: "Event \<Rightarrow> EventSequencer \<Rightarrow> (string + unit) \<times> EventSequencer" where
  "sequencer_Append e s =
     (if sq_terminal s then (Inl ''mektup: event sequencer is already terminal'', s)
      else if le_operation_id e \<noteq> sq_operation_id s then (Inl ''mektup: event operation ID mismatch'', s)
      else if le_sequence e \<noteq> sq_next s + 1 then (Inl ''mektup: event sequence'', s)
      else case event_validate e of
             Inl err \<Rightarrow> (Inl err, s)
           | Inr _ \<Rightarrow>
               let s1 = s\<lparr>sq_next := le_sequence e\<rparr>
               in (Inr (), if le_terminal e then s1\<lparr>sq_terminal := True\<rparr> else s1))"

text \<open>The calls of any number of goroutines, in the order of the mutex, and the events they produce.\<close>

datatype sequencer_request =
    CallNext string string string bool bool "(string \<times> json) list"
  | CallAppend Event

fun sequencer_call :: "sequencer_request \<Rightarrow> EventSequencer \<Rightarrow> Event option \<times> EventSequencer" where
  "sequencer_call (CallNext event_id timestamp name terminal ok data) s =
     (case sequencer_Next event_id timestamp name terminal ok data s of
        (Inl _, s') \<Rightarrow> (None, s') | (Inr e, s') \<Rightarrow> (Some e, s'))"
| "sequencer_call (CallAppend e) s =
     (case sequencer_Append e s of (Inl _, s') \<Rightarrow> (None, s') | (Inr _, s') \<Rightarrow> (Some e, s'))"

fun sequencer_run :: "sequencer_request list \<Rightarrow> EventSequencer \<Rightarrow> Event list \<times> EventSequencer" where
  "sequencer_run [] s = ([], s)"
| "sequencer_run (c # cs) s =
     (let (e, s1) = sequencer_call c s; (es, s2) = sequencer_run cs s1
      in ((case e of None \<Rightarrow> es | Some x \<Rightarrow> x # es), s2))"

text \<open>One call: refused without a trace, or the next event, which ends the sequence if it is terminal.\<close>

lemma sequencer_call_cases:
  "sequencer_call c s = (None, s) \<or>
   (\<exists>e. sequencer_call c s = (Some e, s\<lparr>sq_next := sq_next s + 1, sq_terminal := le_terminal e\<rparr>) \<and>
      \<not> sq_terminal s \<and> event_validate e = Inr () \<and> le_sequence e = sq_next s + 1 \<and>
      le_operation_id e = sq_operation_id s)"
proof (cases c)
  case (CallNext i t n tm ok data)
  let ?e = "\<lparr>le_schema = EventSchema, le_event = n, le_event_id = i, le_sequence = sq_next s + 1,
     le_operation_id = sq_operation_id s, le_timestamp = t, le_terminal = tm, le_ok = ok, le_warnings = [],
     le_data = data, le_error = None\<rparr>"
  show ?thesis
  proof (cases "event_validate ?e")
    case (Inr u)
    then show ?thesis by (auto simp: CallNext sequencer_Next_def Let_def)
  qed (auto simp: CallNext sequencer_Next_def Let_def)
next
  case (CallAppend e)
  then show ?thesis
    by (cases "event_validate e") (auto simp: sequencer_Append_def Let_def)
qed

lemma sequencer_run_events:
  assumes "sequencer_run cs s = (es, s')"
  shows "sq_operation_id s' = sq_operation_id s \<and>
    unat (sq_next s') = unat (sq_next s) + length es \<and>
    map (\<lambda>e. unat (le_sequence e)) es = [Suc (unat (sq_next s))..<Suc (unat (sq_next s')) ] \<and>
    (\<forall>e\<in>set es. le_operation_id e = sq_operation_id s \<and> event_validate e = Inr ()) \<and>
    (\<forall>e\<in>set (butlast es). \<not> le_terminal e) \<and>
    (sq_terminal s \<longrightarrow> es = []) \<and>
    (sq_terminal s' \<longleftrightarrow> sq_terminal s \<or> es \<noteq> [] \<and> le_terminal (last es))"
  using assms
proof (induction cs arbitrary: s es)
  case (Cons c cs)
  consider "sequencer_call c s = (None, s)"
    | e where "sequencer_call c s = (Some e, s\<lparr>sq_next := sq_next s + 1, sq_terminal := le_terminal e\<rparr>)"
      "\<not> sq_terminal s" "event_validate e = Inr ()" "le_sequence e = sq_next s + 1" "le_operation_id e = sq_operation_id s"
    using sequencer_call_cases[of c s] by blast
  then show ?case
  proof cases
    case 1
    with Cons show ?thesis by (auto simp: split_beta Let_def)
  next
    case (2 e)
    let ?s1 = "s\<lparr>sq_next := sq_next s + 1, sq_terminal := le_terminal e\<rparr>"
    obtain es' where es: "es = e # es'" and r: "sequencer_run cs ?s1 = (es', s')"
      using Cons.prems 2(1) by (cases "sequencer_run cs ?s1") auto
    have ne: "sq_next s + 1 \<noteq> 0"
      using 2(3,4) by (auto simp: event_validate_def bindE_Inr_iff)
    then have n: "unat (sq_next s + 1) = Suc (unat (sq_next s))" using unatSuc[of "sq_next s"] by (simp add: add.commute)
    note IH = Cons.IH[OF r]
    have "[Suc (unat (sq_next s))..<Suc (unat (sq_next s'))] =
      Suc (unat (sq_next s)) # [Suc (Suc (unat (sq_next s)))..<Suc (unat (sq_next s'))]"
      using IH n by (intro upt_conv_Cons) simp
    with IH n 2 show ?thesis by (auto simp: es)
  qed
qed simp

text \<open>
  C22: Whatever calls reach a fresh sequencer in whatever order, the events it lets through are
  numbered 1, 2, 3, ... without a gap, all valid and of its operation, and at most the last one is
  terminal. The 64-bit counter never wraps round to a number already used.
\<close>

theorem sequencer_numbers_without_gaps:
  "map (\<lambda>e. unat (le_sequence e)) (fst (sequencer_run cs (NewEventSequencer g oid)))
     = [1..<Suc (length (fst (sequencer_run cs (NewEventSequencer g oid))))] \<and>
   list_all (\<lambda>e. event_validate e = Inr () \<and> le_operation_id e = (if oid = '''' then g else oid))
     (fst (sequencer_run cs (NewEventSequencer g oid))) \<and>
   list_all (\<lambda>e. \<not> le_terminal e) (butlast (fst (sequencer_run cs (NewEventSequencer g oid))))"
proof -
  obtain es s' where r: "sequencer_run cs (NewEventSequencer g oid) = (es, s')" by fastforce
  from sequencer_run_events[OF r] show ?thesis
    unfolding r fst_conv by (simp add: NewEventSequencer_def list_all_iff del: upt_Suc)
qed

text \<open>
  C23: A terminal event closes the sequence for good: once a sequencer has let one through, no
  later call of any process gets an event through or changes the sequencer.
\<close>

theorem sequencer_stops_after_terminal:
  assumes "sequencer_run cs s = (es, s1)" "es \<noteq> []" "le_terminal (last es)"
  shows "sequencer_run cs' s1 = ([], s1)"
proof -
  have "sq_terminal s1" using sequencer_run_events[OF assms(1)] assms(2,3) by simp
  then have "sequencer_call c s1 = (None, s1)" for c using sequencer_call_cases[of c s1] by blast
  then show ?thesis by (induction cs') simp_all
qed

definition sample_calls :: "sequencer_request list" where
  "sample_calls = [
     CallNext ''evt_01890000-0000-7000-8000-000000000001'' ''2026-01-02T03:04:05.000000Z'' ''started'' False True [],
     CallNext ''evt_01890000-0000-7000-8000-000000000002'' ''bad'' ''progress'' False True [],
     CallNext ''evt_01890000-0000-7000-8000-000000000003'' ''2026-01-02T03:04:06.000000Z'' ''done'' True True []]"

theorem sequencer_stops_after_terminal_witness:
  "sequencer_run sample_calls (snd (sequencer_run sample_calls
     (NewEventSequencer '''' ''op_01890000-0000-7000-8000-000000000002'')))
   = ([], snd (sequencer_run sample_calls (NewEventSequencer '''' ''op_01890000-0000-7000-8000-000000000002'')))"
proof -
  let ?r = "sequencer_run sample_calls (NewEventSequencer '''' ''op_01890000-0000-7000-8000-000000000002'')"
  have "fst ?r \<noteq> [] \<and> le_terminal (last (fst ?r)) \<and> length (fst ?r) = 2" by code_simp
  then show ?thesis using sequencer_stops_after_terminal[of _ _ "fst ?r" "snd ?r"] by simp
qed

end
