(* ===== verification/Journal_Receipt_Merge.thy ===== *)
theory Journal_Receipt_Merge
  imports Journal_Receipts
begin

text \<open>
  Merging two receipts (\<open>mergeReceiptProjection\<close>) keeps what the journal relies on: the result is
  valid, its text portable, and it holds no body if neither of them does, although the code checks
  only the incoming one.
\<close>

section \<open>What a merge gives is again portable and valid\<close>

text \<open>Well-formed text within a nesting bound, entry by entry.\<close>

definition fine :: "nat \<Rightarrow> json \<Rightarrow> bool" where
  "fine k v = (json_ok v \<and> depth v \<le> k)"

lemma fine_simps [simp]:
  "fine k (JStr s) = utf8_valid s"
  "fine k (JBool b)"
  "fine k (JNum n) = number_literal n"
  "fine (Suc k) (JArr vs) = (\<forall>v\<in>set vs. fine k v)"
  "fine (Suc k) (JObj kvs) = (\<forall>kv\<in>set kvs. utf8_valid (fst kv) \<and> fine k (snd kv))"
  by (auto simp: fine_def fold_max_le)

lemma receipt_json_norm: "receipt_json (norm_receipt r) = receipt_json r"
proof -
  have m: "opt_map_field k (norm_map m) = opt_map_field k m" for k m
    by (auto simp: opt_map_field_def norm_map_def)
  have "effective_resolution (norm_receipt r) = effective_resolution r"
    by (simp add: effective_resolution_def norm_receipt_def split: option.splits)
  then show ?thesis
    by (simp add: receipt_json_def norm_receipt_def comp_def identity_json_def norm_identity_def evidence_json_def
        norm_evidence_def warning_json_def norm_warning_def m)
qed

lemma map_canonical_norm: "map_canonical m \<Longrightarrow> map_canonical (norm_map m)"
  by (auto simp: norm_map_def)

lemma receipt_portable_norm: "receipt_portable r \<Longrightarrow> receipt_portable (norm_receipt r)"
  unfolding receipt_portable_def receipt_json_norm
  by (auto simp: list_all_iff map_canonical_norm norm_receipt_def norm_identity_def norm_evidence_def norm_warning_def)

lemma set_merge_evidence: "set (merge_evidence existing incoming) = set existing \<union> set incoming"
  unfolding merge_evidence_def by (induction existing arbitrary: incoming) auto

lemma set_mergeWarnings: "set (mergeWarnings existing incoming) = set existing \<union> set incoming"
  unfolding mergeWarnings_def by (induction incoming arbitrary: existing) auto

lemma max_depth_Suc: "max_depth = Suc (Suc (Suc (Suc 9996)))"
  by (simp add: max_depth_def)

lemma set_optional_fields:
  "set (field k v) = {(k, JStr v)}"
  "set (opt_field k v) = (if v = '''' then {} else {(k, JStr v)})"
  "set (pointer_field k f x) = (case x of None \<Rightarrow> {} | Some a \<Rightarrow> {(k, f a)})"
  by (auto simp: field_def opt_field_def pointer_field_def split: option.splits)

lemma utf8_literals:
  "utf8_valid ''endpointId''" "utf8_valid ''threadId''" "utf8_valid ''turnId''" "utf8_valid ''itemId''"
  "utf8_valid ''clientMessageId''" "utf8_valid ''payloadBytes''" "utf8_valid ''payloadSha256''"
  "utf8_valid ''contentRef''" "utf8_valid ''evidence''" "utf8_valid ''warnings''" "utf8_valid ''manualResolution''"
  by code_simp+

lemma merge_locatorD: "merge_locator e i = Inr x \<Longrightarrow> x \<in> {e, i} \<and> (e \<noteq> '''' \<longrightarrow> x = e)"
  by (auto simp: merge_locator_def split: if_splits)

lemma mergeContentRef_Some:
  assumes "mergeContentRef (Some e) (Some i) = Inr r"
  obtains t m x where "r = Some (e\<lparr>ct_turn_id := t, ct_item_id := m, ct_client_message_id := x\<rparr>)"
    "t \<in> {ct_turn_id e, ct_turn_id i}" "m \<in> {ct_item_id e, ct_item_id i}"
    "x \<in> {ct_client_message_id e, ct_client_message_id i}"
    "ct_turn_id e \<noteq> '''' \<Longrightarrow> t = ct_turn_id e" "ct_item_id e \<noteq> '''' \<Longrightarrow> m = ct_item_id e"
    "ct_client_message_id e \<noteq> '''' \<Longrightarrow> x = ct_client_message_id e"
proof -
  obtain t m x where r: "r = Some (e\<lparr>ct_turn_id := t, ct_item_id := m, ct_client_message_id := x\<rparr>)"
    and l: "merge_locator (ct_turn_id e) (ct_turn_id i) = Inr t" "merge_locator (ct_item_id e) (ct_item_id i) = Inr m"
      "merge_locator (ct_client_message_id e) (ct_client_message_id i) = Inr x"
    using assms by (auto simp: mergeContentRef_def bindE_Inr_iff)
  show ?thesis by (rule that[OF r]) (use l[THEN merge_locatorD] in simp_all)
qed

lemma mergeContentRef_cases:
  "mergeContentRef None i = Inr i"
  "mergeContentRef (Some e) None = Inr (Some e)"
  by (simp_all add: mergeContentRef_def)

lemma content_ref_fine:
  "fine (Suc k) (content_ref_json c) \<longleftrightarrow>
     utf8_valid (ct_endpoint_id c) \<and> utf8_valid (ct_thread_id c) \<and> utf8_valid (ct_turn_id c) \<and>
     utf8_valid (ct_item_id c) \<and> utf8_valid (ct_client_message_id c) \<and>
     number_literal (decimal (uint (ct_payload_bytes c))) \<and> utf8_valid (ct_payload_sha256 c)"
  by (simp add: content_ref_json_def set_optional_fields ball_Un utf8_literals json_uint_def) auto

lemma mergeContentRef_fine:
  assumes "mergeContentRef e i = Inr ref" "ref = Some c" "\<And>x. e = Some x \<Longrightarrow> fine (Suc k) (content_ref_json x)"
    "\<And>x. i = Some x \<Longrightarrow> fine (Suc k) (content_ref_json x)"
  shows "fine (Suc k) (content_ref_json c)"
proof (cases e; cases i)
  fix a b assume e: "e = Some a" and i: "i = Some b"
  note fine = assms(3)[OF e] assms(4)[OF i]
  from assms(1) obtain t m x where "ref = Some (a\<lparr>ct_turn_id := t, ct_item_id := m, ct_client_message_id := x\<rparr>)"
    "t \<in> {ct_turn_id a, ct_turn_id b}" "m \<in> {ct_item_id a, ct_item_id b}"
    "x \<in> {ct_client_message_id a, ct_client_message_id b}"
    unfolding e i by (rule mergeContentRef_Some)
  with fine assms(2) show ?thesis unfolding content_ref_fine by auto
qed (use assms in \<open>simp_all add: mergeContentRef_cases\<close>)

lemma mergeReceiptE:
  assumes "mergeReceiptProjection e i = Inr m"
  obtains ref where "same_receipt e i" "mergeContentRef (rp_content_ref e) (rp_content_ref i) = Inr ref"
    "m = i\<lparr>rp_content_ref := ref, rp_warnings := mergeWarnings (rp_warnings e) (rp_warnings i),
      rp_manual_resolution := (case rp_manual_resolution i of None \<Rightarrow> rp_manual_resolution e | Some m \<Rightarrow> Some m),
      rp_evidence := merge_evidence (rp_evidence e) (rp_evidence i)\<rparr>"
  using assms by (auto simp: mergeReceiptProjection_def bindE_Inr_iff split: if_splits)

lemma fine_receipt:
  "fine (Suc (Suc k)) (receipt_json r) \<longleftrightarrow>
     utf8_valid (rp_schema r) \<and> utf8_valid (rp_receipt_id r) \<and> utf8_valid (rp_operation_id r) \<and>
     utf8_valid (rp_operation r) \<and> utf8_valid (state_string (rp_state r)) \<and>
     fine (Suc k) (identity_json (rp_source r)) \<and> fine (Suc k) (identity_json (rp_target r)) \<and>
     fine (Suc k) (message_json (rp_message r)) \<and>
     (\<forall>c. rp_content_ref r = Some c \<longrightarrow> fine (Suc k) (content_ref_json c)) \<and>
     (\<forall>e\<in>set (rp_evidence r). fine k (evidence_json e)) \<and> (\<forall>w\<in>set (rp_warnings r). fine k (warning_json w)) \<and>
     (\<forall>m. effective_resolution r = Some m \<longrightarrow> fine (Suc k) (resolution_json m)) \<and>
     utf8_valid (rp_created_at r) \<and> utf8_valid (rp_updated_at r)"
proof -
  have "utf8_valid ''schema'' \<and> utf8_valid ''receiptId'' \<and> utf8_valid ''operationId'' \<and> utf8_valid ''operation'' \<and>
     utf8_valid ''state'' \<and> utf8_valid ''source'' \<and> utf8_valid ''target'' \<and> utf8_valid ''message'' \<and>
     utf8_valid ''createdAt'' \<and> utf8_valid ''updatedAt''"
    by code_simp
  then show ?thesis
    by (simp add: receipt_json_def set_optional_fields ball_Un utf8_literals split: option.splits) blast
qed

lemma merge_portable:
  assumes "mergeReceiptProjection e i = Inr m" "receipt_portable e" "receipt_portable i"
  shows "receipt_portable m"
proof -
  obtain ref where ref: "mergeContentRef (rp_content_ref e) (rp_content_ref i) = Inr ref"
    and m: "m = i\<lparr>rp_content_ref := ref, rp_warnings := mergeWarnings (rp_warnings e) (rp_warnings i),
      rp_manual_resolution := (case rp_manual_resolution i of None \<Rightarrow> rp_manual_resolution e | Some m \<Rightarrow> Some m),
      rp_evidence := merge_evidence (rp_evidence e) (rp_evidence i)\<rparr>"
    using assms(1) by (rule mergeReceiptE)
  obtain k where k: "max_depth = Suc (Suc k)" by (rule that[of 9998]) (simp add: max_depth_def)
  have f: "fine (Suc (Suc k)) (receipt_json e)" "fine (Suc (Suc k)) (receipt_json i)"
    using assms(2,3) by (simp_all add: fine_def receipt_portable_def k)
  note f = f[unfolded fine_receipt]
  have "\<forall>c. ref = Some c \<longrightarrow> fine (Suc k) (content_ref_json c)"
    using mergeContentRef_fine[OF ref] f by simp
  moreover have "\<forall>x. effective_resolution m = Some x \<longrightarrow> fine (Suc k) (resolution_json x)"
    using f by (cases "rp_manual_resolution i"; cases "rp_manual_resolution e") (simp_all add: m effective_resolution_def)
  ultimately have "fine (Suc (Suc k)) (receipt_json m)"
    using f unfolding fine_receipt by (simp add: m set_merge_evidence set_mergeWarnings ball_Un)
  then have "json_ok (receipt_json m)" "depth (receipt_json m) \<le> max_depth"
    unfolding fine_def k by blast+
  moreover have "map_canonical (id_evidence (rp_source m)) \<and> map_canonical (id_evidence (rp_target m)) \<and>
    list_all (\<lambda>e. map_canonical (ev_details e)) (rp_evidence m) \<and> list_all (\<lambda>w. map_canonical (warn_details w)) (rp_warnings m)"
    using assms(2,3) unfolding receipt_portable_def list_all_iff by (simp add: m set_merge_evidence set_mergeWarnings ball_Un)
  ultimately show ?thesis by (simp add: receipt_portable_def)
qed

lemma content_ref_valid_iff:
  "content_ref_validate c = Inr () \<longleftrightarrow> ct_endpoint_id c \<noteq> '''' \<and> ValidateID (ct_endpoint_id c) EndpointIDPrefix = Inr () \<and>
     ct_thread_id c \<noteq> '''' \<and> (ct_item_id c \<noteq> '''' \<or> ct_client_message_id c \<noteq> '''') \<and> validDigest (ct_payload_sha256 c)"
  by (simp add: content_ref_validate_def)

lemma mergeContentRef_valid:
  assumes "mergeContentRef e i = Inr ref" "ref = Some c" "\<And>x. e = Some x \<Longrightarrow> content_ref_validate x = Inr ()"
    "\<And>x. i = Some x \<Longrightarrow> content_ref_validate x = Inr ()"
  shows "content_ref_validate c = Inr ()"
proof (cases e; cases i)
  fix a b assume e: "e = Some a" and i: "i = Some b"
  note valid = assms(3)[OF e]
  from assms(1) obtain t m x where "ref = Some (a\<lparr>ct_turn_id := t, ct_item_id := m, ct_client_message_id := x\<rparr>)"
    "ct_item_id a \<noteq> '''' \<Longrightarrow> m = ct_item_id a" "ct_client_message_id a \<noteq> '''' \<Longrightarrow> x = ct_client_message_id a"
    unfolding e i by (elim mergeContentRef_Some) blast
  with valid assms(2) show ?thesis unfolding content_ref_valid_iff by auto
qed (use assms in \<open>simp_all add: mergeContentRef_cases\<close>)

lemma merge_valid:
  assumes "mergeReceiptProjection e i = Inr m" "receipt_validate e = Inr ()" "receipt_validate i = Inr ()"
  shows "receipt_validate m = Inr ()"
proof -
  obtain ref where ref: "mergeContentRef (rp_content_ref e) (rp_content_ref i) = Inr ref"
    and m: "m = i\<lparr>rp_content_ref := ref, rp_warnings := mergeWarnings (rp_warnings e) (rp_warnings i),
      rp_manual_resolution := (case rp_manual_resolution i of None \<Rightarrow> rp_manual_resolution e | Some m \<Rightarrow> Some m),
      rp_evidence := merge_evidence (rp_evidence e) (rp_evidence i)\<rparr>"
    using assms(1) by (rule mergeReceiptE)
  have v: "content_ref_validate c = Inr ()" if "ref = Some c" for c
    using ref that
  proof (rule mergeContentRef_valid)
    show "content_ref_validate x = Inr ()" if "rp_content_ref e = Some x" for x
      using assms(2) that by (simp add: receipt_validate_def bindE_Inr_iff)
    show "content_ref_validate x = Inr ()" if "rp_content_ref i = Some x" for x
      using assms(3) that by (simp add: receipt_validate_def bindE_Inr_iff)
  qed
  have "(case effective_resolution m of None \<Rightarrow> Inr () | Some m \<Rightarrow> resolution_validate m) = Inr ()"
    using assms(2,3)
    by (cases "rp_manual_resolution i"; cases "rp_manual_resolution e")
      (simp_all add: m receipt_validate_def bindE_Inr_iff effective_resolution_def)
  moreover have "(case rp_content_ref m of None \<Rightarrow> Inr () | Some c \<Rightarrow> content_ref_validate c) = Inr ()"
    using v by (simp add: m split: option.split)
  ultimately show ?thesis
    using assms(2,3) unfolding receipt_validate_def bindE_Inr_iff each_Inr
    by (simp add: m set_merge_evidence set_mergeWarnings ball_Un)
qed


section \<open>What a merge gives holds no body\<close>

lemma put_entry_in: "kv \<in> set (put_entry m kv)"
  by (induction m kv rule: put_entry.induct) auto

lemma put_entry_keeps: "x \<in> set m \<Longrightarrow> fst x \<noteq> fst kv \<Longrightarrow> x \<in> set (put_entry m kv)"
  by (induction m kv rule: put_entry.induct) auto

lemma foldl_put_entry_keeps: "x \<in> set acc \<Longrightarrow> fst x \<notin> fst ` set kvs \<Longrightarrow> x \<in> set (foldl put_entry acc kvs)"
  by (induction kvs arbitrary: acc) (auto intro!: put_entry_keeps)

lemma foldl_put_entry_distinct:
  "distinct (map fst kvs) \<Longrightarrow> x \<in> set kvs \<Longrightarrow> x \<in> set (foldl put_entry acc kvs)"
proof (induction kvs arbitrary: acc)
  case (Cons kv kvs)
  show ?case
  proof (cases "x = kv")
    case True
    with Cons.prems show ?thesis by (auto intro!: foldl_put_entry_keeps simp: put_entry_in)
  next
    case False
    with Cons show ?thesis by simp
  qed
qed simp

definition bodyless :: "json \<Rightarrow> bool" where
  "bodyless v = (\<not> walk_body (any_of v))"

lemma bodyless_simps [simp]:
  "bodyless (JStr s)" "bodyless (JBool b)" "bodyless (JNum n)"
  "bodyless (JArr vs) = (\<forall>v\<in>set vs. bodyless v)"
  by (simp_all add: bodyless_def)

lemma bodyless_obj:
  assumes "distinct (map fst kvs)"
  shows "bodyless (JObj kvs) = (\<forall>kv\<in>set kvs. to_lower (fst kv) \<notin> set body_keys \<and> bodyless (snd kv))"
proof -
  let ?kvs = "map (\<lambda>kv. (fst kv, any_of (snd kv))) kvs"
  have "set (foldl put_entry [] ?kvs) = set ?kvs"
  proof
    show "set (foldl put_entry [] ?kvs) \<subseteq> set ?kvs" using set_foldl_put_entry[of "[]" ?kvs] by simp
    show "set ?kvs \<subseteq> set (foldl put_entry [] ?kvs)"
      using assms foldl_put_entry_distinct[of ?kvs] by (auto simp: comp_def)
  qed
  then show ?thesis by (auto simp: bodyless_def)
qed

lemma bodyless_objI:
  assumes "\<forall>kv\<in>set kvs. to_lower (fst kv) \<notin> set body_keys \<and> bodyless (snd kv)"
  shows "bodyless (JObj kvs)"
proof -
  let ?kvs = "map (\<lambda>kv. (fst kv, any_of (snd kv))) kvs"
  have "set (foldl put_entry [] ?kvs) \<subseteq> set ?kvs" using set_foldl_put_entry[of "[]" ?kvs] by simp
  with assms show ?thesis by (fastforce simp: bodyless_def)
qed

lemma ball_fields:
  "(\<forall>kv\<in>set (field k v). P kv) = P (k, JStr v)"
  "(\<forall>kv\<in>set (opt_field k v). P kv) = (v = '''' \<or> P (k, JStr v))"
  by (simp_all add: field_def opt_field_def)

lemma message_bodyless: "bodyless (message_json x)"
proof -
  have "\<forall>k\<in>set [''messageId'', ''inReplyTo'', ''kind'', ''replyRequested'', ''payloadBytes'', ''payloadSha256'',
     ''clientMessageId'', ''turnId'', ''acceptedAt'', ''replyAt'']. to_lower k \<notin> set body_keys"
    by code_simp
  then show ?thesis
    unfolding message_json_def by (intro bodyless_objI) (simp add: ball_fields ball_Un json_uint_def)
qed

lemma content_ref_bodyless: "bodyless (content_ref_json x)"
proof -
  have "\<forall>k\<in>set [''endpointId'', ''threadId'', ''turnId'', ''itemId'', ''clientMessageId'', ''payloadBytes'',
     ''payloadSha256'']. to_lower k \<notin> set body_keys"
    by code_simp
  then show ?thesis
    unfolding content_ref_json_def by (intro bodyless_objI) (simp add: ball_fields ball_Un json_uint_def)
qed

lemma resolution_bodyless: "bodyless (resolution_json x)"
proof -
  have "\<forall>k\<in>set [''assertion'', ''actor'', ''reason'', ''timestamp'', ''evidenceRef'', ''presentationMode''].
     to_lower k \<notin> set body_keys"
    by code_simp
  then show ?thesis unfolding resolution_json_def by (intro bodyless_objI) (simp add: ball_fields ball_Un)
qed

lemma keys_optional_fields:
  "map fst (field k v) = [k]" "map fst (pointer_field k f x) = (if x = None then [] else [k])"
  by (auto simp: field_def pointer_field_def split: option.splits)

lemma bodyless_receipt:
  "bodyless (receipt_json r) \<longleftrightarrow> bodyless (identity_json (rp_source r)) \<and> bodyless (identity_json (rp_target r)) \<and>
     (\<forall>e\<in>set (rp_evidence r). bodyless (evidence_json e)) \<and> (\<forall>w\<in>set (rp_warnings r). bodyless (warning_json w))"
proof -
  have "\<forall>k\<in>set [''schema'', ''receiptId'', ''operationId'', ''operation'', ''state'', ''source'', ''target'', ''message'',
     ''contentRef'', ''evidence'', ''warnings'', ''manualResolution'', ''createdAt'', ''updatedAt''].
     to_lower k \<notin> set body_keys"
    by code_simp
  then show ?thesis
    unfolding receipt_json_def
    by (subst bodyless_obj)
      (simp_all add: keys_optional_fields set_optional_fields ball_Un message_bodyless content_ref_bodyless
        resolution_bodyless split: option.split)
qed

lemma merge_bodyless:
  assumes "mergeReceiptProjection e i = Inr m" "bodyless (receipt_json e)" "bodyless (receipt_json i)"
  shows "bodyless (receipt_json m)"
  using assms(1)
proof (rule mergeReceiptE)
  fix ref
  assume "m = i\<lparr>rp_content_ref := ref, rp_warnings := mergeWarnings (rp_warnings e) (rp_warnings i),
      rp_manual_resolution := (case rp_manual_resolution i of None \<Rightarrow> rp_manual_resolution e | Some m \<Rightarrow> Some m),
      rp_evidence := merge_evidence (rp_evidence e) (rp_evidence i)\<rparr>"
  with assms(2,3) show ?thesis
    unfolding bodyless_receipt by (simp add: set_merge_evidence set_mergeWarnings ball_Un)
qed

lemma containsBodyKey_portable: "receipt_portable r \<Longrightarrow> containsBodyKey (MarshalReceipt r) = (\<not> bodyless (receipt_json r))"
  by (simp add: containsBodyKey_def MarshalReceipt_def parse_render receipt_portable_def bodyless_def)

end
