(* ===== verification/Journal_Receipt_Laws.thy ===== *)
theory Journal_Receipt_Laws
  imports Journal_Receipt_Merge
begin

text \<open>
  What the receipts table keeps: every row holds a valid, portable, bodyless receipt and repeats its
  fields; publishing over a row only adds to it, a published receipt is found again, and pages
  partition what a query matches.
\<close>

section \<open>The stored receipts\<close>

text \<open>A row holds a valid bodyless receipt, as JSON, and its columns repeat that receipt's fields.\<close>

definition stored_row :: "receipt_row \<Rightarrow> bool" where
  "stored_row row = (\<exists>r created updated.
     receipt_validate r = Inr () \<and> receipt_portable r \<and> bodyless (receipt_json r) \<and>
     parseReceiptTime (rp_created_at r) = Inr created \<and> parseReceiptTime (rp_updated_at r) = Inr updated \<and>
     row = receipt_row_of r created updated (MarshalReceipt r))"

definition receipts_ok :: "db \<Rightarrow> bool" where
  "receipts_ok d = (distinct (map r_receipt_id (receipts d)) \<and> (\<forall>row\<in>set (receipts d). stored_row row))"

lemma receipt_row_of_id [simp]: "r_receipt_id (receipt_row_of r c u doc) = rp_receipt_id r"
  by (simp add: receipt_row_of_def)

lemma parse_stored:
  "receipt_validate r = Inr () \<Longrightarrow> receipt_portable r \<Longrightarrow> parseStoredReceipt (MarshalReceipt r) = Inr (norm_receipt r)"
  unfolding parseStoredReceipt_def ParseReceipt_def
  by (simp add: MarshalReceipt_def parse_render receipt_portable_def decode_receipt norm_receipt_valid)

lemma stored_rowE:
  assumes "stored_row row"
  obtains r created updated where "receipt_validate r = Inr ()" "receipt_portable r" "bodyless (receipt_json r)"
    "parseReceiptTime (rp_created_at r) = Inr created" "parseReceiptTime (rp_updated_at r) = Inr updated"
    "row = receipt_row_of r created updated (MarshalReceipt r)"
    "parseStoredReceipt (r_document row) = Inr (norm_receipt r)"
  using assms parse_stored by (auto simp: stored_row_def receipt_row_of_def)

lemma receipt_to_store_ok:
  assumes "receipts_ok d" "receipt_validate r = Inr ()" "receipt_portable r" "bodyless (receipt_json r)"
    and "receipt_to_store r d = Inr m"
  shows "receipt_validate m = Inr () \<and> receipt_portable m \<and> bodyless (receipt_json m) \<and> rp_receipt_id m = rp_receipt_id r"
proof (cases "row_by r_receipt_id (rp_receipt_id r) (receipts d)")
  case None
  with assms show ?thesis by (simp add: receipt_to_store_def)
next
  case (Some row)
  then have "stored_row row" using assms(1) row_by_SomeD by (fastforce simp: receipts_ok_def)
  then obtain e where e: "receipt_validate e = Inr ()" "receipt_portable e" "bodyless (receipt_json e)"
    "parseStoredReceipt (r_document row) = Inr (norm_receipt e)"
    by (rule stored_rowE)
  then have m: "mergeReceiptProjection (norm_receipt e) r = Inr m"
    using Some assms(5) by (simp add: receipt_to_store_def)
  have n: "receipt_validate (norm_receipt e) = Inr ()" "receipt_portable (norm_receipt e)"
    "bodyless (receipt_json (norm_receipt e))"
    using e by (simp_all add: norm_receipt_valid receipt_portable_norm receipt_json_norm)
  have "rp_receipt_id m = rp_receipt_id r" using m by (auto elim!: mergeReceiptE)
  then show ?thesis
    using merge_valid[OF m n(1) assms(2)] merge_portable[OF m n(2) assms(3)] merge_bodyless[OF m n(3) assms(4)] by simp
qed

lemma put_receipt_spec:
  assumes "receipts_ok d" "receipt_portable r" "putReceiptTx r d = Inr (u, d')"
  obtains m row created updated where "receipt_to_store r d = Inr m" "receipt_validate r = Inr ()" "receipt_validate m = Inr ()"
    "receipt_portable m" "bodyless (receipt_json m)" "rp_receipt_id m = rp_receipt_id r"
    "parseReceiptTime (rp_created_at m) = Inr created" "parseReceiptTime (rp_updated_at m) = Inr updated"
    "row = receipt_row_of m created updated (MarshalReceipt m)"
    "d' = d\<lparr>receipts := upsert_row r_receipt_id row (\<lambda>_. row) (receipts d)\<rparr>"
proof -
  have v: "receipt_validate r = Inr ()" and b: "bodyless (receipt_json r)"
    using assms(2,3) by (auto simp: putReceiptTx_def containsBodyKey_portable split: sum.splits if_splits)
  from assms(3) v obtain m created updated where m: "receipt_to_store r d = Inr m"
    and t: "parseReceiptTime (rp_created_at m) = Inr created" "parseReceiptTime (rp_updated_at m) = Inr updated"
    and d': "d' = d\<lparr>receipts := upsert_row r_receipt_id (receipt_row_of m created updated (MarshalReceipt m))
        (\<lambda>_. receipt_row_of m created updated (MarshalReceipt m)) (receipts d)\<rparr>"
    by (auto simp: putReceiptTx_def bindE_Inr_iff Let_def split: if_splits)
  from receipt_to_store_ok[OF assms(1) v assms(2) b m] m t d' v that show thesis by blast
qed

lemma upsert_same_key:
  assumes "key row = k"
  shows "upsert_row key row (\<lambda>_. row) rows =
    (if row_by key k rows = None then rows @ [row] else map (\<lambda>x. if key x = k then row else x) rows)"
  using assms by (simp add: upsert_row_def update_where_def)

lemma put_receipt_keeps:
  assumes "receipts_ok d" "receipt_portable r" "putReceiptTx r d = Inr (u, d')"
  shows "receipts_ok d'"
  using assms
proof (rule put_receipt_spec)
  fix m row created updated
  assume m: "receipt_validate m = Inr ()" "receipt_portable m" "bodyless (receipt_json m)" "rp_receipt_id m = rp_receipt_id r"
    and t: "parseReceiptTime (rp_created_at m) = Inr created" "parseReceiptTime (rp_updated_at m) = Inr updated"
    and row: "row = receipt_row_of m created updated (MarshalReceipt m)"
    and d': "d' = d\<lparr>receipts := upsert_row r_receipt_id row (\<lambda>_. row) (receipts d)\<rparr>"
  have "stored_row row" using m t row unfolding stored_row_def by blast
  moreover have "map r_receipt_id (map (\<lambda>x. if r_receipt_id x = k then row else x) rows) = map r_receipt_id rows"
    if "r_receipt_id row = k" for rows k
    using that by (induction rows) auto
  ultimately show ?thesis
    using assms(1) unfolding d' receipts_ok_def upsert_same_key[OF refl]
    by (auto simp: row_by_None simp del: map_map)
qed

lemma row_by_replace_all:
  "row_by key k (map (\<lambda>x. if key x = key row then row else x) rows)
    = (if k = key row \<and> row_by key k rows \<noteq> None then Some row else row_by key k rows)"
  by (induction rows) auto

lemma row_by_upsert_row_const:
  "row_by key k (upsert_row key row (\<lambda>_. row) rows) = (if k = key row then Some row else row_by key k rows)"
  by (simp add: upsert_same_key row_by_append row_by_replace_all split: option.split)

lemma put_receipt_row:
  assumes "receipts_ok d" "receipt_portable r" "putReceiptTx r d = Inr (u, d')" "receipt_to_store r d = Inr m"
  shows "\<exists>row. row_by r_receipt_id (rp_receipt_id r) (receipts d') = Some row \<and>
     parseStoredReceipt (r_document row) = Inr (norm_receipt m) \<and> r_operation_id row = rp_operation_id m \<and>
     r_message_id row = mg_message_id (rp_message m) \<and> r_state row = rp_state m"
  using assms(1-3)
proof (rule put_receipt_spec)
  fix m' row created updated
  assume m: "receipt_to_store r d = Inr m'" "receipt_validate m' = Inr ()" "receipt_portable m'" "rp_receipt_id m' = rp_receipt_id r"
    and row: "row = receipt_row_of m' created updated (MarshalReceipt m')"
    and d': "d' = d\<lparr>receipts := upsert_row r_receipt_id row (\<lambda>_. row) (receipts d)\<rparr>"
  have "row_by r_receipt_id (rp_receipt_id r) (receipts d') = Some row"
    using m(4) row row_by_upsert_row_const[of r_receipt_id _ row] by (simp add: d')
  with m row assms(4) show ?thesis by (simp add: receipt_row_of_def parse_stored)
qed

lemma put_receipt_others:
  assumes "putReceiptTx r d = Inr (u, d')" "receipts_ok d" "receipt_portable r" "k \<noteq> rp_receipt_id r"
  shows "row_by r_receipt_id k (receipts d') = row_by r_receipt_id k (receipts d)"
  using assms(2,3,1)
proof (rule put_receipt_spec)
  fix m' row created updated
  assume "rp_receipt_id m' = rp_receipt_id r" and row: "row = receipt_row_of m' created updated (MarshalReceipt m')"
    and d': "d' = d\<lparr>receipts := upsert_row r_receipt_id row (\<lambda>_. row) (receipts d)\<rparr>"
  then have "r_receipt_id row = rp_receipt_id r" by simp
  then show ?thesis using assms(4) row_by_upsert_row_const[of r_receipt_id _ row] by (simp add: d')
qed

section \<open>Publishing over a stored receipt\<close>

definition ref_extends :: "ContentRef \<Rightarrow> ContentRef \<Rightarrow> bool" where
  "ref_extends c c' =
     (ct_endpoint_id c' = ct_endpoint_id c \<and> ct_thread_id c' = ct_thread_id c \<and>
      ct_payload_bytes c' = ct_payload_bytes c \<and> ct_payload_sha256 c' = ct_payload_sha256 c \<and>
      (ct_turn_id c \<noteq> '''' \<longrightarrow> ct_turn_id c' = ct_turn_id c) \<and> (ct_item_id c \<noteq> '''' \<longrightarrow> ct_item_id c' = ct_item_id c) \<and>
      (ct_client_message_id c \<noteq> '''' \<longrightarrow> ct_client_message_id c' = ct_client_message_id c))"

text \<open>What a receipt learns from an earlier one of the same identity.\<close>

definition receipt_extends :: "Receipt \<Rightarrow> Receipt \<Rightarrow> bool" where
  "receipt_extends old new =
     (same_receipt old new \<and> set (rp_evidence old) \<subseteq> set (rp_evidence new) \<and>
      set (rp_warnings old) \<subseteq> set (rp_warnings new) \<and>
      (rp_manual_resolution old \<noteq> None \<longrightarrow> rp_manual_resolution new \<noteq> None) \<and>
      (case rp_content_ref old of None \<Rightarrow> True | Some c \<Rightarrow>
         (case rp_content_ref new of None \<Rightarrow> False | Some c' \<Rightarrow> ref_extends c c')))"

lemma norm_map_idem [simp]: "norm_map (norm_map m) = norm_map m"
  by (simp add: norm_map_def)

lemma mergeContentRef_extends:
  assumes "mergeContentRef (Some c) i = Inr ref"
  shows "\<exists>c'. ref = Some c' \<and> ref_extends c c'"
proof (cases i)
  case None
  with assms show ?thesis by (auto simp: mergeContentRef_cases ref_extends_def)
next
  case (Some b)
  with assms show ?thesis by (auto elim!: mergeContentRef_Some simp: ref_extends_def)
qed

lemma merge_extends:
  assumes "mergeReceiptProjection (norm_receipt e) r = Inr m"
  shows "receipt_extends (norm_receipt e) (norm_receipt m)"
  using assms
proof (rule mergeReceiptE)
  fix ref
  assume same: "same_receipt (norm_receipt e) r"
    and ref: "mergeContentRef (rp_content_ref (norm_receipt e)) (rp_content_ref r) = Inr ref"
    and m: "m = r\<lparr>rp_content_ref := ref, rp_warnings := mergeWarnings (rp_warnings (norm_receipt e)) (rp_warnings r),
      rp_manual_resolution := (case rp_manual_resolution r of None \<Rightarrow> rp_manual_resolution (norm_receipt e) | Some m \<Rightarrow> Some m),
      rp_evidence := merge_evidence (rp_evidence (norm_receipt e)) (rp_evidence r)\<rparr>"
  have idem: "norm_evidence (norm_evidence x) = norm_evidence x" "norm_warning (norm_warning w) = norm_warning w" for x w
    by (simp_all add: norm_evidence_def norm_warning_def)
  have "same_receipt (norm_receipt e) (norm_receipt m)"
    using same by (simp add: same_receipt_def m norm_receipt_def norm_identity_def)
  moreover have "set (rp_evidence (norm_receipt e)) \<subseteq> set (rp_evidence (norm_receipt m))"
    by (simp add: m norm_receipt_def set_merge_evidence image_Un image_image idem)
  moreover have "set (rp_warnings (norm_receipt e)) \<subseteq> set (rp_warnings (norm_receipt m))"
    by (simp add: m norm_receipt_def set_mergeWarnings image_Un image_image idem)
  moreover have "rp_manual_resolution (norm_receipt e) \<noteq> None \<Longrightarrow> rp_manual_resolution (norm_receipt m) \<noteq> None"
    by (auto simp: m norm_receipt_def effective_resolution_def split: option.splits)
  moreover have "rp_content_ref (norm_receipt m) = ref" by (simp add: m norm_receipt_def)
  moreover have "case rp_content_ref (norm_receipt e) of None \<Rightarrow> True | Some c \<Rightarrow>
      (case ref of None \<Rightarrow> False | Some c' \<Rightarrow> ref_extends c c')"
    using ref mergeContentRef_extends by (force split: option.split)
  ultimately show ?thesis unfolding receipt_extends_def by presburger
qed

lemma PutReceipt_Inr: "PutReceipt r d = (Inr u, d') \<longleftrightarrow> putReceiptTx r d = Inr (u, d')"
  by (simp add: PutReceipt_def withTx_Inr)

lemma ParseReceipt_stored: "parseStoredReceipt doc = Inr r \<longleftrightarrow> ParseReceipt doc = Inr r"
  by (simp add: parseStoredReceipt_def split: sum.split)

text \<open>
  C24: Publishing a receipt whose strings are UTF-8 (\<open>receipt_portable\<close>) never loses what the stored receipt of that id already shows: the
  identity, route, digest and creation time stay, every evidence record and warning is kept, a
  manual resolution is not dropped and a content reference only gains locators. The row reads
  back as a valid receipt and every other row stays as it is.
\<close>

theorem publication_keeps_evidence:
  assumes ok: "receipts_ok d" and p: "receipt_portable r" and put: "PutReceipt r d = (Inr (), d')"
    and row: "row_by r_receipt_id (rp_receipt_id r) (receipts d) = Some row"
    and old: "ParseReceipt (r_document row) = Inr old"
  shows "\<exists>row' new. row_by r_receipt_id (rp_receipt_id r) (receipts d') = Some row' \<and>
      ParseReceipt (r_document row') = Inr new \<and> receipt_extends old new \<and> r_state row' = rp_state r \<and>
      (\<forall>k. k \<noteq> rp_receipt_id r \<longrightarrow> row_by r_receipt_id k (receipts d') = row_by r_receipt_id k (receipts d))"
proof -
  from put have put: "putReceiptTx r d = Inr ((), d')" by (simp add: PutReceipt_Inr)
  have "stored_row row" using ok row row_by_SomeD by (fastforce simp: receipts_ok_def)
  then obtain e where e: "parseStoredReceipt (r_document row) = Inr (norm_receipt e)" by (rule stored_rowE)
  with old have old: "old = norm_receipt e" by (simp add: ParseReceipt_stored)
  obtain m where m: "receipt_to_store r d = Inr m" using put_receipt_spec[OF ok p put] by metis
  with row e have "mergeReceiptProjection (norm_receipt e) r = Inr m" by (simp add: receipt_to_store_def)
  moreover from this have "rp_state m = rp_state r" by (auto elim: mergeReceiptE)
  moreover obtain row' where "row_by r_receipt_id (rp_receipt_id r) (receipts d') = Some row'"
    "ParseReceipt (r_document row') = Inr (norm_receipt m)" "r_state row' = rp_state m"
    using put_receipt_row[OF ok p put m] by (auto simp: ParseReceipt_stored)
  ultimately show ?thesis
    using merge_extends put_receipt_others[OF put ok p] unfolding old by auto
qed

text \<open>A valid bodyless receipt whose merge with the stored one is defined is stored.\<close>

lemma receipt_times:
  assumes "receipt_validate r = Inr ()"
  obtains c u where "parseReceiptTime (rp_created_at r) = Inr c" "parseReceiptTime (rp_updated_at r) = Inr u"
  using assms
  by (auto simp: receipt_validate_def bindE_Inr_iff validateTimestamp_def parseReceiptTime_def split: if_split_asm)

lemma put_receipt_succeeds:
  assumes "receipts_ok d" "receipt_validate r = Inr ()" "receipt_portable r" "bodyless (receipt_json r)"
    and "receipt_to_store r d = Inr m"
  shows "PutReceipt r d = (Inr (), snd (PutReceipt r d))"
proof -
  have "receipt_validate m = Inr ()" using receipt_to_store_ok[OF assms] by blast
  then obtain c u where "parseReceiptTime (rp_created_at m) = Inr c" "parseReceiptTime (rp_updated_at m) = Inr u"
    by (rule receipt_times)
  moreover obtain c' u' where "parseReceiptTime (rp_created_at r) = Inr c'" "parseReceiptTime (rp_updated_at r) = Inr u'"
    using assms(2) by (rule receipt_times)
  ultimately have "putReceiptTx r d = Inr ((), snd (PutReceipt r d))"
    using assms by (simp add: putReceiptTx_def containsBodyKey_portable PutReceipt_def withTx_def Let_def)
  then show ?thesis by (simp add: PutReceipt_Inr)
qed

definition sample_put :: db where
  "sample_put = snd (PutReceipt sample_receipt empty_db)"

definition sample_update :: Receipt where
  "sample_update = sample_receipt\<lparr>rp_evidence := [zero_evidence\<lparr>ev_state := StateReplyObserved\<rparr>], rp_warnings := [],
     rp_resolution := None, rp_state := StateReplyObserved\<rparr>"

lemma receipts_ok_empty: "receipts_ok empty_db"
  by (simp add: receipts_ok_def empty_db_def)

lemma sample_portable: "receipt_portable sample_receipt" "receipt_portable sample_update"
  by code_simp+

lemma sample_valid:
  "receipt_validate sample_receipt = Inr ()" "receipt_validate sample_update = Inr ()"
  by code_simp+

lemma sample_parts_bodyless:
  "bodyless (identity_json (rp_source sample_receipt))" "bodyless (identity_json (rp_target sample_receipt))"
  "\<forall>e\<in>set (rp_evidence sample_receipt). bodyless (evidence_json e)"
  "\<forall>w\<in>set (rp_warnings sample_receipt). bodyless (warning_json w)"
  "\<forall>e\<in>set (rp_evidence sample_update). bodyless (evidence_json e)"
  by code_simp+

lemma sample_bodyless: "bodyless (receipt_json sample_receipt)" "bodyless (receipt_json sample_update)"
  unfolding bodyless_receipt using sample_parts_bodyless
  by (auto simp: sample_update_def)
lemma sample_put: "PutReceipt sample_receipt empty_db = (Inr (), sample_put)"
  unfolding sample_put_def
  by (rule put_receipt_succeeds[OF receipts_ok_empty sample_valid(1) sample_portable(1) sample_bodyless(1)])
    (simp add: receipt_to_store_def empty_db_def)

lemma sample_put_ok: "receipts_ok sample_put"
  using put_receipt_keeps[OF receipts_ok_empty sample_portable(1)] sample_put by (simp add: PutReceipt_Inr)

theorem publication_keeps_evidence_witness:
  "\<exists>d' row new. PutReceipt sample_update sample_put = (Inr (), d') \<and>
     row_by r_receipt_id (rp_receipt_id sample_receipt) (receipts d') = Some row \<and> ParseReceipt (r_document row) = Inr new \<and>
     receipt_extends (norm_receipt sample_receipt) new \<and> r_state row = StateReplyObserved"
proof -
  have m: "receipt_to_store sample_receipt empty_db = Inr sample_receipt" by (simp add: receipt_to_store_def empty_db_def)
  have same: "rp_receipt_id sample_update = rp_receipt_id sample_receipt" "rp_state sample_update = StateReplyObserved"
    by (simp_all add: sample_update_def)
  obtain row where row: "row_by r_receipt_id (rp_receipt_id sample_update) (receipts sample_put) = Some row"
    and old: "ParseReceipt (r_document row) = Inr (norm_receipt sample_receipt)"
    using put_receipt_row[OF receipts_ok_empty sample_portable(1) _ m] sample_put
    by (auto simp: PutReceipt_Inr ParseReceipt_stored same)
  have "is_Inr (mergeReceiptProjection (norm_receipt sample_receipt) sample_update)" by code_simp
  then obtain m where "receipt_to_store sample_update sample_put = Inr m"
    using row old by (auto simp: receipt_to_store_def is_Inr_def simp flip: ParseReceipt_stored split: sum.splits)
  from put_receipt_succeeds[OF sample_put_ok sample_valid(2) sample_portable(2) sample_bodyless(2) this]
  have put: "PutReceipt sample_update sample_put = (Inr (), snd (PutReceipt sample_update sample_put))" .
  show ?thesis
    using publication_keeps_evidence[OF sample_put_ok sample_portable(2) put row old] put unfolding same by metis
qed

section \<open>Looking a receipt up\<close>

lemma ValidateID_prefix: "ValidateID v p = Inr u \<Longrightarrow> has_prefix v p"
  by (simp add: ValidateID_def split: if_split_asm)

lemma receipt_ids:
  assumes "receipt_validate r = Inr ()"
  shows "has_prefix (rp_receipt_id r) ReceiptIDPrefix" "has_prefix (rp_operation_id r) OperationIDPrefix"
    "has_prefix (mg_message_id (rp_message r)) MessageIDPrefix"
  using assms by (simp_all add: receipt_validate_def bindE_Inr_iff ValidateID_prefix)

lemma has_prefix_hd: "has_prefix s p \<Longrightarrow> p \<noteq> [] \<Longrightarrow> hd s = hd p"
  by (auto elim!: has_prefixE)

lemma id_prefixes_differ:
  "has_prefix s OperationIDPrefix \<Longrightarrow> \<not> has_prefix s ReceiptIDPrefix"
  "has_prefix s MessageIDPrefix \<Longrightarrow> \<not> has_prefix s ReceiptIDPrefix"
  by (auto dest!: has_prefix_hd simp: OperationIDPrefix_def MessageIDPrefix_def ReceiptIDPrefix_def)

lemma stored_ids: "stored_row row \<Longrightarrow> has_prefix (r_receipt_id row) ReceiptIDPrefix"
  by (auto elim!: stored_rowE simp: receipt_ids)

lemma published_appends:
  assumes "receipts_ok d" "receipt_portable r" "PutReceipt r d = (Inr (), d')"
    "row_by r_receipt_id (rp_receipt_id r) (receipts d) = None"
  shows "receipt_validate r = Inr () \<and>
    (\<exists>created updated. receipts d' = receipts d @ [receipt_row_of r created updated (MarshalReceipt r)])"
proof -
  from assms(3) have put: "putReceiptTx r d = Inr ((), d')" by (simp add: PutReceipt_Inr)
  have r: "receipt_to_store r d = Inr r" using assms(4) by (simp add: receipt_to_store_def)
  from assms(1,2) put show ?thesis
  proof (rule put_receipt_spec)
    fix m row created updated
    assume "receipt_to_store r d = Inr m" "receipt_validate r = Inr ()" "row = receipt_row_of m created updated (MarshalReceipt m)"
      "d' = d\<lparr>receipts := upsert_row r_receipt_id row (\<lambda>_. row) (receipts d)\<rparr>"
    with r assms(4) show ?thesis by (auto simp: upsert_row_def)
  qed
qed

text \<open>
  C25: A receipt whose strings are UTF-8 (\<open>receipt_portable\<close>), published under a new id, can be read back: the lookup by its id, and by its
  operation or message id when no other receipt carries that id, returns the receipt itself (with
  empty maps absent and the resolution in its contract field).
\<close>

theorem published_receipt_is_found:
  assumes ok: "receipts_ok d" and p: "receipt_portable r" and put: "PutReceipt r d = (Inr (), d')"
    and new: "row_by r_receipt_id (rp_receipt_id r) (receipts d) = None"
    and reference: "reference = rp_receipt_id r \<or> (reference \<in> {rp_operation_id r, mg_message_id (rp_message r)} \<and>
      (\<forall>row\<in>set (receipts d). r_operation_id row \<noteq> reference \<and> r_message_id row \<noteq> reference))"
  shows "ReceiptLookup reference d' = Inr (norm_receipt r)"
proof -
  obtain created updated where rows: "receipts d' = receipts d @ [receipt_row_of r created updated (MarshalReceipt r)]"
    and v: "receipt_validate r = Inr ()"
    using published_appends[OF ok p put new] by metis
  note parse = parse_stored[OF v p]
  show ?thesis
  proof (cases "reference = rp_receipt_id r")
    case True
    with new rows parse show ?thesis by (simp add: ReceiptLookup_def row_by_append receipt_row_of_def)
  next
    case False
    then have ref: "reference \<in> {rp_operation_id r, mg_message_id (rp_message r)}"
      and others: "\<forall>row\<in>set (receipts d). r_operation_id row \<noteq> reference \<and> r_message_id row \<noteq> reference"
      using reference by auto
    have "\<not> has_prefix reference ReceiptIDPrefix"
      using ref receipt_ids(2,3)[OF v] id_prefixes_differ by blast
    then have "row_by r_receipt_id reference (receipts d') = None"
      using stored_ids put_receipt_keeps[OF ok p] put by (auto simp: row_by_None receipts_ok_def PutReceipt_Inr)
    moreover have "filter (\<lambda>row. r_operation_id row = reference \<or> r_message_id row = reference) (receipts d')
      = [receipt_row_of r created updated (MarshalReceipt r)]"
      using others ref by (auto simp: rows receipt_row_of_def filter_empty_conv)
    ultimately show ?thesis using parse by (simp add: ReceiptLookup_def receipt_row_of_def)
  qed
qed

theorem published_receipt_is_found_witness:
  "ReceiptLookup (rp_operation_id sample_receipt) sample_put = Inr (norm_receipt sample_receipt)"
  by (rule published_receipt_is_found[OF receipts_ok_empty sample_portable(1) sample_put])
    (simp_all add: empty_db_def)

section \<open>Pages\<close>

lemma strictly_before_key: "strictly_before a r \<longleftrightarrow> (r_created_at r, r_receipt_id r) < a"
  by (cases a) (auto simp: strictly_before_def less_prod_def)

lemma receipt_order_filter: "receipt_order (filter P rows) = filter P (receipt_order rows)"
  by (simp add: receipt_order_def rev_filter flip: filter_sort)

lemma receipt_order_descending:
  assumes "distinct (map r_receipt_id rows)"
  shows "sorted_wrt (\<lambda>a b. strictly_before (r_created_at a, r_receipt_id a) b) (receipt_order rows)"
proof -
  let ?k = "\<lambda>r. (r_created_at r, r_receipt_id r)"
  have "distinct (map r_receipt_id (sort_key ?k rows))"
    using assms by (simp add: distinct_map)
  then have "distinct (map ?k (sort_key ?k rows))"
    by (simp add: distinct_map inj_on_def)
  moreover have "sorted (map ?k (sort_key ?k rows))" by (rule sorted_sort_key)
  ultimately have "sorted_wrt (<) (map ?k (sort_key ?k rows))"
    by (simp add: strict_sorted_iff)
  then show ?thesis
    by (simp add: receipt_order_def sorted_wrt_rev sorted_wrt_map strictly_before_key)
qed

text \<open>The query that asks for what follows a row.\<close>

definition continue_after :: "int \<Rightarrow> receipt_row \<Rightarrow> ReceiptQuery \<Rightarrow> ReceiptQuery" where
  "continue_after t row q = q\<lparr>rq_before_at := Some t, rq_before_id := r_receipt_id row\<rparr>"

lemma continue_predicates:
  assumes "receiptPredicates q = Inr P" "P row" "unix_nano t = r_created_at row"
  shows "receiptPredicates (continue_after t row q) =
    Inr (\<lambda>r. P r \<and> strictly_before (r_created_at row, r_receipt_id row) r)"
proof -
  have P: "P = (\<lambda>r. in_scope q r \<and> past_cursor q r)" and ok: "\<not> (rq_state q \<noteq> StateOther '''' \<and> \<not> state_valid (rq_state q))"
    using assms(1) by (auto simp: receiptPredicates_def split: if_split_asm)
  have "past_cursor q r" if "strictly_before (r_created_at row, r_receipt_id row) r" for r
    using that assms(2) unfolding P past_cursor_def strictly_before_key
    by (auto split: option.splits simp del: less_prod_simp intro: order.strict_trans)
  moreover have "in_scope (continue_after t row q) = in_scope q"
    by (rule ext, cases "rq_anchor_at q") (simp_all add: in_scope_def continue_after_def)
  moreover have "past_cursor (continue_after t row q) = strictly_before (r_created_at row, r_receipt_id row)"
    by (rule ext) (simp add: past_cursor_def continue_after_def assms(3))
  ultimately have "(\<lambda>r. P r \<and> strictly_before (r_created_at row, r_receipt_id row) r)
    = (\<lambda>r. in_scope (continue_after t row q) r \<and> past_cursor (continue_after t row q) r)"
    unfolding P by (intro ext) auto
  then show ?thesis using ok by (simp add: receiptPredicates_def continue_after_def)
qed

text \<open>
  C26: Paging is exact. The rows that match a query come newest first; the page the query returns
  is their beginning, the query continued after its last row matches exactly the rest, in the same
  order, and \<open>HasReceiptAfter\<close> says whether there is any: nothing is skipped or repeated.
\<close>

theorem pages_partition:
  assumes ok: "receipts_ok d" and page: "receipt_page q d = Inr page" "page \<noteq> []"
    and t: "unix_nano t = r_created_at (last page)"
  shows "\<exists>P P'. receiptPredicates q = Inr P \<and> receiptPredicates (continue_after t (last page) q) = Inr P' \<and>
      receipt_order (filter P (receipts d)) = page @ receipt_order (filter P' (receipts d)) \<and>
      HasReceiptAfter (continue_after t (last page) q) d = Inr (length page < count_where P (receipts d))"
proof -
  from page(1) obtain n P where P: "receiptPredicates q = Inr P" and pg: "page = take n (receipt_order (filter P (receipts d)))"
    by (auto simp: receipt_page_def bindE_Inr_iff)
  let ?all = "receipt_order (filter P (receipts d))" and ?last = "last page"
  let ?B = "strictly_before (r_created_at ?last, r_receipt_id ?last)"
  have all: "?all = page @ drop n ?all" by (simp add: pg)
  have "?last \<in> set ?all" using page(2) pg by (metis in_set_takeD last_in_set)
  then have "P ?last" by (simp add: receipt_order_def)
  then obtain P' where P': "receiptPredicates (continue_after t ?last q) = Inr P'" and P'_iff: "P' = (\<lambda>r. P r \<and> ?B r)"
    using continue_predicates[OF P _ t] by blast
  have desc: "sorted_wrt (\<lambda>a b. strictly_before (r_created_at a, r_receipt_id a) b) ?all"
    using ok by (intro receipt_order_descending) (simp add: receipts_ok_def distinct_map_filter)
  have last: "\<not> ?B r" if "r \<in> set page" for r
  proof -
    obtain front where front: "page = front @ [?last]" using page(2) by (metis append_butlast_last_id)
    with that consider "r = ?last" | "r \<in> set front" by (metis Un_iff empty_iff list.set(1,2) insert_iff set_append)
    then show ?thesis
    proof cases
      case 2
      have "sorted_wrt (\<lambda>a b. strictly_before (r_created_at a, r_receipt_id a) b) (front @ [?last])"
        using desc all front by (metis sorted_wrt_append)
      with 2 show ?thesis by (auto simp: sorted_wrt_append strictly_before_key)
    qed (simp add: strictly_before_key)
  qed
  have rest: "?B r" if "r \<in> set (drop n ?all)" for r
    using desc that page(2) by (subst (asm) all) (auto simp: sorted_wrt_append)
  have "receipt_order (filter P' (receipts d)) = filter ?B ?all"
    by (simp add: P'_iff receipt_order_filter conj_commute)
  also have "\<dots> = filter ?B page @ filter ?B (drop n ?all)" by (metis all filter_append)
  also have "\<dots> = drop n ?all" using last rest by (simp add: filter_empty_conv filter_id_conv)
  finally have tail: "receipt_order (filter P' (receipts d)) = drop n ?all" .
  have "list_ex P' (receipts d) \<longleftrightarrow> filter P' (receipts d) \<noteq> []" by (auto simp: list_ex_iff filter_empty_conv)
  also have "\<dots> \<longleftrightarrow> receipt_order (filter P' (receipts d)) \<noteq> []" by (metis receipt_order_def rev_is_Nil_conv set_empty set_sort)
  also have "\<dots> \<longleftrightarrow> drop n ?all \<noteq> []" using tail by simp
  also have "\<dots> \<longleftrightarrow> length page < length ?all" by (auto simp: pg)
  finally have "list_ex P' (receipts d) \<longleftrightarrow> length page < count_where P (receipts d)"
    by (simp add: count_where_def receipt_order_def)
  with P P' tail all show ?thesis by (simp add: HasReceiptAfter_def)
qed


definition sample_query :: ReceiptQuery where
  "sample_query = \<lparr>rq_state = StateOther '''', rq_since = None, rq_endpoint_id = '''', rq_thread_id = '''', rq_anchor_at = None,
     rq_anchor_id = '''', rq_before_at = None, rq_before_id = '''', rq_limit = 1\<rparr>"

theorem pages_partition_witness:
  "\<exists>row t. receipt_page sample_query sample_put = Inr [row] \<and>
     HasReceiptAfter (continue_after t row sample_query) sample_put = Inr False"
proof -
  obtain c u where rows: "receipts sample_put = [receipt_row_of sample_receipt c u (MarshalReceipt sample_receipt)]"
    using published_appends[OF receipts_ok_empty sample_portable(1) sample_put] by (auto simp: empty_db_def)
  let ?row = "receipt_row_of sample_receipt c u (MarshalReceipt sample_receipt)"
  have P: "receiptPredicates sample_query = Inr (\<lambda>r. True)"
    by (simp add: receiptPredicates_def in_scope_def past_cursor_def sample_query_def)
  then have page: "receipt_page sample_query sample_put = Inr [?row]"
    by (simp add: receipt_page_def receipt_limit_def MaxReceiptQueryLimit_def sample_query_def receipt_order_def rows)
  have "unix_nano c = r_created_at (last [?row])" by (simp add: receipt_row_of_def)
  from pages_partition[OF sample_put_ok page _ this] P page show ?thesis
    by (auto simp: count_where_def rows)
qed

end
