(* ===== verification/Go_Url.thy ===== *)
theory Go_Url
  imports Prelude
begin

text \<open>
  What the addresses use of Go's \<open>net/url\<close>: \<open>Parse\<close> with its splitting of scheme, query,
  fragment and authority, the host rules (ports, percent escapes, bracketed IPv6 literals),
  \<open>EscapedPath\<close>, \<open>PathEscape\<close> and \<open>PathUnescape\<close>. A user info is only known to be there or not.
\<close>

section \<open>Percent encoding\<close>

definition upper_hex :: "char \<Rightarrow> bool" where
  "upper_hex c = in_range CHR ''A'' CHR ''F'' c"

definition is_hex :: "char \<Rightarrow> bool" where
  "is_hex c = (is_lower_hex c \<or> upper_hex c)"

definition unhex :: "char \<Rightarrow> nat" where
  "unhex c = (if is_digit c then of_char c - 48 else if is_lower_hex c then of_char c - 87 else of_char c - 55)"

definition alnum :: "char \<Rightarrow> bool" where
  "alnum c = (is_lower c \<or> is_upper c \<or> is_digit c)"

text \<open>\<open>unescape\<close>: every \<open>%\<close> starts two hexadecimal digits that the mode accepts, every other byte is one it accepts.\<close>

fun percent_ok :: "(nat \<Rightarrow> bool) \<Rightarrow> (char \<Rightarrow> bool) \<Rightarrow> string \<Rightarrow> bool" where
  "percent_ok esc_ok char_ok [] = True"
| "percent_ok esc_ok char_ok [c] = (c \<noteq> CHR ''%'' \<and> char_ok c)"
| "percent_ok esc_ok char_ok [c, a] = (c \<noteq> CHR ''%'' \<and> char_ok c \<and> percent_ok esc_ok char_ok [a])"
| "percent_ok esc_ok char_ok (c # a # b # s) =
     (if c = CHR ''%'' then is_hex a \<and> is_hex b \<and> esc_ok (16 * unhex a + unhex b) \<and> percent_ok esc_ok char_ok s
      else char_ok c \<and> percent_ok esc_ok char_ok (a # b # s))"

fun percent_decode :: "string \<Rightarrow> string" where
  "percent_decode (c # a # b # s) =
     (if c = CHR ''%'' then char_of (16 * unhex a + unhex b) # percent_decode s else c # percent_decode (a # b # s))"
| "percent_decode s = s"

definition unescape_with :: "(nat \<Rightarrow> bool) \<Rightarrow> (char \<Rightarrow> bool) \<Rightarrow> string \<Rightarrow> string option" where
  "unescape_with esc_ok char_ok s = (if percent_ok esc_ok char_ok s then Some (percent_decode s) else None)"

definition upper_digit :: "nat \<Rightarrow> char" where
  "upper_digit n = ''0123456789ABCDEF'' ! n"

definition percent_byte :: "char \<Rightarrow> string" where
  "percent_byte c = [CHR ''%'', upper_digit (of_char c div 16), upper_digit (of_char c mod 16)]"

definition escape_with :: "(char \<Rightarrow> bool) \<Rightarrow> string \<Rightarrow> string" where
  "escape_with should s = concat (map (\<lambda>c. if should c then percent_byte c else [c]) s)"

text \<open>\<open>shouldEscape\<close> in the modes of a path, of a path segment and of a host.\<close>

definition unreserved :: "char \<Rightarrow> bool" where
  "unreserved c = (alnum c \<or> c \<in> set ''-_.~'')"

definition path_escapes :: "char \<Rightarrow> bool" where
  "path_escapes c = (\<not> (unreserved c \<or> c \<in> set ''$&+,/:;=@''))"

definition segment_escapes :: "char \<Rightarrow> bool" where
  "segment_escapes c = (\<not> (unreserved c \<or> c \<in> set ''$&+:=@''))"

definition host_escapes :: "char \<Rightarrow> bool" where
  "host_escapes c = (\<not> (unreserved c \<or> c \<in> set ''!$&()*+,;=:[]<>'' \<or> c = CHR 0x27 \<or> c = CHR 0x22))"

definition PathEscape :: "string \<Rightarrow> string" where
  "PathEscape s = escape_with segment_escapes s"

definition PathUnescape :: "string \<Rightarrow> string option" where
  "PathUnescape s = unescape_with (\<lambda>_. True) (\<lambda>_. True) s"

definition ascii :: "char \<Rightarrow> bool" where
  "ascii c = ((of_char c :: nat) < 0x80)"

text \<open>A host escapes only bytes above ASCII, and \<open>%25\<close>; a zone what a host may show, and space.\<close>

definition unescape_host :: "string \<Rightarrow> string option" where
  "unescape_host s = unescape_with (\<lambda>v. 128 \<le> v \<or> v = 37) (\<lambda>c. \<not> (ascii c \<and> host_escapes c)) s"

definition unescape_zone :: "string \<Rightarrow> string option" where
  "unescape_zone s =
     unescape_with (\<lambda>v. v = 37 \<or> v = 32 \<or> \<not> host_escapes (char_of v)) (\<lambda>c. \<not> (ascii c \<and> host_escapes c)) s"

section \<open>Cutting strings\<close>

text \<open>\<open>strings.Cut\<close> at a byte: what is before the first one and what is after it.\<close>

definition cut_at :: "char \<Rightarrow> string \<Rightarrow> string \<times> string" where
  "cut_at c s = (takeWhile (\<lambda>x. x \<noteq> c) s, drop 1 (dropWhile (\<lambda>x. x \<noteq> c) s))"

text \<open>\<open>strings.Split\<close> at a byte.\<close>

fun split_at :: "char \<Rightarrow> string \<Rightarrow> string list" where
  "split_at c [] = [[]]"
| "split_at c (x # s) =
     (if x = c then [] # split_at c s
      else case split_at c s of [] \<Rightarrow> [[x]] | p # ps \<Rightarrow> (x # p) # ps)"

text \<open>The part after the last one, where there is one.\<close>

definition after_last :: "char \<Rightarrow> string \<Rightarrow> string option" where
  "after_last c s = (if c \<in> set s then Some (rev (takeWhile (\<lambda>x. x \<noteq> c) (rev s))) else None)"

section \<open>IP literals\<close>

definition ipv4_field :: "string \<Rightarrow> bool" where
  "ipv4_field f =
     (f \<noteq> [] \<and> list_all is_digit f \<and> length f \<le> 3 \<and> (hd f = CHR ''0'' \<longrightarrow> length f = 1) \<and>
      foldl (\<lambda>n c. 10 * n + (of_char c - 48)) 0 f \<le> (255 :: nat))"

definition ipv4_text :: "string \<Rightarrow> bool" where
  "ipv4_text s = (let fs = split_at CHR ''.'' s in length fs = 4 \<and> list_all ipv4_field fs)"

text \<open>
  The loop of \<open>netip.parseIPv6\<close>: \<open>i\<close> bytes are known, \<open>seen\<close> tells whether \<open>::\<close> was met.
\<close>

function ipv6_groups :: "nat \<Rightarrow> bool \<Rightarrow> string \<Rightarrow> bool" where
  "ipv6_groups i seen s =
     (if 16 \<le> i then s = [] \<and> \<not> seen
      else
        let g = takeWhile is_hex s; r = drop (length g) s in
        if g = [] \<or> 4 < length g then False
        else if r \<noteq> [] \<and> hd r = CHR ''.'' then
          (seen \<or> i = 12) \<and> i + 4 \<le> 16 \<and> ipv4_text s \<and> (if i + 4 < 16 then seen else \<not> seen)
        else if r = [] then (if i + 2 < 16 then seen else \<not> seen)
        else if hd r \<noteq> CHR '':'' \<or> tl r = [] then False
        else if hd (tl r) = CHR '':'' then
          \<not> seen \<and> (if tl (tl r) = [] then i + 2 < 16 else ipv6_groups (i + 2) True (tl (tl r)))
        else ipv6_groups (i + 2) seen (tl r))"
  by auto
termination
  by (relation "measure (\<lambda>(i, _, _). 16 - i)") auto

declare ipv6_groups.simps [simp del]

definition ipv6_text :: "string \<Rightarrow> bool" where
  "ipv6_text s =
     (let addr = fst (cut_at CHR ''%'' s) in
      (CHR ''%'' \<in> set s \<longrightarrow> snd (cut_at CHR ''%'' s) \<noteq> []) \<and>
      (if take 2 addr = ''::'' then (drop 2 addr = [] \<or> ipv6_groups 0 True (drop 2 addr)) else ipv6_groups 0 False addr))"

text \<open>\<open>netip.ParseAddr\<close> gives an address that is not IPv4.\<close>

definition ip_literal :: "string \<Rightarrow> bool" where
  "ip_literal s =
     (case find (\<lambda>c. c \<in> set ''.:%'') s of None \<Rightarrow> False | Some c \<Rightarrow> c = CHR '':'' \<and> ipv6_text s)"

section \<open>Parsing\<close>

definition validOptionalPort :: "string \<Rightarrow> bool" where
  "validOptionalPort port = (port = [] \<or> (hd port = CHR '':'' \<and> list_all is_digit (tl port)))"

text \<open>The index of \<open>%25\<close>, where a zone begins.\<close>

fun before_zone :: "string \<Rightarrow> string \<times> string" where
  "before_zone s =
     (if has_prefix s ''%25'' then ([], s)
      else case s of [] \<Rightarrow> ([], []) | c # r \<Rightarrow> (case before_zone r of (h, z) \<Rightarrow> (c # h, z)))"

declare before_zone.simps [simp del]

definition parse_bracket :: "string \<Rightarrow> string option" where
  "parse_bracket host =
     (case after_last CHR '']'' host of None \<Rightarrow> None
      | Some port \<Rightarrow>
          let name = take (length host - length port - 2) (drop 1 host) in
          if \<not> validOptionalPort port then None
          else Option.bind (unescape_host port) (\<lambda>p.
               Option.bind (unescape_host (fst (before_zone name))) (\<lambda>h.
               Option.bind (unescape_zone (snd (before_zone name))) (\<lambda>z.
               if ip_literal (h @ z) then Some (''['' @ h @ z @ '']'' @ p) else None))))"

definition parse_host :: "string \<Rightarrow> string option" where
  "parse_host host =
     (if CHR ''['' \<in> set host then
        (if hd host = CHR ''['' \<and> CHR ''['' \<notin> set (tl host) then parse_bracket host else None)
      else if CHR '':'' \<in> set host \<and> \<not> validOptionalPort (dropWhile (\<lambda>c. c \<noteq> CHR '':'') host) then None
      else unescape_host host)"

record URL =
  u_scheme :: string
  u_opaque :: string
  u_user :: bool
  u_host :: string
  u_raw_path :: string
  u_path :: string
  u_raw_query :: string
  u_fragment :: string

definition userinfo_ok :: "string \<Rightarrow> bool" where
  "userinfo_ok s =
     (list_all (\<lambda>c. alnum c \<or> c \<in> set ''-._:~!$&()*+,;=%@'' \<or> c = CHR 0x27) s \<and>
      percent_ok (\<lambda>_. True) (\<lambda>_. True) s)"

text \<open>User info and host of an authority.\<close>

definition parse_authority :: "string \<Rightarrow> (bool \<times> string) option" where
  "parse_authority a =
     (case after_last CHR ''@'' a of
        None \<Rightarrow> map_option (\<lambda>h. (False, h)) (parse_host a)
      | Some host \<Rightarrow>
          Option.bind (parse_host host) (\<lambda>h.
          if userinfo_ok (take (length a - length host - 1) a) then Some (True, h) else None))"

definition scheme_char :: "char \<Rightarrow> bool" where
  "scheme_char c = (alnum c \<or> c \<in> set ''+-.'')"

text \<open>\<open>getScheme\<close>: \<open>None\<close> is the error of a missing scheme.\<close>

definition get_scheme :: "string \<Rightarrow> (string \<times> string) option" where
  "get_scheme s =
     (let p = takeWhile scheme_char s; r = drop (length p) s in
      if p = [] then (if r \<noteq> [] \<and> hd r = CHR '':'' then None else Some ([], s))
      else if \<not> (is_lower (hd p) \<or> is_upper (hd p)) then Some ([], s)
      else if r \<noteq> [] \<and> hd r = CHR '':'' then Some (p, tl r) else Some ([], s))"

definition control_byte :: "char \<Rightarrow> bool" where
  "control_byte c = ((of_char c :: nat) < 0x20 \<or> c = CHR 0x7F)"

text \<open>The query: a single \<open>?\<close> at the end is none at all.\<close>

definition cut_query :: "string \<Rightarrow> string \<times> string" where
  "cut_query rest = cut_at CHR ''?'' rest"

definition set_path :: "string \<Rightarrow> URL \<Rightarrow> URL option" where
  "set_path p u =
     (case unescape_with (\<lambda>_. True) (\<lambda>_. True) p of None \<Rightarrow> None
      | Some path \<Rightarrow> Some (u\<lparr>u_path := path, u_raw_path := (if escape_with path_escapes path = p then [] else p)\<rparr>))"

definition zero_url :: URL where
  "zero_url = \<lparr>u_scheme = [], u_opaque = [], u_user = False, u_host = [], u_raw_path = [], u_path = [],
     u_raw_query = [], u_fragment = []\<rparr>"

definition parse_hierarchy :: "string \<Rightarrow> URL \<Rightarrow> URL option" where
  "parse_hierarchy rest u =
     (if \<not> has_prefix rest ''/'' \<and> u_scheme u \<noteq> [] then Some (u\<lparr>u_opaque := rest\<rparr>)
      else if \<not> has_prefix rest ''/'' \<and> CHR '':'' \<in> set (fst (cut_at CHR ''/'' rest)) then None
      else if (u_scheme u \<noteq> [] \<or> \<not> has_prefix rest ''///'') \<and> has_prefix rest ''//'' then
        let a = takeWhile (\<lambda>c. c \<noteq> CHR ''/'') (drop 2 rest);
            path = dropWhile (\<lambda>c. c \<noteq> CHR ''/'') (drop 2 rest)
        in Option.bind (parse_authority a) (\<lambda>(user, host). set_path path (u\<lparr>u_user := user, u_host := host\<rparr>))
      else set_path rest u)"

definition parse_no_fragment :: "string \<Rightarrow> URL option" where
  "parse_no_fragment s =
     (if list_ex control_byte s then None
      else if s = ''*'' then Some (zero_url\<lparr>u_path := ''*''\<rparr>)
      else Option.bind (get_scheme s) (\<lambda>(scheme, rest).
        let (rest, query) = cut_query rest
        in parse_hierarchy rest (zero_url\<lparr>u_scheme := to_lower scheme, u_raw_query := query\<rparr>)))"

text \<open>\<open>url.Parse\<close>.\<close>

definition parse_url :: "string \<Rightarrow> URL option" where
  "parse_url s =
     (let (u, fragment) = cut_at CHR ''#'' s in
      Option.bind (parse_no_fragment u) (\<lambda>url.
      if fragment = [] then Some url
      else map_option (\<lambda>f. url\<lparr>u_fragment := f\<rparr>) (unescape_with (\<lambda>_. True) (\<lambda>_. True) fragment)))"

text \<open>\<open>validEncoded\<close> of a path, and \<open>EscapedPath\<close>.\<close>

definition path_safe :: "char \<Rightarrow> bool" where
  "path_safe c = (c \<in> set ''!$&()*+,;=:@[]%'' \<or> c = CHR 0x27 \<or> \<not> path_escapes c)"

definition valid_encoded :: "string \<Rightarrow> bool" where
  "valid_encoded s = list_all path_safe s"

definition EscapedPath :: "URL \<Rightarrow> string" where
  "EscapedPath u =
     (if u_raw_path u \<noteq> [] \<and> valid_encoded (u_raw_path u) \<and>
         unescape_with (\<lambda>_. True) (\<lambda>_. True) (u_raw_path u) = Some (u_path u)
      then u_raw_path u
      else if u_path u = ''*'' then ''*'' else escape_with path_escapes (u_path u))"

end
