(* ===== verification/Address.thy ===== *)
theory Address
  imports Go_Url Ids
begin

text \<open>
  \<open>go/address.go\<close>: the \<open>codex://\<close> thread addresses and the \<open>herdr://\<close> addresses, and the canonical
  thread URI that \<open>go/internal/service\<close> writes.
\<close>

record ThreadAddress =
  ta_endpoint :: string
  ta_thread_id :: string

record HerdrAddress =
  ha_endpoint :: string
  ha_kind :: string
  ha_selector :: string

definition parseAddressURL :: "string \<Rightarrow> string \<Rightarrow> string + URL" where
  "parseAddressURL value scheme =
     (case parse_url value of
        None \<Rightarrow> Inl (''mektup: invalid address URI '' @ value)
      | Some u \<Rightarrow>
          if u_scheme u \<noteq> scheme \<or> u_host u = '''' \<or> u_user u \<or> u_raw_query u \<noteq> '''' \<or> u_fragment u \<noteq> ''''
          then Inl (''mektup: invalid address URI '' @ value) else Inr u)"

text \<open>An empty path, or one that ends in a slash, has no parts.\<close>

definition splitAddressPath :: "string \<Rightarrow> string list" where
  "splitAddressPath path =
     (let trimmed = trim_prefix path ''/'' in
      if trimmed = '''' \<or> has_suffix path ''/'' then [] else split_at CHR ''/'' trimmed)"

definition has_slash :: "string \<Rightarrow> bool" where
  "has_slash s = (CHR ''/'' \<in> set s \<or> CHR 0x5C \<in> set s)"

definition ParseThreadURI :: "string \<Rightarrow> string + ThreadAddress" where
  "ParseThreadURI value =
     bindE (parseAddressURL value ''codex'') (\<lambda>u.
     let parts = splitAddressPath (EscapedPath u) in
     if length parts \<noteq> 2 \<or> parts ! 0 \<noteq> ''thread''
     then Inl ''mektup: codex URI must be codex://<endpoint>/thread/<thread-id>''
     else case PathUnescape (parts ! 1) of
            None \<Rightarrow> Inl ''mektup: invalid codex thread ID''
          | Some i \<Rightarrow> if i = '''' \<or> has_slash i then Inl ''mektup: invalid codex thread ID''
                      else Inr \<lparr>ta_endpoint = u_host u, ta_thread_id = i\<rparr>)"

definition ParseHerdrURI :: "string \<Rightarrow> string + HerdrAddress" where
  "ParseHerdrURI value =
     bindE (parseAddressURL value ''herdr'') (\<lambda>u.
     let parts = splitAddressPath (EscapedPath u) in
     if length parts \<noteq> 2 \<or> (parts ! 0 \<noteq> ''agent'' \<and> parts ! 0 \<noteq> ''pane'')
     then Inl ''mektup: herdr URI must be herdr://<endpoint>/(agent|pane)/<selector>''
     else case PathUnescape (parts ! 1) of
            None \<Rightarrow> Inl ''mektup: invalid herdr selector''
          | Some s \<Rightarrow> if s = '''' \<or> has_slash s \<and> parts ! 0 = ''agent'' then Inl ''mektup: invalid herdr selector''
                      else Inr \<lparr>ha_endpoint = u_host u, ha_kind = parts ! 0, ha_selector = s\<rparr>)"

text \<open>\<open>canonicalThreadURI\<close> of \<open>internal/service\<close>: the thread named by the stable endpoint identity.\<close>

definition thread_uri :: "string \<Rightarrow> string \<Rightarrow> string" where
  "thread_uri endpoint thread_id = ''codex://'' @ endpoint @ ''/thread/'' @ PathEscape thread_id"

definition canonicalThreadURI :: "string \<Rightarrow> string \<Rightarrow> string" where
  "canonicalThreadURI endpoint_id uri =
     (if endpoint_id = '''' then uri
      else case ParseThreadURI uri of
             Inl _ \<Rightarrow> uri
           | Inr a \<Rightarrow> if ta_thread_id a = '''' then uri else thread_uri endpoint_id (ta_thread_id a))"

section \<open>Escaping and unescaping\<close>

lemma upper_digit_cases: "n < 16 \<Longrightarrow> is_hex (upper_digit n) \<and> unhex (upper_digit n) = n \<and> unreserved (upper_digit n)"
proof -
  have "\<forall>n\<in>set [0..<16]. is_hex (upper_digit n) \<and> unhex (upper_digit n) = n \<and> unreserved (upper_digit n)"
    by (simp add: upt_rec upper_digit_def is_hex_def upper_hex_def is_lower_hex_def unhex_def unreserved_def alnum_def
        is_lower_def is_upper_def is_digit_def in_range_def)
  then show "n < 16 \<Longrightarrow> is_hex (upper_digit n) \<and> unhex (upper_digit n) = n \<and> unreserved (upper_digit n)" by simp
qed

lemma char_halves: "(of_char c :: nat) div 16 < 16" "char_of ((16::nat) * (of_char c div 16) + of_char c mod 16) = c"
proof -
  show "(of_char c :: nat) div 16 < 16" by (rule less_mult_imp_div_less) simp
  show "char_of ((16::nat) * (of_char c div 16) + of_char c mod 16) = c" by (simp add: mult.commute)
qed

lemma percent_ok_Cons:
  "c \<noteq> CHR ''%'' \<Longrightarrow> percent_ok e k (c # s) = (k c \<and> percent_ok e k s)"
  "c \<noteq> CHR ''%'' \<Longrightarrow> percent_decode (c # s) = c # percent_decode s"
  by (cases s rule: remdups_adj.cases; simp)+

lemma percent_byte_step:
  "percent_ok (\<lambda>_. True) (\<lambda>_. True) (percent_byte c @ s) = percent_ok (\<lambda>_. True) (\<lambda>_. True) s"
  "percent_decode (percent_byte c @ s) = c # percent_decode s"
  using upper_digit_cases[of "of_char c div 16"] upper_digit_cases[of "of_char c mod 16"] char_halves[of c]
  by (simp_all add: percent_byte_def)

lemma unescape_escape:
  assumes "should CHR ''%''"
  shows "percent_ok (\<lambda>_. True) (\<lambda>_. True) (escape_with should s) \<and> percent_decode (escape_with should s) = s"
proof (induction s)
  case (Cons c s)
  then show ?case
    using assms percent_byte_step[of c "escape_with should s"]
    by (cases "should c"; cases "c = CHR ''%''") (auto simp: escape_with_def percent_ok_Cons)
qed (simp add: escape_with_def)

lemma PathUnescape_PathEscape: "PathUnescape (PathEscape s) = Some s"
  using unescape_escape[of segment_escapes s]
  by (simp add: PathUnescape_def PathEscape_def unescape_with_def segment_escapes_def unreserved_def alnum_def
      is_lower_def is_upper_def is_digit_def in_range_def)

text \<open>The bytes of an escaped segment.\<close>

definition segment_char :: "char \<Rightarrow> bool" where
  "segment_char c = (\<not> segment_escapes c \<or> c = CHR ''%'')"

lemma PathEscape_chars: "list_all segment_char (PathEscape s)"
proof (induction s)
  case (Cons c s)
  have "list_all segment_char (percent_byte c)"
    using upper_digit_cases[of "of_char c div 16"] upper_digit_cases[of "of_char c mod 16"] char_halves[of c]
    by (simp add: percent_byte_def segment_char_def segment_escapes_def)
  with Cons show ?case by (auto simp: PathEscape_def escape_with_def) (auto simp: segment_char_def)
qed (simp add: PathEscape_def escape_with_def)

lemma PathEscape_Nil: "PathEscape s = [] \<longleftrightarrow> s = []"
  by (cases s) (auto simp: PathEscape_def escape_with_def percent_byte_def)


section \<open>Canonical addresses parse back\<close>

text \<open>An endpoint name that needs no escaping, as aliases and endpoint identities are.\<close>

definition plain_endpoint :: "string \<Rightarrow> bool" where
  "plain_endpoint e = (e \<noteq> [] \<and> list_all (\<lambda>c. alnum c \<or> c \<in> set ''-_.'') e)"

lemma plain_char:
  assumes "alnum c \<or> c \<in> set ''-_.''"
  shows "ascii c" "\<not> host_escapes c" "\<not> control_byte c" "c \<notin> set ''%:[]@/#?''"
proof -
  show "ascii c" "\<not> control_byte c"
    using assms by (auto simp: alnum_def is_lower_def is_upper_def is_digit_def in_range_def ascii_def control_byte_def)
  show "\<not> host_escapes c" using assms by (auto simp: host_escapes_def unreserved_def)
  show "c \<notin> set ''%:[]@/#?''"
    using assms by (auto simp: alnum_def is_lower_def is_upper_def is_digit_def in_range_def)
qed

lemma segment_char_facts:
  assumes "segment_char c"
  shows "\<not> control_byte c" "c \<notin> set ''/#?''" "path_safe c"
proof -
  show "\<not> control_byte c"
    using assms by (auto simp: segment_char_def segment_escapes_def unreserved_def alnum_def is_lower_def is_upper_def
        is_digit_def in_range_def control_byte_def)
  show "c \<notin> set ''/#?''"
    using assms by (auto simp: segment_char_def segment_escapes_def unreserved_def alnum_def is_lower_def is_upper_def
        is_digit_def in_range_def)
  show "path_safe c"
    using assms by (auto simp: segment_char_def segment_escapes_def path_escapes_def path_safe_def)
qed

lemma percent_ok_plain: "list_all k s \<Longrightarrow> CHR ''%'' \<notin> set s \<Longrightarrow> percent_ok e k s \<and> percent_decode s = s"
  by (induction s) (auto simp: percent_ok_Cons)

lemma cut_at_absent: "c \<notin> set s \<Longrightarrow> cut_at c s = (s, [])"
  by (induction s) (auto simp: cut_at_def)

lemma scheme_facts:
  "to_lower ''codex'' = ''codex'' \<and> list_all scheme_char ''codex'' \<and> is_lower (hd ''codex'')"
  "to_lower ''herdr'' = ''herdr'' \<and> list_all scheme_char ''herdr'' \<and> is_lower (hd ''herdr'')"
  by code_simp+

lemma get_scheme_plain:
  assumes "list_all scheme_char p" "p \<noteq> []" "is_lower (hd p)"
  shows "get_scheme (p @ CHR '':'' # r) = Some (p, r)"
proof -
  have "\<not> scheme_char CHR '':''" by code_simp
  then have "takeWhile scheme_char (p @ CHR '':'' # r) = p"
    using assms(1) by (simp add: takeWhile_append2 list_all_iff)
  with assms show ?thesis by (simp add: get_scheme_def Let_def)
qed

text \<open>A scheme, a plain endpoint and a path whose bytes need no further escaping.\<close>

lemma parse_plain_uri:
  assumes scheme: "scheme = ''codex'' \<or> scheme = ''herdr''" and e: "plain_endpoint e"
    and p: "list_all (\<lambda>c. segment_char c \<or> c = CHR ''/'') p"
    and u: "unescape_with (\<lambda>_. True) (\<lambda>_. True) (CHR ''/'' # p) = Some path"
  shows "\<exists>u. parseAddressURL (scheme @ ''://'' @ e @ CHR ''/'' # p) scheme = Inr u \<and> u_host u = e \<and> EscapedPath u = CHR ''/'' # p"
proof -
  let ?uri = "scheme @ ''://'' @ e @ CHR ''/'' # p"
  have ec: "\<not> control_byte c \<and> c \<notin> set ''%:[]@/#?'' \<and> ascii c \<and> \<not> host_escapes c" if "c \<in> set e" for c
    using e plain_char[of c] that by (auto simp: plain_endpoint_def list_all_iff)
  have pc: "\<not> control_byte c \<and> c \<notin> set ''#?'' \<and> path_safe c" if "c \<in> set p" for c
  proof -
    from that p have "segment_char c \<or> c = CHR ''/''" by (auto simp: list_all_iff)
    then show ?thesis
    proof
      assume "segment_char c"
      from segment_char_facts[OF this] show ?thesis by simp
    qed (simp add: control_byte_def path_safe_def path_escapes_def)
  qed
  have "list_all (\<lambda>c. \<not> (ascii c \<and> host_escapes c)) e" "CHR ''%'' \<notin> set e" "CHR ''@'' \<notin> set e" "CHR ''['' \<notin> set e"
    "CHR '':'' \<notin> set e"
    using ec by (auto simp: list_all_iff)
  then have host: "parse_authority e = Some (False, e)"
    using percent_ok_plain[of "\<lambda>c. \<not> (ascii c \<and> host_escapes c)" e "\<lambda>v. 128 \<le> v \<or> v = 37"]
    unfolding parse_authority_def after_last_def parse_host_def unescape_host_def unescape_with_def by simp
  have cuts: "CHR ''#'' \<notin> set ?uri" "\<not> list_ex control_byte ?uri" "?uri \<noteq> ''*''"
    using scheme ec pc by (auto simp: list_ex_iff control_byte_def)
  have sch: "get_scheme ?uri = Some (scheme, ''//'' @ e @ CHR ''/'' # p)" "to_lower scheme = scheme" "scheme \<noteq> []"
    using scheme scheme_facts get_scheme_plain[of scheme "''//'' @ e @ CHR ''/'' # p"] by auto
  have query: "cut_query (''//'' @ e @ CHR ''/'' # p) = (''//'' @ e @ CHR ''/'' # p, [])"
    unfolding cut_query_def using ec pc by (intro cut_at_absent) auto
  have split: "takeWhile (\<lambda>c. c \<noteq> CHR ''/'') (e @ CHR ''/'' # p) = e" "dropWhile (\<lambda>c. c \<noteq> CHR ''/'') (e @ CHR ''/'' # p) = CHR ''/'' # p"
    using ec by (auto simp: takeWhile_append dropWhile_append)
  let ?u = "zero_url\<lparr>u_scheme := scheme, u_host := e, u_path := path,
    u_raw_path := (if escape_with path_escapes path = CHR ''/'' # p then [] else CHR ''/'' # p)\<rparr>"
  have url: "parse_url ?uri = Some ?u"
    using cuts cut_at_absent[OF cuts(1)] sch query split host u
    by (simp add: parse_url_def parse_no_fragment_def parse_hierarchy_def set_path_def has_prefix_def zero_url_def)
  have "valid_encoded (CHR ''/'' # p)"
    using pc by (simp add: valid_encoded_def list_all_iff) (simp add: path_safe_def path_escapes_def)
  moreover have "path \<noteq> ''*''" using u by (auto simp: unescape_with_def percent_ok_Cons split: if_split_asm)
  ultimately have "EscapedPath ?u = CHR ''/'' # p" using u by (auto simp: EscapedPath_def zero_url_def)
  moreover have "e \<noteq> []" using e by (simp add: plain_endpoint_def)
  ultimately show ?thesis using url by (simp add: parseAddressURL_def zero_url_def)
qed


lemma split_at_absent: "c \<notin> set s \<Longrightarrow> split_at c s = [s]"
  by (induction s) auto

lemma split_at_one: "c \<notin> set s \<Longrightarrow> split_at c (s @ c # t) = s # split_at c t"
  by (induction s) (auto split: list.split)

lemma unescape_append_plain:
  "CHR ''%'' \<notin> set s \<Longrightarrow> unescape_with (\<lambda>_. True) (\<lambda>_. True) t = Some t' \<Longrightarrow>
     unescape_with (\<lambda>_. True) (\<lambda>_. True) (s @ t) = Some (s @ t')"
  by (induction s) (auto simp: unescape_with_def percent_ok_Cons split: if_split_asm)

lemma parse_two_parts:
  assumes "scheme = ''codex'' \<or> scheme = ''herdr''" "plain_endpoint e" "s \<noteq> []"
    and kind: "kind \<in> {''thread'', ''agent'', ''pane''}"
  shows "\<exists>u. parseAddressURL (scheme @ ''://'' @ e @ CHR ''/'' # kind @ CHR ''/'' # PathEscape s) scheme = Inr u \<and>
     u_host u = e \<and> splitAddressPath (EscapedPath u) = [kind, PathEscape s]"
proof -
  let ?p = "kind @ CHR ''/'' # PathEscape s"
  have k: "list_all segment_char kind" "CHR ''/'' \<notin> set kind" "CHR ''%'' \<notin> set kind"
    using kind by (auto simp: segment_char_def segment_escapes_def unreserved_def alnum_def is_lower_def in_range_def)
  have esc: "\<And>c. c \<in> set (PathEscape s) \<Longrightarrow> c \<noteq> CHR ''/''"
    using PathEscape_chars[of s] segment_char_facts(2) by (fastforce simp: list_all_iff)
  have "list_all (\<lambda>c. segment_char c \<or> c = CHR ''/'') ?p"
    using k(1) PathEscape_chars[of s] unfolding list_all_iff by auto
  moreover have "unescape_with (\<lambda>_. True) (\<lambda>_. True) (CHR ''/'' # ?p) = Some (CHR ''/'' # kind @ CHR ''/'' # s)"
    using unescape_append_plain[of "CHR ''/'' # kind @ [CHR ''/'']" "PathEscape s" s] PathUnescape_PathEscape[of s] k(3)
    by (simp add: PathUnescape_def)
  moreover have "splitAddressPath (CHR ''/'' # ?p) = [kind, PathEscape s]"
  proof -
    have ne: "PathEscape s \<noteq> []" using assms(3) by (simp add: PathEscape_Nil)
    then have "last (PathEscape s) \<noteq> CHR ''/''" using esc by simp
    with ne have "\<not> has_suffix (CHR ''/'' # ?p) ''/''"
      by (cases "PathEscape s" rule: rev_cases) (auto simp: has_suffix_def has_prefix_def)
    moreover have "split_at CHR ''/'' ?p = [kind, PathEscape s]"
      using split_at_one[OF k(2)] split_at_absent[of "CHR ''/''" "PathEscape s"] esc by auto
    ultimately show ?thesis by (simp add: splitAddressPath_def trim_prefix_def has_prefix_def)
  qed
  moreover note parse_plain_uri[OF assms(1,2), of ?p "CHR ''/'' # kind @ CHR ''/'' # s"]
  ultimately show ?thesis by auto
qed

text \<open>The URI of a thread parses back to the thread.\<close>

lemma thread_uri_parses:
  assumes "plain_endpoint e" "t \<noteq> ''''" "\<not> has_slash t"
  shows "ParseThreadURI (thread_uri e t) = Inr \<lparr>ta_endpoint = e, ta_thread_id = t\<rparr>"
proof -
  obtain u where u: "parseAddressURL (''codex'' @ ''://'' @ e @ CHR ''/'' # ''thread'' @ CHR ''/'' # PathEscape t) ''codex'' = Inr u"
    "u_host u = e" "splitAddressPath (EscapedPath u) = [''thread'', PathEscape t]"
    using parse_two_parts[of "''codex''" e t "''thread''"] assms by auto
  moreover have "''codex'' @ ''://'' @ e @ CHR ''/'' # ''thread'' @ CHR ''/'' # PathEscape t = thread_uri e t"
    by (simp add: thread_uri_def)
  ultimately have "parseAddressURL (thread_uri e t) ''codex'' = Inr u" by simp
  then show ?thesis using u(2,3) assms(2,3) PathUnescape_PathEscape[of t] by (simp add: ParseThreadURI_def)
qed

lemma ParseThreadURI_Inr:
  assumes "ParseThreadURI uri = Inr a"
  shows "ta_thread_id a \<noteq> ''''" "\<not> has_slash (ta_thread_id a)" "ta_endpoint a \<noteq> ''''"
proof -
  obtain u where u: "parseAddressURL uri ''codex'' = Inr u"
    and a: "(case PathUnescape (splitAddressPath (EscapedPath u) ! 1) of None \<Rightarrow> Inl ''mektup: invalid codex thread ID''
       | Some i \<Rightarrow> if i = '''' \<or> has_slash i then Inl ''mektup: invalid codex thread ID''
                   else Inr \<lparr>ta_endpoint = u_host u, ta_thread_id = i\<rparr>) = Inr a"
    using assms unfolding ParseThreadURI_def bindE_Inr_iff Let_def by (elim exE conjE) (rule that, assumption, simp split: if_split_asm)
  have "u_host u \<noteq> ''''" using u by (simp add: parseAddressURL_def split: option.splits if_split_asm)
  with a show "ta_thread_id a \<noteq> ''''" "\<not> has_slash (ta_thread_id a)" "ta_endpoint a \<noteq> ''''"
    by (auto split: option.splits if_split_asm)
qed

lemma ValidateID_chars:
  assumes "ValidateID v p = Inr u"
  obtains uuid where "v = p @ uuid" "list_all (\<lambda>c. is_lower_hex c \<or> c = CHR ''-'') uuid"
proof -
  from assms obtain uuid where v: "v = p @ uuid"
    by (auto simp: ValidateID_def elim!: has_prefixE split: if_split_asm)
  have t: "trim_prefix v p = uuid" by (simp add: v)
  from assms have h: "hex_loop 0 uuid" "uuid ! 8 = CHR ''-''" "uuid ! 13 = CHR ''-''" "uuid ! 18 = CHR ''-''" "uuid ! 23 = CHR ''-''"
    unfolding ValidateID_def Let_def t by (simp_all split: if_split_asm)
  have "list_all (\<lambda>c. is_lower_hex c \<or> c = CHR ''-'') uuid"
    unfolding list_all_length
  proof (intro allI impI)
    fix i assume "i < length uuid"
    with h show "is_lower_hex (uuid ! i) \<or> uuid ! i = CHR ''-''"
      by (auto simp: hex_loop_iff hyphen_at_def dest!: spec[of _ i])
  qed
  with v that show thesis by blast
qed

lemma endpoint_id_plain:
  assumes "ValidateID e EndpointIDPrefix = Inr ()"
  shows "plain_endpoint e"
  using assms
proof (rule ValidateID_chars)
  fix uuid assume e: "e = EndpointIDPrefix @ uuid" and "list_all (\<lambda>c. is_lower_hex c \<or> c = CHR ''-'') uuid"
  then have "list_all (\<lambda>c. alnum c \<or> c \<in> set ''-_.'') uuid"
    by (auto simp: list_all_iff is_lower_hex_def alnum_def is_lower_def in_range_def)
  then show ?thesis by (simp add: e EndpointIDPrefix_def plain_endpoint_def alnum_def is_lower_def in_range_def)
qed

text \<open>
  C27: An envelope names a thread by its stable endpoint identity. Whatever alias a thread address
  used, its canonical form parses to the same thread at the given endpoint, and making it canonical
  again changes nothing.
\<close>

theorem canonical_address_round_trip:
  assumes "ValidateID endpoint EndpointIDPrefix = Inr ()" "ParseThreadURI uri = Inr a"
  shows "ParseThreadURI (canonicalThreadURI endpoint uri) = Inr \<lparr>ta_endpoint = endpoint, ta_thread_id = ta_thread_id a\<rparr> \<and>
    canonicalThreadURI endpoint (canonicalThreadURI endpoint uri) = canonicalThreadURI endpoint uri"
proof -
  have e: "plain_endpoint endpoint" "endpoint \<noteq> []"
    using endpoint_id_plain[OF assms(1)] by (simp_all add: plain_endpoint_def)
  note a = ParseThreadURI_Inr[OF assms(2)]
  have "canonicalThreadURI endpoint uri = thread_uri endpoint (ta_thread_id a)"
    using assms(2) e(2) a(1) by (simp add: canonicalThreadURI_def)
  with thread_uri_parses[OF e(1) a(1,2)] e(2) a(1) show ?thesis by (simp add: canonicalThreadURI_def)
qed

theorem canonical_address_round_trip_witness:
  "canonicalThreadURI ''ep_01890000-0000-7000-8000-000000000003'' ''codex://home/thread/a%20b'' =
     ''codex://ep_01890000-0000-7000-8000-000000000003/thread/a%20b'' \<and>
   ParseThreadURI ''codex://ep_01890000-0000-7000-8000-000000000003/thread/a%20b'' =
     Inr \<lparr>ta_endpoint = ''ep_01890000-0000-7000-8000-000000000003'', ta_thread_id = ''a b''\<rparr>"
proof -
  have v: "ValidateID ''ep_01890000-0000-7000-8000-000000000003'' EndpointIDPrefix = Inr ()" by code_simp
  have p: "ParseThreadURI ''codex://home/thread/a%20b'' = Inr \<lparr>ta_endpoint = ''home'', ta_thread_id = ''a b''\<rparr>" by code_simp
  then have "canonicalThreadURI ''ep_01890000-0000-7000-8000-000000000003'' ''codex://home/thread/a%20b'' =
     ''codex://ep_01890000-0000-7000-8000-000000000003/thread/a%20b''" by code_simp
  with canonical_address_round_trip[OF v p] show ?thesis by simp
qed

end
