(* ===== verification/Go_Sha256.thy ===== *)
theory Go_Sha256
  imports Prelude
begin

text \<open>
  SHA-256 of package \<open>crypto/sha256\<close> (FIPS 180-4): padding to blocks of sixteen 32-bit words, the
  message schedule, sixty-four rounds, and the digest as thirty-two bytes.
\<close>

unbundle bit_operations_syntax

definition rotr :: "nat \<Rightarrow> 32 word \<Rightarrow> 32 word" where
  "rotr n x = drop_bit n x OR push_bit (32 - n) x"

text \<open>
  The constants of the standard are fractional parts, to thirty-two bits, of the cube roots of the
  first sixty-four primes and of the square roots of the first eight; \<open>root_bits k n b 0\<close> is the
  integer \<open>k\<close>-th root of \<open>n\<close> below \<open>2 ^ b\<close>, one bit at a time.
\<close>

fun root_bits :: "nat \<Rightarrow> int \<Rightarrow> nat \<Rightarrow> int \<Rightarrow> int" where
  "root_bits k n 0 r = r"
| "root_bits k n (Suc b) r = root_bits k n b (if (r + 2 ^ b) ^ k \<le> n then r + 2 ^ b else r)"

definition sha_primes :: "nat list" where
  "sha_primes = filter (\<lambda>p. list_all (\<lambda>d. p mod d \<noteq> 0) [2..<p]) [2..<312]"

definition sha_constants :: "32 word list" where
  "sha_constants = map (\<lambda>p. word_of_int (root_bits 3 (int p * 2 ^ 96) 35 0)) sha_primes"

text \<open>The eight chaining values \<open>a\<close> to \<open>h\<close>.\<close>

datatype sha_state = Sha (sha_a: "32 word") (sha_b: "32 word") (sha_c: "32 word") (sha_d: "32 word")
  (sha_e: "32 word") (sha_f: "32 word") (sha_g: "32 word") (sha_h: "32 word")

definition sha_init :: sha_state where
  "sha_init =
     (let h = (\<lambda>i. word_of_int (root_bits 2 (int (sha_primes ! i) * 2 ^ 64) 35 0))
      in Sha (h 0) (h 1) (h 2) (h 3) (h 4) (h 5) (h 6) (h 7))"

fun sha_round :: "sha_state \<Rightarrow> 32 word \<times> 32 word \<Rightarrow> sha_state" where
  "sha_round (Sha a b c d e f g h) (k, w) =
     (let t1 = h + (rotr 6 e XOR rotr 11 e XOR rotr 25 e) + ((e AND f) XOR (NOT e AND g)) + k + w;
          t2 = (rotr 2 a XOR rotr 13 a XOR rotr 22 a) + ((a AND b) XOR (a AND c) XOR (b AND c))
      in Sha (t1 + t2) a b c (d + t1) e f g)"

text \<open>The schedule, kept newest word first.\<close>

fun sha_extend :: "nat \<Rightarrow> 32 word list \<Rightarrow> 32 word list" where
  "sha_extend 0 ws = ws"
| "sha_extend (Suc n) ws =
     (let w2 = ws ! 1; w15 = ws ! 14;
          w = (rotr 17 w2 XOR rotr 19 w2 XOR drop_bit 10 w2) + ws ! 6 +
              (rotr 7 w15 XOR rotr 18 w15 XOR drop_bit 3 w15) + ws ! 15
      in sha_extend n (w # ws))"

definition sha_schedule :: "32 word list \<Rightarrow> 32 word list" where
  "sha_schedule block = rev (sha_extend 48 (rev block))"

fun sha_add :: "sha_state \<Rightarrow> sha_state \<Rightarrow> sha_state" where
  "sha_add (Sha a b c d e f g h) (Sha a' b' c' d' e' f' g' h') =
     Sha (a + a') (b + b') (c + c') (d + d') (e + e') (f + f') (g + g') (h + h')"

definition sha_block :: "sha_state \<Rightarrow> 32 word list \<Rightarrow> sha_state" where
  "sha_block s block = sha_add s (foldl sha_round s (zip sha_constants (sha_schedule block)))"

definition sha_pad :: "string \<Rightarrow> nat list" where
  "sha_pad m =
     (let n = length m; zeros = (119 - n mod 64) mod 64
      in map of_char m @ [0x80] @ replicate zeros 0 @ map (\<lambda>i. (8 * n) div 256 ^ i mod 256) [7, 6, 5, 4, 3, 2, 1, 0])"

fun be_words :: "nat list \<Rightarrow> 32 word list" where
  "be_words (a # b # c # d # bs) = word_of_nat (((a * 256 + b) * 256 + c) * 256 + d) # be_words bs"
| "be_words bs = []"

fun sha_blocks :: "nat \<Rightarrow> sha_state \<Rightarrow> 32 word list \<Rightarrow> sha_state" where
  "sha_blocks 0 s ws = s"
| "sha_blocks (Suc n) s ws = sha_blocks n (sha_block s (take 16 ws)) (drop 16 ws)"

definition word_bytes :: "32 word \<Rightarrow> 8 word list" where
  "word_bytes w = [ucast (drop_bit 24 w), ucast (drop_bit 16 w), ucast (drop_bit 8 w), ucast w]"

definition sha256 :: "string \<Rightarrow> 8 word list" where
  "sha256 m =
     (let ws = be_words (sha_pad m); s = sha_blocks (length ws div 16) sha_init ws
      in concat (map word_bytes [sha_a s, sha_b s, sha_c s, sha_d s, sha_e s, sha_f s, sha_g s, sha_h s]))"

lemma length_sha256: "length (sha256 m) = 32"
  by (simp add: sha256_def Let_def word_bytes_def)

end
