(* ===== verification/Envelope.thy ===== *)
theory Envelope
  imports Models Address Go_Sha256
begin

text \<open>
  \<open>go/envelope.go\<close>: the target-visible message. Its header is a marker line, one
  \<open>name: JSON scalar\<close> line per field and the delimiter \<open>---\<close>; the body follows verbatim. The clock
  of \<open>normalizedForRender\<close> is the argument \<open>now\<close>, the time already formatted; byte counts are the
  64-bit values the code computes.
\<close>

definition EnvelopeSchema :: string where "EnvelopeSchema = ''Mektup/1''"
definition KindMessage :: string where "KindMessage = ''message''"
definition KindReply :: string where "KindReply = ''reply''"
definition ReplySuccess :: string where "ReplySuccess = ''success''"
definition ReplyError :: string where "ReplyError = ''error''"

record Envelope =
  en_message_id :: string
  en_kind :: string
  en_from_endpoint_id :: string
  en_from :: string
  en_from_kind :: string
  en_from_herdr :: string
  en_from_herdr_name :: string
  en_to_endpoint_id :: string
  en_to :: string
  en_requested_target :: string
  en_in_reply_to :: string
  en_reply_requested :: bool
  en_reply_endpoint_id :: string
  en_reply_to :: string
  en_reply_custody_endpoint_id :: string
  en_reply_custody_store_id :: string
  en_reply_status :: string
  en_reply_error_code :: string
  en_sent_at :: string
  en_payload_bytes :: "64 word"
  en_payload_sha256 :: string
  en_provenance :: string
  en_body :: string

definition envelopeFields :: "string list" where
  "envelopeFields = [''message-id'', ''kind'', ''from-endpoint-id'', ''from'', ''from-kind'', ''from-herdr'',
     ''to-endpoint-id'', ''to'', ''requested-target'', ''in-reply-to'', ''reply-requested'',
     ''reply-endpoint-id'', ''reply-to'', ''reply-custody-endpoint-id'', ''reply-custody-store-id'',
     ''sent-at'', ''payload-bytes'', ''payload-sha256'', ''provenance'']"

definition ValidHerdrDisplayName :: "string \<Rightarrow> bool" where
  "ValidHerdrDisplayName value =
     (value \<noteq> [] \<and> length value \<le> 32 \<and> is_lower (hd value) \<and>
      list_all (\<lambda>c. is_lower c \<or> is_digit c \<or> c = CHR ''_'' \<or> c = CHR ''-'') (tl value))"

definition sha256Digest :: "string \<Rightarrow> string" where
  "sha256Digest body = ''sha256:'' @ hex_encode (sha256 body)"

definition body_bytes :: "string \<Rightarrow> 64 word" where
  "body_bytes body = word_of_nat (length body)"

section \<open>Validation\<close>

definition validateAddresses :: "Envelope \<Rightarrow> string + unit" where
  "validateAddresses e =
     bindE (in_context ''to'' (ParseThreadURI (en_to e))) (\<lambda>_.
     bindE (if en_from e = '''' then Inr () else bindE (in_context ''from'' (ParseThreadURI (en_from e))) (\<lambda>_. Inr ())) (\<lambda>_.
     bindE (if en_from_herdr e = '''' then Inr ()
            else bindE (in_context ''from-herdr'' (ParseHerdrURI (en_from_herdr e))) (\<lambda>_. Inr ())) (\<lambda>_.
     if en_reply_to e = '''' then Inr ()
     else bindE (in_context ''reply-to'' (ParseThreadURI (en_reply_to e))) (\<lambda>_. Inr ()))))"

text \<open>The reply fields of a reply, and that a message has none.\<close>

definition validate_reply_fields :: "Envelope \<Rightarrow> string + unit" where
  "validate_reply_fields e =
     (if en_kind e = KindReply then
        bindE (check (en_in_reply_to e \<noteq> '''') ''mektup: reply must reference an original message'') (\<lambda>_.
        bindE (in_context ''in-reply-to'' (ValidateID (en_in_reply_to e) MessageIDPrefix)) (\<lambda>_.
        bindE (check (en_reply_status e = ReplySuccess \<or> en_reply_status e = ReplyError)
                 ''mektup: invalid reply status'') (\<lambda>_.
        check (\<not> (en_reply_status e = ReplySuccess \<and> en_reply_error_code e \<noteq> ''''))
          ''mektup: successful reply cannot carry reply-error-code'')))
      else check (en_in_reply_to e = '''' \<and> en_reply_status e = '''' \<and> en_reply_error_code e = '''')
             ''mektup: reply fields are not valid on a message'')"

definition validate_reply_route :: "Envelope \<Rightarrow> string + unit" where
  "validate_reply_route e =
     (if en_reply_requested e then
        bindE (in_context ''reply endpoint'' (ValidateID (en_reply_endpoint_id e) EndpointIDPrefix)) (\<lambda>_.
        bindE (check (en_reply_to e \<noteq> '''' \<and> en_reply_custody_endpoint_id e \<noteq> '''') ''mektup: reply route is incomplete'') (\<lambda>_.
        bindE (in_context ''reply custody endpoint'' (ValidateID (en_reply_custody_endpoint_id e) EndpointIDPrefix)) (\<lambda>_.
        in_context ''reply custody store'' (ValidateID (en_reply_custody_store_id e) StoreIDPrefix))))
      else check (en_reply_endpoint_id e = '''' \<and> en_reply_to e = '''' \<and> en_reply_custody_endpoint_id e = '''' \<and>
                  en_reply_custody_store_id e = '''') ''mektup: reply route present without reply-requested'')"

text \<open>\<open>time.Parse\<close> with a final \<open>Z\<close>, whose location is UTC.\<close>

definition validate_payload :: "Envelope \<Rightarrow> string + unit" where
  "validate_payload e =
     bindE (check (en_sent_at e \<noteq> '''') ''mektup: sent-at is required'') (\<lambda>_.
     bindE (check (parse_rfc3339 (en_sent_at e) \<noteq> None \<and> has_suffix (en_sent_at e) ''Z'')
              ''mektup: sent-at must be UTC RFC3339'') (\<lambda>_.
     bindE (check (utf8_valid (en_body e)) ''mektup: body is not valid UTF-8'') (\<lambda>_.
     bindE (check (en_payload_bytes e = body_bytes (en_body e)) ''mektup: payload-bytes mismatch'') (\<lambda>_.
     bindE (check (length (en_payload_sha256 e) = 71 \<and> has_prefix (en_payload_sha256 e) ''sha256:'' \<and>
                   to_lower (en_payload_sha256 e) = en_payload_sha256 e) ''mektup: invalid payload-sha256'') (\<lambda>_.
     bindE (check (en_payload_sha256 e = sha256Digest (en_body e)) ''mektup: payload-sha256 mismatch'') (\<lambda>_.
     check (en_provenance e = ''observed'') ''mektup: unsupported provenance''))))))"

definition envelope_validate :: "Envelope \<Rightarrow> string + unit" where
  "envelope_validate e =
     bindE (check (en_kind e = KindMessage \<or> en_kind e = KindReply) ''mektup: invalid envelope kind'') (\<lambda>_.
     bindE (ValidateID (en_message_id e) MessageIDPrefix) (\<lambda>_.
     bindE (in_context ''from endpoint'' (ValidateID (en_from_endpoint_id e) EndpointIDPrefix)) (\<lambda>_.
     bindE (in_context ''to endpoint'' (ValidateID (en_to_endpoint_id e) EndpointIDPrefix)) (\<lambda>_.
     bindE (check (en_to e \<noteq> '''') ''mektup: destination thread is required'') (\<lambda>_.
     bindE (check (en_requested_target e \<noteq> '''') ''mektup: requested-target is required'') (\<lambda>_.
     bindE (check (en_from_kind e = ''agent'' \<or> en_from_kind e = ''human'') ''mektup: invalid from-kind'') (\<lambda>_.
     bindE (check (\<not> (en_from_kind e = ''agent'' \<and> en_from e = '''')) ''mektup: agent sender thread is required'') (\<lambda>_.
     bindE (validate_reply_fields e) (\<lambda>_.
     bindE (validate_reply_route e) (\<lambda>_.
     bindE (validate_payload e) (\<lambda>_. validateAddresses e)))))))))))"

text \<open>The current thread may be given by its address or by its bare identity.\<close>

definition ValidateAddressToThread :: "string \<Rightarrow> Envelope \<Rightarrow> string + unit" where
  "ValidateAddressToThread current e =
     (case ParseThreadURI (en_to e) of
        Inl m \<Rightarrow> Inl (code_string ErrMessageNotAddressedThread @ '': invalid envelope target: '' @ m)
      | Inr target \<Rightarrow>
          if current = '''' then Inl (code_string ErrMessageNotAddressedThread @ '': current thread is empty'')
          else if (case ParseThreadURI current of
                     Inr a \<Rightarrow> ta_endpoint a = ta_endpoint target \<and> ta_thread_id a = ta_thread_id target
                   | Inl _ \<Rightarrow> current = ta_thread_id target)
          then Inr ()
          else Inl (code_string ErrMessageNotAddressedThread @ '': envelope targets '' @ en_to e @ '', current thread is '' @ current))"

definition ValidateReplyFor :: "Envelope \<Rightarrow> Envelope \<Rightarrow> string + unit" where
  "ValidateReplyFor e original =
     (if en_kind e \<noteq> KindReply \<or> en_kind original \<noteq> KindMessage
      then Inl ''mektup: invalid message/reply relationship''
      else if en_in_reply_to e \<noteq> en_message_id original then Inl ''mektup: reply references another message''
      else check (en_to e = en_reply_to original \<and> en_to_endpoint_id e = en_reply_endpoint_id original)
             ''mektup: reply destination does not match original route'')"

section \<open>Rendering\<close>

definition normalizedForRender :: "string \<Rightarrow> Envelope \<Rightarrow> string + Envelope" where
  "normalizedForRender now e =
     bindE (check (utf8_valid (en_body e)) ''mektup: body is not valid UTF-8'') (\<lambda>_.
     bindE (check (en_payload_bytes e = 0 \<or> en_payload_bytes e = body_bytes (en_body e))
              ''mektup: payload-bytes mismatch'') (\<lambda>_.
     bindE (check (en_payload_sha256 e = '''' \<or> en_payload_sha256 e = sha256Digest (en_body e))
              ''mektup: payload-sha256 mismatch'') (\<lambda>_.
     let e' = e\<lparr>en_payload_bytes := body_bytes (en_body e), en_payload_sha256 := sha256Digest (en_body e),
          en_sent_at := (if en_sent_at e = '''' then now else en_sent_at e),
          en_provenance := (if en_provenance e = '''' then ''observed'' else en_provenance e),
          en_from_herdr_name := (if en_from_herdr e = '''' \<or> \<not> ValidHerdrDisplayName (en_from_herdr_name e) then ''''
            else en_from_herdr_name e)\<rparr>
     in bindE (envelope_validate e') (\<lambda>_. Inr e'))))"

definition nullableString :: "string \<Rightarrow> json" where
  "nullableString value = (if value = '''' then JNull else JStr value)"

definition header_values :: "Envelope \<Rightarrow> (string \<times> json) list" where
  "header_values e = [
     (''message-id'', JStr (en_message_id e)), (''kind'', JStr (en_kind e)),
     (''from-endpoint-id'', JStr (en_from_endpoint_id e)), (''from'', nullableString (en_from e)),
     (''from-kind'', JStr (en_from_kind e)), (''from-herdr'', nullableString (en_from_herdr e)),
     (''from-herdr-name'', JStr (en_from_herdr_name e)),
     (''to-endpoint-id'', JStr (en_to_endpoint_id e)), (''to'', JStr (en_to e)),
     (''requested-target'', JStr (en_requested_target e)), (''in-reply-to'', nullableString (en_in_reply_to e)),
     (''reply-requested'', JBool (en_reply_requested e)),
     (''reply-endpoint-id'', nullableString (en_reply_endpoint_id e)), (''reply-to'', nullableString (en_reply_to e)),
     (''reply-custody-endpoint-id'', nullableString (en_reply_custody_endpoint_id e)),
     (''reply-custody-store-id'', nullableString (en_reply_custody_store_id e)),
     (''sent-at'', JStr (en_sent_at e)), (''payload-bytes'', json_uint (en_payload_bytes e)),
     (''payload-sha256'', JStr (en_payload_sha256 e)), (''provenance'', JStr (en_provenance e))] @
     (if en_kind e = KindReply
      then [(''reply-status'', JStr (en_reply_status e)), (''reply-error-code'', nullableString (en_reply_error_code e))]
      else [])"

text \<open>The fields of an envelope in the order of its header.\<close>

definition header_fields :: "Envelope \<Rightarrow> string list" where
  "header_fields e =
     (let fields = (if en_from_herdr_name e = '''' then envelopeFields
            else take 6 envelopeFields @ ''from-herdr-name'' # drop 6 envelopeFields)
      in if en_kind e = KindReply
         then takeWhile (\<lambda>f. f \<noteq> ''sent-at'') fields @ ''reply-status'' #
              (if en_reply_error_code e \<noteq> '''' then [''reply-error-code''] else []) @ drop 15 envelopeFields
         else fields)"

definition header_line :: "Envelope \<Rightarrow> string \<Rightarrow> string" where
  "header_line e f =
     f @ '': '' @ render_json (case map_of (header_values e) f of None \<Rightarrow> JNull | Some v \<Rightarrow> v) @ [CHR 0x0A]"

definition marker :: string where
  "marker = ''['' @ EnvelopeSchema @ '']'' @ [CHR 0x0A]"

definition RenderEnvelope :: "string \<Rightarrow> Envelope \<Rightarrow> string + string" where
  "RenderEnvelope now e =
     bindE (normalizedForRender now e) (\<lambda>e.
     Inr (marker @ concat (map (header_line e) (header_fields e)) @ ''---'' @ [CHR 0x0A] @ en_body e))"

section \<open>Parsing\<close>

text \<open>\<open>strings.Cut\<close> at the first \<open>": "\<close>.\<close>

fun cut_header :: "string \<Rightarrow> (string \<times> string) option" where
  "cut_header (a # b # s) =
     (if a = CHR '':'' \<and> b = CHR '' '' then Some ([], s)
      else map_option (\<lambda>(k, r). (a # k, r)) (cut_header (b # s)))"
| "cut_header s = None"

definition parseScalar :: "string \<Rightarrow> string + json" where
  "parseScalar raw =
     (if CHR 0x0A \<in> set raw \<or> CHR 0x0D \<in> set raw then Inl ''mektup: header scalar spans lines''
      else case parse_json raw of
             None \<Rightarrow> Inl ''mektup: malformed JSON scalar''
           | Some (JArr _) \<Rightarrow> Inl ''mektup: header value must be a JSON scalar string, boolean, or null''
           | Some (JObj _) \<Rightarrow> Inl ''mektup: header value must be a JSON scalar string, boolean, or null''
           | Some v \<Rightarrow> Inr v)"

type_synonym header = "(string \<times> json) list"

definition getString :: "header \<Rightarrow> string \<Rightarrow> bool \<Rightarrow> string + string" where
  "getString hdr name nullable =
     (case map_of hdr name of
        None \<Rightarrow> Inl (''mektup: missing header '' @ name)
      | Some JNull \<Rightarrow> if nullable then Inr '''' else Inl (''mektup: header cannot be null: '' @ name)
      | Some (JStr s) \<Rightarrow> Inr s
      | Some _ \<Rightarrow> Inl (''mektup: header must be a JSON string: '' @ name))"

definition getBool :: "header \<Rightarrow> string \<Rightarrow> string + bool" where
  "getBool hdr name =
     (case map_of hdr name of
        None \<Rightarrow> Inl (''mektup: missing header '' @ name)
      | Some (JBool b) \<Rightarrow> Inr b
      | Some _ \<Rightarrow> Inl (''mektup: header must be a JSON boolean: '' @ name))"

text \<open>\<open>json.Unmarshal\<close> into a \<open>uint64\<close>, which leaves it at zero for a null.\<close>

definition getUint :: "header \<Rightarrow> string \<Rightarrow> string + 64 word" where
  "getUint hdr name =
     (case map_of hdr name of
        None \<Rightarrow> Inl (''mektup: missing header '' @ name)
      | Some v \<Rightarrow> (case into_uint (\<lambda>w _. w) v 0 of
                     None \<Rightarrow> Inl (''mektup: header must be an unsigned integer: '' @ name)
                   | Some w \<Rightarrow> Inr w))"

definition getNullableOptional :: "header \<Rightarrow> string \<Rightarrow> string + string" where
  "getNullableOptional hdr name = (if map_of hdr name = None then Inr '''' else getString hdr name True)"

definition getOptionalString :: "header \<Rightarrow> string \<Rightarrow> string + string" where
  "getOptionalString hdr name = (if map_of hdr name = None then Inr '''' else getString hdr name False)"

definition known_fields :: "string list" where
  "known_fields = envelopeFields @ [''from-herdr-name'', ''reply-status'', ''reply-error-code'']"

text \<open>One header line: the fields read so far and the names seen.\<close>

definition parse_line :: "header \<times> string list \<Rightarrow> string \<Rightarrow> string + header \<times> string list" where
  "parse_line st line =
     (if line = '''' \<or> CHR 0x0D \<in> set line then Inl ''mektup: malformed header line''
      else case cut_header line of
             None \<Rightarrow> Inl ''mektup: malformed header line''
           | Some (key, raw) \<Rightarrow>
               if key = '''' then Inl ''mektup: malformed header line''
               else if key \<notin> set known_fields then
                 if parse_json raw = None then Inl ''mektup: malformed unknown header'' else Inr st
               else if key \<in> set (snd st) then Inl ''mektup: duplicate header''
               else if key = ''from-herdr-name'' then
                 (case parse_json raw of
                    None \<Rightarrow> Inl ''mektup: malformed from-herdr-name header''
                  | Some (JStr name) \<Rightarrow>
                      Inr ((if ValidHerdrDisplayName name then (key, JStr name) # fst st else fst st), key # snd st)
                  | Some _ \<Rightarrow> Inr (fst st, key # snd st))
               else bindE (in_context key (parseScalar raw)) (\<lambda>v. Inr ((key, v) # fst st, key # snd st)))"

text \<open>The header loop; it gives the fields and the body.\<close>

function parse_header :: "header \<times> string list \<Rightarrow> string \<Rightarrow> string + header \<times> string" where
  "parse_header st rest =
     (if CHR 0x0A \<notin> set rest then Inl ''mektup: missing header delimiter''
      else
        let (line, rest') = cut_at CHR 0x0A rest in
        if line = ''---'' then Inr (fst st, rest')
        else bindE (parse_line st line) (\<lambda>st'. parse_header st' rest'))"
  by auto
termination
proof (relation "measure (\<lambda>(_, rest). length rest)", simp, clarsimp simp: cut_at_def)
  fix rest :: string
  assume "CHR 0x0A \<in> set rest"
  then show "length (dropWhile (\<lambda>x. x \<noteq> CHR 0x0A) rest) - Suc 0 < length rest"
    using length_dropWhile_le[of "\<lambda>x. x \<noteq> CHR 0x0A" rest] by (cases rest) auto
qed

declare parse_header.simps [simp del]

text \<open>The envelope of a parsed header.\<close>

definition build_envelope :: "header \<Rightarrow> string \<Rightarrow> string + Envelope" where
  "build_envelope hdr body =
     bindE (getString hdr ''message-id'' False) (\<lambda>message_id.
     bindE (getString hdr ''kind'' False) (\<lambda>kind.
     bindE (getString hdr ''from-endpoint-id'' False) (\<lambda>from_endpoint.
     bindE (getString hdr ''from'' True) (\<lambda>sender.
     bindE (getString hdr ''from-kind'' False) (\<lambda>from_kind.
     bindE (getString hdr ''from-herdr'' True) (\<lambda>from_herdr.
     let herdr_name = (if from_herdr = '''' then ''''
           else case getOptionalString hdr ''from-herdr-name'' of Inl _ \<Rightarrow> '''' | Inr s \<Rightarrow> s) in
     bindE (getString hdr ''to-endpoint-id'' False) (\<lambda>to_endpoint.
     bindE (getString hdr ''to'' False) (\<lambda>target.
     bindE (getString hdr ''requested-target'' False) (\<lambda>requested.
     bindE (getString hdr ''in-reply-to'' True) (\<lambda>in_reply.
     bindE (getBool hdr ''reply-requested'') (\<lambda>reply_requested.
     bindE (getString hdr ''reply-endpoint-id'' True) (\<lambda>reply_endpoint.
     bindE (getString hdr ''reply-to'' True) (\<lambda>reply_to.
     bindE (getString hdr ''reply-custody-endpoint-id'' True) (\<lambda>custody_endpoint.
     bindE (getString hdr ''reply-custody-store-id'' True) (\<lambda>custody_store.
     bindE (getNullableOptional hdr ''reply-status'') (\<lambda>reply_status.
     bindE (getNullableOptional hdr ''reply-error-code'') (\<lambda>reply_error.
     bindE (getString hdr ''sent-at'' False) (\<lambda>sent_at.
     bindE (getUint hdr ''payload-bytes'') (\<lambda>payload_bytes.
     bindE (getString hdr ''payload-sha256'' False) (\<lambda>digest.
     bindE (getString hdr ''provenance'' False) (\<lambda>provenance.
     bindE (check (\<not> (kind = KindMessage \<and> map_of hdr ''reply-status'' \<noteq> None)) ''mektup: reply-status is not valid on a message'') (\<lambda>_.
     bindE (check (\<not> (kind = KindMessage \<and> map_of hdr ''reply-error-code'' \<noteq> None))
              ''mektup: reply-error-code is not valid on a message'') (\<lambda>_.
     bindE (check (\<not> (kind = KindReply \<and> map_of hdr ''reply-status'' = None)) ''mektup: reply-status is required on a reply'') (\<lambda>_.
     Inr \<lparr>en_message_id = message_id, en_kind = kind, en_from_endpoint_id = from_endpoint, en_from = sender,
       en_from_kind = from_kind, en_from_herdr = from_herdr, en_from_herdr_name = herdr_name,
       en_to_endpoint_id = to_endpoint, en_to = target, en_requested_target = requested, en_in_reply_to = in_reply,
       en_reply_requested = reply_requested, en_reply_endpoint_id = reply_endpoint, en_reply_to = reply_to,
       en_reply_custody_endpoint_id = custody_endpoint, en_reply_custody_store_id = custody_store,
       en_reply_status = reply_status, en_reply_error_code = reply_error, en_sent_at = sent_at,
       en_payload_bytes = payload_bytes, en_payload_sha256 = digest, en_provenance = provenance,
       en_body = body\<rparr>))))))))))))))))))))))))"

definition ParseEnvelope :: "string \<Rightarrow> string + Envelope" where
  "ParseEnvelope input =
     (if \<not> utf8_valid input then Inl ''mektup: envelope is not valid UTF-8''
      else if \<not> has_prefix input marker then Inl ''mektup: unsupported or malformed envelope version''
      else bindE (parse_header ([], []) (trim_prefix input marker)) (\<lambda>(hdr, body).
           bindE (build_envelope hdr body) (\<lambda>e.
           bindE (envelope_validate e) (\<lambda>_. Inr e))))"

end
