(* ===== verification/Envelope_Laws.thy ===== *)
theory Envelope_Laws
  imports Envelope
begin

text \<open>
  The envelope's text and its parser: what \<open>RenderEnvelope\<close> writes, \<open>ParseEnvelope\<close> reads back as
  the same envelope, whatever the body holds.
\<close>

section \<open>Header text is UTF-8 and one line per field\<close>

lemma utf8_escape_byte: "byte c < 0x80 \<Longrightarrow> utf8_valid (escape_byte c)"
proof -
  assume "byte c < 0x80"
  moreover have "byte (hex_digit (byte c div 16)) < 0x80 \<and> byte (hex_digit (byte c mod 16)) < 0x80"
    using less_mult_imp_div_less[of "byte c" 16 16] hex_digit_lower[of "byte c div 16"] hex_digit_lower[of "byte c mod 16"] byte_bound[of c]
    by (auto simp: is_lower_hex_def is_digit_def in_range_def byte_def)
  ultimately show ?thesis by (intro utf8_valid_all_ascii) (simp add: escape_byte_def byte_def)
qed

lemma utf8_take_rune: "rune_size s \<noteq> 0 \<Longrightarrow> utf8_valid (take (rune_size s) s)"
proof -
  assume n: "rune_size s \<noteq> 0"
  have "rune_size (take (rune_size s) s) = rune_size s" using rune_size_take[OF n, of "[]"] by simp
  then show ?thesis using n rune_size_le[of s] by (subst utf8_valid.simps) simp
qed

lemma utf8_quote_body: "utf8_valid (quote_body s)"
proof (induction s rule: quote_body.induct)
  case (1 s)
  show ?case
  proof (cases s)
    case (Cons c r)
    show ?thesis
    proof (rule quote_body_cases[OF Cons])
      assume "rune_size s = 0" "quote_body s = CHR 0x5C # ''ufffd'' @ quote_body r"
      with "1.IH"(1)[OF Cons] show ?thesis by (simp add: utf8_valid_ascii byte_def)
    next
      assume n: "rune_size s = 1" and q: "quote_body s = escape_byte c @ quote_body r"
      then have "byte c < 0x80" using Cons by simp
      with "1.IH"(2)[OF Cons] n Cons q show ?thesis by (simp add: utf8_valid_append utf8_escape_byte)
    next
      fix x assume n: "2 \<le> rune_size s" "line_separator s = Some x"
        and q: "quote_body s = CHR 0x5C # ''u202'' @ x # quote_body (drop (rune_size s) s)"
      have "x = CHR ''8'' \<or> x = CHR ''9''" using n(2) by (auto simp: line_separator_def split: if_splits)
      moreover have "utf8_valid (quote_body (drop (rune_size s) s))" using "1.IH"(4)[OF Cons _ _ n(2)] n(1) by simp
      ultimately show ?thesis unfolding q by (auto simp: utf8_valid_ascii byte_def)
    next
      assume n: "2 \<le> rune_size s" "line_separator s = None"
        and q: "quote_body s = take (rune_size s) s @ quote_body (drop (rune_size s) s)"
      have "utf8_valid (quote_body (drop (rune_size s) s))" using "1.IH"(3)[OF Cons _ _ n(2)] n(1) by simp
      moreover have "utf8_valid (take (rune_size s) s)" using n(1) by (intro utf8_take_rune) simp
      ultimately show ?thesis unfolding q by (simp add: utf8_valid_append)
    qed
  qed simp
qed

text \<open>A JSON scalar that a header holds.\<close>

fun scalar_ok :: "json \<Rightarrow> bool" where
  "scalar_ok (JStr s) = utf8_valid s"
| "scalar_ok (JNum n) = (\<exists>w. JNum n = json_uint w)"
| "scalar_ok (JBool b) = True"
| "scalar_ok JNull = True"
| "scalar_ok v = False"

lemma decimal_ascii: "\<forall>c\<in>set (decimal (uint (w :: 64 word))). is_digit c"
  using decimal_nat_digits[of "nat (uint w)"] by (simp add: decimal_def list_all_iff)

lemma digit_ascii: "is_digit c \<Longrightarrow> byte c < 0x80"
  by (auto simp: is_digit_def in_range_def byte_def)

lemma utf8_render_scalar: "scalar_ok v \<Longrightarrow> utf8_valid (render_json v)"
proof (cases v)
  case (JStr s)
  then show ?thesis by (simp add: quote_def utf8_valid_ascii utf8_valid_append utf8_quote_body byte_def)
next
  case (JNum n)
  assume "scalar_ok v"
  then show ?thesis
    using decimal_ascii digit_ascii by (auto simp: JNum json_uint_def intro!: utf8_valid_all_ascii)
qed (auto simp: byte_def intro!: utf8_valid_all_ascii)

lemma hd_decimal_nat: "0 < n \<Longrightarrow> hd (decimal_nat n) \<noteq> CHR ''0''"
proof (induction n rule: decimal_nat.induct)
  case (1 n)
  show ?case
  proof (cases "n < 10")
    case True
    have "byte (char_of (48 + n)) \<noteq> byte CHR ''0''" using byte_of_digit[OF True] 1 by (simp add: byte_def)
    then show ?thesis using True by (subst decimal_nat.simps) auto
  next
    case False
    then show ?thesis using 1 decimal_nat_digits[of "n div 10"] by (subst decimal_nat.simps) auto
  qed
qed

lemma decimal_nat_literal: "number_literal (decimal_nat n)"
proof (cases "n = 0")
  case True
  have "char_of (48 :: nat) = CHR ''0''" by code_simp
  then show ?thesis unfolding True by (subst decimal_nat.simps)
    (simp add: number_literal_def lex_number_def lex_unsigned_def lex_int_def lex_frac_def lex_exp_def)
next
  case False
  obtain c r where d: "decimal_nat n = c # r" using decimal_nat_digits[of n] by (cases "decimal_nat n") auto
  have all: "list_all is_digit (c # r)" using decimal_nat_digits[of n] by (simp add: d)
  have tw: "takeWhile is_digit r = r" "dropWhile is_digit r = []"
    using all by (simp_all add: list_all_iff)
  have "c \<noteq> CHR ''0''" using hd_decimal_nat[of n] False by (simp add: d)
  moreover have "c \<noteq> CHR ''-''" using all by (auto simp: is_digit_def in_range_def)
  ultimately show ?thesis
    using all unfolding d
    by (simp add: number_literal_def lex_number_def lex_unsigned_def lex_int_def lex_frac_def lex_exp_def tw)
qed

lemma decimal_literal: "number_literal (decimal (uint (w :: 64 word)))"
  by (simp add: decimal_def decimal_nat_literal)

lemma check_values [simp]: "check True e = Inr ()" "check False e = Inl e"
  by (simp_all add: check_def)

lemma in_context_ok [simp]: "in_context c (Inr a) = Inr a"
  by (simp add: in_context_def)

lemma scalar_json_ok: "scalar_ok v \<Longrightarrow> json_ok v \<and> depth v = 0"
  by (cases v) (auto simp: json_uint_def decimal_literal)

lemma parse_scalar: "scalar_ok v \<Longrightarrow> parse_json (render_json v) = Some v"
  using scalar_json_ok[of v] by (intro parse_render) auto

lemma scalar_one_line: "scalar_ok v \<Longrightarrow> CHR 0x0A \<notin> set (render_json v) \<and> CHR 0x0D \<notin> set (render_json v)"
  using render_printable[of v] scalar_json_ok[of v] by (auto simp: no_control_def list_all_iff is_control_def byte_def)

section \<open>The header loop on a rendered header\<close>

definition header_entry :: "string \<times> json \<Rightarrow> string" where
  "header_entry kv = fst kv @ '': '' @ render_json (snd kv) @ [CHR 0x0A]"

definition entry_ok :: "string \<times> json \<Rightarrow> bool" where
  "entry_ok kv = (fst kv \<in> set known_fields \<and> scalar_ok (snd kv) \<and>
     (fst kv = ''from-herdr-name'' \<longrightarrow> (case snd kv of JStr s \<Rightarrow> ValidHerdrDisplayName s | _ \<Rightarrow> False)))"

lemma known_field_chars: "k \<in> set known_fields \<Longrightarrow> k \<noteq> [] \<and> CHR '':'' \<notin> set k \<and> CHR 0x0A \<notin> set k \<and> CHR 0x0D \<notin> set k \<and> hd k \<noteq> CHR ''-''"
  by (auto simp: known_fields_def envelopeFields_def)

lemma cut_header_key: "CHR '':'' \<notin> set k \<Longrightarrow> cut_header (k @ CHR '':'' # CHR '' '' # r) = Some (k, r)"
proof (induction k)
  case (Cons c k)
  then show ?case by (cases k) auto
qed simp

lemma parse_line_entry:
  assumes "entry_ok kv" "fst kv \<notin> set seen"
  shows "parse_line (hdr, seen) (fst kv @ '': '' @ render_json (snd kv)) = Inr (kv # hdr, fst kv # seen)"
proof -
  obtain k v where kv: "kv = (k, v)" by (cases kv)
  from assms have k: "k \<in> set known_fields" and v: "scalar_ok v" and s: "k \<notin> set seen" by (simp_all add: kv entry_ok_def)
  note kc = known_field_chars[OF k]
  have cut: "cut_header (k @ '': '' @ render_json v) = Some (k, render_json v)" using kc by (simp add: cut_header_key)
  have line: "k @ '': '' @ render_json v \<noteq> ''''" "CHR 0x0D \<notin> set (k @ '': '' @ render_json v)"
    using kc scalar_one_line[OF v] by auto
  have sc: "parseScalar (render_json v) = Inr v"
    using scalar_one_line[OF v] parse_scalar[OF v] v by (cases v) (auto simp: parseScalar_def)
  show ?thesis
  proof (cases "k = ''from-herdr-name''")
    case True
    with assms(1) obtain n where "v = JStr n" "ValidHerdrDisplayName n" by (auto simp: entry_ok_def kv split: json.splits)
    with True k s cut line parse_scalar[OF v] show ?thesis by (simp add: parse_line_def kv)
  next
    case False
    with k s cut line sc kc show ?thesis by (simp add: parse_line_def kv)
  qed
qed

lemma cut_line: "CHR 0x0A \<notin> set l \<Longrightarrow> cut_at CHR 0x0A (l @ CHR 0x0A # r) = (l, r)"
  by (induction l) (auto simp: cut_at_def)

lemma parse_header_entries:
  assumes "list_all entry_ok kvs" "distinct (map fst kvs)" "set (map fst kvs) \<inter> set seen = {}"
  shows "parse_header (hdr, seen) (concat (map header_entry kvs) @ ''---'' @ CHR 0x0A # body) = Inr (rev kvs @ hdr, body)"
  using assms
proof (induction kvs arbitrary: hdr seen)
  case Nil
  show ?case by (subst parse_header.simps) (simp add: cut_at_def)
next
  case (Cons kv kvs)
  let ?l = "fst kv @ '': '' @ render_json (snd kv)" and ?r = "concat (map header_entry kvs) @ ''---'' @ CHR 0x0A # body"
  have ok: "entry_ok kv" and new: "fst kv \<notin> set seen" using Cons.prems by auto
  then have k: "fst kv \<in> set known_fields" and v: "scalar_ok (snd kv)" by (simp_all add: entry_ok_def)
  have l: "CHR 0x0A \<notin> set ?l" using known_field_chars[OF k] scalar_one_line[OF v] by auto
  have "?l \<noteq> ''---''" using known_field_chars[OF k] by (cases "fst kv") auto
  then have "parse_header (hdr, seen) (?l @ CHR 0x0A # ?r) = parse_header (kv # hdr, fst kv # seen) ?r"
    using cut_line[OF l, of ?r] parse_line_entry[OF ok new, of hdr] by (subst parse_header.simps) simp
  moreover have "parse_header (kv # hdr, fst kv # seen) ?r = Inr (rev kvs @ kv # hdr, body)"
    using Cons.prems by (intro Cons.IH) auto
  moreover have "concat (map header_entry (kv # kvs)) @ ''---'' @ CHR 0x0A # body = ?l @ CHR 0x0A # ?r"
    by (simp add: header_entry_def[of kv])
  ultimately show ?case by simp
qed


section \<open>The header of an envelope\<close>

definition header_value :: "Envelope \<Rightarrow> string \<Rightarrow> json" where
  "header_value e f = (case map_of (header_values e) f of None \<Rightarrow> JNull | Some v \<Rightarrow> v)"

definition header_entries :: "Envelope \<Rightarrow> (string \<times> json) list" where
  "header_entries e = map (\<lambda>f. (f, header_value e f)) (header_fields e)"

lemma header_lines: "concat (map (header_line e) (header_fields e)) = concat (map header_entry (header_entries e))"
proof -
  have "header_line e = (\<lambda>f. header_entry (f, header_value e f))"
    by (rule ext) (simp add: header_line_def header_entry_def header_value_def)
  then show ?thesis by (simp add: header_entries_def comp_def)
qed

lemma header_fields_facts:
  "set (header_fields e) = set envelopeFields \<union> (if en_from_herdr_name e = '''' then {} else {''from-herdr-name''}) \<union>
     (if en_kind e = KindReply then {''reply-status''} \<union> (if en_reply_error_code e = '''' then {} else {''reply-error-code''}) else {})"
  "distinct (header_fields e)"
  by (cases "en_from_herdr_name e = ''''"; cases "en_kind e = KindReply"; cases "en_reply_error_code e = ''''";
      simp add: header_fields_def envelopeFields_def insert_commute)+

lemma header_value_simps:
  "header_value e ''message-id'' = JStr (en_message_id e)"
  "header_value e ''kind'' = JStr (en_kind e)"
  "header_value e ''from-endpoint-id'' = JStr (en_from_endpoint_id e)"
  "header_value e ''from'' = nullableString (en_from e)"
  "header_value e ''from-kind'' = JStr (en_from_kind e)"
  "header_value e ''from-herdr'' = nullableString (en_from_herdr e)"
  "header_value e ''from-herdr-name'' = JStr (en_from_herdr_name e)"
  "header_value e ''to-endpoint-id'' = JStr (en_to_endpoint_id e)"
  "header_value e ''to'' = JStr (en_to e)"
  "header_value e ''requested-target'' = JStr (en_requested_target e)"
  "header_value e ''in-reply-to'' = nullableString (en_in_reply_to e)"
  "header_value e ''reply-requested'' = JBool (en_reply_requested e)"
  "header_value e ''reply-endpoint-id'' = nullableString (en_reply_endpoint_id e)"
  "header_value e ''reply-to'' = nullableString (en_reply_to e)"
  "header_value e ''reply-custody-endpoint-id'' = nullableString (en_reply_custody_endpoint_id e)"
  "header_value e ''reply-custody-store-id'' = nullableString (en_reply_custody_store_id e)"
  "header_value e ''sent-at'' = JStr (en_sent_at e)"
  "header_value e ''payload-bytes'' = json_uint (en_payload_bytes e)"
  "header_value e ''payload-sha256'' = JStr (en_payload_sha256 e)"
  "header_value e ''provenance'' = JStr (en_provenance e)"
  "en_kind e = KindReply \<Longrightarrow> header_value e ''reply-status'' = JStr (en_reply_status e)"
  "en_kind e = KindReply \<Longrightarrow> header_value e ''reply-error-code'' = nullableString (en_reply_error_code e)"
  by (simp_all add: header_value_def header_values_def)

lemma header_lookup:
  "map_of (rev (header_entries e)) f = (if f \<in> set (header_fields e) then Some (header_value e f) else None)"
proof -
  have "map_of (rev (header_entries e)) = map_of (header_entries e)"
    using header_fields_facts(2)[of e] by (subst map_of_inject_set) (simp_all add: header_entries_def comp_def rev_map)
  then show ?thesis by (simp add: header_entries_def map_of_map_restrict restrict_map_def)
qed

lemma getString_value:
  "f \<in> set (header_fields e) \<Longrightarrow> header_value e f = JStr s \<Longrightarrow> getString (rev (header_entries e)) f b = Inr s"
  "f \<in> set (header_fields e) \<Longrightarrow> header_value e f = nullableString s \<Longrightarrow> getString (rev (header_entries e)) f True = Inr s"
  by (simp_all add: getString_def header_lookup nullableString_def)

text \<open>An envelope that validates, in the form that is rendered.\<close>

definition canonical_envelope :: "Envelope \<Rightarrow> bool" where
  "canonical_envelope e =
     (envelope_validate e = Inr () \<and>
      (en_from_herdr_name e \<noteq> '''' \<longrightarrow> en_from_herdr e \<noteq> '''' \<and> ValidHerdrDisplayName (en_from_herdr_name e)))"

lemma reply_fields_of_message:
  "validate_reply_fields e = Inr u \<Longrightarrow> en_kind e \<noteq> KindReply \<Longrightarrow>
     en_in_reply_to e = '''' \<and> en_reply_status e = '''' \<and> en_reply_error_code e = ''''"
  by (simp add: validate_reply_fields_def)

lemma build_rendered:
  assumes "canonical_envelope e"
  shows "build_envelope (rev (header_entries e)) (en_body e) = Inr e"
proof -
  let ?h = "rev (header_entries e)"
  have known: "f \<in> set (header_fields e)" if "f \<in> set envelopeFields" for f using that by (simp add: header_fields_facts)
  have kinds: "en_kind e = KindMessage \<or> en_kind e = KindReply" and rf: "validate_reply_fields e = Inr ()"
    using assms by (simp_all add: canonical_envelope_def envelope_validate_def bindE_Inr_iff)
  have diff: "KindMessage \<noteq> KindReply" by (simp add: KindMessage_def KindReply_def)
  have optional: "map_of ?h ''reply-status'' = (if en_kind e = KindReply then Some (JStr (en_reply_status e)) else None)"
    "map_of ?h ''reply-error-code'' = (if en_kind e = KindReply \<and> en_reply_error_code e \<noteq> '''' then Some (JStr (en_reply_error_code e)) else None)"
    "map_of ?h ''from-herdr-name'' = (if en_from_herdr_name e = '''' then None else Some (JStr (en_from_herdr_name e)))"
    by (simp_all add: header_lookup header_fields_facts header_value_simps nullableString_def envelopeFields_def)
  have "getNullableOptional ?h ''reply-status'' = Inr (en_reply_status e)"
    "getNullableOptional ?h ''reply-error-code'' = Inr (en_reply_error_code e)"
    using optional(1,2) reply_fields_of_message[OF rf] by (auto simp: getNullableOptional_def getString_def)
  moreover have "(if en_from_herdr e = '''' then '''' else case getOptionalString ?h ''from-herdr-name'' of Inl _ \<Rightarrow> '''' | Inr s \<Rightarrow> s)
      = en_from_herdr_name e"
    using optional(3) assms by (auto simp: getOptionalString_def getString_def canonical_envelope_def)
  moreover have "getUint ?h ''payload-bytes'' = Inr (en_payload_bytes e)"
    by (simp add: getUint_def header_lookup known envelopeFields_def header_value_simps)
  moreover have "getBool ?h ''reply-requested'' = Inr (en_reply_requested e)"
    by (simp add: getBool_def header_lookup known envelopeFields_def header_value_simps)
  moreover note strings = header_value_simps(1-3,5,8-10,17,19,20)[THEN getString_value(1)[rotated]]
    header_value_simps(4,6,11,13-16)[THEN getString_value(2)[rotated]]
  ultimately show ?thesis
    using kinds diff optional(1,2) reply_fields_of_message[OF rf]
    unfolding build_envelope_def Let_def
    by (auto simp: strings known envelopeFields_def intro!: Envelope.equality)
qed


section \<open>Round trip\<close>

text \<open>The sender's free text: all else in a valid header is ASCII.\<close>

definition envelope_utf8 :: "Envelope \<Rightarrow> bool" where
  "envelope_utf8 e = list_all utf8_valid [en_from e, en_from_herdr e, en_to e, en_requested_target e,
     en_reply_to e, en_reply_error_code e, en_sent_at e]"

lemma id_utf8:
  assumes "ValidateID v p = Inr u" "\<forall>c\<in>set p. byte c < 0x80"
  shows "utf8_valid v"
  using assms(1)
proof (rule ValidateID_chars)
  fix uuid assume v: "v = p @ uuid" and u: "list_all (\<lambda>c. is_lower_hex c \<or> c = CHR ''-'') uuid"
  have "byte c < 0x80" if "c \<in> set uuid" for c
    using u that by (auto simp: list_all_iff is_lower_hex_def is_digit_def in_range_def byte_def)
  with assms(2) show ?thesis unfolding v by (intro utf8_valid_all_ascii) auto
qed

lemma prefix_ascii:
  "\<forall>c\<in>set MessageIDPrefix. byte c < 0x80" "\<forall>c\<in>set EndpointIDPrefix. byte c < 0x80" "\<forall>c\<in>set StoreIDPrefix. byte c < 0x80"
  by (simp_all add: MessageIDPrefix_def EndpointIDPrefix_def StoreIDPrefix_def byte_def)

lemma digest_utf8: "utf8_valid (sha256Digest b)"
proof (rule utf8_valid_all_ascii)
  show "\<forall>c\<in>set (sha256Digest b). byte c < 0x80"
    using hex_encode_lower[of _ "sha256 b"]
    by (force simp: sha256Digest_def byte_def is_lower_hex_def is_digit_def in_range_def)
qed

lemma name_utf8:
  assumes "ValidHerdrDisplayName n"
  shows "utf8_valid n"
proof (rule utf8_valid_all_ascii, rule ballI)
  fix c assume "c \<in> set n"
  with assms have "is_lower c \<or> is_digit c \<or> c = CHR ''_'' \<or> c = CHR ''-''"
    by (cases n) (auto simp: ValidHerdrDisplayName_def list_all_iff)
  then show "byte c < 0x80" by (auto simp: is_lower_def is_digit_def in_range_def byte_def)
qed

lemma words_utf8:
  "utf8_valid KindMessage" "utf8_valid KindReply" "utf8_valid ''agent''" "utf8_valid ''human''" "utf8_valid ReplySuccess"
  "utf8_valid ReplyError" "utf8_valid ''observed''"
  by code_simp+

lemma entries_ok:
  assumes "canonical_envelope e" "envelope_utf8 e"
  shows "list_all entry_ok (header_entries e)"
proof -
  note v = assms(1)[unfolded canonical_envelope_def envelope_validate_def bindE_Inr_iff, simplified]
  have ids: "utf8_valid (en_message_id e)" "utf8_valid (en_from_endpoint_id e)" "utf8_valid (en_to_endpoint_id e)"
    using v id_utf8 prefix_ascii by blast+
  have route: "utf8_valid (en_reply_endpoint_id e)" "utf8_valid (en_reply_custody_endpoint_id e)" "utf8_valid (en_reply_custody_store_id e)"
    using v id_utf8 prefix_ascii by (auto simp: validate_reply_route_def bindE_Inr_iff split: if_split_asm)
  have reply: "utf8_valid (en_in_reply_to e)" "utf8_valid (en_reply_status e)"
    using v id_utf8 prefix_ascii words_utf8 by (auto simp: validate_reply_fields_def bindE_Inr_iff split: if_split_asm)
  have rest: "utf8_valid (en_kind e)" "utf8_valid (en_from_kind e)" "utf8_valid (en_payload_sha256 e)" "utf8_valid (en_provenance e)"
    using v words_utf8 digest_utf8 by (auto simp: validate_payload_def bindE_Inr_iff)
  have free: "utf8_valid (en_from e)" "utf8_valid (en_from_herdr e)" "utf8_valid (en_to e)" "utf8_valid (en_requested_target e)"
    "utf8_valid (en_reply_to e)" "utf8_valid (en_reply_error_code e)" "utf8_valid (en_sent_at e)"
    using assms(2) by (simp_all add: envelope_utf8_def)
  have null: "scalar_ok (nullableString s) = utf8_valid s" for s by (simp add: nullableString_def)
  have num: "scalar_ok (json_uint w)" for w by (auto simp: json_uint_def)
  have "entry_ok (f, header_value e f)" if f: "f \<in> set (header_fields e)" for f
  proof -
    have name: "en_from_herdr_name e \<noteq> '''' \<Longrightarrow> ValidHerdrDisplayName (en_from_herdr_name e)" using v by blast
    have "f \<in> set known_fields"
      using f by (auto simp: header_fields_facts known_fields_def split: if_split_asm)
    moreover have "scalar_ok (header_value e f)"
      using f ids route reply rest free null num name name_utf8
      by (auto simp: header_fields_facts envelopeFields_def header_value_simps split: if_split_asm)
    moreover have "f = ''from-herdr-name'' \<Longrightarrow> ValidHerdrDisplayName (en_from_herdr_name e)"
      using f name by (auto simp: header_fields_facts envelopeFields_def split: if_split_asm)
    ultimately show ?thesis by (auto simp: entry_ok_def header_value_simps)
  qed
  then show ?thesis by (simp add: header_entries_def list_all_iff)
qed

lemma utf8_header: "list_all entry_ok kvs \<Longrightarrow> utf8_valid (concat (map header_entry kvs))"
proof (induction kvs)
  case (Cons kv kvs)
  have key: "utf8_valid (fst kv)"
  proof -
    have "\<forall>k\<in>set known_fields. utf8_valid k" by code_simp
    with Cons.prems show ?thesis by (simp add: entry_ok_def)
  qed
  have "utf8_valid (header_entry kv)"
    using Cons.prems key utf8_render_scalar[of "snd kv"]
    by (simp add: header_entry_def entry_ok_def utf8_valid_append utf8_valid_ascii byte_def)
  then show ?case using Cons by (simp add: utf8_valid_append)
qed simp

lemma normalized_canonical: "normalizedForRender now e = Inr e' \<Longrightarrow> canonical_envelope e'"
  by (auto simp: normalizedForRender_def canonical_envelope_def bindE_Inr_iff Let_def)

text \<open>
  C28: An envelope survives its target-visible text. Whatever its body holds (lines that look like
  headers or delimiters, an empty body, any UTF-8), what \<open>RenderEnvelope\<close> writes, \<open>ParseEnvelope\<close>
  accepts and reads back as the given envelope, field by field the same, except that byte count and
  digest are those of the body, an absent time and provenance are filled in, and a Herdr display name
  is dropped when it is not a valid one or comes without a Herdr address. The free-text header
  fields and the clock's text must be UTF-8 (\<open>envelope_utf8\<close>).
\<close>

theorem envelope_round_trip:
  assumes "RenderEnvelope now e = Inr s" "envelope_utf8 e" "utf8_valid now"
  shows "ParseEnvelope s = Inr (e\<lparr>en_payload_bytes := body_bytes (en_body e), en_payload_sha256 := sha256Digest (en_body e),
    en_sent_at := (if en_sent_at e = '''' then now else en_sent_at e),
    en_provenance := (if en_provenance e = '''' then ''observed'' else en_provenance e),
    en_from_herdr_name := (if en_from_herdr e \<noteq> '''' \<and> ValidHerdrDisplayName (en_from_herdr_name e)
      then en_from_herdr_name e else '''')\<rparr>)"
proof -
  obtain e' where n: "normalizedForRender now e = Inr e'"
    and s: "s = marker @ concat (map header_entry (header_entries e')) @ ''---'' @ CHR 0x0A # en_body e'"
    using assms(1) by (auto simp: RenderEnvelope_def bindE_Inr_iff header_lines)
  have c: "canonical_envelope e'" using n by (rule normalized_canonical)
  have body: "en_body e' = en_body e" "utf8_valid (en_body e)" and u: "envelope_utf8 e'"
    using n assms(2,3) by (auto simp: normalizedForRender_def bindE_Inr_iff Let_def envelope_utf8_def)
  note ok = entries_ok[OF c u]
  have "utf8_valid marker" by code_simp
  then have "utf8_valid s"
    using utf8_header[OF ok] body by (simp add: s utf8_valid_append utf8_valid_ascii byte_def)
  moreover have "parse_header ([], []) (trim_prefix s marker) = Inr (rev (header_entries e'), en_body e')"
    using parse_header_entries[OF ok, of "[]" "[]" "en_body e'"] header_fields_facts(2)[of e']
    by (simp add: s header_entries_def comp_def)
  moreover have "envelope_validate e' = Inr ()" using c by (simp add: canonical_envelope_def)
  ultimately have "ParseEnvelope s = Inr e'"
    using build_rendered[OF c] by (simp add: ParseEnvelope_def) (simp add: s)
  with n show ?thesis by (auto simp: normalizedForRender_def bindE_Inr_iff Let_def)
qed

section \<open>Samples\<close>

definition sample_envelope :: Envelope where
  "sample_envelope = \<lparr>en_message_id = ''msg_01890000-0000-7000-8000-000000000005'', en_kind = KindReply,
     en_from_endpoint_id = ''ep_01890000-0000-7000-8000-000000000003'', en_from = ''codex://b/thread/2'', en_from_kind = ''agent'',
     en_from_herdr = ''herdr://b/agent/worker'', en_from_herdr_name = ''worker'',
     en_to_endpoint_id = ''ep_01890000-0000-7000-8000-000000000004'', en_to = ''codex://a/thread/1'',
     en_requested_target = ''codex://a/thread/1'', en_in_reply_to = ''msg_01890000-0000-7000-8000-000000000006'',
     en_reply_requested = False, en_reply_endpoint_id = '''', en_reply_to = '''', en_reply_custody_endpoint_id = '''',
     en_reply_custody_store_id = '''', en_reply_status = ReplyError, en_reply_error_code = ''busy'',
     en_sent_at = ''2026-01-02T03:04:05Z'', en_payload_bytes = 0, en_payload_sha256 = '''', en_provenance = '''',
     en_body = ''---'' @ [CHR 0x0A] @ ''kind: 1''\<rparr>"

text \<open>The request that the sample replies to.\<close>

definition sample_request :: Envelope where
  "sample_request = sample_envelope\<lparr>en_message_id := ''msg_01890000-0000-7000-8000-000000000006'', en_kind := KindMessage,
     en_from_herdr := '''', en_from_herdr_name := '''', en_in_reply_to := '''', en_reply_requested := True,
     en_reply_endpoint_id := ''ep_01890000-0000-7000-8000-000000000004'', en_reply_to := ''codex://a/thread/1'',
     en_reply_custody_endpoint_id := ''ep_01890000-0000-7000-8000-000000000004'',
     en_reply_custody_store_id := ''store_01890000-0000-7000-8000-000000000007'', en_reply_status := '''', en_reply_error_code := ''''\<rparr>"

definition with_payload :: "Envelope \<Rightarrow> Envelope" where
  "with_payload e = e\<lparr>en_payload_bytes := body_bytes (en_body e), en_payload_sha256 := sha256Digest (en_body e),
     en_provenance := ''observed''\<rparr>"

lemma lower_hex_lower: "is_lower_hex c \<Longrightarrow> lower_char c = c"
  by (auto simp: lower_char_def is_upper_def is_lower_hex_def is_digit_def in_range_def)

lemma digest_shape:
  "length (sha256Digest b) = 71" "has_prefix (sha256Digest b) ''sha256:''" "to_lower (sha256Digest b) = sha256Digest b"
proof -
  have "map lower_char (hex_encode (sha256 b)) = hex_encode (sha256 b)"
    using hex_encode_lower lower_hex_lower by (intro map_idI) blast
  moreover have "to_lower ''sha256:'' = ''sha256:''" by code_simp
  ultimately show "to_lower (sha256Digest b) = sha256Digest b" by (simp add: sha256Digest_def to_lower_def)
qed (simp_all add: sha256Digest_def length_sha256 has_prefix_def)

lemma with_payload_valid:
  assumes "en_kind e = KindMessage \<or> en_kind e = KindReply" "ValidateID (en_message_id e) MessageIDPrefix = Inr ()"
    "ValidateID (en_from_endpoint_id e) EndpointIDPrefix = Inr ()" "ValidateID (en_to_endpoint_id e) EndpointIDPrefix = Inr ()"
    "en_to e \<noteq> ''''" "en_requested_target e \<noteq> ''''" "en_from_kind e = ''agent''" "en_from e \<noteq> ''''"
    "validate_reply_fields e = Inr ()" "validate_reply_route e = Inr ()" "validateAddresses e = Inr ()"
    "en_sent_at e \<noteq> ''''" "parse_rfc3339 (en_sent_at e) \<noteq> None" "has_suffix (en_sent_at e) ''Z''" "utf8_valid (en_body e)"
  shows "envelope_validate (with_payload e) = Inr ()"
proof -
  have "validate_reply_fields (with_payload e) = validate_reply_fields e"
    "validate_reply_route (with_payload e) = validate_reply_route e" "validateAddresses (with_payload e) = validateAddresses e"
    by (simp_all add: with_payload_def validate_reply_fields_def validate_reply_route_def validateAddresses_def)
  moreover have "validate_payload (with_payload e) = Inr ()"
    using assms(12-15) digest_shape[of "en_body e"] by (simp add: with_payload_def validate_payload_def)
  ultimately show ?thesis using assms(1-11) by (simp add: envelope_validate_def) (simp add: with_payload_def)
qed

lemma sample_envelope_valid: "envelope_validate (with_payload sample_envelope) = Inr ()"
  by (rule with_payload_valid) code_simp+

lemma sample_request_valid: "envelope_validate (with_payload sample_request) = Inr ()"
  by (rule with_payload_valid) code_simp+

theorem envelope_round_trip_witness:
  "\<exists>s. RenderEnvelope '''' sample_envelope = Inr s \<and> ParseEnvelope s = Inr (with_payload sample_envelope)"
proof -
  have n: "normalizedForRender '''' sample_envelope = Inr (with_payload sample_envelope)"
  proof -
    have "ValidHerdrDisplayName (en_from_herdr_name sample_envelope)" "utf8_valid (en_body sample_envelope)" by code_simp+
    moreover have "with_payload sample_envelope = sample_envelope\<lparr>en_payload_bytes := body_bytes (en_body sample_envelope),
       en_payload_sha256 := sha256Digest (en_body sample_envelope), en_sent_at := en_sent_at sample_envelope,
       en_provenance := ''observed'', en_from_herdr_name := en_from_herdr_name sample_envelope\<rparr>"
      by (simp add: with_payload_def)
    moreover have "en_sent_at sample_envelope \<noteq> ''''" "en_from_herdr sample_envelope \<noteq> ''''" "en_provenance sample_envelope = ''''"
      "en_payload_bytes sample_envelope = 0" "en_payload_sha256 sample_envelope = ''''"
      by (simp_all add: sample_envelope_def)
    ultimately show ?thesis using sample_envelope_valid by (simp add: normalizedForRender_def Let_def)
  qed
  then obtain s where s: "RenderEnvelope '''' sample_envelope = Inr s" by (auto simp: RenderEnvelope_def)
  moreover have "envelope_utf8 sample_envelope" by code_simp
  moreover have "ValidHerdrDisplayName (en_from_herdr_name sample_envelope)" by code_simp
  ultimately show ?thesis
    using envelope_round_trip[OF s] by (simp add: with_payload_def) (simp add: sample_envelope_def)
qed

section \<open>Replies\<close>

text \<open>
  C29: A reply is only accepted for a message that asked for one. If a valid reply passes
  \<open>ValidateReplyFor\<close> against a valid message, that message had requested a reply, the reply names
  it, and the reply is addressed to the thread and endpoint of its reply route, where
  \<open>ValidateAddressToThread\<close> accepts it.
\<close>

theorem reply_answers_a_request:
  assumes "envelope_validate reply = Inr ()" "envelope_validate original = Inr ()" "ValidateReplyFor reply original = Inr ()"
  shows "en_reply_requested original \<and> en_in_reply_to reply = en_message_id original \<and>
    en_to_endpoint_id reply = en_reply_endpoint_id original \<and>
    ValidateAddressToThread (en_reply_to original) reply = Inr ()"
proof -
  have rel: "en_to reply = en_reply_to original" "en_to_endpoint_id reply = en_reply_endpoint_id original"
    "en_in_reply_to reply = en_message_id original"
    using assms(3) by (simp_all add: ValidateReplyFor_def split: if_split_asm)
  have target: "en_to reply \<noteq> ''''" "validateAddresses reply = Inr ()" and route: "validate_reply_route original = Inr ()"
    using assms(1,2) by (simp_all add: envelope_validate_def bindE_Inr_iff)
  then obtain a where "ParseThreadURI (en_to reply) = Inr a" by (auto simp: validateAddresses_def bindE_Inr_iff)
  moreover have "en_reply_requested original"
    using route target(1) rel(1) by (simp add: validate_reply_route_def split: if_split_asm)
  ultimately show ?thesis using rel target(1) by (simp add: ValidateAddressToThread_def)
qed

theorem reply_answers_a_request_witness:
  "en_reply_requested (with_payload sample_request) \<and>
   ValidateAddressToThread (en_reply_to (with_payload sample_request)) (with_payload sample_envelope) = Inr ()"
proof -
  have "ValidateReplyFor (with_payload sample_envelope) (with_payload sample_request) = Inr ()"
    by (simp add: ValidateReplyFor_def with_payload_def sample_request_def sample_envelope_def KindReply_def KindMessage_def)
  from reply_answers_a_request[OF sample_envelope_valid sample_request_valid this] show ?thesis by blast
qed

end
