(* ===== verification/State_Logic.thy ===== *)
theory State_Logic
  imports Prelude "HOL-Library.State_Monad"
begin

text \<open>
  Programs over an explicit state: \<open>('s, 'a) state\<close> of HOL-Library, a Go function that calls
  effectful ports. \<open>hoare P m Q\<close> is total correctness of such a program from the states \<open>P\<close>,
  \<open>keeps\<close> an invariant. A proof chains the rules over the program's text, one rule per
  statement; the rules of the ports come from the interface they implement.
\<close>

named_theorems hoare_rules \<open>Hoare rules for the statements of a state program\<close>

abbreviation (input) ret :: "'a \<Rightarrow> ('s, 'a) state" where
  "ret \<equiv> State_Monad.return"

definition hoare :: "('s \<Rightarrow> bool) \<Rightarrow> ('s, 'a) state \<Rightarrow> ('a \<Rightarrow> 's \<Rightarrow> bool) \<Rightarrow> bool" where
  "hoare P m Q = (\<forall>s x s'. P s \<longrightarrow> run_state m s = (x, s') \<longrightarrow> Q x s')"

abbreviation keeps :: "('s \<Rightarrow> bool) \<Rightarrow> ('s, 'a) state \<Rightarrow> bool" where
  "keeps P m \<equiv> hoare P m (\<lambda>_. P)"

lemma hoareI: "(\<And>s x s'. P s \<Longrightarrow> run_state m s = (x, s') \<Longrightarrow> Q x s') \<Longrightarrow> hoare P m Q"
  by (simp add: hoare_def)

lemma hoareD: "hoare P m Q \<Longrightarrow> run_state m s = (x, s') \<Longrightarrow> P s \<Longrightarrow> Q x s'"
  by (simp add: hoare_def)

lemma hoare_return: "(\<And>s. P s \<Longrightarrow> Q x s) \<Longrightarrow> hoare P (State_Monad.return x) Q"
  by (simp add: hoare_def)

lemma hoare_bind:
  "hoare P m R \<Longrightarrow> (\<And>x. hoare (R x) (f x) Q) \<Longrightarrow> hoare P (State_Monad.bind m f) Q"
  by (fastforce simp: hoare_def split: prod.splits)

lemma hoare_strengthen: "hoare P m Q \<Longrightarrow> (\<And>s. P' s \<Longrightarrow> P s) \<Longrightarrow> hoare P' m Q"
  unfolding hoare_def by blast

lemma hoare_weaken: "hoare P m Q \<Longrightarrow> (\<And>x s. Q x s \<Longrightarrow> Q' x s) \<Longrightarrow> hoare P m Q'"
  by (simp add: hoare_def)

lemma hoare_conj: "hoare P m Q \<Longrightarrow> hoare P m R \<Longrightarrow> hoare P m (\<lambda>x s. Q x s \<and> R x s)"
  by (simp add: hoare_def)

lemma hoare_pure: "(p \<Longrightarrow> hoare P m Q) \<Longrightarrow> hoare (\<lambda>s. p \<and> P s) m Q"
  by (auto simp: hoare_def)

text \<open>A statement that keeps \<open>P\<close>, followed by a program from \<open>P\<close>.\<close>

lemma hoare_keep:
  "keeps P m \<Longrightarrow> (\<And>x. hoare P (f x) Q) \<Longrightarrow> hoare P (State_Monad.bind m f) Q"
  by (rule hoare_bind)

lemma hoare_if:
  "(b \<Longrightarrow> hoare P m Q) \<Longrightarrow> (\<not> b \<Longrightarrow> hoare P n Q) \<Longrightarrow> hoare P (if b then m else n) Q"
  by simp

lemma hoare_sum:
  "(\<And>e. r = Inl e \<Longrightarrow> hoare P (m e) Q) \<Longrightarrow> (\<And>a. r = Inr a \<Longrightarrow> hoare P (n a) Q) \<Longrightarrow>
   hoare P (case r of Inl e \<Rightarrow> m e | Inr a \<Rightarrow> n a) Q"
  by (cases r) auto

lemma hoare_option:
  "(r = None \<Longrightarrow> hoare P m Q) \<Longrightarrow> (\<And>a. r = Some a \<Longrightarrow> hoare P (n a) Q) \<Longrightarrow>
   hoare P (case r of None \<Rightarrow> m | Some a \<Rightarrow> n a) Q"
  by (cases r) auto

lemma hoare_prod:
  "(\<And>a b. r = (a, b) \<Longrightarrow> hoare P (m a b) Q) \<Longrightarrow> hoare P (case r of (a, b) \<Rightarrow> m a b) Q"
  by (cases r) auto

lemma hoare_let: "hoare P (f a) Q \<Longrightarrow> hoare P (let x = a in f x) Q"
  by (simp add: Let_def)

lemmas hoare_flow = hoare_if hoare_sum hoare_option hoare_prod hoare_let

section \<open>Optional calls\<close>

text \<open>A call whose only result is an error, as \<open>if err := f(); err != nil { return h(err) }\<close>.\<close>

definition on_error :: "('s, 'e option) state \<Rightarrow> ('e \<Rightarrow> ('s, 'a) state) \<Rightarrow> ('s, 'a) state \<Rightarrow> ('s, 'a) state" where
  "on_error m h k = State_Monad.bind m (\<lambda>r. case r of Some e \<Rightarrow> h e | None \<Rightarrow> k)"

text \<open>A call with a result: \<open>a, err := f(); if err != nil { return h(err) }\<close>.\<close>

definition on_value :: "('s, 'e + 'b) state \<Rightarrow> ('e \<Rightarrow> ('s, 'a) state) \<Rightarrow> ('b \<Rightarrow> ('s, 'a) state) \<Rightarrow> ('s, 'a) state" where
  "on_value m h k = State_Monad.bind m (\<lambda>r. case r of Inl e \<Rightarrow> h e | Inr b \<Rightarrow> k b)"

lemma run_calls:
  "run_state (on_error m h k) s = (case run_state m s of (r, s') \<Rightarrow> (case r of Some e \<Rightarrow> run_state (h e) s' | None \<Rightarrow> run_state k s'))"
  "run_state (on_value n h' g) s = (case run_state n s of (r, s') \<Rightarrow> (case r of Inl e \<Rightarrow> run_state (h' e) s' | Inr b \<Rightarrow> run_state (g b) s'))"
  by (simp_all add: on_error_def on_value_def split: prod.splits option.splits sum.splits)

lemma hoare_on_error:
  "hoare P m (\<lambda>r s. case r of Some e \<Rightarrow> E e s | None \<Rightarrow> N s) \<Longrightarrow>
   (\<And>e. hoare (E e) (h e) Q) \<Longrightarrow> hoare N k Q \<Longrightarrow> hoare P (on_error m h k) Q"
  unfolding on_error_def by (rule hoare_bind, assumption) (auto split: option.splits)

lemma hoare_on_value:
  "hoare P m (\<lambda>r s. case r of Inl e \<Rightarrow> E e s | Inr b \<Rightarrow> N b s) \<Longrightarrow>
   (\<And>e. hoare (E e) (h e) Q) \<Longrightarrow> (\<And>b. hoare (N b) (k b) Q) \<Longrightarrow> hoare P (on_value m h k) Q"
  unfolding on_value_def by (rule hoare_bind, assumption) (auto split: sum.splits)

lemma keep_on_error:
  "keeps P m \<Longrightarrow> (\<And>e. hoare P (h e) Q) \<Longrightarrow> hoare P k Q \<Longrightarrow> hoare P (on_error m h k) Q"
  unfolding on_error_def by (rule hoare_keep, assumption) (auto split: option.splits)

lemma keep_on_value:
  "keeps P m \<Longrightarrow> (\<And>e. hoare P (h e) Q) \<Longrightarrow> (\<And>b. hoare P (k b) Q) \<Longrightarrow> hoare P (on_value m h k) Q"
  unfolding on_value_def by (rule hoare_keep, assumption) (auto split: sum.splits)

lemmas hoare_calls = keep_on_error keep_on_value hoare_keep

section \<open>What a program returns\<close>

text \<open>A property of the result alone, from any state.\<close>

definition returns :: "('a \<Rightarrow> bool) \<Rightarrow> ('s, 'a) state \<Rightarrow> bool" where
  "returns Q m = (\<forall>s. Q (fst (run_state m s)))"

lemma returns_hoare: "returns Q m \<Longrightarrow> hoare P m (\<lambda>x _. Q x)"
  unfolding returns_def hoare_def by (metis fst_conv)

lemma returns_return: "Q x \<Longrightarrow> returns Q (State_Monad.return x)"
  by (simp add: returns_def)

lemma returns_bind: "(\<And>x. returns Q (f x)) \<Longrightarrow> returns Q (State_Monad.bind m f)"
  by (simp add: returns_def split: prod.splits)

lemma returns_after: "returns R m \<Longrightarrow> (\<And>x. R x \<Longrightarrow> returns Q (f x)) \<Longrightarrow> returns Q (State_Monad.bind m f)"
  by (simp add: returns_def split: prod.splits) (metis fst_conv)

lemma returns_calls:
  "(\<And>e. returns Q (h e)) \<Longrightarrow> returns Q k \<Longrightarrow> returns Q (on_error m h k)"
  "(\<And>e. returns Q (h e)) \<Longrightarrow> (\<And>b. returns Q (g b)) \<Longrightarrow> returns Q (on_value n h g)"
  unfolding on_error_def on_value_def by (rule returns_bind, simp split: option.splits sum.splits)+

lemma returns_flow:
  "(b \<Longrightarrow> returns Q m1) \<Longrightarrow> (\<not> b \<Longrightarrow> returns Q m2) \<Longrightarrow> returns Q (if b then m1 else m2)"
  "(\<And>e. r = Inl e \<Longrightarrow> returns Q (f e)) \<Longrightarrow> (\<And>a. r = Inr a \<Longrightarrow> returns Q (g a)) \<Longrightarrow>
   returns Q (case r of Inl e \<Rightarrow> f e | Inr a \<Rightarrow> g a)"
  "(t = None \<Longrightarrow> returns Q m1) \<Longrightarrow> (\<And>a. t = Some a \<Longrightarrow> returns Q (h a)) \<Longrightarrow>
   returns Q (case t of None \<Rightarrow> m1 | Some a \<Rightarrow> h a)"
  "(\<And>a b. p = (a, b) \<Longrightarrow> returns Q (k a b)) \<Longrightarrow> returns Q (case p of (a, b) \<Rightarrow> k a b)"
  "returns Q (l v) \<Longrightarrow> returns Q (let x = v in l x)"
  by (auto split: sum.splits option.splits prod.splits)

end
