(* ===== verification/Service_Ports.thy ===== *)
theory Service_Ports
  imports State_Logic Journal_Db Envelope
begin

text \<open>
  The vocabulary of \<open>go/internal/service\<close>: its errors, the values its ports exchange, the ports
  themselves and the helpers that \<open>Send\<close>, \<open>Reply\<close> and \<open>Wait\<close> share. A port is a state program
  over a world \<open>'s\<close> that the ports' owner chooses; the interfaces \<open>Resolver\<close>, \<open>DeliveryPort\<close>,
  \<open>JournalPort\<close> are records of such programs. A context is not a value here: a port call whose
  context has ended answers with an error, and the one place where the service itself looks at
  its context, the wait between two attempts, counts the waits that end before the admission
  deadline.
\<close>

section \<open>Errors\<close>

datatype WritePhase = WriteNotStarted | WriteProvenBeforeWrite | WriteMayHaveWritten | WriteComplete

text \<open>\<open>codexapi.ServerError\<close>; \<open>Data\<close> and \<open>Raw\<close> are JSON text.\<close>

record ServerError =
  sv_code :: int
  sv_message :: string
  sv_data :: string
  sv_raw :: string

type_synonym details = "(string \<times> json) list"

text \<open>
  A Go error with the chain that \<open>errors.As\<close> and \<open>errors.Is\<close> walk: \<open>*service.Error\<close>,
  \<open>*DeliveryError\<close>, an error of the journal, an \<open>*sshproxy.Failure\<close> with its write evidence,
  \<open>errors.Join\<close>, a package variable made by \<open>errors.New\<close>, and any other error by its text.
\<close>

datatype GoError =
    Semantic ErrorCode string bool details "GoError option"
  | DeliveryError "GoError option" "ServerError option" WritePhase
  | JournalError jerror
  | Transport string string "GoError option"
  | Joined "GoError list"
  | Sentinel string
  | Opaque string

type_synonym delivery_failure = "GoError option \<times> ServerError option \<times> WritePhase"

definition semantic :: "ErrorCode \<Rightarrow> string \<Rightarrow> details \<Rightarrow> GoError option \<Rightarrow> GoError" where
  "semantic code message dts cause = Semantic code message False dts cause"

fun first_some :: "'a option list \<Rightarrow> 'a option" where
  "first_some [] = None"
| "first_some (Some a # xs) = Some a"
| "first_some (None # xs) = first_some xs"

fun as_semantic :: "GoError \<Rightarrow> (ErrorCode \<times> string \<times> bool \<times> details) option" where
  "as_semantic (Semantic code message retryable dts cause) = Some (code, message, retryable, dts)"
| "as_semantic (DeliveryError err server phase) = (case err of None \<Rightarrow> None | Some e \<Rightarrow> as_semantic e)"
| "as_semantic (Transport kind evidence err) = (case err of None \<Rightarrow> None | Some e \<Rightarrow> as_semantic e)"
| "as_semantic (Joined es) = first_some (map as_semantic es)"
| "as_semantic _ = None"

fun as_delivery :: "GoError \<Rightarrow> delivery_failure option" where
  "as_delivery (DeliveryError err server phase) = Some (err, server, phase)"
| "as_delivery (Semantic code message retryable dts cause) = (case cause of None \<Rightarrow> None | Some e \<Rightarrow> as_delivery e)"
| "as_delivery (Transport kind evidence err) = (case err of None \<Rightarrow> None | Some e \<Rightarrow> as_delivery e)"
| "as_delivery (Joined es) = first_some (map as_delivery es)"
| "as_delivery _ = None"

text \<open>\<open>errors.Is\<close> against an error of the journal or against a package variable.\<close>

fun is_journal :: "jerror \<Rightarrow> GoError \<Rightarrow> bool" where
  "is_journal t (JournalError e) = error_is e t"
| "is_journal t (Semantic code message retryable dts cause) = (case cause of None \<Rightarrow> False | Some e \<Rightarrow> is_journal t e)"
| "is_journal t (DeliveryError err server phase) = (case err of None \<Rightarrow> False | Some e \<Rightarrow> is_journal t e)"
| "is_journal t (Transport kind evidence err) = (case err of None \<Rightarrow> False | Some e \<Rightarrow> is_journal t e)"
| "is_journal t (Joined es) = list_ex (is_journal t) es"
| "is_journal t _ = False"

fun is_sentinel :: "string \<Rightarrow> GoError \<Rightarrow> bool" where
  "is_sentinel t (Sentinel m) = (m = t)"
| "is_sentinel t (Semantic code message retryable dts cause) = (case cause of None \<Rightarrow> False | Some e \<Rightarrow> is_sentinel t e)"
| "is_sentinel t (DeliveryError err server phase) = (case err of None \<Rightarrow> False | Some e \<Rightarrow> is_sentinel t e)"
| "is_sentinel t (Transport kind evidence err) = (case err of None \<Rightarrow> False | Some e \<Rightarrow> is_sentinel t e)"
| "is_sentinel t (Joined es) = list_ex (is_sentinel t) es"
| "is_sentinel t _ = False"

text \<open>The write evidence of the first \<open>*sshproxy.Failure\<close> in the chain.\<close>

fun as_transport :: "GoError \<Rightarrow> string option" where
  "as_transport (Transport kind evidence err) = Some evidence"
| "as_transport (Semantic code message retryable dts cause) = (case cause of None \<Rightarrow> None | Some e \<Rightarrow> as_transport e)"
| "as_transport (DeliveryError err server phase) = (case err of None \<Rightarrow> None | Some e \<Rightarrow> as_transport e)"
| "as_transport (Joined es) = first_some (map as_transport es)"
| "as_transport _ = None"

definition server_error_text :: "ServerError \<Rightarrow> string" where
  "server_error_text e = ''codex server error '' @ decimal (sv_code e) @ '': '' @ sv_message e"

fun join_lines :: "string list \<Rightarrow> string" where
  "join_lines [] = ''''"
| "join_lines [l] = l"
| "join_lines (l # ls) = l @ [CHR 0x0A] @ join_lines ls"

fun goerr_text :: "GoError \<Rightarrow> string" where
  "goerr_text (Semantic code message retryable dts cause) =
     (if message \<noteq> '''' then code_string code @ '': '' @ message else code_string code)"
| "goerr_text (DeliveryError err server phase) =
     (case err of Some e \<Rightarrow> goerr_text e
      | None \<Rightarrow> (case server of Some s \<Rightarrow> server_error_text s | None \<Rightarrow> ''delivery failed''))"
| "goerr_text (JournalError e) = error_text e"
| "goerr_text (Transport kind evidence err) =
     (case err of Some e \<Rightarrow> ''SSH proxy '' @ kind @ '': '' @ goerr_text e | None \<Rightarrow> ''SSH proxy '' @ kind)"
| "goerr_text (Joined es) = join_lines (map goerr_text es)"
| "goerr_text (Sentinel m) = m"
| "goerr_text (Opaque m) = m"

definition ErrObservationPending :: string where
  "ErrObservationPending = ''mektup service: native observation arrived before custody became terminal''"
definition ErrOriginalIdentityConflict :: string where
  "ErrOriginalIdentityConflict = ''service original message identity conflict''"
definition ErrOriginalLookupIncomplete :: string where
  "ErrOriginalLookupIncomplete = ''service original lookup incomplete''"
definition ErrClaimExpired :: string where "ErrClaimExpired = ''reply claim expired''"
definition ErrRemoteCustodyBinding :: string where
  "ErrRemoteCustodyBinding = ''service: remote custody relationship is not bound''"
definition ErrRemoteCustodyUnavailable :: string where
  "ErrRemoteCustodyUnavailable = ''service: remote custody is unavailable''"

section \<open>Which refusals prove that nothing was admitted\<close>

datatype NotSubmittedKind = NotSubmittedNone | NotSubmittedReview | NotSubmittedCompact

text \<open>\<open>objectForClassification\<close>: a JSON object other than null; of repeated keys the last counts.\<close>

fun object_of :: "json option \<Rightarrow> (string \<times> json) list option" where
  "object_of (Some (JObj kvs)) = Some kvs"
| "object_of _ = None"

definition member_of :: "(string \<times> json) list \<Rightarrow> string \<Rightarrow> json option" where
  "member_of kvs k = map_of (rev kvs) k"

definition turn_kind_matches :: "string \<Rightarrow> string \<Rightarrow> bool" where
  "turn_kind_matches data wanted =
     (case object_of (parse_json data) of None \<Rightarrow> False
      | Some outer \<Rightarrow>
          (case object_of (member_of outer ''codexErrorInfo'') of None \<Rightarrow> False
           | Some info \<Rightarrow>
               (case object_of (member_of info ''activeTurnNotSteerable'') of None \<Rightarrow> False
                | Some inner \<Rightarrow> member_of inner ''turnKind'' = Some (JStr wanted))))"

definition not_submitted_review :: string where
  "not_submitted_review = ''failed to submit turn input: ActiveTurnNotSteerable { turn_kind: Review }''"

definition not_submitted_compact :: string where
  "not_submitted_compact = ''failed to submit turn input: ActiveTurnNotSteerable { turn_kind: Compact }''"

definition ClassifyNotSubmitted :: "ServerError \<Rightarrow> NotSubmittedKind" where
  "ClassifyNotSubmitted e =
     (if sv_code e \<noteq> -32603 then NotSubmittedNone
      else if sv_message e = not_submitted_review
      then (if blank (sv_data e) \<or> turn_kind_matches (sv_data e) ''review'' then NotSubmittedReview else NotSubmittedNone)
      else if sv_message e = not_submitted_compact
      then (if blank (sv_data e) \<or> turn_kind_matches (sv_data e) ''compact'' then NotSubmittedCompact else NotSubmittedNone)
      else NotSubmittedNone)"

text \<open>\<open>classifyDelivery\<close>: the evidence state, the journal's error code and whether to retry.\<close>

definition classifyDelivery :: "delivery_failure \<Rightarrow> EvidenceState \<times> string \<times> bool" where
  "classifyDelivery f = (case f of (err, server, phase) \<Rightarrow>
     (case server of
        Some s \<Rightarrow>
          if ClassifyNotSubmitted s \<noteq> NotSubmittedNone then (StateRejected, ''not_submitted'', True)
          else if sv_code s = -32603 then (StateOutcomeUnknown, ''outcome_unknown'', False)
          else (StateRejected, ''server_'' @ decimal (sv_code s), False)
      | None \<Rightarrow>
          if phase = WriteNotStarted \<or> phase = WriteProvenBeforeWrite then (StateNotSent, ''not_sent'', False)
          else (StateOutcomeUnknown, ''outcome_unknown'', False)))"

definition delivery_cause :: "delivery_failure \<Rightarrow> GoError" where
  "delivery_cause f = (case f of (err, server, phase) \<Rightarrow> DeliveryError err server phase)"

definition jstate :: "EvidenceState \<Rightarrow> json" where "jstate st = JStr (state_string st)"

definition deliveryError :: "delivery_failure \<Rightarrow> EvidenceState \<Rightarrow> string \<Rightarrow> GoError" where
  "deliveryError f st code =
     (if st = StateRejected
      then semantic ErrDeliveryRejected ''destination rejected the message''
             [(''errorCode'', JStr code), (''evidenceState'', jstate st)] (Some (delivery_cause f))
      else if st = StateNotSent
      then semantic ErrDeliveryTemporarilyUnavailable ''message was not written''
             [(''evidenceState'', jstate st)] (Some (delivery_cause f))
      else semantic ErrOutcomeUnknown ''message outcome is unknown; it will not be replayed automatically''
             [(''evidenceState'', jstate st)] (Some (delivery_cause f)))"

section \<open>Values\<close>

record ResolvedTarget =
  tg_requested :: string
  tg_endpoint_id :: string
  tg_endpoint_alias :: string
  tg_transport :: string
  tg_uri :: string
  tg_thread_id :: string
  tg_loaded :: bool
  tg_persistent :: bool
  tg_herdr_evidence :: go_map

record SourceIdentity =
  sr_endpoint_id :: string
  sr_uri :: string
  sr_human :: bool
  sr_herdr :: string
  sr_herdr_name :: string
  sr_custody_endpoint_id :: string
  sr_custody_store_id :: string

record DeliveryResult =
  dr_turn_id :: string
  dr_accepted :: bool
  dr_evidence :: string

record ServiceOperation =
  so_operation_id :: string
  so_message_id :: string
  so_in_reply_to :: string
  so_source_route :: string
  so_target_route :: string
  so_semantics :: string
  so_reply_route :: string
  so_reply_endpoint_id :: string
  so_custody_route :: string
  so_custody_store_id :: string
  so_attempt_owner :: string
  so_digest :: string
  so_body_size :: int
  so_reply_requested :: bool
  so_source_endpoint_id :: string
  so_target_endpoint_id :: string

record Prepared =
  pr_operation_id :: string
  pr_message_id :: string
  pr_owner :: string
  pr_token :: string

record OperationStatus = ServiceOperation +
  os_state :: EvidenceState
  os_turn_id :: string
  os_error_code :: string
  os_reply_id :: string
  os_reply_status :: string
  os_reply_error_code :: string
  os_reply_digest :: string
  os_reply_body_size :: int
  os_reply_commit_seq :: int
  os_reply_native_id :: string

record ReplyClaimInput =
  ri_reply_id :: string
  ri_original_id :: string
  ri_digest :: string
  ri_body_size :: int
  ri_status :: string
  ri_reply_route :: string
  ri_custody_route :: string
  ri_custody_store_id :: string
  ri_owner :: string
  ri_error_code :: string

record ServiceClaim =
  sc_reply_id :: string
  sc_original_id :: string
  sc_digest :: string
  sc_body_size :: int
  sc_status :: string
  sc_reply_error_code :: string
  sc_reply_route :: string
  sc_custody_route :: string
  sc_custody_store_id :: string
  sc_owner :: string
  sc_token :: string
  sc_state :: EvidenceState
  sc_joined :: bool
  sc_won :: bool

section \<open>Ports\<close>

text \<open>
  The resolver and delivery ports with what the service takes from the system: fresh identities,
  the clock as text, and whether the optional interface \<open>ReplyRoutePreflighter\<close> is there.
  \<open>receipt_id\<close> is \<open>NewReceiptID\<close>, which panics where the random source fails; the panic is not
  modelled.
\<close>

record 's Ports =
  po_resolve :: "string \<Rightarrow> ('s, GoError + ResolvedTarget) state"
  po_resolve_source :: "string \<Rightarrow> ('s, GoError + SourceIdentity) state"
  po_resolve_pinned :: "string \<Rightarrow> string \<Rightarrow> ('s, GoError + ResolvedTarget) state"
  po_preflight_reply :: "(ResolvedTarget \<Rightarrow> SourceIdentity \<Rightarrow> ('s, GoError option) state) option"
  po_send :: "ResolvedTarget \<Rightarrow> string \<Rightarrow> string \<Rightarrow> ('s, DeliveryResult \<times> GoError option) state"
  po_resume :: "ResolvedTarget \<Rightarrow> ('s, GoError option) state"
  po_detach :: "ResolvedTarget \<Rightarrow> ('s, GoError option) state"
  po_fresh_id :: "string \<Rightarrow> ('s, string + string) state"
  po_receipt_id :: "('s, string) state"
  po_now :: "('s, string) state"

record ObservedItem =
  oi_thread_id :: string
  oi_turn_id :: string
  oi_native_item_id :: string
  oi_native_type :: string
  oi_client_message_id :: string
  oi_text :: string

text \<open>
  The journal's port; the last two fields are the optional interfaces \<open>VerifiedObservation\<close> and
  \<open>JoinedReplyWaiter\<close> of a journal that has them.
\<close>

record 's JournalPort =
  jp_prepare :: "ServiceOperation \<Rightarrow> ('s, GoError + Prepared) state"
  jp_mark_dispatch_started :: "string \<Rightarrow> string \<Rightarrow> string \<Rightarrow> ('s, GoError option) state"
  jp_record_result :: "string \<Rightarrow> EvidenceState \<Rightarrow> string \<Rightarrow> ('s, GoError option) state"
  jp_expire_claims :: "('s, GoError option) state"
  jp_lookup :: "string \<Rightarrow> ('s, GoError + OperationStatus) state"
  jp_claim_reply :: "ReplyClaimInput \<Rightarrow> ('s, GoError + ServiceClaim) state"
  jp_heartbeat :: "string \<Rightarrow> string \<Rightarrow> string \<Rightarrow> ('s, GoError option) state"
  jp_commit_reply :: "string \<Rightarrow> string \<Rightarrow> string \<Rightarrow> ('s, GoError + ServiceClaim) state"
  jp_abandon_reply :: "string \<Rightarrow> string \<Rightarrow> string \<Rightarrow> ('s, GoError option) state"
  jp_observe_reply :: "string \<Rightarrow> string \<Rightarrow> string \<Rightarrow> ('s, GoError option) state"
  jp_reconcile_reply_observation :: "string \<Rightarrow> string \<Rightarrow> string \<Rightarrow> ('s, GoError option) state"
  jp_observe_verified :: "(OperationStatus \<Rightarrow> ObservedItem \<Rightarrow> Envelope \<Rightarrow> ('s, GoError option) state) option"
  jp_wait_reply :: "(string \<Rightarrow> ('s, OperationStatus \<times> GoError option) state) option"

section \<open>Helpers of Send and Reply\<close>

definition MaxInputChars :: nat where "MaxInputChars = 1048576"

text \<open>\<open>utf8.RuneCount\<close>: a byte that starts no encoding counts as one rune.\<close>

function rune_count :: "string \<Rightarrow> nat" where
  "rune_count s = (if s = [] then 0 else 1 + rune_count (drop (max 1 (rune_size s)) s))"
  by auto
termination
  by (relation "measure length") auto

declare rune_count.simps [simp del]

definition json_nat :: "nat \<Rightarrow> json" where "json_nat n = JNum (decimal_nat n)"

definition service_preflight :: "string \<Rightarrow> string \<Rightarrow> GoError option" where
  "service_preflight rendered body =
     (if rune_count rendered > MaxInputChars
      then Some (semantic ErrInputTooLarge ''message envelope exceeds the app-server text-input limit''
        [(''bodyBytes'', json_nat (length body)), (''bodyChars'', json_nat (rune_count body)),
         (''envelopeOverheadBytes'', JNum (decimal (int (length rendered) - int (length body)))),
         (''inputBytes'', json_nat (length rendered)), (''inputChars'', json_nat (rune_count rendered)),
         (''maxChars'', json_nat MaxInputChars)] None)
      else None)"

definition kindOf :: "SourceIdentity \<Rightarrow> string" where
  "kindOf source = (if sr_human source \<or> sr_uri source = '''' then ''human'' else ''agent'')"

definition semantics_of :: "bool \<Rightarrow> string" where
  "semantics_of raw = (if raw then ''raw'' else ''message'')"

definition uri_thread :: "string \<Rightarrow> string" where
  "uri_thread uri = (case ParseThreadURI uri of Inr a \<Rightarrow> ta_thread_id a | Inl _ \<Rightarrow> '''')"

definition plain_identity :: "string \<Rightarrow> string \<Rightarrow> ReceiptIdentity" where
  "plain_identity endpoint thread = \<lparr>id_endpoint_id = endpoint, id_alias = '''', id_transport = '''',
     id_server_version = '''', id_compatibility = '''', id_thread_id = thread, id_requested = '''',
     id_resolved = '''', id_evidence = None\<rparr>"

definition positive_state :: "EvidenceState \<Rightarrow> bool" where
  "positive_state st = (st = StateAccepted \<or> st = StateReplyAccepted \<or> st = StateReplyObserved)"

text \<open>\<open>receiptFor\<close> with the receipt's identity and the time it is made at.\<close>

definition receiptFor :: "string \<Rightarrow> string \<Rightarrow> ServiceOperation \<Rightarrow> Envelope \<Rightarrow> EvidenceState \<Rightarrow> string \<Rightarrow> Receipt" where
  "receiptFor rid now op e st turn_id =
     \<lparr>rp_schema = ReceiptSchema, rp_receipt_id = rid, rp_operation_id = so_operation_id op,
      rp_operation = so_semantics op, rp_state = st,
      rp_source = plain_identity (so_source_endpoint_id op) (uri_thread (en_from e)),
      rp_target = (plain_identity (so_target_endpoint_id op) (uri_thread (en_to e)))
        \<lparr>id_requested := en_requested_target e, id_resolved := en_to e\<rparr>,
      rp_message = \<lparr>mg_message_id = en_message_id e, mg_in_reply_to = en_in_reply_to e, mg_kind = en_kind e,
        mg_reply_requested = en_reply_requested e, mg_payload_bytes = en_payload_bytes e,
        mg_payload_sha256 = en_payload_sha256 e, mg_client_message_id = en_message_id e, mg_turn_id = turn_id,
        mg_accepted_at = (if positive_state st then now else ''''), mg_reply_at = ''''\<rparr>,
      rp_content_ref = None,
      rp_evidence = [\<lparr>ev_state = st, ev_at = now, ev_kind = '''', ev_reference = turn_id,
        ev_details = Some [(''custodyRoute'', JStr (so_custody_route op)), (''custodyStoreId'', JStr (so_custody_store_id op))]\<rparr>],
      rp_warnings = [], rp_manual_resolution = None, rp_resolution = None,
      rp_created_at = now, rp_updated_at = now\<rparr>"

definition make_receipt :: "'s Ports \<Rightarrow> ServiceOperation \<Rightarrow> Envelope \<Rightarrow> EvidenceState \<Rightarrow> string \<Rightarrow> ('s, Receipt) state" where
  "make_receipt P op e st turn_id = do {
     now \<leftarrow> po_now P;
     rid \<leftarrow> po_receipt_id P;
     ret (receiptFor rid now op e st turn_id)
   }"

text \<open>\<open>operationError\<close>: the durable identities are added to the details of the outermost semantic error.\<close>

definition put_details :: "details \<Rightarrow> details \<Rightarrow> details" where
  "put_details new dts = foldl put_entry dts new"

definition operationError :: "GoError \<Rightarrow> Receipt \<Rightarrow> GoError" where
  "operationError err r =
     (let ids = [(''operationId'', JStr (rp_operation_id r)), (''messageId'', JStr (mg_message_id (rp_message r))),
                 (''evidenceState'', jstate (rp_state r))] in
      case as_semantic err of
        None \<Rightarrow> semantic ErrInternal (goerr_text err) (put_details ids []) (Some err)
      | Some (code, message, retryable, dts) \<Rightarrow> Semantic code message retryable (put_details ids dts) (Some err))"

section \<open>Dispatch and the conservative retry\<close>

definition dispatch :: "'s Ports \<Rightarrow> ResolvedTarget \<Rightarrow> string \<Rightarrow> string \<Rightarrow> ('s, DeliveryResult \<times> delivery_failure option) state" where
  "dispatch P target payload message_id = do {
     (result, err) \<leftarrow> po_send P target payload message_id;
     ret (case err of
       None \<Rightarrow> (if \<not> dr_accepted result
                then (result, Some (Some (Opaque ''delivery did not report acceptance''), None, WriteComplete))
                else (result, None))
     | Some e \<Rightarrow> (case as_delivery e of
          Some f \<Rightarrow> (result, Some f)
        | None \<Rightarrow> (result, Some (Some e, None, WriteMayHaveWritten))))
   }"

text \<open>The wait before a further attempt, in milliseconds.\<close>

fun backoff :: "nat \<Rightarrow> nat" where
  "backoff 0 = 10"
| "backoff (Suc k) = (if backoff k < 250 then min (backoff k * 2) 250 else backoff k)"

text \<open>
  \<open>retryNotSubmitted\<close>: \<open>n\<close> is the number of waits that end before the admission deadline, so that
  after \<open>n\<close> of them \<open>ctx.Done()\<close> is what the select sees. The checks run after each attempt.
  A result is the delivery with its failure, the state and the code.
\<close>

type_synonym attempt = "DeliveryResult \<times> delivery_failure option \<times> EvidenceState \<times> string"

fun run_checks :: "('s, GoError option) state list \<Rightarrow> ('s, GoError option) state" where
  "run_checks [] = ret None"
| "run_checks (c # cs) = do {
     r \<leftarrow> c;
     case r of Some e \<Rightarrow> ret (Some e) | None \<Rightarrow> run_checks cs
   }"

fun retryNotSubmitted ::
  "'s Ports \<Rightarrow> ('s, GoError option) state list \<Rightarrow> ResolvedTarget \<Rightarrow> string \<Rightarrow> string \<Rightarrow> EvidenceState \<Rightarrow> string \<Rightarrow>
   nat \<Rightarrow> DeliveryResult \<Rightarrow> delivery_failure \<Rightarrow> ('s, attempt) state" where
  "retryNotSubmitted P checks target payload mid st code 0 result last_failure =
     ret (result, Some last_failure, st, code)"
| "retryNotSubmitted P checks target payload mid st code (Suc n) result last_failure = do {
     (result, failure) \<leftarrow> dispatch P target payload mid;
     checked \<leftarrow> run_checks checks;
     case checked of
       Some e \<Rightarrow> ret (result, Some (Some e, None, WriteMayHaveWritten), StateOutcomeUnknown, ''heartbeat_failed_during_retry'')
     | None \<Rightarrow> (case failure of
         None \<Rightarrow> ret (result, None, StateAccepted, '''')
       | Some f \<Rightarrow> (case classifyDelivery f of (st', code', retry) \<Rightarrow>
           if \<not> retry then ret (result, Some f, st', code')
           else retryNotSubmitted P checks target payload mid st code n result f))
   }"

definition zero_delivery :: DeliveryResult where
  "zero_delivery = \<lparr>dr_turn_id = '''', dr_accepted = False, dr_evidence = ''''\<rparr>"

text \<open>The first attempt with the retries it allows.\<close>

definition deliver_with_retry ::
  "'s Ports \<Rightarrow> ('s, GoError option) state list \<Rightarrow> nat \<Rightarrow> ResolvedTarget \<Rightarrow> string \<Rightarrow> string \<Rightarrow> DeliveryResult \<times> delivery_failure option \<Rightarrow> ('s, attempt) state" where
  "deliver_with_retry P checks n target payload mid first = (case first of
     (result, None) \<Rightarrow> ret (result, None, StateAccepted, '''')
   | (result, Some f) \<Rightarrow> (case classifyDelivery f of (st, code, retry) \<Rightarrow>
       if retry then retryNotSubmitted P checks target payload mid st code n zero_delivery f
       else ret (result, Some f, st, code)))"

end
