(* ===== verification/Service_Wait.thy ===== *)
theory Service_Wait
  imports Service_Ports
begin

text \<open>
  Waiting for a correlated reply: \<open>go/internal/service/wait.go\<close>, and \<open>validateObservedEnvelope\<close> of
  \<open>preflight.go\<close>. \<open>Wait\<close> selects over its context, the history scan, the event stream and a ticker
  while two goroutines feed it; what the select sees, in order, is the list \<open>ws_events\<close>, and the
  end of the list is the end of the context. A round of \<open>pollCustody\<close> is a pair: whether the
  context is still live where the gap is considered, and whether the ticker fires before the
  context ends. Closing the stream and stopping the workers has no effect on the journal.
\<close>

section \<open>Which native items are the awaited reply\<close>

definition expected_route :: "OperationStatus \<Rightarrow> string" where
  "expected_route st = (if so_reply_route st = '''' then so_source_route st else so_reply_route st)"

definition expected_endpoint :: "OperationStatus \<Rightarrow> string" where
  "expected_endpoint st = (if so_reply_endpoint_id st = '''' then so_source_endpoint_id st else so_reply_endpoint_id st)"

text \<open>The checks on a parsed envelope, in the code's order; \<open>int64\<close> of the size is its signed value.\<close>

definition observed_envelope_check :: "ObservedItem \<Rightarrow> OperationStatus \<Rightarrow> bool \<Rightarrow> Envelope \<Rightarrow> string + unit" where
  "observed_envelope_check item st accepted e =
     bindE (check (en_kind e = KindReply \<and> en_in_reply_to e = so_message_id st) ''reply correlation mismatch'') (\<lambda>_.
     bindE (check (\<not> (os_reply_status st \<noteq> '''' \<and> en_reply_status e \<noteq> os_reply_status st)) ''reply status mismatch'') (\<lambda>_.
     bindE (check (\<not> (os_reply_status st = ReplySuccess \<and> en_reply_error_code e \<noteq> '''' \<or>
                      os_reply_status st = ReplyError \<and> en_reply_error_code e \<noteq> os_reply_error_code st))
              ''reply error code mismatch'') (\<lambda>_.
     bindE (check (\<not> (expected_route st = '''' \<or> en_to e \<noteq> expected_route st)) ''reply destination mismatch'') (\<lambda>_.
     bindE (check (\<not> (so_target_route st \<noteq> '''' \<and> en_from e \<noteq> so_target_route st)) ''reply sender route mismatch'') (\<lambda>_.
     bindE (check (\<not> (so_target_endpoint_id st \<noteq> '''' \<and> en_from_endpoint_id e \<noteq> so_target_endpoint_id st))
              ''reply sender endpoint mismatch'') (\<lambda>_.
     bindE (check (\<not> (expected_endpoint st \<noteq> '''' \<and> en_to_endpoint_id e \<noteq> expected_endpoint st))
              ''reply destination endpoint mismatch'') (\<lambda>_.
     bindE (check (\<not> (os_reply_digest st \<noteq> '''' \<and> en_payload_sha256 e \<noteq> os_reply_digest st)) ''reply body digest mismatch'') (\<lambda>_.
     bindE (check (\<not> (os_reply_digest st \<noteq> '''' \<and> sint (en_payload_bytes e) \<noteq> os_reply_body_size st)) ''reply body size mismatch'') (\<lambda>_.
     bindE (check (\<not> (oi_thread_id item = '''' \<or> oi_thread_id item \<noteq> uri_thread (expected_route st)))
              ''reply was observed in a different thread'') (\<lambda>_.
     bindE (check (\<not> (oi_client_message_id item \<noteq> '''' \<and> oi_client_message_id item \<noteq> en_message_id e))
              ''native client message ID mismatch'') (\<lambda>_.
     check (\<not> (accepted \<and> \<not> so_reply_requested st)) ''reply was not requested'')))))))))))"

definition validateObservedEnvelope :: "ObservedItem \<Rightarrow> OperationStatus \<Rightarrow> bool \<Rightarrow> string + Envelope" where
  "validateObservedEnvelope item st accepted =
     (if oi_native_type item \<noteq> '''' \<and> oi_native_type item \<noteq> ''userMessage''
      then Inl ''reply was observed in a non-user native item''
      else bindE (ParseEnvelope (oi_text item)) (\<lambda>e.
           bindE (observed_envelope_check item st accepted e) (\<lambda>_. Inr e)))"

section \<open>Results\<close>

record WaitResult =
  wr_receipt :: "Receipt option"
  wr_state :: EvidenceState
  wr_reply_id :: string
  wr_reply_status :: string
  wr_incomplete :: bool
  wr_gap_reason :: string

definition zero_wait :: WaitResult where
  "zero_wait = \<lparr>wr_receipt = None, wr_state = StateOther '''', wr_reply_id = '''', wr_reply_status = '''',
     wr_incomplete = False, wr_gap_reason = ''''\<rparr>"

definition terminalWaitState :: "EvidenceState \<Rightarrow> bool" where
  "terminalWaitState st = (st = StateReplyAccepted \<or> st = StateReplyObserved \<or> st = StateReplyOutcomeUnknown)"

definition reply_state_error :: "EvidenceState \<Rightarrow> string \<Rightarrow> string \<Rightarrow> GoError option" where
  "reply_state_error st reply_id status =
     (if status = ReplyError
      then Some (semantic ErrDeliveryRejected ''a terminal error reply was accepted''
             [(''replyId'', JStr reply_id), (''replyStatus'', JStr status)] None)
      else if st = StateReplyOutcomeUnknown
      then Some (semantic ErrReplyOutcomeUnknown ''reply delivery outcome is unknown'' [] None)
      else None)"

definition waitStateError :: "OperationStatus \<Rightarrow> GoError option" where
  "waitStateError st = reply_state_error (os_state st) (os_reply_id st) (os_reply_status st)"

definition wait_details :: "OperationStatus \<Rightarrow> string \<Rightarrow> details" where
  "wait_details st gap =
     put_details
       ((if gap \<noteq> '''' then [(''gap'', JStr gap)] else [])
        @ (if os_reply_id st \<noteq> ''''
           then [(''replyDigest'', JStr (os_reply_digest st)), (''replyBodyBytes'', JNum (decimal (os_reply_body_size st)))]
             @ (if os_reply_error_code st \<noteq> '''' then [(''replyErrorCode'', JStr (os_reply_error_code st))] else [])
             @ (if os_reply_commit_seq st > 0 then [(''commitSeq'', JNum (decimal (os_reply_commit_seq st)))] else [])
             @ (if os_reply_native_id st \<noteq> '''' then [(''nativeItemId'', JStr (os_reply_native_id st))] else [])
           else []))
       [(''custodyRoute'', JStr (so_custody_route st)), (''custodyStoreId'', JStr (so_custody_store_id st)),
        (''replyStatus'', JStr (os_reply_status st))]"

definition wait_receipt :: "string \<Rightarrow> string \<Rightarrow> OperationStatus \<Rightarrow> string \<Rightarrow> Receipt" where
  "wait_receipt rid now st gap =
     \<lparr>rp_schema = ReceiptSchema, rp_receipt_id = rid, rp_operation_id = so_operation_id st,
      rp_operation = so_semantics st, rp_state = os_state st,
      rp_source = (plain_identity (so_source_endpoint_id st) (uri_thread (so_source_route st)))\<lparr>id_resolved := so_source_route st\<rparr>,
      rp_target = (plain_identity (so_target_endpoint_id st) (uri_thread (so_target_route st)))\<lparr>id_resolved := so_target_route st\<rparr>,
      rp_message = \<lparr>mg_message_id = so_message_id st, mg_in_reply_to = so_in_reply_to st,
        mg_kind = (if so_semantics st = ''reply'' then KindReply else KindMessage),
        mg_reply_requested = so_reply_requested st, mg_payload_bytes = word_of_int (so_body_size st),
        mg_payload_sha256 = so_digest st, mg_client_message_id = so_message_id st, mg_turn_id = os_turn_id st,
        mg_accepted_at = (if os_state st = StateReplyAccepted \<or> os_state st = StateReplyObserved then now else ''''),
        mg_reply_at = (if os_reply_id st \<noteq> '''' then now else '''')\<rparr>,
      rp_content_ref =
        (if os_reply_native_id st \<noteq> '''' \<and> os_reply_digest st \<noteq> ''''
         then Some \<lparr>ct_endpoint_id = so_reply_endpoint_id st, ct_thread_id = uri_thread (so_reply_route st), ct_turn_id = '''',
            ct_item_id = os_reply_native_id st, ct_client_message_id = os_reply_id st,
            ct_payload_bytes = word_of_int (os_reply_body_size st), ct_payload_sha256 = os_reply_digest st\<rparr>
         else None),
      rp_evidence = [\<lparr>ev_state = os_state st, ev_at = now, ev_kind = '''', ev_reference = os_reply_id st,
        ev_details = Some (wait_details st gap)\<rparr>],
      rp_warnings = [], rp_manual_resolution = None, rp_resolution = None, rp_created_at = now, rp_updated_at = now\<rparr>"

definition waitResult :: "'s Ports \<Rightarrow> OperationStatus \<Rightarrow> bool \<Rightarrow> string \<Rightarrow> ('s, WaitResult) state" where
  "waitResult P st incomplete gap = do {
     now \<leftarrow> po_now P;
     rid \<leftarrow> po_receipt_id P;
     ret \<lparr>wr_receipt = Some (wait_receipt rid now st gap), wr_state = os_state st, wr_reply_id = os_reply_id st,
          wr_reply_status = os_reply_status st, wr_incomplete = incomplete, wr_gap_reason = gap\<rparr>
   }"

definition wait_terminal :: "'s Ports \<Rightarrow> OperationStatus \<Rightarrow> string \<Rightarrow> ('s, WaitResult \<times> GoError option) state" where
  "wait_terminal P st gap = do { w \<leftarrow> waitResult P st False gap; ret (w, waitStateError st) }"

definition waitIncomplete :: "'s Ports \<Rightarrow> OperationStatus \<Rightarrow> string \<Rightarrow> GoError option \<Rightarrow> ('s, WaitResult \<times> GoError option) state" where
  "waitIncomplete P st gap cause = do {
     w \<leftarrow> waitResult P st True gap;
     ret (w, Some (semantic ErrWaitIncomplete ''wait ended before correlated reply evidence was complete''
            (if gap \<noteq> '''' then [(''gap'', JStr gap)] else []) cause))
   }"

section \<open>Custody reads\<close>

definition lookupCustody :: "'s JournalPort \<Rightarrow> string \<Rightarrow> ('s, GoError + OperationStatus) state" where
  "lookupCustody J reference = do {
     r \<leftarrow> jp_expire_claims J;
     case r of Some e \<Rightarrow> ret (Inl e) | None \<Rightarrow> jp_lookup J reference
   }"

definition finishWait :: "'s Ports \<Rightarrow> 's JournalPort \<Rightarrow> GoError \<Rightarrow> OperationStatus \<Rightarrow> string \<Rightarrow> ('s, WaitResult \<times> GoError option) state" where
  "finishWait P J ctx_err st gap = do {
     fresh \<leftarrow> lookupCustody J (so_message_id st);
     let st = (case fresh of Inr f \<Rightarrow> f | Inl _ \<Rightarrow> st);
     if terminalWaitState (os_state st) then wait_terminal P st gap
     else waitIncomplete P st gap (Some ctx_err)
   }"

fun pollCustody ::
  "'s Ports \<Rightarrow> 's JournalPort \<Rightarrow> bool \<Rightarrow> GoError \<Rightarrow> (bool \<times> bool) list \<Rightarrow> OperationStatus \<Rightarrow> string \<Rightarrow> ('s, WaitResult \<times> GoError option) state" where
  "pollCustody P J bounded ctx_err [] st gap = finishWait P J ctx_err st gap"
| "pollCustody P J bounded ctx_err ((live, tick) # rounds) st gap = do {
     fresh \<leftarrow> lookupCustody J (so_message_id st);
     let st' = (case fresh of Inr f \<Rightarrow> f | Inl _ \<Rightarrow> st);
     let failed = (case fresh of Inr _ \<Rightarrow> None | Inl e \<Rightarrow> Some e);
     if failed = None \<and> terminalWaitState (os_state st') then wait_terminal P st' gap
     else if gap \<noteq> '''' \<and> \<not> bounded \<and> live then waitIncomplete P st' gap failed
     else if tick then pollCustody P J bounded ctx_err rounds st' gap
     else finishWait P J ctx_err st' gap
   }"

section \<open>Observation\<close>

definition observation_key :: "ObservedItem \<Rightarrow> Envelope \<Rightarrow> string" where
  "observation_key item e =
     (let key = oi_native_item_id item @ [CHR 0x00] @ en_message_id e in
      if key = [CHR 0x00] then en_message_id e @ [CHR 0x00] @ en_payload_sha256 e else key)"

text \<open>The error of one candidate and the keys seen afterwards.\<close>

definition observeCandidate ::
  "'s JournalPort \<Rightarrow> OperationStatus \<Rightarrow> ObservedItem \<Rightarrow> string list \<Rightarrow> bool \<Rightarrow> ('s, GoError option \<times> string list) state" where
  "observeCandidate J st item seen historical =
     (case validateObservedEnvelope item st True of
        Inl _ \<Rightarrow> ret (None, seen)
      | Inr e \<Rightarrow>
          let key = observation_key item e;
              done = (\<lambda>r. ret (case r of None \<Rightarrow> (None, key # seen) | Some x \<Rightarrow> (Some x, seen)));
              reconcile = jp_reconcile_reply_observation J (en_message_id e) (oi_native_item_id item) (en_payload_sha256 e)
          in if key \<in> set seen then ret (None, seen)
             else (case jp_observe_verified J of
                 Some verified \<Rightarrow> State_Monad.bind (verified st item e) done
               | None \<Rightarrow>
                   if historical then State_Monad.bind reconcile done
                   else do {
                     r \<leftarrow> jp_observe_reply J (en_message_id e) (oi_native_item_id item) (en_payload_sha256 e);
                     case r of None \<Rightarrow> done None | Some _ \<Rightarrow> State_Monad.bind reconcile done
                   }))"

text \<open>The candidates of the history scan; a pending observation is skipped.\<close>

fun observe_all :: "'s JournalPort \<Rightarrow> OperationStatus \<Rightarrow> ObservedItem list \<Rightarrow> string list \<Rightarrow> ('s, GoError option \<times> string list) state" where
  "observe_all J st [] seen = ret (None, seen)"
| "observe_all J st (item # items) seen = do {
     (r, seen) \<leftarrow> observeCandidate J st item seen True;
     case r of
       Some e \<Rightarrow> if is_sentinel ErrObservationPending e then observe_all J st items seen else ret (Some e, seen)
     | None \<Rightarrow> observe_all J st items seen
   }"

section \<open>The wait\<close>

datatype WaitEvent =
    HistoryResult "GoError + ObservedItem list"
  | StreamClosed
  | StreamGap string
  | StreamItem "ObservedItem option"
  | Tick

record 's WaitScript =
  ws_subscribe :: "(ResolvedTarget \<Rightarrow> ('s, GoError option) state) option"
  ws_events :: "WaitEvent list"
  ws_polls :: "(bool \<times> bool) list"
  ws_bounded :: bool
  ws_expired :: bool
  ws_ctx_err :: GoError

definition incompleteAfterGap ::
  "'s Ports \<Rightarrow> 's JournalPort \<Rightarrow> 's WaitScript \<Rightarrow> OperationStatus \<Rightarrow> string \<Rightarrow> ('s, WaitResult \<times> GoError option) state" where
  "incompleteAfterGap P J W st reason =
     pollCustody P J (ws_bounded W) (ws_ctx_err W) (ws_polls W) st
       (if reason = '''' then ''event_stream: unspecified gap'' else reason)"

text \<open>The loop's state: keys seen, whether the history has come, the pinned and the latest status.\<close>

fun wait_loop ::
  "'s Ports \<Rightarrow> 's JournalPort \<Rightarrow> 's WaitScript \<Rightarrow> string \<Rightarrow> WaitEvent list \<Rightarrow> string list \<Rightarrow> bool \<Rightarrow>
   OperationStatus \<Rightarrow> OperationStatus \<Rightarrow> ('s, WaitResult \<times> GoError option) state" where
  "wait_loop P J W reference [] seen history_done pinned st = finishWait P J (ws_ctx_err W) st ''''"
| "wait_loop P J W reference (HistoryResult r # evs) seen history_done pinned st =
     (if history_done then wait_loop P J W reference evs seen history_done pinned st
      else (case r of
          Inl e \<Rightarrow> incompleteAfterGap P J W st (''history: '' @ goerr_text e)
        | Inr items \<Rightarrow> do {
            (x, seen) \<leftarrow> observe_all J pinned items seen;
            case x of
              Some e \<Rightarrow> incompleteAfterGap P J W st (''observation: '' @ goerr_text e)
            | None \<Rightarrow> wait_loop P J W reference evs seen True pinned st
          }))"
| "wait_loop P J W reference (StreamClosed # evs) seen history_done pinned st =
     incompleteAfterGap P J W st ''event_stream: closed''"
| "wait_loop P J W reference (StreamGap reason # evs) seen history_done pinned st = incompleteAfterGap P J W st reason"
| "wait_loop P J W reference (StreamItem None # evs) seen history_done pinned st =
     wait_loop P J W reference evs seen history_done pinned st"
| "wait_loop P J W reference (StreamItem (Some item) # evs) seen history_done pinned st = do {
     (x, seen) \<leftarrow> observeCandidate J pinned item seen False;
     case x of
       Some e \<Rightarrow> if is_sentinel ErrObservationPending e then wait_loop P J W reference evs seen history_done pinned st
                 else incompleteAfterGap P J W st (''observation: '' @ goerr_text e)
     | None \<Rightarrow> wait_loop P J W reference evs seen history_done pinned st
   }"
| "wait_loop P J W reference (Tick # evs) seen history_done pinned st = do {
     fresh \<leftarrow> lookupCustody J reference;
     case fresh of
       Inl _ \<Rightarrow> wait_loop P J W reference evs seen history_done pinned st
     | Inr f \<Rightarrow>
         let pinned = (if os_reply_digest pinned = ''''
                       then pinned\<lparr>os_reply_digest := os_reply_digest f, os_reply_body_size := os_reply_body_size f\<rparr>
                       else pinned)
         in if terminalWaitState (os_state f) then wait_terminal P f ''''
            else wait_loop P J W reference evs seen history_done pinned f
   }"

definition is_context_error :: "GoError \<Rightarrow> bool" where
  "is_context_error e =
     (is_sentinel ''context deadline exceeded'' e \<or> is_sentinel ''context canceled'' e \<or> is_journal DeadlineExceeded e)"

definition pinned_target :: "OperationStatus \<Rightarrow> ResolvedTarget" where
  "pinned_target st = \<lparr>tg_requested = '''', tg_endpoint_id = expected_endpoint st, tg_endpoint_alias = '''', tg_transport = '''',
     tg_uri = expected_route st, tg_thread_id = uri_thread (expected_route st), tg_loaded = True, tg_persistent = True,
     tg_herdr_evidence = None\<rparr>"

text \<open>From the first status on.\<close>

definition wait_from :: "'s Ports \<Rightarrow> 's JournalPort \<Rightarrow> 's WaitScript \<Rightarrow> string \<Rightarrow> OperationStatus \<Rightarrow> ('s, WaitResult \<times> GoError option) state" where
  "wait_from P J W reference st =
     (if \<not> so_reply_requested st \<or> so_semantics st = ''raw''
      then ret (zero_wait, Some (semantic ErrReplyNotRequested ''operation did not request a correlated reply'' [] None))
      else if terminalWaitState (os_state st) then wait_terminal P st ''''
      else if uri_thread (expected_route st) = '''' then do {
        w \<leftarrow> waitResult P st True ''reply route has no native thread identity'';
        ret (w, Some (semantic ErrReplyRouteUnavailable ''reply route has no native thread identity'' [] None))
      }
      else (case ws_subscribe W of
          None \<Rightarrow> pollCustody P J (ws_bounded W) (ws_ctx_err W) (ws_polls W) st ''''
        | Some subscribe \<Rightarrow> on_error (subscribe (pinned_target st))
            (\<lambda>e. incompleteAfterGap P J W st (''event_stream: '' @ goerr_text e))
            (wait_loop P J W reference (ws_events W) [] False st st)))"

definition Wait :: "'s Ports \<Rightarrow> 's JournalPort \<Rightarrow> 's WaitScript \<Rightarrow> string \<Rightarrow> ('s, WaitResult \<times> GoError option) state" where
  "Wait P J W reference =
     (if reference = ''''
      then ret (zero_wait, Some (semantic ErrInvalidArguments ''receipt or message reference is required'' [] None))
      else on_error (jp_expire_claims J)
        (\<lambda>e. ret (if ws_expired W \<or> is_context_error e
             then (zero_wait\<lparr>wr_incomplete := True\<rparr>, Some (semantic ErrWaitIncomplete ''wait ended before custody expiry completed'' [] (Some e)))
             else (zero_wait, Some (semantic ErrInternal ''custody expiry could not be processed'' [] (Some e)))))
        (on_value (jp_lookup J reference)
          (\<lambda>e. ret (zero_wait, Some (if is_context_error e
             then semantic ErrWaitIncomplete ''wait ended before custody lookup completed'' [] (Some e)
             else semantic ErrMessageNotFound ''operation receipt was not found'' [] (Some e))))
          (wait_from P J W reference)))"

end
