(* ===== verification/Service_Send.thy ===== *)
theory Service_Send
  imports Service_Wait
begin

text \<open>
  \<open>Send\<close> of \<open>go/internal/service/service.go\<close>. The request is checked, both ends are resolved, the
  envelope is rendered, the operation is prepared in the journal, an unloaded target is resumed,
  the dispatch fence is committed, and only then is the body handed to the delivery port; what
  the delivery said is journaled before the caller sees it. The deferred function that attaches
  the receipt to an error is \<open>send_finish\<close>: the steps before it return the result, the error, and
  the state and turn the deferred receipt would show.
\<close>

record SendRequest =
  sq_target :: string
  sq_body :: string
  sq_raw :: bool
  sq_request_reply :: bool
  sq_wait :: bool
  sq_source :: string

record SendResult =
  sn_receipt :: "Receipt option"
  sn_wait :: "WaitResult option"

type_synonym sent = "SendResult \<times> GoError option \<times> EvidenceState \<times> string"
type_synonym 's acceptance_callback = "(SendResult \<Rightarrow> ('s, GoError option) state) option"

definition zero_send :: SendResult where
  "zero_send = \<lparr>sn_receipt = None, sn_wait = None\<rparr>"

definition WarningCleanupIncomplete :: string where "WarningCleanupIncomplete = ''cleanup_incomplete''"

definition send_fail :: "EvidenceState \<Rightarrow> string \<Rightarrow> GoError \<Rightarrow> ('s, sent) state" where
  "send_fail st turn_id e = ret (zero_send, Some e, st, turn_id)"

text \<open>\<open>detachTarget\<close> where the target was resumed.\<close>

definition with_detach :: "'s Ports \<Rightarrow> bool \<Rightarrow> ResolvedTarget \<Rightarrow> (GoError \<Rightarrow> ('s, 'a) state) \<Rightarrow> ('s, 'a) state \<Rightarrow> ('s, 'a) state" where
  "with_detach P resumed target h k = (if resumed then on_error (po_detach P target) h k else k)"

section \<open>Admission\<close>

definition send_admit :: "SendRequest \<Rightarrow> GoError + SendRequest" where
  "send_admit req =
     (if blank (sq_target req) \<or> sq_body req = ''''
      then Inl (semantic ErrInvalidArguments ''target and non-empty body are required'' [] None)
      else if \<not> utf8_valid (sq_body req)
      then Inl (semantic ErrInvalidArguments ''body is not valid UTF-8'' [] None)
      else
        let req = (if sq_wait req then req\<lparr>sq_request_reply := True\<rparr> else req) in
        if sq_raw req \<and> sq_wait req
        then Inl (semantic ErrInvalidRawWait ''raw delivery cannot wait for a correlated reply'' [] None)
        else if sq_raw req \<and> sq_request_reply req
        then Inl (semantic ErrInvalidRawReplyRequest ''raw delivery cannot request a correlated reply'' [] None)
        else Inr req)"

text \<open>A human sender without a source thread gets an endpoint identity of its own.\<close>

definition send_source :: "'s Ports \<Rightarrow> SendRequest \<Rightarrow> ('s, GoError + SourceIdentity) state" where
  "send_source P req = on_value (po_resolve_source P (sq_source req))
     (\<lambda>e. if sq_request_reply req
          then ret (Inl (semantic ErrReplyRouteRequired ''a routable source is required for request-reply'' [] (Some e)))
          else on_value (po_fresh_id P EndpointIDPrefix)
            (\<lambda>m. ret (Inl (semantic ErrInternal ''cannot allocate human source identity'' [] (Some (Opaque m)))))
            (\<lambda>i. ret (Inr \<lparr>sr_endpoint_id = i, sr_uri = '''', sr_human = True, sr_herdr = '''', sr_herdr_name = '''',
                          sr_custody_endpoint_id = '''', sr_custody_store_id = ''''\<rparr>)))
     (\<lambda>s. ret (Inr s))"

definition source_incomplete :: "SourceIdentity \<Rightarrow> bool" where
  "source_incomplete s = (sr_uri s = '''' \<or> sr_endpoint_id s = '''' \<or> sr_custody_endpoint_id s = '''' \<or> sr_custody_store_id s = '''')"

definition reply_preflight :: "'s Ports \<Rightarrow> bool \<Rightarrow> ResolvedTarget \<Rightarrow> SourceIdentity \<Rightarrow> ('s, GoError option) state" where
  "reply_preflight P wanted target source =
     (case po_preflight_reply P of
        Some verify \<Rightarrow> if wanted then verify target source else ret None
      | None \<Rightarrow> ret None)"

definition send_envelope :: "SendRequest \<Rightarrow> ResolvedTarget \<Rightarrow> SourceIdentity \<Rightarrow> string \<Rightarrow> string \<Rightarrow> Envelope" where
  "send_envelope req target source mid now =
     (let wanted = sq_request_reply req; from_uri = canonicalThreadURI (sr_endpoint_id source) (sr_uri source) in
      \<lparr>en_message_id = mid, en_kind = KindMessage, en_from_endpoint_id = sr_endpoint_id source, en_from = from_uri,
       en_from_kind = kindOf source, en_from_herdr = sr_herdr source, en_from_herdr_name = sr_herdr_name source,
       en_to_endpoint_id = tg_endpoint_id target, en_to = canonicalThreadURI (tg_endpoint_id target) (tg_uri target),
       en_requested_target = sq_target req, en_in_reply_to = '''', en_reply_requested = wanted,
       en_reply_endpoint_id = (if wanted then sr_endpoint_id source else ''''),
       en_reply_to = (if wanted then from_uri else ''''),
       en_reply_custody_endpoint_id = (if wanted then sr_custody_endpoint_id source else ''''),
       en_reply_custody_store_id = (if wanted then sr_custody_store_id source else ''''),
       en_reply_status = '''', en_reply_error_code = '''', en_sent_at = now,
       en_payload_bytes = body_bytes (sq_body req), en_payload_sha256 = sha256Digest (sq_body req),
       en_provenance = ''observed'', en_body = sq_body req\<rparr>)"

text \<open>The text for the target, within the app-server's bound.\<close>

definition send_payload :: "SendRequest \<Rightarrow> Envelope \<Rightarrow> GoError + string" where
  "send_payload req e =
     (let rendered = (if sq_raw req then Inr (sq_body req) else RenderEnvelope '''' e) in
      case rendered of
        Inl m \<Rightarrow> Inl (semantic ErrInvalidArguments ''cannot render message envelope'' [] (Some (Opaque m)))
      | Inr payload \<Rightarrow> (case service_preflight payload (sq_body req) of Some x \<Rightarrow> Inl x | None \<Rightarrow> Inr payload))"

definition send_operation :: "SendRequest \<Rightarrow> ResolvedTarget \<Rightarrow> SourceIdentity \<Rightarrow> Envelope \<Rightarrow> string \<Rightarrow> ServiceOperation" where
  "send_operation req target source e oid =
     \<lparr>so_operation_id = oid, so_message_id = en_message_id e, so_in_reply_to = '''',
      so_source_route = (if en_from e = '''' then ''human://'' @ sr_endpoint_id source else en_from e),
      so_target_route = en_to e, so_semantics = semantics_of (sq_raw req), so_reply_route = en_reply_to e,
      so_reply_endpoint_id = en_reply_endpoint_id e, so_custody_route = en_reply_custody_endpoint_id e,
      so_custody_store_id = en_reply_custody_store_id e, so_attempt_owner = '''', so_digest = sha256Digest (sq_body req),
      so_body_size = int (length (sq_body req)), so_reply_requested = sq_request_reply req,
      so_source_endpoint_id = sr_endpoint_id source, so_target_endpoint_id = tg_endpoint_id target\<rparr>"

section \<open>Delivery\<close>

text \<open>The end of an attempt that was not accepted. Past the fence nothing proves that nothing was written.\<close>

definition fenced_outcome :: "EvidenceState \<Rightarrow> string \<Rightarrow> EvidenceState \<times> string" where
  "fenced_outcome st code =
     (if st = StateNotSent then (StateOutcomeUnknown, ''outcome_unknown_after_dispatch_fence'') else (st, code))"

definition send_unaccepted ::
  "'s Ports \<Rightarrow> 's JournalPort \<Rightarrow> bool \<Rightarrow> ResolvedTarget \<Rightarrow> string \<Rightarrow> delivery_failure \<Rightarrow> EvidenceState \<Rightarrow> string \<Rightarrow> ('s, sent) state" where
  "send_unaccepted P J resumed target oid f st code =
     on_error (jp_record_result J oid st code)
       (\<lambda>e. with_detach P resumed target
          (\<lambda>d. send_fail st '''' (semantic ErrInternal ''delivery and target cleanup evidence both failed'' [] (Some (Joined [e, d]))))
          (send_fail st '''' (semantic ErrInternal ''delivery evidence could not be journaled''
             [(''deliveryState'', jstate st)] (Some e))))
       (with_detach P resumed target
          (\<lambda>d. send_fail st '''' (semantic ErrInternal ''delivery outcome and target cleanup both failed'' []
             (Some (Joined [delivery_cause f, d]))))
          (send_fail st '''' (deliveryError f st code)))"

definition cleanup_warning :: "string \<Rightarrow> GoError \<Rightarrow> go_map Warning" where
  "cleanup_warning message e = \<lparr>warn_code = WarningCleanupIncomplete, warn_message = message,
     warn_details = Some [(''error'', JStr (goerr_text e))]\<rparr>"

text \<open>After durable acceptance: the callback, then the wait.\<close>

definition send_callback :: "'s acceptance_callback \<Rightarrow> SendResult \<Rightarrow> ('s, GoError option) state" where
  "send_callback cb out = (case cb of None \<Rightarrow> ret None | Some f \<Rightarrow> f out)"

definition send_wait ::
  "'s Ports \<Rightarrow> 's JournalPort \<Rightarrow> 's WaitScript \<Rightarrow> bool \<Rightarrow> string \<Rightarrow> string \<Rightarrow> SendResult \<Rightarrow> ('s, sent) state" where
  "send_wait P J W wanted mid turn_id out =
     (if wanted then do {
        (w, e) \<leftarrow> Wait P J W mid;
        ret (out\<lparr>sn_wait := Some w\<rparr>, e, StateAccepted, turn_id)
      }
      else ret (out, None, StateAccepted, turn_id))"

definition send_recorded ::
  "'s Ports \<Rightarrow> 's JournalPort \<Rightarrow> 's WaitScript \<Rightarrow> 's acceptance_callback \<Rightarrow> SendRequest \<Rightarrow> bool \<Rightarrow> ResolvedTarget \<Rightarrow>
   ServiceOperation \<Rightarrow> Envelope \<Rightarrow> string \<Rightarrow> ('s, sent) state" where
  "send_recorded P J W cb req resumed target op env turn_id =
     with_detach P resumed target
       (\<lambda>d. do {
          r \<leftarrow> make_receipt P op env StateAccepted turn_id;
          let r = r\<lparr>rp_warnings := rp_warnings r @ [cleanup_warning ''persistent target detach did not complete'' d]\<rparr>;
          ret (\<lparr>sn_receipt = Some r, sn_wait = None\<rparr>,
               Some (semantic ErrInternal ''delivery accepted but target cleanup is incomplete'' [] (Some d)),
               StateAccepted, turn_id)
        })
       (do {
          r \<leftarrow> make_receipt P op env StateAccepted turn_id;
          let out = \<lparr>sn_receipt = Some r, sn_wait = None\<rparr>;
          on_error (send_callback cb out)
            (\<lambda>e. ret (out, Some e, StateAccepted, turn_id))
            (send_wait P J W (sq_wait req) (so_message_id op) turn_id out)
        })"

definition send_accepted ::
  "'s Ports \<Rightarrow> 's JournalPort \<Rightarrow> 's WaitScript \<Rightarrow> 's acceptance_callback \<Rightarrow> SendRequest \<Rightarrow> bool \<Rightarrow> ResolvedTarget \<Rightarrow>
   ServiceOperation \<Rightarrow> Envelope \<Rightarrow> DeliveryResult \<Rightarrow> ('s, sent) state" where
  "send_accepted P J W cb req resumed target op env result =
     on_error (jp_record_result J (so_operation_id op) StateAccepted (dr_evidence result))
       (\<lambda>e. with_detach P resumed target
          (\<lambda>d. send_fail StateAccepted (dr_turn_id result)
             (semantic ErrInternal ''acceptance and target cleanup evidence both failed'' [] (Some (Joined [e, d]))))
          (send_fail StateAccepted (dr_turn_id result)
             (semantic ErrInternal ''acceptance evidence could not be journaled'' [] (Some e))))
       (send_recorded P J W cb req resumed target op env (dr_turn_id result))"

text \<open>The body goes out: the first attempt, the retries of proven refusals, the journal entry.\<close>

definition send_dispatch ::
  "'s Ports \<Rightarrow> 's JournalPort \<Rightarrow> nat \<Rightarrow> 's WaitScript \<Rightarrow> 's acceptance_callback \<Rightarrow> SendRequest \<Rightarrow> bool \<Rightarrow> ResolvedTarget \<Rightarrow>
   ServiceOperation \<Rightarrow> Envelope \<Rightarrow> string \<Rightarrow> ('s, sent) state" where
  "send_dispatch P J n W cb req resumed target op env payload = do {
     first \<leftarrow> dispatch P target payload (so_message_id op);
     (result, failure, st, code) \<leftarrow> deliver_with_retry P [] n target payload (so_message_id op) first;
     case failure of
       Some f \<Rightarrow> (case fenced_outcome st code of (st, code) \<Rightarrow>
         send_unaccepted P J resumed target (so_operation_id op) f st code)
     | None \<Rightarrow> send_accepted P J W cb req resumed target op env result
   }"

definition send_fence ::
  "'s Ports \<Rightarrow> 's JournalPort \<Rightarrow> nat \<Rightarrow> 's WaitScript \<Rightarrow> 's acceptance_callback \<Rightarrow> SendRequest \<Rightarrow> bool \<Rightarrow> ResolvedTarget \<Rightarrow>
   ServiceOperation \<Rightarrow> Envelope \<Rightarrow> string \<Rightarrow> Prepared \<Rightarrow> ('s, sent) state" where
  "send_fence P J n W cb req resumed target op env payload prepared =
     on_error (jp_mark_dispatch_started J (pr_operation_id prepared) (pr_owner prepared) (pr_token prepared))
       (\<lambda>e. with_detach P resumed target
          (\<lambda>d. send_fail StateOutcomeUnknown '''' (semantic ErrInternal ''dispatch fence and target cleanup both failed'' []
             (Some (Joined [e, d]))))
          (send_fail StateOutcomeUnknown '''' (semantic ErrInternal ''dispatch fence could not be committed'' [] (Some e))))
       (send_dispatch P J n W cb req resumed target op env payload)"

text \<open>An unloaded persistent target is resumed first; nothing was written if that fails.\<close>

definition send_prepared ::
  "'s Ports \<Rightarrow> 's JournalPort \<Rightarrow> nat \<Rightarrow> 's WaitScript \<Rightarrow> 's acceptance_callback \<Rightarrow> SendRequest \<Rightarrow> ResolvedTarget \<Rightarrow>
   ServiceOperation \<Rightarrow> Envelope \<Rightarrow> string \<Rightarrow> Prepared \<Rightarrow> ('s, sent) state" where
  "send_prepared P J n W cb req target op env payload prepared =
     (if \<not> tg_loaded target \<and> tg_persistent target
      then on_error (po_resume P target)
        (\<lambda>e. on_error (jp_record_result J (so_operation_id op) StateNotSent ''resume_failed'')
           (\<lambda>x. send_fail StateNotSent '''' (semantic ErrInternal ''resume failure evidence could not be journaled'' [] (Some x)))
           (send_fail StateNotSent '''' (semantic ErrDeliveryRejected ''persistent target could not be resumed'' [] (Some e))))
        (send_fence P J n W cb req True target op env payload prepared)
      else send_fence P J n W cb req False target op env payload prepared)"

text \<open>The deferred function: an error carries the operation's receipt.\<close>

definition send_finish ::
  "'s Ports \<Rightarrow> ServiceOperation \<Rightarrow> Envelope \<Rightarrow> sent \<Rightarrow> ('s, SendResult \<times> GoError option) state" where
  "send_finish P op env x = (case x of (out, e, st, turn_id) \<Rightarrow>
     (case e of
        None \<Rightarrow> ret (out, None)
      | Some e \<Rightarrow> do {
          r \<leftarrow> (case sn_receipt out of Some r \<Rightarrow> (if rp_operation_id r = '''' then make_receipt P op env st turn_id else ret r)
                | None \<Rightarrow> make_receipt P op env st turn_id);
          ret (out\<lparr>sn_receipt := Some r\<rparr>, Some (operationError e r))
        }))"

section \<open>Send\<close>

abbreviation (input) refuse :: "GoError \<Rightarrow> ('s, SendResult \<times> GoError option) state" where
  "refuse e \<equiv> ret (zero_send, Some e)"

definition send_rendered ::
  "'s Ports \<Rightarrow> 's JournalPort \<Rightarrow> nat \<Rightarrow> 's WaitScript \<Rightarrow> 's acceptance_callback \<Rightarrow> SendRequest \<Rightarrow> ResolvedTarget \<Rightarrow>
   SourceIdentity \<Rightarrow> Envelope \<Rightarrow> string \<Rightarrow> ('s, SendResult \<times> GoError option) state" where
  "send_rendered P J n W cb req target source env payload =
     on_value (po_fresh_id P OperationIDPrefix)
       (\<lambda>m. refuse (semantic ErrInternal ''cannot allocate operation identity'' [] (Some (Opaque m))))
       (\<lambda>oid. let op = send_operation req target source env oid in
          on_value (jp_prepare J op)
            (\<lambda>e. refuse (semantic ErrMessageIdentityConflict ''message relationship could not be prepared'' [] (Some e)))
            (\<lambda>prepared. State_Monad.bind (send_prepared P J n W cb req target op env payload prepared) (send_finish P op env)))"

definition Send ::
  "'s Ports \<Rightarrow> 's JournalPort \<Rightarrow> nat \<Rightarrow> 's WaitScript \<Rightarrow> 's acceptance_callback \<Rightarrow> SendRequest \<Rightarrow> ('s, SendResult \<times> GoError option) state" where
  "Send P J n W cb request =
     (case send_admit request of
        Inl e \<Rightarrow> refuse e
      | Inr req \<Rightarrow>
          on_value (po_resolve P (sq_target req))
            (\<lambda>e. refuse (semantic ErrInvalidTarget ''destination resolution failed'' [] (Some e)))
            (\<lambda>target. on_value (send_source P req) (\<lambda>e. refuse e)
            (\<lambda>source.
               if sq_request_reply req \<and> source_incomplete source
               then refuse (semantic ErrReplyRouteRequired ''reply source and custody identities are incomplete'' [] None)
               else on_error (reply_preflight P (sq_request_reply req) target source) (\<lambda>e. refuse e)
                 (on_value (po_fresh_id P MessageIDPrefix)
                    (\<lambda>m. refuse (semantic ErrInternal ''cannot allocate message identity'' [] (Some (Opaque m))))
                    (\<lambda>mid. do {
                       now \<leftarrow> po_now P;
                       let env = send_envelope req target source mid now;
                       (case send_payload req env of
                          Inl e \<Rightarrow> refuse e
                        | Inr payload \<Rightarrow> send_rendered P J n W cb req target source env payload)
                     })))))"

end
