(* ===== verification/Service_Reply.thy ===== *)
theory Service_Reply
  imports Service_Send
begin

text \<open>
  \<open>Reply\<close> of \<open>go/internal/service/reply.go\<close>: the original is resolved and pinned, the reply is
  prepared, its fenced claim is taken from the custody journal, and the body goes out under a
  heartbeat that keeps the claim's lease; the claim is committed only after the delivery said
  yes, and given up as unknown on every other end. The goroutine that beats, its monitor and its
  channel are the port \<open>HeartbeatPort\<close>: \<open>hb_wait\<close> is \<open>waitForHeartbeat\<close>, \<open>hb_read\<close> the
  non-blocking read of the channel.
\<close>

record OriginalMessage =
  om_envelope :: Envelope
  om_current_thread :: string

record ReplyRequest =
  rq_reference :: string
  rq_message_id :: string
  rq_operation_id :: string
  rq_body :: string
  rq_status :: string
  rq_error_code :: string
  rq_source :: string
  rq_wait :: bool

record 's HeartbeatPort =
  hb_start :: "string \<Rightarrow> string \<Rightarrow> string \<Rightarrow> ('s, unit) state"
  hb_wait :: "('s, GoError option) state"
  hb_read :: "('s, GoError option) state"

type_synonym 's OriginalResolver = "(string \<Rightarrow> ('s, GoError + OriginalMessage) state) option"

text \<open>
  A round of the loop of \<open>joinPreparedReply\<close>: whether its context has ended when the lookup fails,
  and whether the timer fires before the context ends. \<open>js_bounded\<close> is whether there is a deadline.
\<close>

record JoinScript =
  js_rounds :: "(bool \<times> bool) list"
  js_bounded :: bool
  js_ctx_err :: GoError

section \<open>Admission\<close>

definition reply_admit :: "bool \<Rightarrow> ReplyRequest \<Rightarrow> GoError + ReplyRequest" where
  "reply_admit has_resolver req =
     (if \<not> has_resolver then Inl (semantic ErrMessageNotFound ''original message resolver is required'' [] None)
      else if rq_reference req = '''' \<or> rq_body req = ''''
      then Inl (semantic ErrInvalidArguments ''original reference and non-empty body are required'' [] None)
      else
        let req = (if rq_status req = '''' then req\<lparr>rq_status := ReplySuccess\<rparr> else req) in
        if rq_status req \<noteq> ReplySuccess \<and> rq_status req \<noteq> ReplyError
        then Inl (semantic ErrInvalidArguments ''reply status must be success or error'' [] None)
        else if rq_status req = ReplySuccess \<and> rq_error_code req \<noteq> ''''
        then Inl (semantic ErrInvalidArguments ''error code requires an error reply'' [] None)
        else Inr req)"

definition original_error :: "GoError \<Rightarrow> GoError" where
  "original_error e =
     (if is_sentinel ErrOriginalIdentityConflict e
      then semantic ErrMessageIdentityConflict ''original message identity is ambiguous'' [] (Some e)
      else if is_sentinel ErrOriginalLookupIncomplete e
      then semantic ErrResolverUnavailable ''original message history could not be verified completely'' [] (Some e)
      else semantic ErrMessageNotFound ''original message could not be resolved'' [] (Some e))"

text \<open>The original must be valid, addressed to this thread, and must ask for a reply.\<close>

definition original_check :: "OriginalMessage \<Rightarrow> GoError option" where
  "original_check orig =
     (let e = om_envelope orig in
      case envelope_validate e of
        Inl m \<Rightarrow> Some (semantic ErrMessageNotFound ''original envelope is invalid'' [] (Some (Opaque m)))
      | Inr _ \<Rightarrow>
          if uri_thread (en_to e) = '''' \<or> uri_thread (en_to e) \<noteq> uri_thread (om_current_thread orig)
          then Some (semantic ErrMessageNotAddressedThread ''original envelope belongs to another thread'' [] None)
          else if \<not> en_reply_requested e
          then Some (semantic ErrReplyRouteUnavailable ''original message did not carry a reply route'' [] None)
          else None)"

definition reply_route_check :: "Envelope \<Rightarrow> ResolvedTarget \<Rightarrow> SourceIdentity \<Rightarrow> GoError option" where
  "reply_route_check orig target source =
     (if tg_endpoint_id target \<noteq> en_reply_endpoint_id orig \<or> uri_thread (tg_uri target) = '''' \<or>
         uri_thread (tg_uri target) \<noteq> uri_thread (en_reply_to orig)
      then Some (semantic ErrReplyRouteUnavailable ''resolved reply route does not match the pinned original'' [] None)
      else if sr_uri source = '''' \<or> sr_endpoint_id source = ''''
      then Some (semantic ErrReplyRouteUnavailable ''reply source identity is incomplete'' [] None)
      else None)"

text \<open>An identity the caller supplies is validated, otherwise one is allocated.\<close>

definition supplied_or_fresh ::
  "'s Ports \<Rightarrow> string \<Rightarrow> string \<Rightarrow> string \<Rightarrow> string \<Rightarrow> ('s, GoError + string) state" where
  "supplied_or_fresh P supplied id_prefix allocate_message invalid_message =
     (if supplied = ''''
      then on_value (po_fresh_id P id_prefix)
        (\<lambda>m. ret (Inl (semantic ErrInternal allocate_message [] (Some (Opaque m)))))
        (\<lambda>i. ret (Inr i))
      else ret (case ValidateID supplied id_prefix of
          Inl m \<Rightarrow> Inl (semantic ErrInvalidArguments invalid_message [] (Some (Opaque m)))
        | Inr _ \<Rightarrow> Inr supplied))"

definition reply_envelope ::
  "ReplyRequest \<Rightarrow> Envelope \<Rightarrow> ResolvedTarget \<Rightarrow> SourceIdentity \<Rightarrow> string \<Rightarrow> string \<Rightarrow> Envelope" where
  "reply_envelope req orig target source rid now =
     (let wanted = rq_wait req; from_uri = canonicalThreadURI (sr_endpoint_id source) (sr_uri source) in
      \<lparr>en_message_id = rid, en_kind = KindReply, en_from_endpoint_id = sr_endpoint_id source, en_from = from_uri,
       en_from_kind = kindOf source, en_from_herdr = sr_herdr source, en_from_herdr_name = sr_herdr_name source,
       en_to_endpoint_id = en_reply_endpoint_id orig, en_to = canonicalThreadURI (tg_endpoint_id target) (tg_uri target),
       en_requested_target = en_reply_to orig, en_in_reply_to = en_message_id orig, en_reply_requested = wanted,
       en_reply_endpoint_id = (if wanted then sr_endpoint_id source else ''''),
       en_reply_to = (if wanted then from_uri else ''''),
       en_reply_custody_endpoint_id = (if wanted then sr_custody_endpoint_id source else ''''),
       en_reply_custody_store_id = (if wanted then sr_custody_store_id source else ''''),
       en_reply_status = rq_status req, en_reply_error_code = rq_error_code req, en_sent_at = now,
       en_payload_bytes = body_bytes (rq_body req), en_payload_sha256 = sha256Digest (rq_body req),
       en_provenance = ''observed'', en_body = rq_body req\<rparr>)"

definition reply_payload :: "ReplyRequest \<Rightarrow> Envelope \<Rightarrow> GoError + string" where
  "reply_payload req e =
     (if rq_wait req \<and> (en_reply_endpoint_id e = '''' \<or> en_reply_to e = '''' \<or> en_reply_custody_endpoint_id e = '''' \<or>
         en_reply_custody_store_id e = '''')
      then Inl (semantic ErrReplyRouteRequired ''a routable source is required when waiting for a reply'' [] None)
      else case RenderEnvelope '''' e of
        Inl m \<Rightarrow> Inl (semantic ErrInvalidArguments ''cannot render reply envelope'' [] (Some (Opaque m)))
      | Inr payload \<Rightarrow> (case service_preflight payload (rq_body req) of Some x \<Rightarrow> Inl x | None \<Rightarrow> Inr payload))"

definition reply_operation ::
  "ReplyRequest \<Rightarrow> Envelope \<Rightarrow> ResolvedTarget \<Rightarrow> SourceIdentity \<Rightarrow> Envelope \<Rightarrow> string \<Rightarrow> string \<Rightarrow> ServiceOperation" where
  "reply_operation req orig target source e oid attempt_id =
     \<lparr>so_operation_id = oid, so_message_id = en_message_id e, so_in_reply_to = en_message_id orig,
      so_source_route = en_from e, so_target_route = tg_uri target, so_semantics = ''reply'',
      so_reply_route = en_reply_to e, so_reply_endpoint_id = en_reply_endpoint_id e,
      so_custody_route = en_reply_custody_endpoint_id e, so_custody_store_id = en_reply_custody_store_id e,
      so_attempt_owner = ''reply-'' @ attempt_id, so_digest = sha256Digest (rq_body req),
      so_body_size = int (length (rq_body req)), so_reply_requested = rq_wait req,
      so_source_endpoint_id = sr_endpoint_id source, so_target_endpoint_id = tg_endpoint_id target\<rparr>"

definition reply_claim_input :: "ReplyRequest \<Rightarrow> Envelope \<Rightarrow> string \<Rightarrow> string \<Rightarrow> ReplyClaimInput" where
  "reply_claim_input req orig rid owner =
     \<lparr>ri_reply_id = rid, ri_original_id = en_message_id orig, ri_digest = sha256Digest (rq_body req),
      ri_body_size = int (length (rq_body req)), ri_status = rq_status req, ri_reply_route = en_reply_to orig,
      ri_custody_route = en_reply_custody_endpoint_id orig, ri_custody_store_id = en_reply_custody_store_id orig,
      ri_owner = owner, ri_error_code = rq_error_code req\<rparr>"

section \<open>Joining an attempt that another invocation owns\<close>

definition join_error :: "string \<Rightarrow> GoError option \<Rightarrow> GoError" where
  "join_error message cause = semantic ErrWaitIncomplete message [(''bodySent'', JBool False)] cause"

definition incomplete_wait :: "Receipt \<Rightarrow> EvidenceState \<Rightarrow> string \<Rightarrow> WaitResult" where
  "incomplete_wait r st gap = zero_wait\<lparr>wr_receipt := Some r, wr_state := st, wr_incomplete := True, wr_gap_reason := gap\<rparr>"

definition join_state :: "EvidenceState \<Rightarrow> EvidenceState" where
  "join_state st = (if st = StateAccepted then StateReplyAccepted else st)"

definition join_pending :: "EvidenceState \<Rightarrow> bool" where
  "join_pending st = (st = StatePrepared \<or> st = StateDispatchStarted \<or> st = StateReplyClaimed)"

definition join_accepted ::
  "'s Ports \<Rightarrow> 's JournalPort \<Rightarrow> 's WaitScript \<Rightarrow> 's acceptance_callback \<Rightarrow> bool \<Rightarrow> string \<Rightarrow> SendResult \<Rightarrow> ('s, SendResult \<times> GoError option) state" where
  "join_accepted P J W cb wanted mid out =
     on_error (send_callback cb out) (\<lambda>e. ret (out, Some e))
       (if wanted then do { (w, e) \<leftarrow> Wait P J W mid; ret (out\<lparr>sn_wait := Some w\<rparr>, e) } else ret (out, None))"

text \<open>One snapshot of the operation; \<open>again\<close> is the next round of the loop.\<close>

definition join_round ::
  "'s Ports \<Rightarrow> 's JournalPort \<Rightarrow> 's WaitScript \<Rightarrow> JoinScript \<Rightarrow> 's acceptance_callback \<Rightarrow> bool \<Rightarrow> ServiceOperation \<Rightarrow> Envelope \<Rightarrow>
   Receipt option \<Rightarrow> bool \<Rightarrow> bool \<Rightarrow> (Receipt \<Rightarrow> ('s, SendResult \<times> GoError option) state) \<Rightarrow> ('s, SendResult \<times> GoError option) state" where
  "join_round P J W S cb wanted op env previous expired tick again = do {
     looked \<leftarrow> jp_lookup J (so_operation_id op);
     let st = (case looked of Inl _ \<Rightarrow> StateOutcomeUnknown | Inr s \<Rightarrow> join_state (os_state s));
     r \<leftarrow> make_receipt P op env st (case looked of Inl _ \<Rightarrow> '''' | Inr s \<Rightarrow> os_turn_id s);
     let out = \<lparr>sn_receipt = Some r, sn_wait = None\<rparr>;
     (case looked of
        Inl e \<Rightarrow> (case previous of
            Some p \<Rightarrow> if expired
              then ret (\<lparr>sn_receipt = Some p, sn_wait = Some (incomplete_wait p (rp_state p) '''')\<rparr>,
                        Some (join_error ''wait ended before the existing reply operation was accepted'' (Some e)))
              else ret (out, Some (semantic ErrReplyOutcomeUnknown ''existing reply operation could not be observed; no new body was sent''
                        [(''bodySent'', JBool False)] (Some e)))
          | None \<Rightarrow> ret (out, Some (semantic ErrReplyOutcomeUnknown ''existing reply operation could not be observed; no new body was sent''
                        [(''bodySent'', JBool False)] (Some e))))
      | Inr _ \<Rightarrow>
          if st = StateOutcomeUnknown \<or> st = StateReplyOutcomeUnknown
          then ret (out, reply_state_error StateReplyOutcomeUnknown '''' '''')
          else if st = StateReplyAccepted \<or> st = StateReplyObserved
          then join_accepted P J W cb wanted (so_message_id op) out
          else if \<not> wanted \<or> \<not> js_bounded S \<or> \<not> join_pending st
          then ret (out, Some (join_error ''existing reply operation is not accepted; no new body was sent'' None))
          else if tick then again r
          else ret (out\<lparr>sn_wait := Some (incomplete_wait r st '''')\<rparr>,
                    Some (join_error ''wait ended before the existing reply operation was accepted'' (Some (js_ctx_err S)))))
   }"

fun join_loop ::
  "'s Ports \<Rightarrow> 's JournalPort \<Rightarrow> 's WaitScript \<Rightarrow> JoinScript \<Rightarrow> 's acceptance_callback \<Rightarrow> bool \<Rightarrow> ServiceOperation \<Rightarrow> Envelope \<Rightarrow>
   Receipt option \<Rightarrow> (bool \<times> bool) list \<Rightarrow> ('s, SendResult \<times> GoError option) state" where
  "join_loop P J W S cb wanted op env previous [] = join_round P J W S cb wanted op env previous True False (\<lambda>r. ret (zero_send, None))"
| "join_loop P J W S cb wanted op env previous ((expired, tick) # rounds) =
     join_round P J W S cb wanted op env previous expired tick
       (\<lambda>r. join_loop P J W S cb wanted op env (Some r) rounds)"

definition joinPreparedReply ::
  "'s Ports \<Rightarrow> 's JournalPort \<Rightarrow> 's WaitScript \<Rightarrow> JoinScript \<Rightarrow> 's acceptance_callback \<Rightarrow> bool \<Rightarrow> ServiceOperation \<Rightarrow> Envelope \<Rightarrow>
   ('s, SendResult \<times> GoError option) state" where
  "joinPreparedReply P J W S cb wanted op env = join_loop P J W S cb wanted op env None (js_rounds S)"

section \<open>A claim that was not granted\<close>

text \<open>The code, the claim's state and the message of \<open>failedReplyClaim\<close>.\<close>

definition claim_failure :: "GoError \<Rightarrow> ErrorCode \<times> string \<times> string" where
  "claim_failure cause =
     (let unsent = ''reply body was not sent; '';
          rejected = unsent @ ''custody rejected the reply claim'';
          unsubmitted = unsent @ ''custody claim could not be submitted'';
          unknown = unsent @ ''custody claim outcome is unknown'' in
      case as_semantic cause of
        Some (code, _) \<Rightarrow> (code, ''outcome_unknown'', unknown)
      | None \<Rightarrow>
          if is_journal IdentityConflict cause then (ErrMessageIdentityConflict, ''rejected'', rejected)
          else if is_sentinel ErrClaimExpired cause \<or> is_journal ClaimExpired cause
          then (ErrReplyOutcomeUnknown, ''outcome_unknown'', unsent @ ''existing custody claim expired and will not be replayed'')
          else if is_sentinel ErrRemoteCustodyBinding cause \<or> is_sentinel ErrRemoteCustodyUnavailable cause
          then (ErrReplyRouteUnavailable, ''not_attempted'', unsubmitted)
          else if as_transport cause = Some ''not_started''
          then (ErrDeliveryTemporarilyUnavailable, ''not_attempted'', unsubmitted)
          else (ErrReplyOutcomeUnknown, ''outcome_unknown'', unknown))"

definition failed_claim_receipt :: "Receipt \<Rightarrow> string \<Rightarrow> Receipt" where
  "failed_claim_receipt r claim_state =
     r\<lparr>rp_evidence := map (\<lambda>ev. ev\<lparr>ev_details := Some (put_details
        [(''bodySent'', JBool False), (''claimState'', JStr claim_state)] (case ev_details ev of None \<Rightarrow> [] | Some m \<Rightarrow> m))\<rparr>) (rp_evidence r)\<rparr>"

definition failedReplyClaim ::
  "'s Ports \<Rightarrow> 's JournalPort \<Rightarrow> ServiceOperation \<Rightarrow> Envelope \<Rightarrow> Prepared \<Rightarrow> GoError \<Rightarrow> ('s, SendResult \<times> GoError option) state" where
  "failedReplyClaim P J op env prepared cause =
     (case claim_failure cause of (code, claim_state, message) \<Rightarrow>
      let owned = pr_token prepared \<noteq> '''';
          st = (if owned then StateNotSent else StateOutcomeUnknown);
          dts = put_details
            [(''operationId'', JStr (pr_operation_id prepared)), (''messageId'', JStr (pr_message_id prepared)),
             (''bodySent'', JBool False), (''claimState'', JStr claim_state), (''evidenceState'', jstate st)]
            (case as_semantic cause of Some (_, _, _, d) \<Rightarrow> d | None \<Rightarrow> []);
          op = op\<lparr>so_operation_id := pr_operation_id prepared, so_message_id := pr_message_id prepared\<rparr>;
          env = env\<lparr>en_message_id := pr_message_id prepared\<rparr>
      in do {
        r \<leftarrow> make_receipt P op env st '''';
        let out = \<lparr>sn_receipt = Some (failed_claim_receipt r claim_state), sn_wait = None\<rparr>;
        if owned
        then on_error (jp_record_result J (pr_operation_id prepared) StateNotSent ''reply_claim_failed'')
          (\<lambda>e. ret (out, Some (semantic code (message @ ''; local failure evidence could not be journaled'')
             (put_details [(''recordError'', JStr (goerr_text e))] dts) (Some (Joined [cause, e])))))
          (ret (out, Some (semantic code message dts (Some cause))))
        else ret (out, Some (semantic code message dts (Some cause)))
      })"

section \<open>A claim that another attempt holds or has won\<close>

definition joined_wait ::
  "'s Ports \<Rightarrow> 's JournalPort \<Rightarrow> ServiceOperation \<Rightarrow> Envelope \<Rightarrow> ServiceClaim \<Rightarrow> SendResult \<Rightarrow> Receipt \<Rightarrow> ('s, SendResult \<times> GoError option) state" where
  "joined_wait P J op env claim out r =
     (case jp_wait_reply J of
        Some wait_reply \<Rightarrow> do {
          (s, e) \<leftarrow> wait_reply (so_message_id op);
          let e = (case e of None \<Rightarrow> waitStateError s | Some x \<Rightarrow> Some x);
          let e = (case e of
              Some x \<Rightarrow> Some (if terminalWaitState (os_state s) then x
                 else semantic ErrWaitIncomplete ''joined reply wait ended before a correlated child reply'' [] (Some x))
            | None \<Rightarrow> None);
          r' \<leftarrow> make_receipt P op env (os_state s) '''';
          ret (out\<lparr>sn_wait := Some (zero_wait\<lparr>wr_receipt := Some r', wr_state := os_state s, wr_reply_id := os_reply_id s,
                 wr_reply_status := os_reply_status s, wr_incomplete := (e \<noteq> None)\<rparr>)\<rparr>, e)
        }
      | None \<Rightarrow> ret (out\<lparr>sn_wait := Some (incomplete_wait r (sc_state claim) ''reply attempt is already in flight'')\<rparr>,
          Some (semantic ErrWaitIncomplete ''joined reply attempt has not reached a terminal custody state''
            [(''replyState'', jstate (sc_state claim))] None)))"

definition reply_joined ::
  "'s Ports \<Rightarrow> 's JournalPort \<Rightarrow> 's WaitScript \<Rightarrow> 's acceptance_callback \<Rightarrow> bool \<Rightarrow> ServiceOperation \<Rightarrow> Envelope \<Rightarrow> ServiceClaim \<Rightarrow>
   ('s, SendResult \<times> GoError option) state" where
  "reply_joined P J W cb wanted op env claim = do {
     r \<leftarrow> make_receipt P op env (sc_state claim) '''';
     let out = \<lparr>sn_receipt = Some r, sn_wait = None\<rparr>;
     if sc_state claim = StateReplyAccepted \<or> sc_state claim = StateReplyObserved
     then join_accepted P J W cb wanted (so_message_id op) out
     else if wanted then joined_wait P J op env claim out r
     else ret (out, Some (semantic ErrWaitIncomplete ''reply dispatch is already in flight'' [(''replyState'', jstate (sc_state claim))] None))
   }"


section \<open>The body under the heartbeat\<close>

text \<open>\<open>errors.Join\<close>: nil where every error is nil.\<close>

definition join_errors :: "GoError option list \<Rightarrow> GoError option" where
  "join_errors es = (let xs = List.map_filter (\<lambda>e. e) es in if xs = [] then None else Some (Joined xs))"

definition quiet_detach :: "'s Ports \<Rightarrow> bool \<Rightarrow> ResolvedTarget \<Rightarrow> ('s, 'a) state \<Rightarrow> ('s, 'a) state" where
  "quiet_detach P resumed target k = with_detach P resumed target (\<lambda>_. k) k"

definition abortReplyHeartbeat ::
  "'s Ports \<Rightarrow> 's JournalPort \<Rightarrow> bool \<Rightarrow> ResolvedTarget \<Rightarrow> ServiceClaim \<Rightarrow> Prepared \<Rightarrow> GoError \<Rightarrow> ('s, sent) state" where
  "abortReplyHeartbeat P J resumed target claim prepared e = do {
     a \<leftarrow> jp_abandon_reply J (sc_reply_id claim) (sc_owner claim) (sc_token claim);
     r \<leftarrow> jp_record_result J (pr_operation_id prepared) StateOutcomeUnknown ''heartbeat_failed'';
     d \<leftarrow> (if resumed then po_detach P target else ret None);
     let a = (if d = None then a else join_errors [a, d]);
     send_fail StateOutcomeUnknown ''''
       (if a \<noteq> None \<or> r \<noteq> None
        then semantic ErrInternal ''heartbeat failure and conservative outcome could not be journaled'' [] (join_errors [Some e, a, r])
        else semantic ErrReplyOutcomeUnknown ''reply claim heartbeat failed; body outcome is conservatively unknown'' [] (Some e))
   }"

text \<open>The delivery did not say yes: the claim is given up before the outcome is journaled.\<close>

definition reply_unaccepted ::
  "'s Ports \<Rightarrow> 's JournalPort \<Rightarrow> bool \<Rightarrow> ResolvedTarget \<Rightarrow> ServiceClaim \<Rightarrow> Prepared \<Rightarrow> delivery_failure \<Rightarrow> EvidenceState \<Rightarrow> string \<Rightarrow> ('s, sent) state" where
  "reply_unaccepted P J resumed target claim prepared f st code =
     on_error (jp_abandon_reply J (sc_reply_id claim) (sc_owner claim) (sc_token claim))
       (\<lambda>e. quiet_detach P resumed target (send_fail st '''' (semantic ErrInternal ''reply uncertainty could not be journaled''
          [(''deliveryState'', jstate st)] (Some e))))
       (on_error (jp_record_result J (pr_operation_id prepared) st code)
          (\<lambda>e. quiet_detach P resumed target (send_fail st '''' (semantic ErrInternal ''reply delivery evidence could not be journaled''
             [(''deliveryState'', jstate st)] (Some e))))
          (quiet_detach P resumed target (send_fail st ''''
             (if st = StateRejected \<or> st = StateNotSent
              then semantic ErrDeliveryRejected ''reply body was not accepted'' [(''evidenceState'', jstate st)] (Some (delivery_cause f))
              else semantic ErrReplyOutcomeUnknown ''reply body outcome is unknown; it will not be replayed'' [] (Some (delivery_cause f))))))"

definition reply_done ::
  "'s Ports \<Rightarrow> 's JournalPort \<Rightarrow> 's WaitScript \<Rightarrow> 's acceptance_callback \<Rightarrow> bool \<Rightarrow> bool \<Rightarrow> ResolvedTarget \<Rightarrow> ServiceOperation \<Rightarrow>
   Envelope \<Rightarrow> string \<Rightarrow> ('s, sent) state" where
  "reply_done P J W cb wanted resumed target op env turn_id =
     with_detach P resumed target
       (\<lambda>d. do {
          r \<leftarrow> make_receipt P op env StateReplyAccepted turn_id;
          let r = r\<lparr>rp_warnings := rp_warnings r @ [cleanup_warning ''persistent reply target detach did not complete'' d]\<rparr>;
          ret (\<lparr>sn_receipt = Some r, sn_wait = None\<rparr>,
               Some (semantic ErrInternal ''reply accepted but target cleanup is incomplete'' [] (Some d)), StateReplyAccepted, turn_id)
        })
       (do {
          r \<leftarrow> make_receipt P op env StateReplyAccepted turn_id;
          (out, e) \<leftarrow> join_accepted P J W cb wanted (so_message_id op) \<lparr>sn_receipt = Some r, sn_wait = None\<rparr>;
          ret (out, e, StateReplyAccepted, turn_id)
        })"

text \<open>\<open>replyAccepted\<close>: the heartbeat must be clean, then the claim is committed, then the operation is closed.\<close>

definition reply_commit ::
  "'s Ports \<Rightarrow> 's JournalPort \<Rightarrow> 's HeartbeatPort \<Rightarrow> 's WaitScript \<Rightarrow> 's acceptance_callback \<Rightarrow> bool \<Rightarrow> bool \<Rightarrow> ResolvedTarget \<Rightarrow>
   ServiceOperation \<Rightarrow> Envelope \<Rightarrow> Prepared \<Rightarrow> ServiceClaim \<Rightarrow> DeliveryResult \<Rightarrow> ('s, sent) state" where
  "reply_commit P J H W cb wanted resumed target op env prepared claim result =
     (let abort = abortReplyHeartbeat P J resumed target claim prepared; turn_id = dr_turn_id result in
      on_error (hb_wait H) abort (on_error (hb_read H) abort
       (on_value (jp_commit_reply J (sc_reply_id claim) (sc_owner claim) (sc_token claim))
         (\<lambda>e. quiet_detach P resumed target
            (on_error (jp_record_result J (pr_operation_id prepared) StateOutcomeUnknown ''reply_acceptance_commit_failed'')
              (\<lambda>x. send_fail StateOutcomeUnknown '''' (semantic ErrInternal ''reply acceptance and uncertainty evidence could not be journaled''
                 [] (Some (Joined [e, x]))))
              (send_fail StateOutcomeUnknown '''' (semantic ErrReplyOutcomeUnknown ''reply acceptance commit was fenced or unavailable''
                 [] (Some e)))))
         (\<lambda>_. on_error (jp_record_result J (pr_operation_id prepared) StateAccepted (dr_evidence result))
            (\<lambda>e. quiet_detach P resumed target (do {
               r \<leftarrow> make_receipt P op env StateReplyAccepted turn_id;
               ret (\<lparr>sn_receipt = Some r, sn_wait = None\<rparr>,
                    Some (semantic ErrInternal ''reply operation acceptance could not be journaled'' [] (Some e)),
                    StateReplyAccepted, turn_id)
             }))
            (reply_done P J W cb wanted resumed target op env turn_id)))))"

definition reply_dispatch ::
  "'s Ports \<Rightarrow> 's JournalPort \<Rightarrow> 's HeartbeatPort \<Rightarrow> nat \<Rightarrow> 's WaitScript \<Rightarrow> 's acceptance_callback \<Rightarrow> bool \<Rightarrow> bool \<Rightarrow> ResolvedTarget \<Rightarrow>
   ServiceOperation \<Rightarrow> Envelope \<Rightarrow> string \<Rightarrow> Prepared \<Rightarrow> ServiceClaim \<Rightarrow> ('s, sent) state" where
  "reply_dispatch P J H n W cb wanted resumed target op env payload prepared claim =
     (let abort = abortReplyHeartbeat P J resumed target claim prepared;
          accept = reply_commit P J H W cb wanted resumed target op env prepared claim in
      do {
        first \<leftarrow> dispatch P target payload (so_message_id op);
        on_error (hb_wait H) abort (on_error (hb_read H) abort
          (if snd first = None then accept (fst first)
           else do {
             (result, failure, st, code) \<leftarrow> deliver_with_retry P [hb_wait H] n target payload (so_message_id op) first;
             on_error (hb_read H) abort
               (case failure of
                  None \<Rightarrow> accept result
                | Some f \<Rightarrow> (case fenced_outcome st code of (st, code) \<Rightarrow>
                    reply_unaccepted P J resumed target claim prepared f st code))
           }))
      })"

definition reply_fence ::
  "'s Ports \<Rightarrow> 's JournalPort \<Rightarrow> 's HeartbeatPort \<Rightarrow> nat \<Rightarrow> 's WaitScript \<Rightarrow> 's acceptance_callback \<Rightarrow> bool \<Rightarrow> bool \<Rightarrow> ResolvedTarget \<Rightarrow>
   ServiceOperation \<Rightarrow> Envelope \<Rightarrow> string \<Rightarrow> Prepared \<Rightarrow> ServiceClaim \<Rightarrow> ('s, sent) state" where
  "reply_fence P J H n W cb wanted resumed target op env payload prepared claim = do {
     hb_start H (sc_reply_id claim) (sc_owner claim) (sc_token claim);
     on_error (jp_mark_dispatch_started J (pr_operation_id prepared) (pr_owner prepared) (pr_token prepared))
       (\<lambda>e. quiet_detach P resumed target
          (on_error (jp_abandon_reply J (sc_reply_id claim) (sc_owner claim) (sc_token claim))
             (\<lambda>a. send_fail StateOutcomeUnknown '''' (semantic ErrInternal ''reply fence failure cleanup could not be journaled'' []
                (Some (Joined [e, a]))))
             (send_fail StateOutcomeUnknown '''' (semantic ErrInternal ''reply dispatch fence could not be committed'' [] (Some e)))))
       (reply_dispatch P J H n W cb wanted resumed target op env payload prepared claim)
   }"

definition reply_resume ::
  "'s Ports \<Rightarrow> 's JournalPort \<Rightarrow> 's HeartbeatPort \<Rightarrow> nat \<Rightarrow> 's WaitScript \<Rightarrow> 's acceptance_callback \<Rightarrow> bool \<Rightarrow> ResolvedTarget \<Rightarrow>
   ServiceOperation \<Rightarrow> Envelope \<Rightarrow> string \<Rightarrow> Prepared \<Rightarrow> ServiceClaim \<Rightarrow> ('s, sent) state" where
  "reply_resume P J H n W cb wanted target op env payload prepared claim =
     (if \<not> tg_loaded target \<and> tg_persistent target
      then on_error (po_resume P target)
        (\<lambda>e. on_error (jp_record_result J (pr_operation_id prepared) StateNotSent ''resume_failed'')
           (\<lambda>x. send_fail StateNotSent '''' (semantic ErrInternal ''resume failure evidence could not be journaled'' [] (Some x)))
           (on_error (jp_abandon_reply J (sc_reply_id claim) (sc_owner claim) (sc_token claim))
              (\<lambda>a. send_fail StateNotSent '''' (semantic ErrInternal ''resume failure and reply claim cleanup could not be journaled'' []
                 (Some (Joined [e, a]))))
              (send_fail StateNotSent '''' (semantic ErrDeliveryRejected ''persistent reply target could not be resumed'' [] (Some e)))))
        (reply_fence P J H n W cb wanted True target op env payload prepared claim)
      else reply_fence P J H n W cb wanted False target op env payload prepared claim)"

definition claim_taken :: "ServiceClaim \<Rightarrow> bool" where
  "claim_taken c = (sc_joined c \<or> sc_state c = StateReplyAccepted \<or> sc_state c = StateReplyObserved)"

text \<open>An early return of the prepared reply: nothing of this invocation is past \<open>StatePrepared\<close>.\<close>

definition at_prepared :: "('s, SendResult \<times> GoError option) state \<Rightarrow> ('s, sent) state" where
  "at_prepared m = do { (out, e) \<leftarrow> m; ret (out, e, StatePrepared, '''') }"

definition reply_prepared ::
  "'s Ports \<Rightarrow> 's JournalPort \<Rightarrow> 's HeartbeatPort \<Rightarrow> nat \<Rightarrow> 's WaitScript \<Rightarrow> JoinScript \<Rightarrow> 's acceptance_callback \<Rightarrow> ReplyRequest \<Rightarrow>
   Envelope \<Rightarrow> ResolvedTarget \<Rightarrow> ServiceOperation \<Rightarrow> Envelope \<Rightarrow> string \<Rightarrow> Prepared \<Rightarrow> ('s, sent) state" where
  "reply_prepared P J H n W S cb req orig target op env payload prepared =
     (if pr_token prepared = '''' then at_prepared (joinPreparedReply P J W S cb (rq_wait req) op env)
      else on_value (jp_claim_reply J (reply_claim_input req orig (en_message_id env)
             (if pr_owner prepared = '''' then so_attempt_owner op else pr_owner prepared)))
        (\<lambda>e. at_prepared (failedReplyClaim P J op env prepared e))
        (\<lambda>claim. if claim_taken claim then at_prepared (reply_joined P J W cb (rq_wait req) op env claim)
           else reply_resume P J H n W cb (rq_wait req) target op env payload prepared claim))"

section \<open>Reply\<close>

definition reply_rendered ::
  "'s Ports \<Rightarrow> 's JournalPort \<Rightarrow> 's HeartbeatPort \<Rightarrow> nat \<Rightarrow> 's WaitScript \<Rightarrow> JoinScript \<Rightarrow> 's acceptance_callback \<Rightarrow> ReplyRequest \<Rightarrow>
   Envelope \<Rightarrow> ResolvedTarget \<Rightarrow> SourceIdentity \<Rightarrow> Envelope \<Rightarrow> string \<Rightarrow> ('s, SendResult \<times> GoError option) state" where
  "reply_rendered P J H n W S cb req orig target source env payload =
     on_value (supplied_or_fresh P (rq_operation_id req) OperationIDPrefix
         ''cannot allocate reply operation identity'' ''reply operation identity is invalid'') (\<lambda>e. refuse e)
       (\<lambda>oid. on_value (po_fresh_id P OperationIDPrefix)
          (\<lambda>m. refuse (semantic ErrInternal ''cannot allocate reply attempt owner'' [] (Some (Opaque m))))
          (\<lambda>attempt_id. let op = reply_operation req orig target source env oid attempt_id in
             on_value (jp_prepare J op)
               (\<lambda>e. refuse (semantic ErrMessageIdentityConflict ''reply relationship could not be prepared'' [] (Some e)))
               (\<lambda>prepared. State_Monad.bind (reply_prepared P J H n W S cb req orig target op env payload prepared) (send_finish P op env))))"

definition reply_build ::
  "'s Ports \<Rightarrow> 's JournalPort \<Rightarrow> 's HeartbeatPort \<Rightarrow> nat \<Rightarrow> 's WaitScript \<Rightarrow> JoinScript \<Rightarrow> 's acceptance_callback \<Rightarrow> ReplyRequest \<Rightarrow>
   Envelope \<Rightarrow> ResolvedTarget \<Rightarrow> SourceIdentity \<Rightarrow> ('s, SendResult \<times> GoError option) state" where
  "reply_build P J H n W S cb req orig target source =
     on_value (supplied_or_fresh P (rq_message_id req) MessageIDPrefix
         ''cannot allocate reply identity'' ''reply message identity is invalid'') (\<lambda>e. refuse e)
       (\<lambda>rid. do {
          now \<leftarrow> po_now P;
          let env = reply_envelope req orig target source rid now;
          (case reply_payload req env of
             Inl e \<Rightarrow> refuse e
           | Inr payload \<Rightarrow> reply_rendered P J H n W S cb req orig target source env payload)
        })"

definition Reply_service ::
  "'s Ports \<Rightarrow> 's JournalPort \<Rightarrow> 's HeartbeatPort \<Rightarrow> nat \<Rightarrow> 's WaitScript \<Rightarrow> JoinScript \<Rightarrow> 's acceptance_callback \<Rightarrow>
   's OriginalResolver \<Rightarrow> ReplyRequest \<Rightarrow> ('s, SendResult \<times> GoError option) state" where
  "Reply_service P J H n W S cb R request =
     (case reply_admit (R \<noteq> None) request of
        Inl e \<Rightarrow> refuse e
      | Inr req \<Rightarrow>
          on_value (case R of Some f \<Rightarrow> f (rq_reference req) | None \<Rightarrow> ret (Inl (Opaque '''')))
            (\<lambda>e. refuse (original_error e))
            (\<lambda>orig. case original_check orig of
                Some e \<Rightarrow> refuse e
              | None \<Rightarrow>
                  let original = om_envelope orig in
                  on_value (po_resolve_source P (rq_source req))
                    (\<lambda>e. refuse (semantic ErrReplyRouteUnavailable ''reply source could not be resolved'' [] (Some e)))
                    (\<lambda>source. on_value (po_resolve_pinned P (en_reply_endpoint_id original) (en_reply_to original))
                       (\<lambda>e. refuse (semantic ErrReplyRouteUnavailable ''pinned reply route is unavailable'' [] (Some e)))
                       (\<lambda>target. case reply_route_check original target source of
                           Some e \<Rightarrow> refuse e
                         | None \<Rightarrow> on_error (reply_preflight P (rq_wait req) target source) (\<lambda>e. refuse e)
                             (reply_build P J H n W S cb req original target source)))))"

end
