(* ===== verification/Service_Journal.thy ===== *)
theory Service_Journal
  imports Service_Reply Journal_System
begin

text \<open>
  The SQLite journal as the service's port: \<open>go/internal/service/journal_adapter.go\<close> over the journal
  of Journal\_Operations and Journal\_Replies, in a world that holds the database, the identity
  registry, the bodies handed out so far and the heartbeat goroutine. What the outside answers
  (resolvers, deliveries, clocks, entropy, the driver) is a record of functions of the number of
  calls made so far. Before each journal call other processes may have taken any steps on the
  database (\<open>jc_others\<close>), and the driver may report a failure of its own, with the transaction
  applied or not, as \<open>withTx_all_or_nothing\<close> allows.
\<close>

section \<open>The identity registry\<close>

record IdentityBinding =
  ib_source_endpoint_id :: string
  ib_target_endpoint_id :: string
  ib_reply_endpoint_id :: string

type_synonym registry = "string \<Rightarrow> IdentityBinding option"

definition identityKey :: "string \<Rightarrow> string \<Rightarrow> string" where
  "identityKey operation_id message_id = operation_id @ [CHR 0x00] @ message_id"

definition registry_bind :: "registry \<Rightarrow> string \<Rightarrow> string \<Rightarrow> IdentityBinding \<Rightarrow> GoError + registry" where
  "registry_bind reg oid mid b =
     (if oid = '''' \<or> mid = '''' \<or> ib_source_endpoint_id b = '''' \<or> ib_target_endpoint_id b = ''''
      then Inl (Opaque ''service: incomplete operation identity binding'')
      else case reg (identityKey oid mid) of
        Some existing \<Rightarrow> if existing \<noteq> b then Inl (Opaque ''service: operation identity binding conflict'') else Inr reg
      | None \<Rightarrow> Inr (reg(identityKey oid mid \<mapsto> b)))"

definition registry_lookup :: "registry \<Rightarrow> string \<Rightarrow> string \<Rightarrow> GoError + IdentityBinding" where
  "registry_lookup reg oid mid =
     (case reg (identityKey oid mid) of
        None \<Rightarrow> Inl (Opaque ''service: operation endpoint identity is unavailable'')
      | Some b \<Rightarrow> Inr b)"

section \<open>The world\<close>

record world =
  w_db :: db
  w_registry :: "registry option"
  w_calls :: nat
  w_outbox :: "string list"
  w_beating :: "(string \<times> string \<times> string) option"
  w_beat_error :: "GoError option"
  w_beat_channel :: "GoError option"

text \<open>
  What other processes did to the database between two calls: any run of journal steps, that is of
  every writer but retention (\<open>StorageMaintain\<close>).
\<close>

typedef moves = "{f. \<forall>d. journal_step\<^sup>*\<^sup>* d (f d)}"
  morphisms apply_moves Moves
  by (rule exI[of _ "\<lambda>d. d"]) simp

setup_lifting type_definition_moves

lift_definition no_moves :: moves is "\<lambda>d. d" by simp

lift_definition others_claim :: "int \<Rightarrow> int \<Rightarrow> 8 word list option \<Rightarrow> ClaimInput \<Rightarrow> moves" is
  "\<lambda>now dur entropy inp d. snd (ClaimReply now dur entropy inp d)"
  by (rule r_into_rtranclp, rule step_claim, rule prod.collapse[symmetric])

record journal_call =
  jc_now :: int
  jc_duration :: int
  jc_entropy :: "8 word list option"
  jc_others :: moves
  jc_fault :: "(jerror \<times> bool) option"

record answers =
  an_journal :: "nat \<Rightarrow> journal_call"
  an_legacy :: IdentityBinding
  an_resolve :: "nat \<Rightarrow> string \<Rightarrow> GoError + ResolvedTarget"
  an_source :: "nat \<Rightarrow> string \<Rightarrow> GoError + SourceIdentity"
  an_pinned :: "nat \<Rightarrow> string \<Rightarrow> string \<Rightarrow> GoError + ResolvedTarget"
  an_preflight :: "(nat \<Rightarrow> ResolvedTarget \<Rightarrow> SourceIdentity \<Rightarrow> GoError option) option"
  an_send :: "nat \<Rightarrow> ResolvedTarget \<Rightarrow> string \<Rightarrow> string \<Rightarrow> DeliveryResult \<times> GoError option"
  an_resume :: "nat \<Rightarrow> ResolvedTarget \<Rightarrow> GoError option"
  an_detach :: "nat \<Rightarrow> ResolvedTarget \<Rightarrow> GoError option"
  an_uuid :: "nat \<Rightarrow> 8 word list option \<times> 64 word"
  an_receipt_id :: "nat \<Rightarrow> string"
  an_clock :: "nat \<Rightarrow> string"
  an_beats :: "nat \<Rightarrow> nat"
  an_beat_timeout :: "nat \<Rightarrow> GoError option"
  an_wait_rounds :: "nat \<Rightarrow> bool list"
  an_ctx_err :: GoError

text \<open>An answer of the outside, and one call of the journal.\<close>

definition ask :: "(nat \<Rightarrow> 'a) \<Rightarrow> (world, 'a) state" where
  "ask f = State (\<lambda>w. (f (w_calls w), w\<lparr>w_calls := Suc (w_calls w)\<rparr>))"

definition jcall :: "answers \<Rightarrow> (journal_call \<Rightarrow> db \<Rightarrow> (jerror + 'a) \<times> db) \<Rightarrow> (world, GoError + 'a) state" where
  "jcall A f = State (\<lambda>w.
     let c = an_journal A (w_calls w);
         found = apply_moves (jc_others c) (w_db w);
         (r, after) = f c found;
         w = w\<lparr>w_calls := Suc (w_calls w)\<rparr>
     in case jc_fault c of
          None \<Rightarrow> ((case r of Inl e \<Rightarrow> Inl (JournalError e) | Inr a \<Rightarrow> Inr a), w\<lparr>w_db := after\<rparr>)
        | Some (e, applied) \<Rightarrow> (Inl (JournalError e), w\<lparr>w_db := (if applied then after else found)\<rparr>))"

definition jexec :: "answers \<Rightarrow> (journal_call \<Rightarrow> db \<Rightarrow> (jerror + 'a) \<times> db) \<Rightarrow> (world, GoError option) state" where
  "jexec A f = do { r \<leftarrow> jcall A f; ret (case r of Inl e \<Rightarrow> Some e | Inr _ \<Rightarrow> None) }"

abbreviation (input) jread :: "answers \<Rightarrow> (db \<Rightarrow> jerror + 'a) \<Rightarrow> (world, GoError + 'a) state" where
  "jread A f \<equiv> jcall A (\<lambda>c d. (f d, d))"

section \<open>Operations\<close>

definition or_default :: "string \<Rightarrow> string \<Rightarrow> string" where
  "or_default s fallback = (if s = '''' then fallback else s)"

definition with_legacy :: "IdentityBinding \<Rightarrow> ServiceOperation \<Rightarrow> ServiceOperation" where
  "with_legacy l op = op\<lparr>so_source_endpoint_id := or_default (so_source_endpoint_id op) (ib_source_endpoint_id l),
     so_target_endpoint_id := or_default (so_target_endpoint_id op) (ib_target_endpoint_id l),
     so_reply_endpoint_id := or_default (so_reply_endpoint_id op) (ib_reply_endpoint_id l)\<rparr>"

definition journal_operation :: "ServiceOperation \<Rightarrow> Operation" where
  "journal_operation op =
     \<lparr>o_operation_id = so_operation_id op, o_message_id = so_message_id op, o_source_route = so_source_route op,
      o_target_route = so_target_route op, o_semantics = so_semantics op, o_source_endpoint_id = so_source_endpoint_id op,
      o_target_endpoint_id = so_target_endpoint_id op, o_reply_route = so_reply_route op,
      o_reply_endpoint_id = so_reply_endpoint_id op, o_reply_thread_id = uri_thread (so_reply_route op),
      o_custody_route = so_custody_route op, o_custody_store_id = so_custody_store_id op, o_digest = so_digest op,
      o_body_size = so_body_size op, op_attempt_owner = so_attempt_owner op\<rparr>"

definition bind_identity :: "ServiceOperation \<Rightarrow> (world, GoError option) state" where
  "bind_identity op = State (\<lambda>w. case w_registry w of
       None \<Rightarrow> (None, w)
     | Some reg \<Rightarrow>
         (case registry_bind reg (so_operation_id op) (so_message_id op)
            \<lparr>ib_source_endpoint_id = so_source_endpoint_id op, ib_target_endpoint_id = so_target_endpoint_id op,
             ib_reply_endpoint_id = so_reply_endpoint_id op\<rparr> of
            Inl e \<Rightarrow> (Some e, w)
          | Inr reg \<Rightarrow> (None, w\<lparr>w_registry := Some reg\<rparr>)))"

definition sqlite_prepare :: "answers \<Rightarrow> ServiceOperation \<Rightarrow> (world, GoError + Prepared) state" where
  "sqlite_prepare A operation =
     (let op = with_legacy (an_legacy A) operation in
      if so_source_endpoint_id op = '''' \<or> so_target_endpoint_id op = ''''
      then ret (Inl (Opaque ''service: operation endpoint identity is required''))
      else on_error (bind_identity op) (\<lambda>e. ret (Inl e))
        (on_value (jcall A (\<lambda>c. Prepare (jc_now c) (jc_duration c) (jc_entropy c) (journal_operation op)))
          (\<lambda>e. ret (Inl e))
          (\<lambda>r. ret (Inr \<lparr>pr_operation_id = o_operation_id r, pr_message_id = o_message_id r,
                        pr_owner = or_attempt_owner r, pr_token = or_attempt_token r\<rparr>))))"

definition sqlite_mark :: "answers \<Rightarrow> string \<Rightarrow> string \<Rightarrow> string \<Rightarrow> (world, GoError option) state" where
  "sqlite_mark A oid owner token = jexec A (\<lambda>c. withTx (MarkDispatchStartedOwned (jc_now c) oid owner token))"

definition sqlite_result :: "answers \<Rightarrow> string \<Rightarrow> EvidenceState \<Rightarrow> string \<Rightarrow> (world, GoError option) state" where
  "sqlite_result A oid st code = jexec A (\<lambda>c. RecordResult (jc_now c) oid st code)"

definition sqlite_expire :: "answers \<Rightarrow> (world, GoError option) state" where
  "sqlite_expire A = jexec A (\<lambda>c. ExpireClaims (jc_now c))"

section \<open>Lookup\<close>

definition operationStatus :: "OperationRecord \<Rightarrow> IdentityBinding \<Rightarrow> OperationStatus" where
  "operationStatus r b =
     \<lparr>so_operation_id = o_operation_id r, so_message_id = o_message_id r, so_in_reply_to = '''',
      so_source_route = o_source_route r, so_target_route = o_target_route r, so_semantics = o_semantics r,
      so_reply_route = o_reply_route r, so_reply_endpoint_id = ib_reply_endpoint_id b,
      so_custody_route = o_custody_route r, so_custody_store_id = o_custody_store_id r, so_attempt_owner = '''',
      so_digest = o_digest r, so_body_size = o_body_size r, so_reply_requested = (o_reply_route r \<noteq> ''''),
      so_source_endpoint_id = ib_source_endpoint_id b, so_target_endpoint_id = ib_target_endpoint_id b,
      os_state = or_state r, os_turn_id = '''', os_error_code = or_error_code r, os_reply_id = '''',
      os_reply_status = '''', os_reply_error_code = '''', os_reply_digest = '''', os_reply_body_size = 0,
      os_reply_commit_seq = 0, os_reply_native_id = ''''\<rparr>"

definition durable_binding :: "registry option \<Rightarrow> OperationRecord \<Rightarrow> GoError + IdentityBinding" where
  "durable_binding reg r =
     (if o_source_endpoint_id r = '''' \<or> o_target_endpoint_id r = ''''
      then Inl (Opaque ''service: durable operation endpoint identity is unavailable'')
      else let durable = \<lparr>ib_source_endpoint_id = o_source_endpoint_id r, ib_target_endpoint_id = o_target_endpoint_id r,
                          ib_reply_endpoint_id = o_reply_endpoint_id r\<rparr> in
        case reg of None \<Rightarrow> Inr durable
        | Some m \<Rightarrow> bindE (registry_lookup m (o_operation_id r) (o_message_id r)) (\<lambda>registered.
            if registered \<noteq> durable then Inl (Opaque ''service: durable and registry endpoint identity conflict'')
            else Inr durable))"

definition take_claim :: "ReplyClaim \<Rightarrow> EvidenceState \<Rightarrow> OperationStatus \<Rightarrow> OperationStatus" where
  "take_claim c st s = s\<lparr>os_state := st, os_reply_id := rc_reply_id c, os_reply_status := rc_status c,
     os_reply_error_code := rc_reply_error_code c, os_reply_digest := rc_digest c,
     os_reply_body_size := rc_body_size c, os_reply_commit_seq := rc_commit_seq c\<rparr>"

definition reply_positive :: "EvidenceState \<Rightarrow> bool" where
  "reply_positive st = (st = StateReplyAccepted \<or> st = StateReplyObserved)"

text \<open>The claims in commit order: the first positive one decides, an unknown one only while there is none.\<close>

fun merge_claims :: "answers \<Rightarrow> ReplyClaim list \<Rightarrow> OperationStatus \<Rightarrow> (world, OperationStatus) state" where
  "merge_claims A [] s = ret s"
| "merge_claims A (c # cs) s =
     (if reply_positive (rc_state c)
      then (if reply_positive (os_state s) then merge_claims A cs s
            else do {
              native \<leftarrow> jread A (Observation (rc_reply_id c));
              merge_claims A cs ((take_claim c (rc_state c) s)
                \<lparr>os_reply_native_id := (case native of Inr (i, _) \<Rightarrow> i | Inl _ \<Rightarrow> os_reply_native_id s)\<rparr>)
            })
      else if rc_state c = StateReplyOutcomeUnknown \<and> \<not> reply_positive (os_state s)
      then merge_claims A cs (take_claim c StateReplyOutcomeUnknown s)
      else merge_claims A cs s)"

definition read_registry :: "(world, registry option) state" where
  "read_registry = State (\<lambda>w. (w_registry w, w))"

definition status_of_record :: "answers \<Rightarrow> OperationRecord \<Rightarrow> (world, GoError + OperationStatus) state" where
  "status_of_record A r = do {
     reg \<leftarrow> read_registry;
     (case durable_binding reg r of
        Inl e \<Rightarrow> ret (Inl e)
      | Inr b \<Rightarrow> do {
          own \<leftarrow> jread A (Reply (o_message_id r));
          let s = (operationStatus r b)\<lparr>so_in_reply_to := (case own of Inr c \<Rightarrow> rc_original_id c | Inl _ \<Rightarrow> '''')\<rparr>;
          on_value (jread A (\<lambda>d. Inr (RepliesFor (o_message_id r) d))) (\<lambda>e. ret (Inl e))
            (\<lambda>claims. do { s \<leftarrow> merge_claims A (sort_key rc_commit_seq claims) s; ret (Inr s) })
        })
   }"

definition sqlite_lookup :: "answers \<Rightarrow> string \<Rightarrow> (world, GoError + OperationStatus) state" where
  "sqlite_lookup A ref =
     on_value (jread A (OperationLookup ref))
       (\<lambda>e. if is_journal NotFound e
          then on_value (jread A (OperationByMessage ref)) (\<lambda>e. ret (Inl e)) (status_of_record A)
          else ret (Inl e))
       (status_of_record A)"

section \<open>Replies\<close>

definition service_claim :: "ReplyClaim \<Rightarrow> ServiceClaim" where
  "service_claim c =
     \<lparr>sc_reply_id = rc_reply_id c, sc_original_id = rc_original_id c, sc_digest = rc_digest c, sc_body_size = rc_body_size c,
      sc_status = rc_status c, sc_reply_error_code = rc_reply_error_code c, sc_reply_route = rc_reply_route c,
      sc_custody_route = rc_custody_route c, sc_custody_store_id = rc_custody_store_id c, sc_owner = rc_owner c,
      sc_token = rc_token c, sc_state = rc_state c, sc_joined = rc_joined c, sc_won = rc_won c\<rparr>"

definition claim_input :: "ReplyClaimInput \<Rightarrow> ClaimInput" where
  "claim_input i =
     \<lparr>ci_reply_id = ri_reply_id i, ci_original_id = ri_original_id i, ci_digest = ri_digest i, ci_body_size = ri_body_size i,
      ci_status = ri_status i, ci_reply_route = ri_reply_route i, ci_custody_route = ri_custody_route i,
      ci_custody_store_id = ri_custody_store_id i, ci_owner = ri_owner i, ci_error_code = ri_error_code i\<rparr>"

definition claim_result :: "(ReplyClaim \<times> jerror option) \<times> db \<Rightarrow> (jerror + ReplyClaim) \<times> db" where
  "claim_result x = (case x of ((c, e), d) \<Rightarrow> ((case e of Some e \<Rightarrow> Inl e | None \<Rightarrow> Inr c), d))"

definition sqlite_claim :: "answers \<Rightarrow> ReplyClaimInput \<Rightarrow> (world, GoError + ServiceClaim) state" where
  "sqlite_claim A i =
     on_value (jcall A (\<lambda>c d. claim_result (ClaimReply (jc_now c) (jc_duration c) (jc_entropy c) (claim_input i) d)))
       (\<lambda>e. ret (Inl e)) (\<lambda>c. ret (Inr (service_claim c)))"

definition sqlite_heartbeat :: "answers \<Rightarrow> string \<Rightarrow> string \<Rightarrow> string \<Rightarrow> (world, GoError option) state" where
  "sqlite_heartbeat A rid owner token = jexec A (\<lambda>c. Heartbeat (jc_now c) (jc_duration c) rid owner token)"

definition sqlite_commit :: "answers \<Rightarrow> string \<Rightarrow> string \<Rightarrow> string \<Rightarrow> (world, GoError + ServiceClaim) state" where
  "sqlite_commit A rid owner token =
     on_value (jcall A (\<lambda>c. CommitReply (jc_now c) rid owner token)) (\<lambda>e. ret (Inl e))
       (\<lambda>r. ret (Inr (service_claim (cr_claim r))))"

definition sqlite_abandon :: "answers \<Rightarrow> string \<Rightarrow> string \<Rightarrow> string \<Rightarrow> (world, GoError option) state" where
  "sqlite_abandon A rid owner token = jexec A (\<lambda>c. AbandonReply (jc_now c) rid owner token)"

text \<open>A transition that was refused is explained by the claim's state, and tried once more where it now applies.\<close>

definition observeTransition :: "answers \<Rightarrow> string \<Rightarrow> (world, GoError option) state \<Rightarrow> (world, GoError option) state" where
  "observeTransition A rid transition = do {
     r \<leftarrow> transition;
     (case r of
        None \<Rightarrow> ret None
      | Some e \<Rightarrow>
          if \<not> is_journal InvalidTransition e then ret (Some e)
          else on_value (jread A (Reply rid)) (\<lambda>_. ret (Some e))
            (\<lambda>c. if rc_state c = StateReplyClaimed then ret (Some (Sentinel ErrObservationPending))
               else if observable_state (rc_state c) then transition
               else ret (Some e)))
   }"

definition sqlite_observe :: "answers \<Rightarrow> string \<Rightarrow> string \<Rightarrow> string \<Rightarrow> (world, GoError option) state" where
  "sqlite_observe A rid native digest =
     observeTransition A rid (jexec A (\<lambda>c. ObserveReply (jc_now c) rid native digest))"

definition sqlite_record_observed :: "answers \<Rightarrow> ReplyClaimInput \<Rightarrow> string \<Rightarrow> string \<Rightarrow> string \<Rightarrow> (world, GoError option) state" where
  "sqlite_record_observed A i native endpoint route =
     observeTransition A (ri_reply_id i)
       (jexec A (\<lambda>c. RecordObservedReply (jc_now c) ((claim_input i)\<lparr>ci_owner := ''''\<rparr>) native endpoint route))"

definition sqlite_reconcile :: "answers \<Rightarrow> string \<Rightarrow> string \<Rightarrow> string \<Rightarrow> (world, GoError option) state" where
  "sqlite_reconcile A rid native digest =
     observeTransition A rid (jexec A (\<lambda>c. ReconcileReplyObservation (jc_now c) rid native digest))"

text \<open>The rounds of \<open>WaitReply\<close>: whether the ticker fires before the context ends.\<close>

definition missing_status :: OperationStatus where
  "missing_status =
     \<lparr>so_operation_id = '''', so_message_id = '''', so_in_reply_to = '''', so_source_route = '''', so_target_route = '''',
      so_semantics = '''', so_reply_route = '''', so_reply_endpoint_id = '''', so_custody_route = '''', so_custody_store_id = '''',
      so_attempt_owner = '''', so_digest = '''', so_body_size = 0, so_reply_requested = False, so_source_endpoint_id = '''',
      so_target_endpoint_id = '''', os_state = StateOther '''', os_turn_id = '''', os_error_code = '''', os_reply_id = '''',
      os_reply_status = '''', os_reply_error_code = '''', os_reply_digest = '''', os_reply_body_size = 0,
      os_reply_commit_seq = 0, os_reply_native_id = ''''\<rparr>"

fun sqlite_wait_rounds :: "answers \<Rightarrow> string \<Rightarrow> bool list \<Rightarrow> OperationStatus \<Rightarrow> (world, OperationStatus \<times> GoError option) state" where
  "sqlite_wait_rounds A rid [] prev = ret (prev, Some (an_ctx_err A))"
| "sqlite_wait_rounds A rid (tick # rounds) prev =
     on_error (sqlite_expire A) (\<lambda>e. ret (missing_status, Some e)) (do {
       own \<leftarrow> jread A (Reply rid);
       if (case own of Inr c \<Rightarrow> rc_state c = StateReplyOutcomeUnknown | Inl _ \<Rightarrow> False)
       then on_value (sqlite_lookup A rid) (\<lambda>e. ret (missing_status, Some e))
         (\<lambda>s. ret (s\<lparr>os_state := StateReplyOutcomeUnknown\<rparr>, None))
       else on_value (sqlite_lookup A rid) (\<lambda>e. ret (missing_status, Some e))
         (\<lambda>s. if terminalWaitState (os_state s) then ret (s, None)
            else if tick then sqlite_wait_rounds A rid rounds s
            else ret (s, Some (an_ctx_err A)))
     })"

definition sqlite_wait :: "answers \<Rightarrow> string \<Rightarrow> (world, OperationStatus \<times> GoError option) state" where
  "sqlite_wait A rid = do { rounds \<leftarrow> ask (an_wait_rounds A); sqlite_wait_rounds A rid rounds missing_status }"

definition sqlite_port :: "answers \<Rightarrow> world JournalPort" where
  "sqlite_port A =
     \<lparr>jp_prepare = sqlite_prepare A, jp_mark_dispatch_started = sqlite_mark A, jp_record_result = sqlite_result A,
      jp_expire_claims = sqlite_expire A, jp_lookup = sqlite_lookup A, jp_claim_reply = sqlite_claim A,
      jp_heartbeat = sqlite_heartbeat A, jp_commit_reply = sqlite_commit A, jp_abandon_reply = sqlite_abandon A,
      jp_observe_reply = sqlite_observe A, jp_reconcile_reply_observation = sqlite_reconcile A,
      jp_observe_verified = None, jp_wait_reply = Some (sqlite_wait A)\<rparr>"

section \<open>The other ports\<close>

text \<open>Every call of the delivery port may write the body, whatever it answers.\<close>

definition world_send :: "answers \<Rightarrow> ResolvedTarget \<Rightarrow> string \<Rightarrow> string \<Rightarrow> (world, DeliveryResult \<times> GoError option) state" where
  "world_send A target payload mid = State (\<lambda>w.
     (an_send A (w_calls w) target payload mid,
      w\<lparr>w_calls := Suc (w_calls w), w_outbox := mid # w_outbox w\<rparr>))"

definition world_ports :: "answers \<Rightarrow> world Ports" where
  "world_ports A =
     \<lparr>po_resolve = (\<lambda>t. ask (\<lambda>i. an_resolve A i t)), po_resolve_source = (\<lambda>t. ask (\<lambda>i. an_source A i t)),
      po_resolve_pinned = (\<lambda>e u. ask (\<lambda>i. an_pinned A i e u)),
      po_preflight_reply = map_option (\<lambda>f t s. ask (\<lambda>i. f i t s)) (an_preflight A),
      po_send = world_send A, po_resume = (\<lambda>t. ask (\<lambda>i. an_resume A i t)), po_detach = (\<lambda>t. ask (\<lambda>i. an_detach A i t)),
      po_fresh_id = (\<lambda>p. ask (\<lambda>i. case an_uuid A i of (entropy, ms) \<Rightarrow> NewPrefixedIDChecked p entropy ms)),
      po_receipt_id = ask (an_receipt_id A), po_now = ask (an_clock A)\<rparr>"

text \<open>
  The goroutine of \<open>heartbeat\<close>: it beats until a beat fails; the first failure stays in the monitor
  and is sent once on the channel. The number of beats between two looks is an answer.
\<close>

definition beat_once :: "answers \<Rightarrow> (world, unit) state" where
  "beat_once A = do {
     w \<leftarrow> State_Monad.get;
     (case (w_beating w, w_beat_error w) of
        (Some (rid, owner, token), None) \<Rightarrow> do {
          r \<leftarrow> sqlite_heartbeat A rid owner token;
          w \<leftarrow> State_Monad.get;
          State_Monad.set (w\<lparr>w_beat_error := r, w_beat_channel := r\<rparr>)
        }
      | _ \<Rightarrow> ret ())
   }"

fun beats :: "answers \<Rightarrow> nat \<Rightarrow> (world, unit) state" where
  "beats A 0 = ret ()"
| "beats A (Suc n) = do { beat_once A; beats A n }"

definition world_heartbeat :: "answers \<Rightarrow> world HeartbeatPort" where
  "world_heartbeat A =
     \<lparr>hb_start = (\<lambda>rid owner token. do {
         w \<leftarrow> State_Monad.get;
         State_Monad.set (w\<lparr>w_beating := Some (rid, owner, token), w_beat_error := None, w_beat_channel := None\<rparr>)
       }),
      hb_wait = do {
         n \<leftarrow> ask (an_beats A);
         beats A n;
         late \<leftarrow> ask (an_beat_timeout A);
         w \<leftarrow> State_Monad.get;
         ret (case late of Some e \<Rightarrow> Some e | None \<Rightarrow> w_beat_error w)
       },
      hb_read = do {
         n \<leftarrow> ask (an_beats A);
         beats A n;
         w \<leftarrow> State_Monad.get;
         State_Monad.set (w\<lparr>w_beat_channel := None\<rparr>);
         ret (w_beat_channel w)
       }\<rparr>"

end
