(* ===== verification/Service_Custody.thy ===== *)
theory Service_Custody
  imports Service_Reply
begin

text \<open>
  What the service relies on, as interfaces. A port call is \<open>quiet\<close> when it keeps the invariant of
  the world and moves it along a relation \<open>step\<close>; every port but the delivery is quiet. The locale
  \<open>service_custody\<close> adds what the journal promises about an operation (prepared, fenced, with a
  recorded result), and that a delivery adds one copy of its message to the outbox and nothing
  else does. The lemmas about \<open>Send\<close> and \<open>Reply\<close> are proved here once, over any such world.
\<close>

section \<open>Quiet programs\<close>

definition quiet :: "('s \<Rightarrow> bool) \<Rightarrow> ('s \<Rightarrow> 's \<Rightarrow> bool) \<Rightarrow> ('s, 'a) state \<Rightarrow> bool" where
  "quiet I step m = (\<forall>s x s'. I s \<longrightarrow> run_state m s = (x, s') \<longrightarrow> I s' \<and> step s s')"

definition stable :: "('s \<Rightarrow> bool) \<Rightarrow> ('s \<Rightarrow> 's \<Rightarrow> bool) \<Rightarrow> ('s \<Rightarrow> bool) \<Rightarrow> bool" where
  "stable I step Q = (\<forall>s s'. I s \<longrightarrow> I s' \<longrightarrow> step s s' \<longrightarrow> Q s \<longrightarrow> Q s')"

lemma quietI: "(\<And>s x s'. I s \<Longrightarrow> run_state m s = (x, s') \<Longrightarrow> I s' \<and> step s s') \<Longrightarrow> quiet I step m"
  by (simp add: quiet_def)

lemma quietD: "quiet I step m \<Longrightarrow> run_state m s = (x, s') \<Longrightarrow> I s \<Longrightarrow> I s' \<and> step s s'"
  by (simp add: quiet_def)

lemma quiet_keeps: "quiet I step m \<Longrightarrow> stable I step Q \<Longrightarrow> keeps (\<lambda>s. I s \<and> Q s) m"
  unfolding quiet_def stable_def hoare_def by blast

lemma stable_conj: "stable I step Q \<Longrightarrow> stable I step R \<Longrightarrow> stable I step (\<lambda>s. Q s \<and> R s)"
  unfolding stable_def by blast

lemma quiet_flow:
  "(b \<Longrightarrow> quiet I step m1) \<Longrightarrow> (\<not> b \<Longrightarrow> quiet I step m2) \<Longrightarrow> quiet I step (if b then m1 else m2)"
  "(\<And>e. r = Inl e \<Longrightarrow> quiet I step (f e)) \<Longrightarrow> (\<And>a. r = Inr a \<Longrightarrow> quiet I step (g a)) \<Longrightarrow>
   quiet I step (case r of Inl e \<Rightarrow> f e | Inr a \<Rightarrow> g a)"
  "(t = None \<Longrightarrow> quiet I step m1) \<Longrightarrow> (\<And>a. t = Some a \<Longrightarrow> quiet I step (h a)) \<Longrightarrow>
   quiet I step (case t of None \<Rightarrow> m1 | Some a \<Rightarrow> h a)"
  "(\<And>a b. p = (a, b) \<Longrightarrow> quiet I step (k a b)) \<Longrightarrow> quiet I step (case p of (a, b) \<Rightarrow> k a b)"
  "quiet I step (l v) \<Longrightarrow> quiet I step (let x = v in l x)"
  by (auto split: sum.splits option.splits prod.splits)

text \<open>The caller's callback and the event subscription change nothing that the service relies on.\<close>

definition hooks :: "('s \<Rightarrow> bool) \<Rightarrow> ('s \<Rightarrow> 's \<Rightarrow> bool) \<Rightarrow> 's WaitScript \<Rightarrow> 's acceptance_callback \<Rightarrow> bool" where
  "hooks I step W cb = ((\<forall>f x. ws_subscribe W = Some f \<longrightarrow> quiet I step (f x)) \<and> (\<forall>f x. cb = Some f \<longrightarrow> quiet I step (f x)))"

definition originals :: "('s \<Rightarrow> bool) \<Rightarrow> ('s \<Rightarrow> 's \<Rightarrow> bool) \<Rightarrow> 's OriginalResolver \<Rightarrow> bool" where
  "originals I step R = (\<forall>f t. R = Some f \<longrightarrow> quiet I step (f t))"

lemma hooksD: "hooks I step W cb \<Longrightarrow> ws_subscribe W = Some f \<Longrightarrow> quiet I step (f x)"
  "hooks I step W cb \<Longrightarrow> cb = Some g \<Longrightarrow> quiet I step (g y)"
  by (auto simp: hooks_def)

locale quiet_world =
  fixes I :: "'s \<Rightarrow> bool" and step :: "'s \<Rightarrow> 's \<Rightarrow> bool"
  assumes step_refl: "step s s"
    and step_trans: "step a b \<Longrightarrow> step b c \<Longrightarrow> step a c"
begin

lemma quiet_return: "quiet I step (State_Monad.return x)"
  by (simp add: quiet_def step_refl)

lemma quiet_bind: "quiet I step m \<Longrightarrow> (\<And>x. quiet I step (f x)) \<Longrightarrow> quiet I step (State_Monad.bind m f)"
proof (rule quietI)
  fix s y s'
  assume m: "quiet I step m" and f: "\<And>x. quiet I step (f x)"
    and s: "I s" "run_state (State_Monad.bind m f) s = (y, s')"
  obtain x t where x: "run_state m s = (x, t)" by fastforce
  with s have "run_state (f x) t = (y, s')" by simp
  with quietD[OF m x s(1)] quietD[OF f, of x t y s'] show "I s' \<and> step s s'"
    using step_trans by blast
qed

lemma quiet_on_error: "quiet I step m \<Longrightarrow> (\<And>e. quiet I step (h e)) \<Longrightarrow> quiet I step k \<Longrightarrow> quiet I step (on_error m h k)"
  unfolding on_error_def by (intro quiet_bind quiet_flow)

lemma quiet_on_value:
  "quiet I step m \<Longrightarrow> (\<And>e. quiet I step (h e)) \<Longrightarrow> (\<And>b. quiet I step (k b)) \<Longrightarrow> quiet I step (on_value m h k)"
  unfolding on_value_def by (intro quiet_bind quiet_flow)

lemmas quiet_rules = quiet_return quiet_on_error quiet_on_value quiet_flow quiet_bind

end

section \<open>Ports whose calls are quiet\<close>

locale service_ports = quiet_world I step
  for I :: "'s \<Rightarrow> bool" and step :: "'s \<Rightarrow> 's \<Rightarrow> bool" +
  fixes P :: "'s Ports" and J :: "'s JournalPort" and H :: "'s HeartbeatPort"
  assumes resolver_quiet: "quiet I step (po_resolve P t)" "quiet I step (po_resolve_source P t)"
      "quiet I step (po_resolve_pinned P t u)"
    and preflight_quiet: "po_preflight_reply P = Some f \<Longrightarrow> quiet I step (f x y)"
    and target_quiet: "quiet I step (po_resume P x)" "quiet I step (po_detach P x)"
    and system_quiet: "quiet I step (po_fresh_id P t)" "quiet I step (po_receipt_id P)" "quiet I step (po_now P)"
    and journal_quiet: "quiet I step (jp_prepare J op)" "quiet I step (jp_mark_dispatch_started J t u v)"
      "quiet I step (jp_record_result J t st u)" "quiet I step (jp_expire_claims J)" "quiet I step (jp_lookup J t)"
      "quiet I step (jp_claim_reply J ci)" "quiet I step (jp_commit_reply J t u v)" "quiet I step (jp_abandon_reply J t u v)"
      "quiet I step (jp_observe_reply J t u v)" "quiet I step (jp_reconcile_reply_observation J t u v)"
    and verified_quiet: "jp_observe_verified J = Some g \<Longrightarrow> quiet I step (g os item env)"
    and wait_reply_quiet: "jp_wait_reply J = Some w \<Longrightarrow> quiet I step (w t)"
    and heartbeat_quiet: "quiet I step (hb_start H t u v)" "quiet I step (hb_wait H)" "quiet I step (hb_read H)"
begin

lemmas port_rules = quiet_rules resolver_quiet target_quiet system_quiet journal_quiet heartbeat_quiet

lemma make_receipt_quiet: "quiet I step (make_receipt P op env st turn_id)"
  unfolding make_receipt_def by (intro port_rules)

lemma detach_quiet: "(\<And>e. quiet I step (h e)) \<Longrightarrow> quiet I step k \<Longrightarrow> quiet I step (with_detach P resumed target h k)"
  "quiet I step k \<Longrightarrow> quiet I step (quiet_detach P resumed target k)"
  unfolding quiet_detach_def with_detach_def by (intro port_rules; assumption)+

lemma send_fail_quiet: "quiet I step (send_fail st turn_id e)"
  unfolding send_fail_def by (rule quiet_return)

lemma callback_quiet: "(\<And>f. cb = Some f \<Longrightarrow> quiet I step (f out)) \<Longrightarrow> quiet I step (send_callback cb out)"
  unfolding send_callback_def by (intro quiet_flow quiet_return)

lemma reply_preflight_quiet: "quiet I step (reply_preflight P wanted target source)"
  unfolding reply_preflight_def by (intro quiet_flow quiet_return preflight_quiet)

lemma send_source_quiet: "quiet I step (send_source P req)"
  unfolding send_source_def by (intro port_rules)

lemma supplied_quiet: "quiet I step (supplied_or_fresh P x y a b)"
  unfolding supplied_or_fresh_def by (intro port_rules)

section \<open>Waiting and joining write no body\<close>

lemma wait_result_quiet:
  "quiet I step (wait_terminal P st gap)" "quiet I step (waitIncomplete P st gap cause)" "quiet I step (waitResult P st b gap)"
  unfolding wait_terminal_def waitIncomplete_def waitResult_def by (intro port_rules)+

lemma lookupCustody_quiet: "quiet I step (lookupCustody J t)"
  unfolding lookupCustody_def by (intro port_rules)

lemma finishWait_quiet: "quiet I step (finishWait P J ctx st gap)"
  unfolding finishWait_def by (intro port_rules wait_result_quiet lookupCustody_quiet)

lemma pollCustody_quiet: "quiet I step (pollCustody P J bounded ctx rounds st gap)"
proof (induction rounds arbitrary: st)
  case (Cons r rounds)
  then show ?case
    by (cases r) (simp, intro port_rules wait_result_quiet lookupCustody_quiet finishWait_quiet; assumption)
qed (simp add: finishWait_quiet)

lemma observeCandidate_quiet: "quiet I step (observeCandidate J st item seen historical)"
  unfolding observeCandidate_def Let_def
  by (intro quiet_flow quiet_return) (intro quiet_bind verified_quiet quiet_flow quiet_return journal_quiet; assumption)+

lemma observe_all_quiet: "quiet I step (observe_all J st items seen)"
proof (induction items arbitrary: seen)
  case (Cons item items)
  then show ?case by (simp, intro port_rules observeCandidate_quiet)
qed (simp add: quiet_return)

lemma gap_quiet: "quiet I step (incompleteAfterGap P J W st reason)"
  unfolding incompleteAfterGap_def by (rule pollCustody_quiet)

lemma wait_loop_quiet: "quiet I step (wait_loop P J W t evs seen hist pinned st)"
proof (induction evs arbitrary: seen hist pinned st)
  case Nil
  show ?case by (simp add: finishWait_quiet)
next
  case (Cons ev evs)
  note calls = observe_all_quiet observeCandidate_quiet lookupCustody_quiet
  show ?case
  proof (cases ev)
    case (HistoryResult r)
    then show ?thesis
      by (simp, intro conjI impI quiet_flow quiet_bind calls gap_quiet Cons.IH)
  next
    case (StreamItem oi)
    then show ?thesis
      by (cases oi) (simp add: Cons.IH, simp, intro quiet_bind calls quiet_flow gap_quiet Cons.IH)
  next
    case Tick
    then show ?thesis
      by (simp, intro quiet_bind calls quiet_flow wait_result_quiet Cons.IH)
  qed (simp_all add: gap_quiet)
qed

lemma Wait_quiet:
  assumes "\<And>f x. ws_subscribe W = Some f \<Longrightarrow> quiet I step (f x)"
  shows "quiet I step (Wait P J W t)"
  unfolding Wait_def wait_from_def
  by (intro port_rules wait_result_quiet pollCustody_quiet gap_quiet wait_loop_quiet assms)

end

end
