(* ===== verification/Service_Laws.thy ===== *)
theory Service_Laws
  imports Service_Custody
begin

text \<open>
  \<open>Send\<close> and \<open>Reply\<close> over any world that implements the ports: what comes before the fence and what
  comes after the delivery is quiet, so that the order of fence, body and record is all that the
  proofs follow.
\<close>

section \<open>The quiet parts\<close>

context service_ports
begin

lemma send_unaccepted_quiet: "quiet I step (send_unaccepted P J resumed target oid f st code)"
  unfolding send_unaccepted_def by (intro quiet_on_error detach_quiet send_fail_quiet journal_quiet)

lemma send_wait_quiet:
  "(\<And>f x. ws_subscribe W = Some f \<Longrightarrow> quiet I step (f x)) \<Longrightarrow> quiet I step (send_wait P J W wanted mid turn_id out)"
  unfolding send_wait_def by (intro port_rules Wait_quiet)

lemma send_recorded_quiet:
  assumes "hooks I step W cb"
  shows "quiet I step (send_recorded P J W cb req resumed target op env turn_id)"
  unfolding send_recorded_def
  by (intro quiet_rules detach_quiet make_receipt_quiet callback_quiet send_wait_quiet hooksD[OF assms])

lemma send_accepted_quiet:
  assumes "hooks I step W cb"
  shows "quiet I step (send_accepted P J W cb req resumed target op env result)"
  unfolding send_accepted_def
  by (intro quiet_rules detach_quiet send_fail_quiet journal_quiet send_recorded_quiet assms)

lemma join_accepted_quiet:
  assumes "hooks I step W cb"
  shows "quiet I step (join_accepted P J W cb wanted mid out)"
  unfolding join_accepted_def by (intro quiet_rules callback_quiet Wait_quiet hooksD[OF assms])

lemma join_round_quiet:
  assumes "hooks I step W cb"
    and "\<And>r. quiet I step (again r)"
  shows "quiet I step (join_round P J W S cb wanted op env previous expired tick again)"
  unfolding join_round_def by (intro quiet_rules make_receipt_quiet join_accepted_quiet journal_quiet assms)

lemma joinPreparedReply_quiet:
  assumes "hooks I step W cb"
  shows "quiet I step (joinPreparedReply P J W S cb wanted op env)"
proof -
  have "quiet I step (join_loop P J W S cb wanted op env previous rounds)" for previous rounds
  proof (induction rounds arbitrary: previous)
    case (Cons r rounds)
    then show ?case by (cases r) (simp, intro join_round_quiet assms)
  qed (simp, intro join_round_quiet quiet_return assms)
  then show ?thesis by (simp add: joinPreparedReply_def)
qed

lemma failedReplyClaim_quiet: "quiet I step (failedReplyClaim P J op env prepared cause)"
  unfolding failedReplyClaim_def by (intro quiet_rules make_receipt_quiet journal_quiet)

lemma reply_joined_quiet:
  assumes "hooks I step W cb"
  shows "quiet I step (reply_joined P J W cb wanted op env claim)"
proof -
  have "quiet I step (joined_wait P J op env claim out r)" for out r
    unfolding joined_wait_def
    by (intro quiet_flow quiet_return) (intro quiet_bind quiet_flow quiet_return wait_reply_quiet make_receipt_quiet; assumption)
  then show ?thesis
    unfolding reply_joined_def by (intro quiet_rules make_receipt_quiet join_accepted_quiet assms)
qed

lemma abort_quiet: "quiet I step (abortReplyHeartbeat P J resumed target claim prepared e)"
  unfolding abortReplyHeartbeat_def by (intro quiet_rules send_fail_quiet journal_quiet target_quiet)

lemma reply_unaccepted_quiet: "quiet I step (reply_unaccepted P J resumed target claim prepared f st code)"
  unfolding reply_unaccepted_def by (intro quiet_on_error detach_quiet send_fail_quiet journal_quiet)

lemma reply_commit_quiet:
  assumes "hooks I step W cb"
  shows "quiet I step (reply_commit P J H W cb wanted resumed target op env prepared claim result)"
  unfolding reply_commit_def reply_done_def
  by (intro quiet_rules abort_quiet detach_quiet send_fail_quiet journal_quiet make_receipt_quiet join_accepted_quiet
      heartbeat_quiet assms)

lemma send_finish_quiet: "quiet I step (send_finish P op env x)"
  unfolding send_finish_def by (intro quiet_rules make_receipt_quiet)

lemma make_receipt_result:
  "hoare (\<lambda>_. True) (make_receipt P op env st turn_id) (\<lambda>r _. rp_state r = st \<and> rp_operation_id r = so_operation_id op \<and>
     mg_message_id (rp_message r) = en_message_id env)"
  by (simp add: hoare_def make_receipt_def receiptFor_def split: prod.splits)

end

section \<open>Fence, body, record\<close>

text \<open>A body in the outbox belongs to an operation whose fence is durable.\<close>

definition write_ahead :: "(string \<Rightarrow> 's \<Rightarrow> bool) \<Rightarrow> ('s \<Rightarrow> string list) \<Rightarrow> 's \<Rightarrow> bool" where
  "write_ahead fenced outbox s = (\<forall>m\<in>set (outbox s). fenced m s)"

definition unsent :: "EvidenceState \<Rightarrow> bool" where
  "unsent st = (st = StateNotSent \<or> st = StatePrepared)"

text \<open>What the caller is told of a prepared operation: whether the receipt, or the state of the deferred one, denies a body.\<close>

definition spoken :: "sent \<Rightarrow> bool" where
  "spoken x = (case x of (out, e, st, _) \<Rightarrow> \<not> unsent st \<and>
     (case sn_receipt out of Some r \<Rightarrow> \<not> unsent (rp_state r) | None \<Rightarrow> e \<noteq> None))"

definition denies :: "SendResult \<times> GoError option \<Rightarrow> bool" where
  "denies x = (case sn_receipt (fst x) of Some r \<Rightarrow> unsent (rp_state r) | None \<Rightarrow> True)"

locale service_custody = service_ports I step P J H
  for I :: "'s \<Rightarrow> bool" and step :: "'s \<Rightarrow> 's \<Rightarrow> bool" and P :: "'s Ports" and J :: "'s JournalPort"
    and H :: "'s HeartbeatPort" +
  fixes prepared :: "string \<Rightarrow> string \<Rightarrow> 's \<Rightarrow> bool" and fenced :: "string \<Rightarrow> 's \<Rightarrow> bool"
    and recorded :: "string \<Rightarrow> EvidenceState \<Rightarrow> 's \<Rightarrow> bool" and outbox :: "'s \<Rightarrow> string list"
  assumes step_outbox: "step s s' \<Longrightarrow> outbox s' = outbox s"
    and step_prepared: "step s s' \<Longrightarrow> prepared oid mid s \<Longrightarrow> prepared oid mid s'"
    and step_fenced: "step s s' \<Longrightarrow> fenced mid s \<Longrightarrow> fenced mid s'"
    and step_recorded: "step s s' \<Longrightarrow> recorded oid st s \<Longrightarrow> recorded oid st s'"
    and prepare_law: "hoare I (jp_prepare J op) (\<lambda>r s. \<forall>p. r = Inr p \<longrightarrow> prepared (pr_operation_id p) (so_message_id op) s)"
    and mark_law: "hoare (\<lambda>s. I s \<and> prepared oid mid s) (jp_mark_dispatch_started J oid owner token)
      (\<lambda>r s. r = None \<longrightarrow> fenced mid s)"
    and mark_fresh: "I s \<Longrightarrow> prepared oid mid s \<Longrightarrow> run_state (jp_mark_dispatch_started J oid owner token) s = (None, s') \<Longrightarrow>
      \<not> fenced mid s"
    and result_law: "hoare I (jp_record_result J oid st code) (\<lambda>r s. r = None \<longrightarrow> recorded oid st s)"
    and send_law: "I s \<Longrightarrow> run_state (po_send P target payload mid) s = (x, s') \<Longrightarrow>
      I s' \<and> outbox s' = mid # outbox s \<and> (fenced m s \<longrightarrow> fenced m s')"
begin

lemma stable_outbox: "stable I step (\<lambda>s. outbox s = ob)"
  by (simp add: stable_def step_outbox)

lemma stable_prepared: "stable I step (prepared oid mid)"
  by (simp add: stable_def step_prepared)

lemma stable_fenced: "stable I step (fenced mid)"
  by (simp add: stable_def step_fenced)

lemma stable_recorded: "stable I step (recorded oid st)"
  by (simp add: stable_def step_recorded)

lemma stable_sent: "stable I step (\<lambda>s. mid \<in> set (outbox s))"
  by (simp add: stable_def step_outbox)

lemma stable_write_ahead: "stable I step (write_ahead fenced outbox)"
  by (auto simp: stable_def write_ahead_def step_outbox dest: step_fenced)

lemma quiet_invariant: "quiet I step m \<Longrightarrow> keeps I m"
  by (auto simp: quiet_def hoare_def)

section \<open>What the deliveries add to the outbox\<close>

text \<open>Between calls: nothing handed out by this operation yet, or copies of one message behind its fence.\<close>

definition idle :: "string list \<Rightarrow> 's \<Rightarrow> bool" where
  "idle ob s = (I s \<and> write_ahead fenced outbox s \<and> outbox s = ob)"

definition going :: "string \<Rightarrow> string list \<Rightarrow> 's \<Rightarrow> bool" where
  "going mid ob s = (I s \<and> fenced mid s \<and> write_ahead fenced outbox s \<and> outbox s = ob)"

definition delivered :: "nat \<Rightarrow> string \<Rightarrow> string list \<Rightarrow> 's \<Rightarrow> bool" where
  "delivered n mid ob s = (\<exists>k\<le>n. going mid (replicate k mid @ ob) s)"

lemma quiet_idle: "quiet I step m \<Longrightarrow> keeps (idle ob) m"
  using quiet_keeps[OF _ stable_conj[OF stable_write_ahead stable_outbox]]
  unfolding idle_def by blast

lemma quiet_going: "quiet I step m \<Longrightarrow> keeps (going mid ob) m"
  using quiet_keeps[OF _ stable_conj[OF stable_fenced stable_conj[OF stable_write_ahead stable_outbox]]]
  unfolding going_def by blast

lemma going_delivered: "going mid (replicate k mid @ ob) s \<Longrightarrow> k \<le> n \<Longrightarrow> delivered n mid ob s"
  unfolding delivered_def by blast

lemma delivered_one: "going mid (mid # ob) s \<Longrightarrow> delivered (Suc n) mid ob s"
  using going_delivered[of mid 1 ob s "Suc n"] by simp

lemma delivered_more: "delivered n mid (mid # ob) s \<Longrightarrow> delivered (Suc n) mid ob s"
  unfolding delivered_def by (metis Suc_le_mono append_Cons replicate_Suc replicate_app_Cons_same)

lemma quiet_delivered: "quiet I step m \<Longrightarrow> keeps (delivered n mid ob) m"
  using quiet_going unfolding hoare_def delivered_def by metis

lemma dispatch_goes: "hoare (going mid ob) (dispatch P target payload mid) (\<lambda>_. going mid (mid # ob))"
proof (rule hoareI)
  fix s x s'
  assume s: "going mid ob s" and r: "run_state (dispatch P target payload mid) s = (x, s')"
  obtain y t where y: "run_state (po_send P target payload mid) s = (y, t)" by fastforce
  with r have t: "s' = t" by (simp add: dispatch_def split: prod.splits option.splits if_splits)
  from s have I: "I s" by (simp add: going_def)
  from send_law[OF I y] s show "going mid (mid # ob) s'"
    unfolding going_def write_ahead_def t by simp
qed

lemma run_checks_quiet: "(\<And>c. c \<in> set checks \<Longrightarrow> quiet I step c) \<Longrightarrow> quiet I step (run_checks checks)"
proof (induction checks)
  case (Cons c cs)
  then show ?case by simp (intro quiet_bind quiet_flow quiet_return; simp)
qed (simp add: quiet_return)

lemma retry_goes:
  assumes c: "\<And>c. c \<in> set checks \<Longrightarrow> quiet I step c"
  shows "hoare (going mid ob) (retryNotSubmitted P checks target payload mid st code n result f)
    (\<lambda>_. delivered n mid ob)"
proof (induction n arbitrary: result f ob)
  case 0
  show ?case by (simp add: hoare_def) (metis append_Nil going_delivered le0 replicate_0)
next
  case (Suc n)
  have again: "hoare (going mid (mid # ob)) (retryNotSubmitted P checks target payload mid st code n result f)
    (\<lambda>_. delivered (Suc n) mid ob)" for result f
    by (rule hoare_weaken[OF Suc.IH]) (rule delivered_more)
  show ?case
    by (simp, rule hoare_bind[OF dispatch_goes], rule hoare_prod, rule hoare_keep[OF quiet_going[OF run_checks_quiet[OF c]]], assumption)
      (intro hoare_flow again; rule hoare_return; erule delivered_one)
qed

lemma deliver_goes:
  assumes "\<And>c. c \<in> set checks \<Longrightarrow> quiet I step c"
  shows "hoare (going mid ob) (deliver_with_retry P checks n target payload mid first) (\<lambda>_. delivered n mid ob)"
proof -
  have now: "going mid ob s \<Longrightarrow> delivered n mid ob s" for s
    using going_delivered[of mid 0 ob s n] by simp
  show ?thesis
    unfolding deliver_with_retry_def by (intro hoare_flow retry_goes assms; (assumption | rule hoare_return, erule now))
qed

section \<open>What the caller is told\<close>

definition told :: "nat \<Rightarrow> string list \<Rightarrow> bool \<Rightarrow> 's \<Rightarrow> bool" where
  "told n ob quiet_claim s = (I s \<and> write_ahead fenced outbox s \<and>
     (\<exists>mid. \<exists>k\<le>Suc n. outbox s = replicate k mid @ ob \<and> (0 < k \<longrightarrow> mid \<notin> set ob)) \<and> (quiet_claim \<longrightarrow> outbox s = ob))"

lemma idle_told: "idle ob s \<Longrightarrow> told n ob b s"
  unfolding idle_def told_def by (metis append_Nil le0 replicate_0 less_irrefl)

lemma delivered_told: "delivered (Suc n) mid ob s \<Longrightarrow> mid \<notin> set ob \<Longrightarrow> told n ob False s"
  unfolding delivered_def told_def going_def by blast

lemma quiet_told: "quiet I step m \<Longrightarrow> keeps (told n ob b) m"
  unfolding quiet_def hoare_def told_def by (metis step_outbox stable_def stable_write_ahead)

lemma quiet_says: "quiet I step m \<Longrightarrow> hoare (idle ob) m (\<lambda>x. told n ob (Q x))"
  by (rule hoare_weaken[OF quiet_idle]) (auto intro: idle_told)

lemma delivered_says:
  assumes "returns Q m" "mid \<notin> set ob" "hoare R m (\<lambda>_. delivered (Suc n) mid ob)"
  shows "hoare R m (\<lambda>x. told n ob (\<not> Q x))"
  using hoare_conj[OF returns_hoare[OF assms(1)] assms(3)]
  by (rule hoare_weaken) (auto dest: delivered_told[OF _ assms(2)])

lemma send_finish_says: "hoare (told n ob (\<not> spoken x)) (send_finish P op env x) (\<lambda>y. told n ob (denies y))"
proof -
  have receipt: "returns (\<lambda>r. rp_state r = st) (make_receipt P op env st turn_id)" for st turn_id
    by (simp add: returns_def make_receipt_def receiptFor_def split: prod.splits)
  obtain out e st turn_id where x: "x = (out, e, st, turn_id)" by (cases x)
  have "returns (\<lambda>y. \<not> denies y) (send_finish P op env x)" if "spoken x"
  proof (cases e)
    case None
    then show ?thesis using that
      by (auto simp: send_finish_def x spoken_def denies_def intro!: returns_return split: option.splits)
  next
    case (Some f)
    have "returns (\<lambda>r. \<not> unsent (rp_state r)) (case sn_receipt out of
        Some r \<Rightarrow> (if rp_operation_id r = '''' then make_receipt P op env st turn_id else ret r)
      | None \<Rightarrow> make_receipt P op env st turn_id)"
      using that receipt[of st turn_id]
      by (cases "sn_receipt out") (auto simp: spoken_def x returns_def)
    then show ?thesis
      by (simp add: send_finish_def x Some) (erule returns_after, simp add: returns_return denies_def)
  qed
  then have "returns (\<lambda>y. spoken x \<longrightarrow> \<not> denies y) (send_finish P op env x)"
    by (simp add: returns_def)
  from hoare_conj[OF returns_hoare[OF this] quiet_told[OF send_finish_quiet]]
  show ?thesis by (rule hoare_weaken) (auto simp: told_def)
qed

section \<open>Send\<close>

lemmas says_rules = returns_return returns_calls returns_flow returns_bind

lemma classify_state: "classifyDelivery f = (st, c) \<Longrightarrow> st \<noteq> StatePrepared"
  by (auto simp: classifyDelivery_def split: prod.splits option.splits if_splits)

lemma retry_state:
  "st \<noteq> StatePrepared \<Longrightarrow>
   returns (\<lambda>(_, _, st, _). st \<noteq> StatePrepared) (retryNotSubmitted P checks target payload mid st code n result f)"
proof (induction n arbitrary: result f)
  case (Suc n)
  then show ?case
    by (simp, intro returns_bind returns_flow returns_return Suc) (auto dest: classify_state)
qed (simp add: returns_return)

lemma deliver_state: "returns (\<lambda>(_, _, st, _). st \<noteq> StatePrepared) (deliver_with_retry P checks n target payload mid first)"
  unfolding deliver_with_retry_def by (intro returns_flow returns_return retry_state) (auto dest: classify_state)

lemma fenced_outcome_spoken: "fenced_outcome st code = (st', code') \<Longrightarrow> unsent st' \<Longrightarrow> st = StatePrepared"
  by (auto simp: fenced_outcome_def unsent_def split: if_splits)

lemma send_unaccepted_spoken: "\<not> unsent st \<Longrightarrow> returns spoken (send_unaccepted P J resumed target oid f st code)"
  unfolding send_unaccepted_def with_detach_def send_fail_def
  by (intro says_rules) (simp_all add: spoken_def zero_send_def)

lemma send_accepted_spoken: "returns spoken (send_accepted P J W cb req resumed target op env result)"
proof -
  have receipt: "returns (\<lambda>r. rp_state r = st) (make_receipt P op env st turn_id)" for st turn_id
    by (simp add: returns_def make_receipt_def receiptFor_def split: prod.splits)
  show ?thesis
    unfolding send_accepted_def send_recorded_def with_detach_def send_fail_def send_wait_def
    by (intro says_rules returns_after[OF receipt]) (simp_all add: spoken_def zero_send_def unsent_def)
qed

lemma send_dispatch_spoken: "returns spoken (send_dispatch P J n W cb req resumed target op env payload)"
  unfolding send_dispatch_def
  by (rule returns_bind, rule returns_after[OF deliver_state], clarify)
    (auto intro!: returns_flow send_unaccepted_spoken send_accepted_spoken dest: fenced_outcome_spoken)

definition ready :: "string \<Rightarrow> string \<Rightarrow> string list \<Rightarrow> 's \<Rightarrow> bool" where
  "ready oid mid ob s = (idle ob s \<and> prepared oid mid s)"

lemma quiet_ready: "quiet I step m \<Longrightarrow> keeps (ready oid mid ob) m"
  using quiet_keeps[OF _ stable_conj[OF stable_prepared stable_conj[OF stable_write_ahead stable_outbox]]]
  unfolding ready_def idle_def hoare_def by blast

lemma ready_says: "quiet I step m \<Longrightarrow> hoare (ready oid mid ob) m (\<lambda>x. told n ob (Q x))"
  by (rule hoare_strengthen[OF quiet_says]) (simp_all add: ready_def)

text \<open>A fence that is committed is the message's first, so that no body of it is out yet.\<close>

lemma fenced_call: "hoare (ready oid mid ob) (jp_mark_dispatch_started J oid owner token)
  (\<lambda>r s. case r of Some e \<Rightarrow> idle ob s | None \<Rightarrow> mid \<notin> set ob \<and> going mid ob s)"
proof -
  have fence: "hoare (ready oid mid ob) (jp_mark_dispatch_started J oid owner token) (\<lambda>r s. r = None \<longrightarrow> fenced mid s)"
    by (rule hoare_strengthen[OF mark_law]) (simp add: ready_def idle_def)
  have first: "hoare (ready oid mid ob) (jp_mark_dispatch_started J oid owner token) (\<lambda>r s. r = None \<longrightarrow> mid \<notin> set ob)"
    unfolding hoare_def ready_def idle_def write_ahead_def using mark_fresh by blast
  show ?thesis
    by (rule hoare_weaken[OF hoare_conj[OF fence hoare_conj[OF first quiet_ready[OF journal_quiet(2)]]]])
      (simp add: ready_def idle_def going_def split: option.splits)
qed

lemma prepared_call: "hoare (idle ob) (jp_prepare J op)
  (\<lambda>r s. case r of Inl e \<Rightarrow> idle ob s | Inr p \<Rightarrow> ready (pr_operation_id p) (so_message_id op) ob s)"
proof -
  have "hoare (idle ob) (jp_prepare J op) (\<lambda>r s. \<forall>p. r = Inr p \<longrightarrow> prepared (pr_operation_id p) (so_message_id op) s)"
    by (rule hoare_strengthen[OF prepare_law]) (simp add: idle_def)
  from hoare_conj[OF this quiet_idle[OF journal_quiet(1)]] show ?thesis
    by (rule hoare_weaken) (simp add: ready_def split: sum.splits)
qed

lemma fence_says:
  assumes stop: "\<And>e. quiet I step (h e)" and go: "mid \<notin> set ob \<Longrightarrow> hoare (going mid ob) k (\<lambda>x. told n ob (Q x))"
  shows "hoare (ready oid mid ob) (on_error (jp_mark_dispatch_started J oid owner token) h k) (\<lambda>x. told n ob (Q x))"
  by (rule hoare_on_error[OF fenced_call quiet_says[OF stop] hoare_pure[OF go]])

lemma send_dispatch_says:
  assumes "hooks I step W cb" "so_message_id op \<notin> set ob"
  shows "hoare (going (so_message_id op) ob) (send_dispatch P J n W cb req resumed target op env payload)
    (\<lambda>x. told n ob (\<not> spoken x))"
proof (rule delivered_says[OF send_dispatch_spoken assms(2)])
  have yes: "quiet I step (send_accepted P J W cb req resumed target op env result)" for result
    by (rule send_accepted_quiet[OF assms(1)])
  have "hoare (going (so_message_id op) ob) (send_dispatch P J n W cb req resumed target op env payload)
    (\<lambda>_. delivered n (so_message_id op) (so_message_id op # ob))"
    unfolding send_dispatch_def
    by (rule hoare_bind[OF dispatch_goes], rule hoare_bind[OF deliver_goes], simp)
      (intro hoare_flow quiet_delivered[OF yes] quiet_delivered[OF send_unaccepted_quiet])
  then show "hoare (going (so_message_id op) ob) (send_dispatch P J n W cb req resumed target op env payload)
    (\<lambda>_. delivered (Suc n) (so_message_id op) ob)"
    by (rule hoare_weaken) (rule delivered_more)
qed

lemma send_fence_says:
  assumes "hooks I step W cb"
  shows "hoare (ready (pr_operation_id p) (so_message_id op) ob) (send_fence P J n W cb req resumed target op env payload p)
    (\<lambda>x. told n ob (\<not> spoken x))"
  unfolding send_fence_def
  by (rule fence_says[OF _ send_dispatch_says[OF assms]]) (intro detach_quiet send_fail_quiet)

lemma send_prepared_says:
  assumes "hooks I step W cb"
  shows "hoare (ready (pr_operation_id p) (so_message_id op) ob) (send_prepared P J n W cb req target op env payload p)
    (\<lambda>x. told n ob (\<not> spoken x))"
  unfolding send_prepared_def
  by (intro hoare_if send_fence_says[OF assms] keep_on_error[OF quiet_ready[OF target_quiet(1)]]
      ready_says quiet_on_error send_fail_quiet journal_quiet)

lemma finish_says:
  assumes "hoare R m (\<lambda>x. told n ob (\<not> spoken x))"
  shows "hoare R (State_Monad.bind m (send_finish P op env)) (\<lambda>y. told n ob (denies y))"
  by (rule hoare_bind[OF assms send_finish_says])

text \<open>Preparing makes the operation ready; a refusal says so and leaves the outbox.\<close>

lemma refuse_says: "hoare (idle ob) (refuse e) (\<lambda>y. told n ob (denies y))"
  by (rule hoare_return) (rule idle_told)

lemma prepare_says:
  assumes "\<And>p. hoare (ready (pr_operation_id p) (so_message_id op) ob) (k p) (\<lambda>y. told n ob (denies y))"
  shows "hoare (idle ob) (on_value (jp_prepare J op) (\<lambda>e. refuse (f e)) k) (\<lambda>y. told n ob (denies y))"
  by (rule hoare_on_value[OF prepared_call refuse_says assms])

lemmas idle_calls = keep_on_error[OF quiet_idle] keep_on_value[OF quiet_idle] hoare_keep[OF quiet_idle]

theorem Send_says:
  assumes "hooks I step W cb"
  shows "hoare (idle ob) (Send P J n W cb req) (\<lambda>y. told n ob (denies y))"
proof -
  have rendered: "hoare (idle ob) (send_rendered P J n W cb req target source env payload) (\<lambda>y. told n ob (denies y))"
    for req target source env payload
    unfolding send_rendered_def Let_def
    by (rule idle_calls(2)[OF system_quiet(1)], rule refuse_says, rule prepare_says, rule finish_says,
        rule send_prepared_says[OF assms])
  show ?thesis
    unfolding Send_def Let_def
    by (intro hoare_flow idle_calls refuse_says rendered resolver_quiet send_source_quiet reply_preflight_quiet system_quiet)
qed

end

end
