(* ===== verification/Service_Outcomes.thy ===== *)
theory Service_Outcomes
  imports Service_Laws
begin

text \<open>
  The outcomes of \<open>Send\<close> and \<open>Reply\<close> over any world of \<open>service_custody\<close>: an error-free \<open>Send\<close> is
  journaled as accepted, and a \<open>Reply\<close> promises about bodies, fences and receipts what a \<open>Send\<close> does.
\<close>

context service_custody
begin

section \<open>An accepted Send\<close>

definition sent_to :: "string \<Rightarrow> string \<Rightarrow> 's \<Rightarrow> bool" where
  "sent_to oid mid s = (I s \<and> recorded oid StateAccepted s \<and> mid \<in> set (outbox s))"

definition vouched :: "string \<Rightarrow> string \<Rightarrow> SendResult \<Rightarrow> bool" where
  "vouched oid mid out = (\<exists>r. sn_receipt out = Some r \<and> rp_state r = StateAccepted \<and> rp_operation_id r = oid \<and>
     mg_message_id (rp_message r) = mid)"

definition settled :: "SendResult \<times> GoError option \<Rightarrow> 's \<Rightarrow> bool" where
  "settled y s = (snd y = None \<longrightarrow> (\<exists>oid mid. vouched oid mid (fst y) \<and> sent_to oid mid s))"

lemma quiet_sent_to: "quiet I step m \<Longrightarrow> keeps (sent_to oid mid) m"
  using quiet_keeps[OF _ stable_conj[OF stable_recorded stable_sent]] unfolding sent_to_def by blast

lemma refuse_settled: "hoare R (refuse e) settled"
  by (rule hoare_return) (simp add: settled_def)

lemma failed_settled: "returns (\<lambda>(_, e, _). e \<noteq> None) m \<Longrightarrow>
  hoare R m (\<lambda>(out, e, _) s. e = None \<longrightarrow> vouched oid mid out \<and> sent_to oid' mid' s)"
  by (rule hoare_weaken[OF returns_hoare], assumption) auto

lemma send_recorded_settled:
  assumes "hooks I step W cb"
  shows "hoare (sent_to oid mid) (send_recorded P J W cb req resumed target op env turn_id)
    (\<lambda>(out, e, _) s. e = None \<longrightarrow> vouched (so_operation_id op) (en_message_id env) out \<and> sent_to oid mid s)"
proof -
  have receipt: "returns (\<lambda>r. rp_state r = StateAccepted \<and> rp_operation_id r = so_operation_id op \<and>
    mg_message_id (rp_message r) = en_message_id env) (make_receipt P op env StateAccepted turn_id)"
    by (simp add: returns_def make_receipt_def receiptFor_def split: prod.splits)
  have says: "returns (\<lambda>(out, e, _). e = None \<longrightarrow> vouched (so_operation_id op) (en_message_id env) out)
    (send_recorded P J W cb req resumed target op env turn_id)"
    unfolding send_recorded_def with_detach_def send_wait_def
    by (intro says_rules returns_after[OF receipt]) (auto simp: vouched_def)
  have quiet: "quiet I step (send_recorded P J W cb req resumed target op env turn_id)"
    by (rule send_recorded_quiet) (rule assms)
  show ?thesis
    by (rule hoare_weaken[OF hoare_conj[OF returns_hoare[OF says] quiet_sent_to[OF quiet]]]) auto
qed

lemma send_accepted_settled:
  assumes "hooks I step W cb"
  shows "hoare (\<lambda>s. I s \<and> mid \<in> set (outbox s)) (send_accepted P J W cb req resumed target op env result)
    (\<lambda>(out, e, _) s. e = None \<longrightarrow> vouched (so_operation_id op) (en_message_id env) out \<and> sent_to (so_operation_id op) mid s)"
  unfolding send_accepted_def
proof (rule hoare_on_error)
  have "hoare (\<lambda>s. I s \<and> mid \<in> set (outbox s)) (jp_record_result J (so_operation_id op) StateAccepted (dr_evidence result))
    (\<lambda>r s. (r = None \<longrightarrow> recorded (so_operation_id op) StateAccepted s) \<and> I s \<and> mid \<in> set (outbox s))"
    by (rule hoare_conj[OF hoare_strengthen[OF result_law] quiet_keeps[OF journal_quiet(3) stable_sent]]) simp
  then show "hoare (\<lambda>s. I s \<and> mid \<in> set (outbox s)) (jp_record_result J (so_operation_id op) StateAccepted (dr_evidence result))
    (\<lambda>r s. case r of Some e \<Rightarrow> True | None \<Rightarrow> sent_to (so_operation_id op) mid s)"
    by (rule hoare_weaken) (simp add: sent_to_def split: option.splits)
qed (rule failed_settled, unfold with_detach_def send_fail_def, intro says_rules, simp_all add: send_recorded_settled[OF assms])

lemma send_dispatch_settled:
  assumes "hooks I step W cb"
  shows "hoare (going (so_message_id op) ob) (send_dispatch P J n W cb req resumed target op env payload)
    (\<lambda>(out, e, _) s. e = None \<longrightarrow> vouched (so_operation_id op) (en_message_id env) out \<and>
      sent_to (so_operation_id op) (so_message_id op) s)"
proof -
  have sent: "delivered n (so_message_id op) (so_message_id op # ob) s \<Longrightarrow> I s \<and> so_message_id op \<in> set (outbox s)" for s
    unfolding delivered_def going_def by auto
  have no: "returns (\<lambda>(_, e, _). e \<noteq> None) (send_unaccepted P J resumed target oid f st code)" for oid f st code
    unfolding send_unaccepted_def with_detach_def send_fail_def by (intro says_rules) simp_all
  show ?thesis
    unfolding send_dispatch_def
    by (rule hoare_bind[OF dispatch_goes], rule hoare_bind[OF deliver_goes], simp)
      (intro hoare_flow failed_settled[OF no]; rule hoare_strengthen[OF send_accepted_settled[OF assms]], erule sent)
qed

lemma send_fence_settled:
  assumes "hooks I step W cb"
  shows "hoare (ready (pr_operation_id p) (so_message_id op) ob) (send_fence P J n W cb req resumed target op env payload p)
    (\<lambda>(out, e, _) s. e = None \<longrightarrow> vouched (so_operation_id op) (en_message_id env) out \<and>
      sent_to (so_operation_id op) (so_message_id op) s)"
  unfolding send_fence_def
  by (rule hoare_on_error[OF fenced_call _ hoare_pure], rule failed_settled, unfold with_detach_def send_fail_def, intro says_rules)
    (simp_all add: send_dispatch_settled[OF assms])

lemma send_prepared_settled:
  assumes "hooks I step W cb"
  shows "hoare (ready (pr_operation_id p) (so_message_id op) ob) (send_prepared P J n W cb req target op env payload p)
    (\<lambda>(out, e, _) s. e = None \<longrightarrow> vouched (so_operation_id op) (en_message_id env) out \<and>
      sent_to (so_operation_id op) (so_message_id op) s)"
proof -
  have no: "returns (\<lambda>(_, e, _). e \<noteq> None) (on_error (jp_record_result J oid st code) (\<lambda>x. send_fail st' t (f x)) (send_fail st'' t' g))"
    for oid st code st' t f st'' t' g
    unfolding send_fail_def by (intro says_rules) simp_all
  show ?thesis
    unfolding send_prepared_def
    by (intro hoare_if send_fence_settled[OF assms] keep_on_error[OF quiet_ready[OF target_quiet(1)]] failed_settled[OF no])
qed

text \<open>An error-free \<open>Send\<close>: its receipt says accepted, the journal has it, and its body went out.\<close>

theorem Send_settled:
  assumes "hooks I step W cb"
  shows "hoare (idle ob) (Send P J n W cb req) settled"
proof -
  have finish: "hoare (case x of (out, e, _) \<Rightarrow> \<lambda>s. e = None \<longrightarrow> vouched oid mid out \<and> sent_to oid mid s)
    (send_finish P op env x) settled" for x oid mid op env
  proof (cases x)
    case (fields out e st turn_id)
    then show ?thesis
      by (cases e) (auto simp: send_finish_def settled_def hoare_def split: option.splits prod.splits)
  qed
  have step: "hoare (ready (pr_operation_id p) (so_message_id op) ob)
    (State_Monad.bind (send_prepared P J n W cb req target op env payload p) (send_finish P op env)) settled"
    if "so_message_id op = en_message_id env" for op env req target payload p
    by (rule hoare_bind[OF send_prepared_settled[OF assms]], unfold that, rule finish)
  have rendered: "hoare (idle ob) (send_rendered P J n W cb req target source env payload) settled"
    for req target source env payload
    unfolding send_rendered_def Let_def
    by (rule idle_calls(2)[OF system_quiet(1)], rule refuse_settled, rule hoare_on_value[OF prepared_call],
        rule refuse_settled, rule step) (simp add: send_operation_def)
  show ?thesis
    unfolding Send_def Let_def
    by (intro hoare_flow idle_calls refuse_settled rendered resolver_quiet send_source_quiet reply_preflight_quiet system_quiet)
qed

section \<open>Reply\<close>

lemma at_prepared_quiet: "quiet I step m \<Longrightarrow> quiet I step (at_prepared m)"
  unfolding at_prepared_def by (intro quiet_rules)

lemma join_accepted_keeps_receipt:
  "returns (\<lambda>(out', _). sn_receipt out' = sn_receipt out) (join_accepted P J W cb wanted mid out)"
  unfolding join_accepted_def by (intro says_rules) simp_all

lemma abort_spoken: "returns spoken (abortReplyHeartbeat P J resumed target claim p e)"
  unfolding abortReplyHeartbeat_def send_fail_def
  by (intro says_rules) (simp_all add: spoken_def zero_send_def unsent_def)

lemma reply_unaccepted_spoken:
  "\<not> unsent st \<Longrightarrow> returns spoken (reply_unaccepted P J resumed target claim p f st code)"
  unfolding reply_unaccepted_def quiet_detach_def with_detach_def send_fail_def
  by (intro says_rules) (simp_all add: spoken_def zero_send_def)

lemma reply_commit_spoken: "returns spoken (reply_commit P J H W cb wanted resumed target op env p claim result)"
proof -
  have receipt: "returns (\<lambda>r. rp_state r = StateReplyAccepted) (make_receipt P op env StateReplyAccepted turn_id)" for turn_id
    by (simp add: returns_def make_receipt_def receiptFor_def split: prod.splits)
  show ?thesis
    unfolding reply_commit_def reply_done_def quiet_detach_def with_detach_def send_fail_def Let_def
    by (intro returns_calls returns_return returns_flow(1-3) returns_after[OF receipt] returns_after[OF join_accepted_keeps_receipt]
        returns_bind abort_spoken)
      (auto simp: spoken_def zero_send_def unsent_def intro!: returns_return)
qed

lemma reply_dispatch_spoken: "returns spoken (reply_dispatch P J H n W cb wanted resumed target op env payload p claim)"
proof -
  have settle: "returns spoken (case fenced_outcome st code of (st, code) \<Rightarrow> reply_unaccepted P J resumed target claim p f st code)"
    if "st \<noteq> StatePrepared" for st code f
    using that by (auto intro!: returns_flow reply_unaccepted_spoken dest: fenced_outcome_spoken)
  show ?thesis
    unfolding reply_dispatch_def Let_def
    by (intro returns_bind[where m = "dispatch _ _ _ _"] returns_calls returns_flow(1) abort_spoken reply_commit_spoken
        returns_after[OF deliver_state])
      (auto intro!: returns_calls returns_flow(3) abort_spoken reply_commit_spoken settle)
qed

lemma reply_dispatch_says:
  assumes "hooks I step W cb" "so_message_id op \<notin> set ob"
  shows "hoare (going (so_message_id op) ob) (reply_dispatch P J H n W cb wanted resumed target op env payload p claim)
    (\<lambda>x. told n ob (\<not> spoken x))"
proof (rule delivered_says[OF reply_dispatch_spoken assms(2)])
  let ?mid = "so_message_id op"
  have commit: "quiet I step (reply_commit P J H W cb wanted resumed target op env p claim result)" for result
    by (rule reply_commit_quiet[OF assms(1)])
  have now: "hoare (going ?mid (?mid # ob)) m (\<lambda>_. delivered n ?mid (?mid # ob))" if "quiet I step m" for m :: "('s, sent) state"
    by (rule hoare_weaken[OF quiet_going[OF that]]) (use going_delivered[of ?mid 0] in simp)
  have "hoare (going ?mid ob) (reply_dispatch P J H n W cb wanted resumed target op env payload p claim)
    (\<lambda>_. delivered n ?mid (?mid # ob))"
    unfolding reply_dispatch_def Let_def
    by (rule hoare_bind[OF dispatch_goes], rule keep_on_error[OF quiet_going[OF heartbeat_quiet(2)] now[OF abort_quiet]],
        rule keep_on_error[OF quiet_going[OF heartbeat_quiet(3)] now[OF abort_quiet]], rule hoare_if, rule now[OF commit],
        rule hoare_bind[OF deliver_goes], simp add: heartbeat_quiet)
      (intro hoare_prod keep_on_error[OF quiet_delivered[OF heartbeat_quiet(3)]] hoare_flow quiet_delivered abort_quiet commit
        reply_unaccepted_quiet)
  then show "hoare (going ?mid ob) (reply_dispatch P J H n W cb wanted resumed target op env payload p claim)
    (\<lambda>_. delivered (Suc n) ?mid ob)"
    by (rule hoare_weaken) (rule delivered_more)
qed

lemma reply_resume_says:
  assumes "hooks I step W cb"
  shows "hoare (ready (pr_operation_id p) (so_message_id op) ob)
    (reply_resume P J H n W cb wanted target op env payload p claim) (\<lambda>x. told n ob (\<not> spoken x))"
proof -
  have fence: "hoare (ready (pr_operation_id p) (so_message_id op) ob)
    (reply_fence P J H n W cb wanted resumed target op env payload p claim) (\<lambda>x. told n ob (\<not> spoken x))" for resumed
    unfolding reply_fence_def
    by (rule hoare_keep[OF quiet_ready[OF heartbeat_quiet(1)]], rule fence_says[OF _ reply_dispatch_says[OF assms]])
      (intro detach_quiet quiet_on_error journal_quiet send_fail_quiet)
  show ?thesis
    unfolding reply_resume_def
    by (intro hoare_if fence keep_on_error[OF quiet_ready[OF target_quiet(1)]] ready_says quiet_on_error send_fail_quiet journal_quiet)
qed

lemma reply_prepared_says:
  assumes "hooks I step W cb"
  shows "hoare (ready (pr_operation_id p) (so_message_id op) ob)
    (reply_prepared P J H n W S cb req orig target op env payload p) (\<lambda>x. told n ob (\<not> spoken x))"
proof -
  have joined: "quiet I step (joinPreparedReply P J W S cb wanted op env)" "quiet I step (reply_joined P J W cb wanted op env claim)"
    for wanted claim
    by (rule joinPreparedReply_quiet reply_joined_quiet, rule assms)+
  show ?thesis
    unfolding reply_prepared_def
    by (intro hoare_if keep_on_value[OF quiet_ready[OF journal_quiet(6)]] reply_resume_says[OF assms]
        ready_says at_prepared_quiet joined failedReplyClaim_quiet)
qed

theorem Reply_says:
  assumes "hooks I step W cb" "originals I step R"
  shows "hoare (idle ob) (Reply_service P J H n W S cb R req) (\<lambda>y. told n ob (denies y))"
proof -
  have rendered: "hoare (idle ob) (reply_rendered P J H n W S cb req orig target source env payload) (\<lambda>y. told n ob (denies y))"
    for req orig target source env payload
    unfolding reply_rendered_def Let_def
    by (rule idle_calls(2)[OF supplied_quiet], rule refuse_says, rule idle_calls(2)[OF system_quiet(1)], rule refuse_says,
        rule prepare_says, rule finish_says, rule reply_prepared_says[OF assms(1)])
  have original: "quiet I step (case R of Some f \<Rightarrow> f t | None \<Rightarrow> ret (Inl (Opaque '''')))" for t
    using assms(2) by (intro quiet_flow quiet_return) (simp add: originals_def)
  show ?thesis
    unfolding Reply_service_def reply_build_def Let_def
    by (intro hoare_flow(1-4) idle_calls(1,2) idle_calls(3)[OF system_quiet(3)] refuse_says rendered original resolver_quiet
        reply_preflight_quiet supplied_quiet)
qed

end

end
