(* ===== verification/Service_World.thy ===== *)
theory Service_World
  imports Service_Journal Service_Outcomes
begin

text \<open>
  The SQLite world keeps the promises of \<open>service_custody\<close>: every port but the delivery moves the
  database along the journal's history and leaves the outbox alone, a prepared operation stays
  prepared, the fence is durable, and a recorded result stays recorded.
\<close>

section \<open>The world's invariant, steps and promises\<close>

definition world_inv :: "world \<Rightarrow> bool" where
  "world_inv w = journal_inv (w_db w)"

definition world_step :: "world \<Rightarrow> world \<Rightarrow> bool" where
  "world_step w w' = (evolves (w_db w) (w_db w') \<and> w_outbox w' = w_outbox w)"

definition past_fence :: "EvidenceState \<Rightarrow> bool" where
  "past_fence st = (st \<in> {StateDispatchStarted, StateAccepted, StateRejected, StateOutcomeUnknown, StateManuallyResolved})"

definition world_prepared :: "string \<Rightarrow> string \<Rightarrow> world \<Rightarrow> bool" where
  "world_prepared oid mid w = (\<exists>r. row_by o_operation_id oid (operations (w_db w)) = Some r \<and> o_message_id r = mid)"

definition world_fenced :: "string \<Rightarrow> world \<Rightarrow> bool" where
  "world_fenced mid w = (\<exists>oid r. row_by o_operation_id oid (operations (w_db w)) = Some r \<and> o_message_id r = mid \<and> past_fence (o_state r))"

definition world_recorded :: "string \<Rightarrow> EvidenceState \<Rightarrow> world \<Rightarrow> bool" where
  "world_recorded oid st w = (\<exists>r. row_by o_operation_id oid (operations (w_db w)) = Some r \<and> op_le st (o_state r))"

lemma past_fence_le: "op_le s t \<Longrightarrow> past_fence s \<Longrightarrow> past_fence t"
  by (induction rule: rtranclp_induct) (auto simp: past_fence_def elim: op_stepE)

lemma accepted_stays: "op_le StateAccepted t \<Longrightarrow> t = StateAccepted"
  by (induction rule: rtranclp_induct) (auto elim: op_stepE)

lemma op_evolves_message: "op_evolves r r' \<Longrightarrow> o_message_id r' = o_message_id r"
  unfolding op_evolves_def by (metis op_ident.select_convs(2) op_ident.surjective op_ident.truncate_def)

lemma evolves_row:
  assumes "evolves d d'" "row_by o_operation_id oid (operations d) = Some r"
  shows "\<exists>r'. row_by o_operation_id oid (operations d') = Some r' \<and> o_message_id r' = o_message_id r \<and> op_le (o_state r) (o_state r')"
proof -
  from assms obtain r' where "row_by o_operation_id oid (operations d') = Some r'" "op_evolves r r'"
    unfolding evolves_def by blast
  with op_evolves_message[of r r'] show ?thesis by (auto simp: op_evolves_def)
qed

lemma evolves_promises:
  assumes "evolves (w_db w) (w_db w')"
  shows "world_prepared oid mid w \<Longrightarrow> world_prepared oid mid w'" "world_fenced mid w \<Longrightarrow> world_fenced mid w'"
    "world_recorded oid st w \<Longrightarrow> world_recorded oid st w'"
proof -
  note row = evolves_row[OF assms]
  show "world_prepared oid mid w \<Longrightarrow> world_prepared oid mid w'"
    unfolding world_prepared_def using row by metis
  show "world_fenced mid w \<Longrightarrow> world_fenced mid w'"
    unfolding world_fenced_def using row past_fence_le by metis
  show "world_recorded oid st w \<Longrightarrow> world_recorded oid st w'"
    unfolding world_recorded_def using row by (metis rtranclp_trans)
qed

section \<open>Journal calls are quiet\<close>

abbreviation world_quiet :: "(world, 'a) state \<Rightarrow> bool" where
  "world_quiet \<equiv> quiet world_inv world_step"

interpretation sw: quiet_world world_inv world_step
  by unfold_locales (auto simp: world_step_def intro: evolves_trans)

lemma moves_good: "journal_inv d \<Longrightarrow> good d (apply_moves m d)"
  using apply_moves[of m] steps_good by blast

text \<open>A journal call whose body is a step of the journal, or reads.\<close>

definition steps :: "(journal_call \<Rightarrow> db \<Rightarrow> 'a \<times> db) \<Rightarrow> bool" where
  "steps f = (\<forall>c d r d'. f c d = (r, d') \<longrightarrow> d' = d \<or> journal_step d d')"

lemma steps_goodD: "steps f \<Longrightarrow> journal_inv d \<Longrightarrow> f c d = (r, d') \<Longrightarrow> good d d'"
  unfolding steps_def using step_good by fastforce

lemma jcall_law:
  assumes f: "steps f" and ev: "\<And>d d'. evolves d d' \<Longrightarrow> R d \<Longrightarrow> R d'"
    and post: "\<And>c d a d'. journal_inv d \<Longrightarrow> R d \<Longrightarrow> f c d = (Inr a, d') \<Longrightarrow> T a d'"
  shows "hoare (\<lambda>w. world_inv w \<and> R (w_db w)) (jcall A f) (\<lambda>r w. \<forall>a. r = Inr a \<longrightarrow> T a (w_db w))"
proof (rule hoareI)
  fix w x w'
  assume w: "world_inv w \<and> R (w_db w)" and r: "run_state (jcall A f) w = (x, w')"
  let ?c = "an_journal A (w_calls w)"
  obtain y d where y: "f ?c (apply_moves (jc_others ?c) (w_db w)) = (y, d)" by fastforce
  from w moves_good have b: "journal_inv (apply_moves (jc_others ?c) (w_db w))" "R (apply_moves (jc_others ?c) (w_db w))"
    unfolding world_inv_def by (blast intro: ev)+
  show "\<forall>a. x = Inr a \<longrightarrow> T a (w_db w')"
    using r y post[OF b] by (auto simp: jcall_def Let_def split: option.splits sum.splits)
qed

lemma jcall_quiet:
  assumes "steps f"
  shows "world_quiet (jcall A f)"
proof (rule quietI)
  fix w x w'
  assume w: "world_inv w" and r: "run_state (jcall A f) w = (x, w')"
  let ?c = "an_journal A (w_calls w)"
  let ?b = "apply_moves (jc_others ?c) (w_db w)"
  obtain y d where y: "f ?c ?b = (y, d)" by fastforce
  from w moves_good have b: "good (w_db w) ?b" unfolding world_inv_def by blast
  with steps_goodD[OF assms _ y] have "good (w_db w) d" using good_trans by blast
  with b r y show "world_inv w' \<and> world_step w w'"
    by (auto simp: jcall_def Let_def world_inv_def world_step_def split: option.splits if_splits)
qed

lemma jexec_quiet: "steps f \<Longrightarrow> world_quiet (jexec A f)"
  unfolding jexec_def by (intro sw.quiet_rules jcall_quiet)

lemma jread_quiet: "world_quiet (jread A f)"
  by (rule jcall_quiet) (simp add: steps_def)

lemma ask_quiet: "world_quiet (ask f)"
  by (auto simp: quiet_def ask_def world_inv_def world_step_def)

lemma get_quiet: "world_quiet State_Monad.get"
  by (simp add: quiet_def world_step_def State_Monad.get_def)

lemma journal_bodies:
  "steps (\<lambda>c. Prepare (jc_now c) (jc_duration c) (jc_entropy c) p)"
  "steps (\<lambda>c. withTx (MarkDispatchStartedOwned (jc_now c) oid owner token))"
  "steps (\<lambda>c. RecordResult (jc_now c) oid st code)"
  "steps (\<lambda>c. ExpireClaims (jc_now c))"
  "steps (\<lambda>c. Heartbeat (jc_now c) (jc_duration c) rid owner token)"
  "steps (\<lambda>c. CommitReply (jc_now c) rid owner token)"
  "steps (\<lambda>c. AbandonReply (jc_now c) rid owner token)"
  "steps (\<lambda>c. ReconcileReplyObservation (jc_now c) rid native digest)"
  unfolding steps_def by (blast intro: journal_step.intros)+

lemma claim_body: "steps (\<lambda>c d. claim_result (ClaimReply (jc_now c) (jc_duration c) (jc_entropy c) inp d))"
  unfolding steps_def claim_result_def by (auto split: prod.splits intro: step_claim)

lemma observe_body: "steps (\<lambda>c. ObserveReply (jc_now c) rid native digest)"
  unfolding steps_def ObserveReply_def by (blast intro: step_observe)


section \<open>The adapter's calls\<close>

lemma prepare_quiet: "world_quiet (sqlite_prepare A op)"
proof -
  have bind: "world_quiet (bind_identity p)" for p
    by (auto simp: quiet_def bind_identity_def world_inv_def world_step_def split: option.splits sum.splits)
  show ?thesis
    unfolding sqlite_prepare_def Let_def by (intro sw.quiet_rules bind jcall_quiet journal_bodies)
qed

lemma simple_calls_quiet:
  "world_quiet (sqlite_mark A oid owner token)" "world_quiet (sqlite_result A oid st code)" "world_quiet (sqlite_expire A)"
  "world_quiet (sqlite_heartbeat A oid owner token)" "world_quiet (sqlite_abandon A oid owner token)"
  unfolding sqlite_mark_def sqlite_result_def sqlite_expire_def sqlite_heartbeat_def sqlite_abandon_def
  by (intro jexec_quiet journal_bodies)+

lemma claim_calls_quiet: "world_quiet (sqlite_claim A i)" "world_quiet (sqlite_commit A oid owner token)"
  unfolding sqlite_claim_def sqlite_commit_def by (intro sw.quiet_rules jcall_quiet journal_bodies claim_body)+

lemma merge_claims_quiet: "world_quiet (merge_claims A cs s)"
proof (induction cs arbitrary: s)
  case (Cons c cs)
  then show ?case by (simp, intro conjI impI sw.quiet_bind jread_quiet)
qed (simp add: sw.quiet_return)

lemma lookup_quiet: "world_quiet (sqlite_lookup A t)"
proof -
  have registry: "world_quiet read_registry"
    by (simp add: quiet_def read_registry_def world_step_def)
  have status: "world_quiet (status_of_record A r)" for r
    unfolding status_of_record_def Let_def
    by (intro sw.quiet_bind registry quiet_flow sw.quiet_return sw.quiet_on_value jread_quiet merge_claims_quiet)
  show ?thesis
    unfolding sqlite_lookup_def by (intro sw.quiet_on_value jread_quiet quiet_flow status sw.quiet_return)
qed

lemma transition_quiet: "world_quiet m \<Longrightarrow> world_quiet (observeTransition A rid m)"
  unfolding observeTransition_def
  by (intro sw.quiet_bind quiet_flow sw.quiet_return sw.quiet_on_value jread_quiet; assumption)

lemma observe_quiet: "world_quiet (sqlite_observe A rid native digest)" "world_quiet (sqlite_reconcile A rid native digest)"
  unfolding sqlite_observe_def sqlite_reconcile_def
  by (intro transition_quiet jexec_quiet observe_body journal_bodies)+

lemma wait_quiet: "world_quiet (sqlite_wait A rid)"
proof -
  have "world_quiet (sqlite_wait_rounds A rid rounds prev)" for rounds prev
  proof (induction rounds arbitrary: prev)
    case (Cons t rounds)
    then show ?case
      by (simp, intro sw.quiet_on_error sw.quiet_bind sw.quiet_on_value quiet_flow sw.quiet_return
          jread_quiet lookup_quiet simple_calls_quiet conjI impI)
  qed (simp add: sw.quiet_return)
  then show ?thesis unfolding sqlite_wait_def by (intro sw.quiet_bind ask_quiet)
qed

lemma update_quiet:
  assumes "\<And>w. w_db (g w) = w_db w \<and> w_outbox (g w) = w_outbox w"
  shows "world_quiet (State_Monad.bind State_Monad.get (\<lambda>w. State_Monad.set (g w)))"
    "world_quiet (State_Monad.bind State_Monad.get (\<lambda>w. State_Monad.bind (State_Monad.set (g w)) (\<lambda>_. ret (h w))))"
  using assms by (auto simp: quiet_def world_inv_def world_step_def State_Monad.get_def State_Monad.set_def)

lemma beats_quiet: "world_quiet (beats A n)"
proof (induction n)
  case (Suc n)
  have "world_quiet (beat_once A)"
    unfolding beat_once_def
    by (intro sw.quiet_bind get_quiet quiet_flow sw.quiet_return simple_calls_quiet update_quiet) simp
  with Suc show ?case by (simp, intro sw.quiet_bind)
qed (simp add: sw.quiet_return)

lemma heartbeat_calls_quiet:
  "world_quiet (hb_start (world_heartbeat A) t u v)" "world_quiet (hb_wait (world_heartbeat A))"
  "world_quiet (hb_read (world_heartbeat A))"
proof -
  show "world_quiet (hb_start (world_heartbeat A) t u v)"
    by (simp add: world_heartbeat_def, rule update_quiet) simp
  show "world_quiet (hb_wait (world_heartbeat A))"
    by (simp add: world_heartbeat_def, intro sw.quiet_bind ask_quiet beats_quiet get_quiet sw.quiet_return)
  show "world_quiet (hb_read (world_heartbeat A))"
    by (simp add: world_heartbeat_def, rule sw.quiet_bind[OF ask_quiet], rule sw.quiet_bind[OF beats_quiet], rule update_quiet(2)) simp
qed

section \<open>The promises\<close>

lemma op_row_in: "journal_inv d \<Longrightarrow> r \<in> set (operations d) \<Longrightarrow> row_by o_operation_id (o_operation_id r) (operations d) = Some r"
  using inv_struct[of d] row_by_in_set[of o_operation_id "operations d" r] by (simp add: ops_ok_def)

lemma prepared_after:
  assumes inv: "journal_inv d" and h: "Prepare now dur entropy p d = (Inr r, d')"
  shows "o_operation_id r = o_operation_id p"
    "\<exists>x. row_by o_operation_id (o_operation_id p) (operations d') = Some x \<and> o_message_id x = o_message_id p"
proof -
  from h obtain creator where t: "Prepare_tx now dur entropy p d = Inr (creator, d')"
    and rd: "operation_read (o_operation_id p) creator d' = Inr r"
    by (auto simp: Prepare_def withTx_def split: if_splits sum.splits prod.splits)
  from rd show "o_operation_id r = o_operation_id p"
    by (auto simp: operation_read_def loadManualResolution_def scanOperation_def Let_def op_ident.defs dest!: row_by_key split: option.splits if_splits)
  show "\<exists>x. row_by o_operation_id (o_operation_id p) (operations d') = Some x \<and> o_message_id x = o_message_id p"
  proof (cases "row_by o_message_id (o_message_id p) (operations d)")
    case (Some x)
    with t have d: "d' = d" and "same_identity x p" by (auto simp: Prepare_tx_def split: if_splits)
    moreover have "x \<in> set (operations d)" using Some by (auto dest: row_by_SomeD)
    ultimately show ?thesis using op_row_in[OF inv, of x] by (auto simp: same_identity_def)
  next
    case None
    with t show ?thesis
      by (auto simp: Prepare_tx_def bindE_Inr_iff Let_def insert_operation_def insert_attempt_def row_by_append operation_row_def
          op_ident.defs split: if_splits)
  qed
qed

lemma sqlite_prepare_law: "hoare world_inv (sqlite_prepare A op)
  (\<lambda>r w. \<forall>p. r = Inr p \<longrightarrow> world_prepared (pr_operation_id p) (so_message_id op) w)"
proof -
  let ?p = "journal_operation (with_legacy (an_legacy A) op)"
  have ids: "o_operation_id ?p = so_operation_id op" "o_message_id ?p = so_message_id op"
    by (simp_all add: journal_operation_def with_legacy_def)
  have bind: "keeps world_inv (bind_identity q)" for q
    by (auto simp: hoare_def bind_identity_def world_inv_def split: option.splits sum.splits)
  have call: "hoare world_inv (jcall A (\<lambda>c. Prepare (jc_now c) (jc_duration c) (jc_entropy c) ?p))
    (\<lambda>r w. \<forall>a. r = Inr a \<longrightarrow> world_prepared (o_operation_id a) (so_message_id op) w)"
    unfolding world_prepared_def
    by (rule hoare_strengthen[OF jcall_law[OF journal_bodies(1), where R = "\<lambda>_. True" and T = "\<lambda>a d.
        \<exists>r. row_by o_operation_id (o_operation_id a) (operations d) = Some r \<and> o_message_id r = so_message_id op"]])
      (simp_all, metis prepared_after ids)
  show ?thesis
    unfolding sqlite_prepare_def Let_def
    by (intro hoare_if keep_on_error[OF bind] hoare_return; simp?)
      (unfold on_value_def, rule hoare_bind[OF call], auto intro!: hoare_sum hoare_return split: sum.splits)
qed

lemma fenced_after:
  assumes inv: "journal_inv d" and h: "withTx (MarkDispatchStartedOwned now oid owner token) d = (Inr u, d')"
    and x: "row_by o_operation_id oid (operations d) = Some x"
  shows "\<exists>r. row_by o_operation_id oid (operations d') = Some r \<and> o_message_id r = o_message_id x \<and> past_fence (o_state r)"
proof -
  let ?P = "\<lambda>r. o_operation_id r = oid \<and> o_state r = StatePrepared \<and> (\<exists>a\<in>set (attempts d). a_operation_id a = oid \<and>
    a_owner a = owner \<and> a_token a = token \<and> now < a_lease_until a)"
  from h have hit: "count_where ?P (operations d) \<noteq> 0"
    and d': "operations d' = update_where ?P (\<lambda>r. r\<lparr>o_state := StateDispatchStarted, o_dispatch_started_at := Some now,
      o_updated_at := now\<rparr>) (operations d)"
    by (auto simp: withTx_def MarkDispatchStartedOwned_def Let_def split: if_splits)
  from hit obtain r where r: "r \<in> set (operations d)" "?P r"
    by (auto simp: count_where_def filter_empty_conv)
  with op_row_in[OF inv, of r] x have "r = x" by simp
  with r x show ?thesis by (simp add: d' row_by_update_where past_fence_def)
qed

lemma sqlite_mark_law: "hoare (\<lambda>w. world_inv w \<and> world_prepared oid mid w) (sqlite_mark A oid owner token)
  (\<lambda>r w. r = None \<longrightarrow> world_fenced mid w)"
proof -
  have call: "hoare (\<lambda>w. world_inv w \<and> world_prepared oid mid w)
    (jcall A (\<lambda>c. withTx (MarkDispatchStartedOwned (jc_now c) oid owner token))) (\<lambda>r w. \<forall>a. r = Inr a \<longrightarrow> world_fenced mid w)"
    unfolding world_prepared_def world_fenced_def
  proof (rule jcall_law[OF journal_bodies(2), where R = "\<lambda>d. \<exists>r. row_by o_operation_id oid (operations d) = Some r \<and> o_message_id r = mid"])
    show "evolves d d' \<Longrightarrow> \<exists>r. row_by o_operation_id oid (operations d) = Some r \<and> o_message_id r = mid \<Longrightarrow>
      \<exists>r. row_by o_operation_id oid (operations d') = Some r \<and> o_message_id r = mid" for d d'
      unfolding evolves_def using op_evolves_message by metis
  qed (use fenced_after in blast)
  show ?thesis
    unfolding sqlite_mark_def jexec_def by (rule hoare_bind[OF call], rule hoare_return) (auto split: sum.splits)
qed

text \<open>The fence that commits finds the operation prepared, so that nobody has committed it before.\<close>

lemma sqlite_mark_fresh:
  assumes w: "world_inv w" and h: "run_state (sqlite_mark A oid owner token) w = (None, w')"
    and p: "world_prepared oid mid w"
  shows "\<not> world_fenced mid w"
proof
  assume "world_fenced mid w"
  let ?c = "an_journal A (w_calls w)"
  let ?b = "apply_moves (jc_others ?c) (w_db w)"
  from w moves_good have b: "journal_inv ?b" "evolves (w_db w) ?b" unfolding world_inv_def by blast+
  from h obtain u d where m: "withTx (MarkDispatchStartedOwned (jc_now ?c) oid owner token) ?b = (Inr u, d)"
    by (auto simp: sqlite_mark_def jexec_def jcall_def Let_def split: option.splits sum.splits prod.splits)
  then obtain x where x: "x \<in> set (operations ?b)" "o_operation_id x = oid" "o_state x = StatePrepared"
    by (auto simp: withTx_def MarkDispatchStartedOwned_def Let_def count_where_def filter_empty_conv split: if_splits)
  let ?w = "w\<lparr>w_db := ?b\<rparr>"
  have ev: "evolves (w_db w) (w_db ?w)" using b(2) by simp
  from evolves_promises(1)[OF ev p] obtain y where y: "row_by o_operation_id oid (operations ?b) = Some y" "o_message_id y = mid"
    by (auto simp: world_prepared_def)
  from op_row_in[OF b(1) x(1)] x(2) y have xy: "x = y" by simp
  from evolves_promises(2)[OF ev \<open>world_fenced mid w\<close>] obtain i z where z: "row_by o_operation_id i (operations ?b) = Some z"
    "o_message_id z = mid" "past_fence (o_state z)"
    by (auto simp: world_fenced_def)
  have "row_by o_message_id mid (operations ?b) = Some r" if "r \<in> set (operations ?b)" "o_message_id r = mid" for r
    using row_by_in_set[of o_message_id "operations ?b" r] inv_struct[OF b(1)] that by (simp add: ops_ok_def)
  from this[of z] this[of x] row_by_SomeD[OF z(1)] z(2) x(1) y(2) xy have "z = x" by simp
  with x(3) z(3) show False by (simp add: past_fence_def)
qed

lemma recorded_after:
  assumes inv: "journal_inv d" and h: "RecordResult now oid st code d = (Inr u, d')"
  shows "\<exists>r. row_by o_operation_id oid (operations d') = Some r \<and> op_le st (o_state r)"
proof -
  from h obtain x where "row_by o_operation_id oid (operations d) = Some x"
    and "operations d' = update_where (\<lambda>r. o_operation_id r = oid)
      (\<lambda>r. r\<lparr>o_state := st, o_error_code := code, o_updated_at := now, o_terminal_at := Some now\<rparr>) (operations d)"
    by (auto simp: RecordResult_def RecordResult_tx_def withTx_def set_operation_def set_attempt_state_def
        split: if_splits option.splits)
  then show ?thesis by (simp add: row_by_update_where) (metis row_by_key)
qed

lemma sqlite_result_law: "hoare world_inv (sqlite_result A oid st code) (\<lambda>r w. r = None \<longrightarrow> world_recorded oid st w)"
proof -
  have call: "hoare world_inv (jcall A (\<lambda>c. RecordResult (jc_now c) oid st code)) (\<lambda>r w. \<forall>a. r = Inr a \<longrightarrow> world_recorded oid st w)"
    unfolding world_recorded_def
    by (rule hoare_strengthen[OF jcall_law[OF journal_bodies(3), where R = "\<lambda>_. True" and T = "\<lambda>_ d.
        \<exists>r. row_by o_operation_id oid (operations d) = Some r \<and> op_le st (o_state r)"]]) (use recorded_after in simp_all)
  show ?thesis
    unfolding sqlite_result_def jexec_def by (rule hoare_bind[OF call], rule hoare_return) (auto split: sum.splits)
qed

lemma world_send_law:
  "run_state (world_send A target payload mid) w = (x, w') \<Longrightarrow> w_db w' = w_db w \<and> w_outbox w' = mid # w_outbox w"
  by (auto simp: world_send_def)

interpretation sc: service_custody world_inv world_step "world_ports A" "sqlite_port A" "world_heartbeat A"
  world_prepared world_fenced world_recorded w_outbox for A
proof unfold_locales
  fix x y f
  show "po_preflight_reply (world_ports A) = Some f \<Longrightarrow> world_quiet (f x y)"
    by (auto simp: world_ports_def ask_quiet)
next
  fix w w' oid mid st
  assume s: "world_step w w'"
  then show "w_outbox w' = w_outbox w" by (simp add: world_step_def)
  from s have "evolves (w_db w) (w_db w')" by (simp add: world_step_def)
  note promises = evolves_promises[OF this]
  show "world_prepared oid mid w \<Longrightarrow> world_prepared oid mid w'" by (rule promises)
  show "world_fenced mid w \<Longrightarrow> world_fenced mid w'" by (rule promises)
  show "world_recorded oid st w \<Longrightarrow> world_recorded oid st w'" by (rule promises)
next
  fix w w' oid mid owner token
  assume "world_inv w" "world_prepared oid mid w"
    "run_state (jp_mark_dispatch_started (sqlite_port A) oid owner token) w = (None, w')"
  then show "\<not> world_fenced mid w" using sqlite_mark_fresh by (simp add: sqlite_port_def)
next
  fix w target payload mid x w' m
  assume "world_inv w" "run_state (po_send (world_ports A) target payload mid) w = (x, w')"
  then show "world_inv w' \<and> w_outbox w' = mid # w_outbox w \<and> (world_fenced m w \<longrightarrow> world_fenced m w')"
    using world_send_law[of A target payload mid w x w'] by (simp add: world_ports_def world_inv_def world_fenced_def)
qed (auto simp: world_ports_def sqlite_port_def ask_quiet prepare_quiet simple_calls_quiet claim_calls_quiet lookup_quiet observe_quiet
  wait_quiet heartbeat_calls_quiet sqlite_prepare_law sqlite_mark_law sqlite_result_law)

end
