(* ===== verification/Service_System.thy ===== *)
theory Service_System
  imports Service_World
begin

text \<open>
  The service over the journal as a system: a run is any sequence of \<open>Send\<close>s and \<open>Reply\<close>s of one
  process, one after the other, with any arguments and any answers of the outside, with journal steps
  of other processes (and restarts, which lose the registry and the heartbeat) between them and,
  through \<open>jc_others\<close>, before each of their journal calls. The outbox collects every body that these
  calls hand to a delivery port; bodies that other processes send themselves are not in it. A run may
  begin on any journal that can be reached, also after retention, but no retention
  (\<open>StorageMaintain\<close>) happens during it.
\<close>

section \<open>Runs\<close>

text \<open>\<open>n\<close> waits of the retry loop that fit into an admission deadline of \<open>T\<close> milliseconds.\<close>

definition waits_fit :: "nat \<Rightarrow> nat \<Rightarrow> bool" where
  "waits_fit T n = (sum_list (map backoff [0..<n]) \<le> T)"

inductive service_run :: "nat \<Rightarrow> world \<Rightarrow> bool" for T where
  run_start: "journal_reachable (w_db w) \<Longrightarrow> w_outbox w = [] \<Longrightarrow> service_run T w"
| run_send: "service_run T w \<Longrightarrow> waits_fit T n \<Longrightarrow> hooks world_inv world_step W cb \<Longrightarrow>
    run_state (Send (world_ports A) (sqlite_port A) n W cb req) w = (y, w') \<Longrightarrow> service_run T w'"
| run_reply: "service_run T w \<Longrightarrow> waits_fit T n \<Longrightarrow> hooks world_inv world_step W cb \<Longrightarrow>
    originals world_inv world_step R \<Longrightarrow>
    run_state (Reply_service (world_ports A) (sqlite_port A) (world_heartbeat A) n W S cb R rreq) w = (z, w') \<Longrightarrow> service_run T w'"
| run_others: "service_run T w \<Longrightarrow> w_db w' = apply_moves m (w_db w) \<Longrightarrow> w_outbox w' = w_outbox w \<Longrightarrow> service_run T w'"

section \<open>The invariant of a run\<close>

definition run_inv :: "nat \<Rightarrow> world \<Rightarrow> bool" where
  "run_inv N w = (world_inv w \<and> write_ahead world_fenced w_outbox w \<and> (\<forall>m. count_list (w_outbox w) m \<le> N))"

lemma count_list_replicate: "count_list (replicate k x) y = (if x = y then k else 0)"
  by (induction k) auto

lemma told_run_inv:
  assumes "sc.told n (w_outbox w) b w'" "\<forall>m. count_list (w_outbox w) m \<le> N" "Suc n \<le> N"
  shows "run_inv N w'"
proof -
  from assms(1) obtain mid k where k: "k \<le> Suc n" "w_outbox w' = replicate k mid @ w_outbox w"
    "0 < k \<longrightarrow> mid \<notin> set (w_outbox w)" and inv: "world_inv w'" "write_ahead world_fenced w_outbox w'"
    unfolding sc.told_def by blast
  have "count_list (w_outbox w') m \<le> N" for m
    using k assms(2,3) by (cases "0 < k") (auto simp: count_list_append count_list_replicate count_list_0_iff)
  with inv show ?thesis by (simp add: run_inv_def)
qed

lemma run_keeps_inv:
  assumes "service_run T w" and bound: "\<And>n. waits_fit T n \<Longrightarrow> Suc n \<le> N"
  shows "run_inv N w"
  using assms(1)
proof induction
  case (run_start w)
  then show ?case by (simp add: run_inv_def world_inv_def reachable_inv write_ahead_def)
next
  case (run_send w n W cb A req y w')
  then have "sc.idle (w_outbox w) w" by (simp add: sc.idle_def run_inv_def)
  with hoareD[OF sc.Send_says[OF run_send.hyps(3)] run_send.hyps(4)] have "sc.told n (w_outbox w) (denies y) w'" by blast
  then show ?case by (rule told_run_inv) (use run_send.IH bound[OF run_send.hyps(2)] in \<open>auto simp: run_inv_def\<close>)
next
  case (run_reply w n W cb R A S rreq z w')
  then have "sc.idle (w_outbox w) w" by (simp add: sc.idle_def run_inv_def)
  with hoareD[OF sc.Reply_says[OF run_reply.hyps(3,4)] run_reply.hyps(5)] have "sc.told n (w_outbox w) (denies z) w'" by blast
  then show ?case by (rule told_run_inv) (use run_reply.IH bound[OF run_reply.hyps(2)] in \<open>auto simp: run_inv_def\<close>)
next
  case (run_others w w' m)
  with moves_good have "journal_inv (w_db w')" "evolves (w_db w) (w_db w')"
    unfolding run_inv_def world_inv_def by auto
  with run_others evolves_promises(2)[of w w'] show ?case
    by (simp add: run_inv_def world_inv_def write_ahead_def)
qed

section \<open>The admission deadline bounds the attempts\<close>

lemma backoff_pos: "1 \<le> backoff k"
  by (induction k) auto

lemma waits_fit_linear: "waits_fit T n \<Longrightarrow> n \<le> T"
proof -
  have "n \<le> sum_list (map backoff [0..<n])"
  proof (induction n)
    case (Suc n)
    then show ?case using backoff_pos[of n] by simp
  qed simp
  then show "waits_fit T n \<Longrightarrow> n \<le> T" by (simp add: waits_fit_def)
qed

lemma backoff_late: "5 \<le> k \<Longrightarrow> backoff k = 250"
proof (induction k)
  case (Suc k)
  then show ?case by (cases "k = 4") (simp_all add: numeral_nat)
qed simp

lemma waits_sum: "sum_list (map backoff [0..<5 + k]) = 310 + 250 * k"
proof (induction k)
  case 0
  show ?case by (simp add: numeral_nat)
next
  case (Suc k)
  have "[0..<5 + Suc k] = [0..<5 + k] @ [5 + k]" using upt_Suc_append[of 0 "5 + k"] by (simp del: upt_Suc)
  with Suc show ?case by (simp only: map_append sum_list_append) (simp add: backoff_late)
qed

lemma waits_fit_default: "waits_fit 10000 n \<Longrightarrow> n \<le> 43"
proof (rule ccontr)
  assume fit: "waits_fit 10000 n" and "\<not> n \<le> 43"
  then have n: "n = 5 + (n - 5)" "39 \<le> n - 5" by simp_all
  have "sum_list (map backoff [0..<n]) = 310 + 250 * (n - 5)" using waits_sum[of "n - 5"] n(1) by simp
  with fit n(2) show False by (simp add: waits_fit_def)
qed

lemma default_run_inv: "service_run 10000 w \<Longrightarrow> run_inv 44 w"
  by (rule run_keeps_inv) (auto dest: waits_fit_default)

end
