(* ===== verification/Service_Sample.thy ===== *)
theory Service_Sample
  imports Service_System
begin

text \<open>
  A run on concrete answers: a raw message of two bytes to a loaded target, whose thread refuses the
  first two attempts with the app-server's review refusal and takes the third. The digest stays a
  variable of the evaluation.
\<close>

section \<open>The answers\<close>

definition sample_target :: ResolvedTarget where
  "sample_target = \<lparr>tg_requested = ''b'', tg_endpoint_id = ''ep_b'', tg_endpoint_alias = ''b'', tg_transport = ''unix'',
     tg_uri = ''codex://b/thread/2'', tg_thread_id = ''2'', tg_loaded = True, tg_persistent = False, tg_herdr_evidence = None\<rparr>"

definition sample_source :: SourceIdentity where
  "sample_source = \<lparr>sr_endpoint_id = ''ep_a'', sr_uri = ''codex://a/thread/1'', sr_human = False, sr_herdr = '''',
     sr_herdr_name = '''', sr_custody_endpoint_id = ''ep_a'', sr_custody_store_id = ''store_1''\<rparr>"

definition sample_refusal :: GoError where
  "sample_refusal = DeliveryError (Some (Opaque ''rpc error''))
     (Some \<lparr>sv_code = -32603, sv_message = not_submitted_review, sv_data = '''', sv_raw = ''''\<rparr>) WriteComplete"

definition sample_answers :: "(nat \<Rightarrow> DeliveryResult \<times> GoError option) \<Rightarrow> answers" where
  "sample_answers f =
     \<lparr>an_journal = (\<lambda>i. \<lparr>jc_now = int i, jc_duration = 60, jc_entropy = Some (replicate 24 7), jc_others = no_moves, jc_fault = None\<rparr>),
      an_legacy = \<lparr>ib_source_endpoint_id = '''', ib_target_endpoint_id = '''', ib_reply_endpoint_id = ''''\<rparr>,
      an_resolve = (\<lambda>_ _. Inr sample_target), an_source = (\<lambda>_ _. Inr sample_source), an_pinned = (\<lambda>_ _ _. Inr sample_target),
      an_preflight = None, an_send = (\<lambda>i _ _ _. f i), an_resume = (\<lambda>_ _. None), an_detach = (\<lambda>_ _. None),
      an_uuid = (\<lambda>i. (Some (replicate 10 255), of_nat i)), an_receipt_id = (\<lambda>_. ''rcpt_1''), an_clock = (\<lambda>_. ''2026-01-01T00:00:00Z''),
      an_beats = (\<lambda>_. 0), an_beat_timeout = (\<lambda>_. None), an_wait_rounds = (\<lambda>_. []), an_ctx_err = Opaque ''context deadline exceeded''\<rparr>"

definition sample_world :: world where
  "sample_world = \<lparr>w_db = empty_db, w_registry = None, w_calls = 0, w_outbox = [], w_beating = None, w_beat_error = None, w_beat_channel = None\<rparr>"

definition sample_request :: SendRequest where
  "sample_request = \<lparr>sq_target = ''b'', sq_body = ''hi'', sq_raw = True, sq_request_reply = False, sq_wait = False, sq_source = ''a''\<rparr>"

definition no_wait :: "world WaitScript" where
  "no_wait = \<lparr>ws_subscribe = None, ws_events = [], ws_polls = [], ws_bounded = True, ws_expired = False, ws_ctx_err = Opaque ''done''\<rparr>"

definition sample_reply :: ReplyRequest where
  "sample_reply = \<lparr>rq_reference = ''msg_1'', rq_message_id = '''', rq_operation_id = '''', rq_body = ''ok'', rq_status = '''',
     rq_error_code = '''', rq_source = ''b'', rq_wait = False\<rparr>"

definition sample_join :: JoinScript where
  "sample_join = \<lparr>js_rounds = [], js_bounded = True, js_ctx_err = Opaque ''done''\<rparr>"

definition accepting :: "nat \<Rightarrow> DeliveryResult \<times> GoError option" where
  "accepting _ = (\<lparr>dr_turn_id = ''turn_1'', dr_accepted = True, dr_evidence = ''steered''\<rparr>, None)"


section \<open>The run\<close>

lemma sample_admit: "send_admit sample_request = Inr sample_request" by code_simp

lemma sample_ids: "NewPrefixedIDChecked MessageIDPrefix (Some (replicate 10 255)) 2 = Inr ''msg_00000000-0002-7fff-bfff-ffffffffffff''"
  "NewPrefixedIDChecked OperationIDPrefix (Some (replicate 10 255)) 4 = Inr ''op_00000000-0004-7fff-bfff-ffffffffffff''"
  by code_simp+

lemma sample_payload: "send_payload sample_request e = Inr ''hi''"
proof -
  have "service_preflight ''hi'' ''hi'' = None"
    by (simp add: service_preflight_def MaxInputChars_def rune_count.simps)
  then show ?thesis by (simp add: send_payload_def sample_request_def)
qed

lemma sample_fields: "sq_target sample_request = ''b''" "sq_body sample_request = ''hi''" "sq_request_reply sample_request = False" "sq_wait sample_request = False"
  "sq_source sample_request = ''a''" "sq_raw sample_request = True"
  "tg_loaded sample_target = True" "tg_endpoint_id sample_target = ''ep_b''" "sr_endpoint_id sample_source = ''ep_a''"
  by (simp_all add: sample_request_def sample_target_def sample_source_def)

lemma sample_uris: "canonicalThreadURI ''ep_a'' (sr_uri sample_source) = ''codex://ep_a/thread/1''"
 "canonicalThreadURI ''ep_b'' (tg_uri sample_target) = ''codex://ep_b/thread/2''"
  by code_simp+


text \<open>The envelope and the operation, as functions of the digest's digits.\<close>

definition samp_env :: "string \<Rightarrow> Envelope" where
  "samp_env x = \<lparr>en_message_id = ''msg_00000000-0002-7fff-bfff-ffffffffffff'', en_kind = KindMessage, en_from_endpoint_id = ''ep_a'',
     en_from = ''codex://ep_a/thread/1'', en_from_kind = ''agent'', en_from_herdr = '''', en_from_herdr_name = '''',
     en_to_endpoint_id = ''ep_b'', en_to = ''codex://ep_b/thread/2'', en_requested_target = ''b'', en_in_reply_to = '''',
     en_reply_requested = False, en_reply_endpoint_id = '''', en_reply_to = '''', en_reply_custody_endpoint_id = '''',
     en_reply_custody_store_id = '''', en_reply_status = '''', en_reply_error_code = '''', en_sent_at = ''2026-01-01T00:00:00Z'',
     en_payload_bytes = 2, en_payload_sha256 = ''sha256:'' @ x, en_provenance = ''observed'', en_body = ''hi''\<rparr>"

definition samp_op :: "string \<Rightarrow> ServiceOperation" where
  "samp_op x = \<lparr>so_operation_id = ''op_00000000-0004-7fff-bfff-ffffffffffff'', so_message_id = ''msg_00000000-0002-7fff-bfff-ffffffffffff'',
     so_in_reply_to = '''', so_source_route = ''codex://ep_a/thread/1'', so_target_route = ''codex://ep_b/thread/2'', so_semantics = ''raw'',
     so_reply_route = '''', so_reply_endpoint_id = '''', so_custody_route = '''', so_custody_store_id = '''', so_attempt_owner = '''',
     so_digest = ''sha256:'' @ x, so_body_size = 2, so_reply_requested = False, so_source_endpoint_id = ''ep_a'', so_target_endpoint_id = ''ep_b''\<rparr>"

definition samp_digest :: string where "samp_digest = hex_encode (sha256 ''hi'')"

definition refusing :: "nat \<Rightarrow> DeliveryResult \<times> GoError option" where
  "refusing i = (if i < 9 then (zero_delivery, Some sample_refusal) else accepting i)"

lemma samp_env: "send_envelope sample_request sample_target sample_source ''msg_00000000-0002-7fff-bfff-ffffffffffff'' ''2026-01-01T00:00:00Z'' = samp_env samp_digest"
  by (simp add: send_envelope_def samp_env_def sample_fields sample_uris Let_def sha256Digest_def samp_digest_def body_bytes_def)
    (simp add: kindOf_def sample_source_def)

lemma samp_op: "send_operation sample_request sample_target sample_source (samp_env samp_digest) ''op_00000000-0004-7fff-bfff-ffffffffffff'' = samp_op samp_digest"
  by (simp add: send_operation_def samp_op_def samp_env_def sample_fields sha256Digest_def samp_digest_def semantics_of_def)

abbreviation (input) sample_run :: "(SendResult \<times> GoError option) \<times> world" where
  "sample_run \<equiv> run_state (Send (world_ports (sample_answers refusing)) (sqlite_port (sample_answers refusing)) 2 no_wait None sample_request) sample_world"

lemma sample_ports:
  "run_state (po_resolve (world_ports (sample_answers f)) t) w = (Inr sample_target, w\<lparr>w_calls := Suc (w_calls w)\<rparr>)"
  "run_state (po_resolve_source (world_ports (sample_answers f)) t) w = (Inr sample_source, w\<lparr>w_calls := Suc (w_calls w)\<rparr>)"
  "run_state (po_fresh_id (world_ports (sample_answers f)) t) w =
     (NewPrefixedIDChecked t (Some (replicate 10 255)) (of_nat (w_calls w)), w\<lparr>w_calls := Suc (w_calls w)\<rparr>)"
  "run_state (po_now (world_ports (sample_answers f))) w = (''2026-01-01T00:00:00Z'', w\<lparr>w_calls := Suc (w_calls w)\<rparr>)"
  "po_preflight_reply (world_ports (sample_answers f)) = None"
  "jp_prepare (sqlite_port A) = sqlite_prepare A" "w_calls sample_world = 0"
  by (simp_all add: world_ports_def ask_def sample_answers_def sqlite_port_def sample_world_def)

lemma sample_tail:
  "case run_state (on_value (sqlite_prepare (sample_answers refusing) (samp_op x)) (\<lambda>e. refuse (f e))
       (\<lambda>prepared. State_Monad.bind
          (send_prepared (world_ports (sample_answers refusing)) (sqlite_port (sample_answers refusing)) 2 no_wait None
             sample_request sample_target (samp_op x) (samp_env x) ''hi'' prepared)
          (send_finish (world_ports (sample_answers refusing)) (samp_op x) (samp_env x)))) (sample_world\<lparr>w_calls := 5\<rparr>) of
     ((out, e), w) \<Rightarrow> e = None \<and> w_outbox w = replicate 3 ''msg_00000000-0002-7fff-bfff-ffffffffffff''"
  by code_simp

lemma sample_send:
  "snd (fst sample_run) = None" "w_outbox (snd sample_run) = replicate 3 ''msg_00000000-0002-7fff-bfff-ffffffffffff''"
proof -
  let ?P = "world_ports (sample_answers refusing)" and ?J = "sqlite_port (sample_answers refusing)"
  have five: "(5 :: nat) = Suc (Suc (Suc (Suc (Suc 0))))" by simp
  have "sample_run = run_state (on_value (sqlite_prepare (sample_answers refusing) (samp_op samp_digest))
       (\<lambda>e. refuse (semantic ErrMessageIdentityConflict ''message relationship could not be prepared'' [] (Some e)))
       (\<lambda>prepared. State_Monad.bind
          (send_prepared ?P ?J 2 no_wait None sample_request sample_target (samp_op samp_digest) (samp_env samp_digest) ''hi'' prepared)
          (send_finish ?P (samp_op samp_digest) (samp_env samp_digest)))) (sample_world\<lparr>w_calls := 5\<rparr>)"
    by (simp add: Send_def sample_admit run_calls send_source_def reply_preflight_def sample_ports sample_fields sample_ids
        samp_env sample_payload send_rendered_def samp_op Let_def five)
  with sample_tail[of samp_digest "\<lambda>e. semantic ErrMessageIdentityConflict ''message relationship could not be prepared'' [] (Some e)"]
  show "snd (fst sample_run) = None" "w_outbox (snd sample_run) = replicate 3 ''msg_00000000-0002-7fff-bfff-ffffffffffff''"
    by (auto split: prod.splits)
qed

definition sample_end :: world where
  "sample_end = snd sample_run"

lemma no_wait_hooks: "hooks I step no_wait None"
  by (simp add: hooks_def no_wait_def)

lemma sample_start: "service_run T sample_world"
  by (rule run_start) (simp_all add: sample_world_def reach_empty)

lemma sample_waits: "waits_fit 10000 2"
  by (simp add: waits_fit_def numeral_2_eq_2)

lemma sample_reached: "service_run 10000 sample_end"
  unfolding sample_end_def
  by (rule run_send[OF sample_start sample_waits no_wait_hooks]) (rule prod.collapse[symmetric])

lemma sample_end_outbox: "w_outbox sample_end = replicate 3 ''msg_00000000-0002-7fff-bfff-ffffffffffff''"
  unfolding sample_end_def by (rule sample_send)

end
