(* ===== verification/Service_Promises.thy ===== *)
theory Service_Promises
  imports Service_Sample
begin

text \<open>
  What a caller of the service can rely on, over every run of Service\_System.
\<close>

section \<open>Bodies and fences\<close>

text \<open>
  C30: Write-ahead delivery. In every run of one process's sends and replies, restarts and the journal
  writers of other processes, as long as no retention (\<open>StorageMaintain\<close>) prunes the journal during it, a
  body that was ever handed to a delivery port belongs to an operation whose dispatch fence is durable
  in the journal: its row is past \<open>prepared\<close> and does not read \<open>not_sent\<close>, so that a restart knows
  that the body may be out.
\<close>

theorem every_body_is_fenced:
  assumes "service_run T w" "m \<in> set (w_outbox w)"
  shows "\<exists>r\<in>set (operations (w_db w)). o_message_id r = m \<and>
    o_state r \<in> {StateDispatchStarted, StateAccepted, StateRejected, StateOutcomeUnknown, StateManuallyResolved}"
proof -
  have "run_inv (Suc T) w" by (rule run_keeps_inv[OF assms(1)]) (simp add: waits_fit_linear)
  with assms(2) have "world_fenced m w" by (simp add: run_inv_def write_ahead_def)
  then show ?thesis unfolding world_fenced_def past_fence_def using row_by_SomeD by metis
qed

theorem every_body_is_fenced_witness:
  "\<exists>r\<in>set (operations (w_db sample_end)). o_message_id r = ''msg_00000000-0002-7fff-bfff-ffffffffffff'' \<and>
    o_state r \<in> {StateDispatchStarted, StateAccepted, StateRejected, StateOutcomeUnknown, StateManuallyResolved}"
  by (rule every_body_is_fenced[OF sample_reached]) (simp add: sample_end_outbox)

text \<open>
  C31: At most forty-four copies. Under the default admission deadline of ten seconds a process hands
  no message to its delivery ports more than forty-four times in a whole run, however many sends and
  replies it makes one after the other, across restarts, and whatever the journal writers of other
  processes do meanwhile, as long as no retention (\<open>StorageMaintain\<close>) prunes the journal during it: one
  dispatch fence per message, and at most forty-three waits between its attempts. What other processes
  hand out themselves is not counted.
\<close>

theorem copies_are_bounded:
  assumes "service_run 10000 w"
  shows "count_list (w_outbox w) m \<le> 44"
  using default_run_inv[OF assms] by (simp add: run_inv_def)

theorem copies_are_bounded_witness:
  "count_list (w_outbox sample_end) ''msg_00000000-0002-7fff-bfff-ffffffffffff'' \<le> 44 \<and>
   0 < count_list (w_outbox sample_end) ''msg_00000000-0002-7fff-bfff-ffffffffffff''"
  using copies_are_bounded[OF sample_reached, of "''msg_00000000-0002-7fff-bfff-ffffffffffff''"]
  by (simp add: sample_end_outbox numeral_3_eq_3)

section \<open>What the caller is told\<close>

text \<open>
  C32: An honest denial. When \<open>Send\<close> or \<open>Reply\<close> returns no receipt, or one in state \<open>not_sent\<close> or
  \<open>prepared\<close>, that call has handed out no body.
\<close>

theorem denial_means_no_body:
  assumes "service_run T w" "hooks world_inv world_step W cb" "originals world_inv world_step R"
    and "run_state (Send (world_ports A) (sqlite_port A) n W cb req) w = (y, w1)"
    and "run_state (Reply_service (world_ports A) (sqlite_port A) (world_heartbeat A) n W S cb R rreq) w = (z, w2)"
  shows "(denies y \<longrightarrow> w_outbox w1 = w_outbox w) \<and> (denies z \<longrightarrow> w_outbox w2 = w_outbox w)"
proof -
  have "run_inv (Suc T) w" by (rule run_keeps_inv[OF assms(1)]) (simp add: waits_fit_linear)
  then have idle: "sc.idle (w_outbox w) w" by (simp add: sc.idle_def run_inv_def)
  from hoareD[OF sc.Send_says[OF assms(2)] assms(4) idle] hoareD[OF sc.Reply_says[OF assms(2,3)] assms(5) idle]
  show ?thesis by (simp add: sc.told_def)
qed

theorem denial_means_no_body_witness:
  "\<exists>y w1 z w2. run_state (Send (world_ports (sample_answers refusing)) (sqlite_port (sample_answers refusing)) 2 no_wait None
       (sample_request\<lparr>sq_body := ''''\<rparr>)) sample_end = (y, w1) \<and> denies y \<and> w_outbox w1 = w_outbox sample_end \<and>
     run_state (Reply_service (world_ports (sample_answers refusing)) (sqlite_port (sample_answers refusing))
       (world_heartbeat (sample_answers refusing)) 2 no_wait sample_join None None sample_reply) sample_end = (z, w2) \<and>
     denies z \<and> w_outbox w2 = w_outbox sample_end"
proof -
  let ?A = "sample_answers refusing" and ?q = "sample_request\<lparr>sq_body := ''''\<rparr>"
  obtain y w1 where s: "run_state (Send (world_ports ?A) (sqlite_port ?A) 2 no_wait None ?q) sample_end = (y, w1)" by fastforce
  obtain z w2 where r: "run_state (Reply_service (world_ports ?A) (sqlite_port ?A) (world_heartbeat ?A) 2 no_wait sample_join None
      None sample_reply) sample_end = (z, w2)" by fastforce
  have "denies y" using s by (auto simp: Send_def send_admit_def denies_def zero_send_def)
  moreover have "denies z" using r by (auto simp: Reply_service_def reply_admit_def denies_def zero_send_def)
  moreover have "originals world_inv world_step None" by (simp add: originals_def)
  ultimately show ?thesis using denial_means_no_body[OF sample_reached no_wait_hooks _ s r] s r by blast
qed

text \<open>
  C33: Durable success. When \<open>Send\<close> returns no error, its receipt says \<open>accepted\<close>, the journal's row of
  the receipt's operation reads \<open>accepted\<close>, and the receipt's message went out.
\<close>

theorem error_free_send_is_durable:
  assumes "service_run T w" "hooks world_inv world_step W cb"
    and "run_state (Send (world_ports A) (sqlite_port A) n W cb req) w = ((out, None), w')"
  shows "\<exists>r x. sn_receipt out = Some r \<and> rp_state r = StateAccepted \<and> mg_message_id (rp_message r) \<in> set (w_outbox w') \<and>
    row_by o_operation_id (rp_operation_id r) (operations (w_db w')) = Some x \<and> o_state x = StateAccepted"
proof -
  have "run_inv (Suc T) w" by (rule run_keeps_inv[OF assms(1)]) (simp add: waits_fit_linear)
  then have idle: "sc.idle (w_outbox w) w" by (simp add: sc.idle_def run_inv_def)
  from hoareD[OF sc.Send_settled[OF assms(2)] assms(3) idle]
  obtain oid mid where "sc.vouched oid mid out" "sc.sent_to oid mid w'" by (auto simp: sc.settled_def)
  then show ?thesis
    unfolding sc.vouched_def sc.sent_to_def world_recorded_def using accepted_stays by metis
qed

theorem error_free_send_is_durable_witness:
  "\<exists>out r x. sample_run = ((out, None), sample_end) \<and> sn_receipt out = Some r \<and> rp_state r = StateAccepted \<and>
    mg_message_id (rp_message r) = ''msg_00000000-0002-7fff-bfff-ffffffffffff'' \<and>
    row_by o_operation_id (rp_operation_id r) (operations (w_db sample_end)) = Some x \<and> o_state x = StateAccepted"
proof -
  obtain out where h: "sample_run = ((out, None), sample_end)"
    using sample_send(1) by (cases "fst sample_run") (auto simp: sample_end_def prod_eq_iff)
  from error_free_send_is_durable[OF sample_start no_wait_hooks h] h show ?thesis
    by (auto simp: sample_end_outbox)
qed

end
