(* ===== verification/Service_Retry.thy ===== *)
theory Service_Retry
  imports Service_Sample
begin

text \<open>
  \<open>deliver_with_retry\<close> against a reference: of the answers that the delivery port will give, the first
  that is no proven refusal decides, or the last one when the deadline comes first; each attempt puts
  one copy into the outbox.
\<close>

section \<open>The reference\<close>

type_synonym answer = "DeliveryResult \<times> delivery_failure option"

text \<open>What \<open>dispatch\<close> makes of the port's answer.\<close>

definition delivery_answer :: "DeliveryResult \<times> GoError option \<Rightarrow> answer" where
  "delivery_answer x = (case x of
     (result, None) \<Rightarrow> (result, if dr_accepted result then None
        else Some (Some (Opaque ''delivery did not report acceptance''), None, WriteComplete))
   | (result, Some e) \<Rightarrow> (result, Some (case as_delivery e of Some f \<Rightarrow> f | None \<Rightarrow> (Some e, None, WriteMayHaveWritten))))"

definition refused :: "answer \<Rightarrow> bool" where
  "refused x = (case snd x of None \<Rightarrow> False | Some f \<Rightarrow> snd (snd (classifyDelivery f)))"

definition settle :: "answer \<Rightarrow> attempt" where
  "settle x = (case x of
     (result, None) \<Rightarrow> (result, None, StateAccepted, '''')
   | (result, Some f) \<Rightarrow> (case classifyDelivery f of (st, code, _) \<Rightarrow> (result, Some f, st, code)))"

definition first_settled :: "answer \<Rightarrow> answer list \<Rightarrow> attempt \<times> nat" where
  "first_settled prev xs = (case dropWhile refused xs of
     [] \<Rightarrow> (settle (last (prev # xs)), length xs)
   | x # _ \<Rightarrow> (settle x, Suc (length (takeWhile refused xs))))"

definition attempts_of :: "answer \<Rightarrow> answer list \<Rightarrow> attempt \<times> nat" where
  "attempts_of first later = (if refused first then first_settled (zero_delivery, snd first) later else (settle first, 0))"

section \<open>The loop is the reference\<close>

lemma refused_settle: "refused (result, Some f) \<Longrightarrow> settle (result, Some f) = (result, Some f, StateRejected, ''not_submitted'')"
  by (auto simp: refused_def settle_def classifyDelivery_def split: prod.splits option.splits if_splits)

lemma first_settled_Cons:
  "refused y \<Longrightarrow> first_settled prev (y # xs) = (case first_settled y xs of (x, k) \<Rightarrow> (x, Suc k))"
  unfolding first_settled_def
  by (cases "dropWhile refused xs") (simp_all del: dropWhile_eq_Nil_conv)

lemma run_dispatch:
  "run_state (dispatch (world_ports A) target payload mid) w =
     (delivery_answer (an_send A (w_calls w) target payload mid),
      w\<lparr>w_calls := Suc (w_calls w), w_outbox := mid # w_outbox w\<rparr>)"
  by (auto simp: dispatch_def delivery_answer_def world_ports_def world_send_def split: prod.splits option.splits)

definition later_answers :: "answers \<Rightarrow> ResolvedTarget \<Rightarrow> string \<Rightarrow> string \<Rightarrow> nat \<Rightarrow> nat \<Rightarrow> answer list" where
  "later_answers A target payload mid from n = map (\<lambda>i. delivery_answer (an_send A i target payload mid)) [from..<from + n]"

lemma later_answers_Suc:
  "later_answers A target payload mid from (Suc n) =
     delivery_answer (an_send A from target payload mid) # later_answers A target payload mid (Suc from) n"
  unfolding later_answers_def by (simp add: upt_conv_Cons del: upt_Suc)

definition sent_copies :: "string \<Rightarrow> nat \<Rightarrow> world \<Rightarrow> world" where
  "sent_copies mid k w = w\<lparr>w_calls := w_calls w + k, w_outbox := replicate k mid @ w_outbox w\<rparr>"

lemma sent_copies_Suc:
  "sent_copies mid k (w\<lparr>w_calls := Suc (w_calls w), w_outbox := mid # w_outbox w\<rparr>) = sent_copies mid (Suc k) w"
  by (simp add: sent_copies_def replicate_app_Cons_same)

lemma retry_reference:
  assumes "refused (result, Some f)"
  shows "run_state (retryNotSubmitted (world_ports A) [] target payload mid StateRejected ''not_submitted'' n result f) w =
    (case first_settled (result, Some f) (later_answers A target payload mid (w_calls w) n) of
       (x, k) \<Rightarrow> (x, sent_copies mid k w))"
  using assms
proof (induction n arbitrary: result f w)
  case 0
  then show ?case by (simp add: later_answers_def first_settled_def refused_settle sent_copies_def)
next
  case (Suc n)
  let ?w = "w\<lparr>w_calls := Suc (w_calls w), w_outbox := mid # w_outbox w\<rparr>"
  obtain r g where a: "delivery_answer (an_send A (w_calls w) target payload mid) = (r, g)" by fastforce
  show ?case
  proof (cases "refused (r, g)")
    case True
    then obtain h st code where g: "g = Some h" and retry: "classifyDelivery h = (st, code, True)"
      by (auto simp: refused_def prod_eq_iff split: option.splits)
    have "run_state (retryNotSubmitted (world_ports A) [] target payload mid StateRejected ''not_submitted'' n r h) ?w =
      (case first_settled (r, Some h) (later_answers A target payload mid (Suc (w_calls w)) n) of
         (x, k) \<Rightarrow> (x, sent_copies mid k ?w))"
      using Suc.IH[of r h ?w] True g by simp
    moreover have "first_settled (result, Some f) ((r, Some h) # later_answers A target payload mid (Suc (w_calls w)) n) =
      (case first_settled (r, Some h) (later_answers A target payload mid (Suc (w_calls w)) n) of (x, k) \<Rightarrow> (x, Suc k))"
      using True g by (simp add: first_settled_Cons)
    ultimately show ?thesis
      using retry by (simp add: run_dispatch a g later_answers_Suc sent_copies_Suc split: prod.splits)
  next
    case False
    then show ?thesis
      by (cases g) (auto simp: run_dispatch a later_answers_Suc first_settled_def settle_def refused_def sent_copies_def split: prod.splits)
  qed
qed

lemma deliver_reference:
  "run_state (deliver_with_retry (world_ports A) [] n target payload mid first) w =
    (case attempts_of first (later_answers A target payload mid (w_calls w) n) of
       (x, k) \<Rightarrow> (x, w\<lparr>w_calls := w_calls w + k, w_outbox := replicate k mid @ w_outbox w\<rparr>))"
proof (cases "refused first")
  case True
  then obtain r f where first: "first = (r, Some f)" and retry: "snd (snd (classifyDelivery f))"
    by (cases first) (auto simp: refused_def split: option.splits)
  moreover have "refused (zero_delivery, Some f)" using retry by (simp add: refused_def)
  moreover from refused_settle[OF this] retry have "classifyDelivery f = (StateRejected, ''not_submitted'', True)"
    by (auto simp: settle_def split: prod.splits)
  ultimately show ?thesis
    using True retry_reference[of zero_delivery f A target payload mid n w]
    by (simp add: deliver_with_retry_def attempts_of_def sent_copies_def)
next
  case False
  then show ?thesis
    by (cases first) (auto simp: deliver_with_retry_def attempts_of_def settle_def refused_def split: option.splits prod.splits)
qed

section \<open>Properties\<close>

text \<open>
  C34: The delivery loop as its reference. \<open>Send\<close>'s delivery returns what the first answer that is no
  proven refusal says, or the last answer within the deadline, and it hands out exactly one copy per
  answer it used: a body that was accepted, or whose fate is unknown, is never sent again.
\<close>

theorem delivery_is_first_settled:
  "run_state (deliver_with_retry (world_ports A) [] n target payload mid first) w =
    (case attempts_of first (later_answers A target payload mid (w_calls w) n) of
       (x, k) \<Rightarrow> (x, w\<lparr>w_calls := w_calls w + k, w_outbox := replicate k mid @ w_outbox w\<rparr>))"
  by (rule deliver_reference)

text \<open>
  C35: Acceptance is reached. When the thread refuses \<open>k\<close> attempts with proof that nothing was
  admitted and takes the next, and that many waits end before the deadline, the delivery is accepted,
  after exactly \<open>k\<close> further copies.
\<close>

theorem accepted_after_refusals:
  assumes "refused first" "0 < k" "k \<le> n"
    and "\<And>i. i < k - 1 \<Longrightarrow> refused (delivery_answer (an_send A (w_calls w + i) target payload mid))"
    and "delivery_answer (an_send A (w_calls w + (k - 1)) target payload mid) = (result, None)"
  shows "run_state (deliver_with_retry (world_ports A) [] n target payload mid first) w =
    ((result, None, StateAccepted, ''''), w\<lparr>w_calls := w_calls w + k, w_outbox := replicate k mid @ w_outbox w\<rparr>)"
proof -
  let ?later = "later_answers A target payload mid (w_calls w) n"
  have at: "?later ! i = delivery_answer (an_send A (w_calls w + i) target payload mid)" if "i < n" for i
    using that by (simp add: later_answers_def)
  have len: "length ?later = n" by (simp add: later_answers_def)
  have split: "?later = take (k - 1) ?later @ (result, None) # drop k ?later"
    using id_take_nth_drop[of "k - 1" ?later] at[of "k - 1"] assms(2,3,5) len by simp
  have ref: "\<forall>x\<in>set (take (k - 1) ?later). refused x"
  proof
    fix x
    assume "x \<in> set (take (k - 1) ?later)"
    then obtain i where "i < k - 1" "x = ?later ! i" using len assms(3) by (auto simp: in_set_conv_nth)
    with assms(2-4) at[of i] show "refused x" by simp
  qed
  have ok: "\<not> refused (result, None)" by (simp add: refused_def)
  have "takeWhile refused ?later = take (k - 1) ?later" "dropWhile refused ?later = (result, None) # drop k ?later"
    using ref ok by (subst split, simp add: takeWhile_append dropWhile_append)+
  then show ?thesis
    using assms(1-3) len by (simp add: deliver_reference attempts_of_def first_settled_def settle_def)
qed

theorem accepted_after_refusals_witness:
  "run_state (deliver_with_retry (world_ports (sample_answers refusing)) [] 4 sample_target ''hi'' ''msg_1''
      (delivery_answer (refusing 6))) (sample_world\<lparr>w_calls := 7\<rparr>) =
    ((fst (accepting 9), None, StateAccepted, ''''),
     sample_world\<lparr>w_calls := 10, w_outbox := [''msg_1'', ''msg_1'', ''msg_1'']\<rparr>)"
proof -
  have no: "refused (delivery_answer (refusing i))" if "i < 9" for i
  proof -
    have "refused (delivery_answer (zero_delivery, Some sample_refusal))" by code_simp
    with that show ?thesis by (simp add: refusing_def)
  qed
  have yes: "delivery_answer (refusing 9) = (fst (accepting 9), None)"
    by (simp add: refusing_def accepting_def delivery_answer_def)
  show ?thesis
    using accepted_after_refusals[where first = "delivery_answer (refusing 6)" and k = 3 and n = 4 and A = "sample_answers refusing"
        and w = "sample_world\<lparr>w_calls := 7\<rparr>" and target = sample_target and payload = "''hi''" and mid = "''msg_1''"
        and result = "fst (accepting 9)"] no yes
    by (simp add: sample_answers_def numeral_3_eq_3 sample_world_def)
qed

end
