(* ===== verification/Go_Strings.thy ===== *)
theory Go_Strings
  imports Go_Codec
begin

text \<open>
  More of package \<open>strings\<close>: trimming of Unicode white space, fields, replacement of one byte, and
  \<open>ToLower\<close> as far as it can meet an ASCII name.
\<close>

function trim_left :: "string \<Rightarrow> string" where
  "trim_left s =
     (if s = [] then []
      else case find (has_prefix s) white_space of None \<Rightarrow> s | Some w \<Rightarrow> trim_left (drop (length w) s))"
  by auto
termination
  by (relation "measure length") (auto dest: find_white_space)

function trim_right :: "string \<Rightarrow> string" where
  "trim_right s =
     (if s = [] then []
      else case find (has_suffix s) white_space of None \<Rightarrow> s | Some w \<Rightarrow> trim_right (take (length s - length w) s))"
  by auto
termination
  by (relation "measure length") (auto dest: find_white_space)

declare trim_left.simps [simp del] trim_right.simps [simp del]

definition trim_space :: "string \<Rightarrow> string" where
  "trim_space s = trim_right (trim_left s)"

definition remove_char :: "char \<Rightarrow> string \<Rightarrow> string" where
  "remove_char c s = filter (\<lambda>x. x \<noteq> c) s"

definition replace_char :: "char \<Rightarrow> char \<Rightarrow> string \<Rightarrow> string" where
  "replace_char a b s = map (\<lambda>x. if x = a then b else x) s"

text \<open>
  \<open>strings.ToLower\<close>: the ASCII letters, and the two other characters whose lower case is an ASCII
  letter (the Kelvin sign and the dotted capital I). Other characters keep their bytes here, which
  no comparison with an ASCII name tells apart.
\<close>

fun go_lower :: "string \<Rightarrow> string" where
  "go_lower (a # b # c # s) =
     (if [a, b, c] = [CHR 0xE2, CHR 0x84, CHR 0xAA] then CHR ''k'' # go_lower s
      else if [a, b] = [CHR 0xC4, CHR 0xB0] then CHR ''i'' # go_lower (c # s)
      else lower_char a # go_lower (b # c # s))"
| "go_lower [a, b] = (if [a, b] = [CHR 0xC4, CHR 0xB0] then ''i'' else [lower_char a, lower_char b])"
| "go_lower [a] = [lower_char a]"
| "go_lower [] = []"

text \<open>\<open>strings.FieldsFunc\<close>: the maximal runs of bytes that are no separator.\<close>

function fields_by :: "(char \<Rightarrow> bool) \<Rightarrow> string \<Rightarrow> string list" where
  "fields_by sep s =
     (let s = dropWhile sep s in
      if s = [] then [] else takeWhile (\<lambda>c. \<not> sep c) s # fields_by sep (dropWhile (\<lambda>c. \<not> sep c) s))"
  by auto
termination
proof (relation "measure (\<lambda>(sep, s). length s)", simp)
  fix sep :: "char \<Rightarrow> bool" and s x
  assume x: "x = dropWhile sep s" and ne: "x \<noteq> []"
  then have "\<not> sep (hd x)" by (simp add: hd_dropWhile)
  with ne have "length (dropWhile (\<lambda>c. \<not> sep c) x) < length x"
    by (cases x) (auto simp: length_dropWhile_le le_imp_less_Suc)
  also have "length x \<le> length s" by (simp add: x length_dropWhile_le)
  finally show "((sep, dropWhile (\<lambda>c. \<not> sep c) x), sep, s) \<in> measure (\<lambda>(sep, s). length s)" by simp
qed

declare fields_by.simps [simp del]

text \<open>\<open>strings.Cut\<close> at a byte: what is before, what is after, where it occurs.\<close>

definition cut_byte :: "char \<Rightarrow> string \<Rightarrow> (string \<times> string) option" where
  "cut_byte c s = (if c \<in> set s then Some (takeWhile (\<lambda>x. x \<noteq> c) s, drop 1 (dropWhile (\<lambda>x. x \<noteq> c) s)) else None)"

end
