(* ===== verification/Rpc_Meta.thy ===== *)
theory Rpc_Meta
  imports Go_Strings
begin

text \<open>
  The safety registry of raw app-server calls: \<open>go/internal/rpcmeta/registry.go\<close>. Each method of the
  pinned protocol has its effect classes, retry safety and the fields that need the experimental
  API; \<open>Gate\<close> refuses a call whose effects the invocation does not acknowledge one by one. The
  registry is built from the method tables in the code's order. Go ranges over a decoded JSON
  object in an arbitrary order; \<open>ord\<close> is that order, a rearrangement of the entries.
\<close>

section \<open>Effects and metadata\<close>

datatype EffectClass =
    EffectRead | EffectNetworkRead | EffectThreadWrite | EffectHostWrite | EffectAuth
  | EffectDestructive | EffectUnknown | EffectOther string

definition effectOrder :: "EffectClass list" where
  "effectOrder = [EffectRead, EffectNetworkRead, EffectThreadWrite, EffectHostWrite, EffectAuth, EffectDestructive, EffectUnknown]"

text \<open>\<open>StabilityNone\<close> and \<open>RetryNone\<close> are the empty string of a zero value.\<close>

datatype Stability = StabilityNone | StabilityStable | StabilityExperimental | StabilityUnknown

datatype RetrySafety = RetryNone | RetrySafe | RetryAfterReconciliation | RetryIdempotencyKeyed | RetryUnsafe | RetryUnknown

record FieldTrigger =
  ft_path :: string
  ft_aliases :: "string list"
  ft_experimental :: bool
  ft_add_effects :: "EffectClass list"
  ft_note :: string

record Metadata =
  md_method :: string
  md_stability :: Stability
  md_effects :: "EffectClass list"
  md_retry_safety :: RetrySafety
  md_experimental :: bool
  md_field_triggers :: "FieldTrigger list"
  md_response_note :: string
  md_terminal_note :: string
  md_server_caveats :: "string list"

text \<open>The position of the first equal class; its length where there is none.\<close>

definition effectIndex :: "EffectClass \<Rightarrow> nat" where
  "effectIndex e = length (takeWhile (\<lambda>k. k \<noteq> e) effectOrder)"

text \<open>Additions that are not there yet, then the stable sort.\<close>

definition mergeEffects :: "EffectClass list \<Rightarrow> EffectClass list \<Rightarrow> EffectClass list" where
  "mergeEffects base additions =
     sort_key effectIndex (foldl (\<lambda>es e. if e \<in> set es then es else es @ [e]) base additions)"

definition normalizeEffects :: "EffectClass list \<Rightarrow> EffectClass list" where
  "normalizeEffects es = mergeEffects [] es"

section \<open>The tables\<close>

definition asynchronousMethods :: "string list" where
  "asynchronousMethods = [
     ''account/login/start'', ''externalAgentConfig/import'', ''feedback/upload'', ''command/exec'',
     ''thread/compact/start'', ''thread/shellCommand'', ''turn/start'', ''turn/steer'', ''review/start'',
     ''plugin/install'', ''plugin/uninstall'', ''mcpServer/oauth/login'', ''windowsSandbox/setupStart'',
     ''thread/realtime/start'', ''thread/realtime/stop'', ''thread/queue/start'',
     ''fuzzyFileSearch/sessionStart'', ''fuzzyFileSearch/sessionUpdate'', ''fuzzyFileSearch/sessionStop'',
     ''process/spawn'', ''process/kill'', ''remoteControl/pairing/start'', ''account/sendAddCreditsNudgeEmail'']"

definition stableMethods :: "string list" where
  "stableMethods = [
     ''initialize'', ''thread/start'', ''thread/resume'', ''thread/fork'', ''thread/archive'', ''thread/delete'',
     ''thread/unsubscribe'', ''thread/name/set'', ''thread/goal/set'', ''thread/goal/get'', ''thread/goal/clear'',
     ''thread/metadata/update'', ''thread/section/move'', ''thread/unarchive'', ''thread/compact/start'',
     ''thread/shellCommand'', ''thread/approveGuardianDeniedAction'', ''thread/rollback'', ''thread/revert'',
     ''thread/list'', ''threadSection/list'', ''threadSection/create'', ''threadSection/update'',
     ''threadSection/delete'', ''thread/loaded/list'', ''thread/read'', ''thread/turns/list'',
     ''thread/items/list'', ''thread/inject_items'', ''skills/list'', ''skills/extraRoots/set'', ''hooks/list'',
     ''marketplace/add'', ''marketplace/remove'', ''marketplace/upgrade'', ''plugin/list'', ''plugin/installed'',
     ''plugin/reconcile'', ''plugin/read'', ''plugin/skill/read'', ''plugin/share/save'',
     ''plugin/share/updateTargets'', ''plugin/share/list'', ''plugin/share/checkout'', ''plugin/share/delete'',
     ''app/read'', ''app/list'', ''app/installed'', ''fs/readFile'', ''fs/writeFile'', ''fs/createDirectory'',
     ''fs/getMetadata'', ''fs/readDirectory'', ''fs/remove'', ''fs/copy'', ''fs/watch'', ''fs/unwatch'',
     ''skills/config/write'', ''plugin/install'', ''plugin/uninstall'', ''turn/start'', ''turn/steer'',
     ''turn/interrupt'', ''review/start'', ''model/list'', ''modelProvider/capabilities/read'',
     ''experimentalFeature/list'', ''permissionProfile/list'', ''experimentalFeature/enablement/set'',
     ''mcpServer/oauth/login'', ''config/mcpServer/reload'', ''mcpServerStatus/list'',
     ''mcpServer/resource/read'', ''mcpServer/tool/call'', ''windowsSandbox/setupStart'',
     ''windowsSandbox/readiness'', ''account/login/start'', ''account/login/cancel'', ''account/logout'',
     ''account/rateLimits/read'', ''account/rateLimitResetCredit/consume'', ''account/usage/read'',
     ''account/workspaceMessages/read'', ''account/sendAddCreditsNudgeEmail'', ''feedback/upload'',
     ''command/exec'', ''command/exec/write'', ''command/exec/terminate'', ''command/exec/resize'',
     ''config/read'', ''externalAgentConfig/detect'', ''externalAgentConfig/import'',
     ''externalAgentConfig/import/recordHistory'', ''externalAgentConfig/import/readHistories'',
     ''config/value/write'', ''config/batchWrite'', ''configRequirements/read'', ''account/read'',
     ''getConversationSummary'', ''gitDiffToRemote'', ''getAuthStatus'', ''fuzzyFileSearch'']"

definition experimentalOnlyMethods :: "string list" where
  "experimentalOnlyMethods = [
     ''server/diagnostics'', ''userVerification/status'', ''userVerification/enroll'',
     ''userVerification/delete'', ''userVerification/verify'', ''thread/increment_elicitation'',
     ''thread/decrement_elicitation'', ''thread/queue/add'', ''thread/queue/list'', ''thread/queue/update'',
     ''thread/queue/delete'', ''thread/queue/reorder'', ''thread/queue/start'', ''thread/settings/update'',
     ''thread/memoryMode/set'', ''memory/reset'', ''thread/backgroundTerminals/clean'',
     ''thread/backgroundTerminals/list'', ''thread/backgroundTerminals/terminate'', ''project/list'',
     ''project/read'', ''project/create'', ''project/import'', ''project/update'', ''project/move'',
     ''project/delete'', ''thread/search'', ''thread/searchOccurrences'', ''plugin/search'',
     ''turn/settings/update'', ''thread/realtime/start'', ''thread/realtime/appendAudio'',
     ''thread/realtime/appendText'', ''thread/realtime/appendSpeech'', ''thread/realtime/stop'',
     ''thread/timeline/list'', ''thread/realtime/listVoices'', ''remoteControl/enable'',
     ''remoteControl/disable'', ''remoteControl/status/read'', ''remoteControl/pairing/start'',
     ''remoteControl/pairing/status'', ''remoteControl/client/list'', ''remoteControl/client/revoke'',
     ''collaborationMode/list'', ''mock/experimentalMethod'', ''environment/add'', ''environment/info'',
     ''environment/status'', ''mcpServer/event/stream/start'', ''mcpServer/event/stream/stop'',
     ''account/bedrock/discover'', ''account/bedrock/setup'', ''process/spawn'', ''process/writeStdin'',
     ''process/kill'', ''process/resizePty'', ''fuzzyFileSearch/sessionStart'', ''fuzzyFileSearch/sessionUpdate'',
     ''fuzzyFileSearch/sessionStop'']"

definition effect_table :: "(EffectClass list \<times> string list) list" where
  "effect_table = [
    ([EffectNetworkRead],
     [''model/list'', ''account/rateLimits/read'', ''account/usage/read'', ''account/workspaceMessages/read'',
      ''account/read'', ''account/rateLimitResetCredit/consume'', ''account/sendAddCreditsNudgeEmail'',
      ''gitDiffToRemote'', ''mcpServer/resource/read'', ''mcpServerStatus/list'', ''plugin/list'',
      ''plugin/installed'', ''plugin/read'', ''plugin/share/list'', ''plugin/share/checkout'',
      ''plugin/skill/read'', ''plugin/reconcile'', ''plugin/share/save'', ''plugin/share/updateTargets'',
      ''plugin/share/delete'', ''plugin/install'', ''plugin/uninstall'', ''marketplace/add'',
      ''marketplace/upgrade'', ''app/list'', ''app/read'', ''app/installed'', ''feedback/upload'',
      ''thread/realtime/start'', ''thread/realtime/appendAudio'', ''thread/realtime/appendText'',
      ''thread/realtime/appendSpeech'', ''mcpServer/tool/call'', ''mcpServer/oauth/login'', ''environment/info'',
      ''environment/status'', ''remoteControl/pairing/start'', ''remoteControl/pairing/status'',
      ''remoteControl/client/list'', ''remoteControl/client/revoke'', ''plugin/search'']),
    ([EffectThreadWrite],
     [''thread/start'', ''thread/resume'', ''thread/fork'', ''thread/archive'', ''thread/unsubscribe'',
      ''thread/name/set'', ''thread/goal/set'', ''thread/goal/clear'', ''thread/metadata/update'',
      ''thread/section/move'', ''thread/unarchive'', ''thread/compact/start'', ''thread/rollback'',
      ''thread/revert'', ''threadSection/create'', ''threadSection/update'', ''threadSection/delete'',
      ''thread/inject_items'', ''turn/start'', ''turn/steer'', ''turn/interrupt'', ''review/start'',
      ''thread/increment_elicitation'', ''thread/decrement_elicitation'', ''thread/queue/add'',
      ''thread/queue/update'', ''thread/queue/delete'', ''thread/queue/reorder'', ''thread/queue/start'',
      ''thread/settings/update'', ''thread/memoryMode/set'', ''turn/settings/update'', ''thread/realtime/start'',
      ''thread/realtime/appendAudio'', ''thread/realtime/appendText'', ''thread/realtime/appendSpeech'',
      ''thread/realtime/stop'', ''thread/approveGuardianDeniedAction'', ''thread/backgroundTerminals/clean'',
      ''thread/backgroundTerminals/terminate'']),
    ([EffectHostWrite],
     [''thread/shellCommand'', ''skills/extraRoots/set'', ''skills/config/write'', ''marketplace/add'',
      ''marketplace/remove'', ''marketplace/upgrade'', ''plugin/reconcile'', ''plugin/share/save'',
      ''plugin/share/updateTargets'', ''plugin/share/checkout'', ''plugin/share/delete'', ''plugin/install'',
      ''plugin/uninstall'', ''fs/writeFile'', ''fs/createDirectory'', ''fs/copy'', ''fs/watch'', ''fs/unwatch'',
      ''mcpServer/oauth/login'', ''config/mcpServer/reload'', ''windowsSandbox/setupStart'', ''feedback/upload'',
      ''command/exec'', ''command/exec/write'', ''command/exec/terminate'', ''command/exec/resize'',
      ''config/value/write'', ''config/batchWrite'', ''externalAgentConfig/import'',
      ''externalAgentConfig/import/recordHistory'', ''environment/add'', ''mcpServer/event/stream/start'',
      ''mcpServer/event/stream/stop'', ''process/spawn'', ''process/writeStdin'', ''process/kill'',
      ''process/resizePty'', ''fuzzyFileSearch/sessionStart'', ''fuzzyFileSearch/sessionUpdate'',
      ''fuzzyFileSearch/sessionStop'', ''project/create'', ''project/import'', ''project/update'',
      ''project/move'', ''project/delete'', ''externalAgentConfig/detect'', ''experimentalFeature/enablement/set'']),
    ([EffectAuth],
     [''account/login/start'', ''account/login/cancel'', ''account/logout'', ''userVerification/enroll'',
      ''userVerification/delete'', ''userVerification/verify'', ''account/bedrock/setup'', ''mcpServer/oauth/login'']),
    ([EffectHostWrite],
     [''remoteControl/enable'', ''remoteControl/disable'', ''remoteControl/pairing/start'',
      ''remoteControl/client/revoke'', ''mcpServer/oauth/login'']),
    ([EffectDestructive],
     [''thread/delete'', ''thread/rollback'', ''thread/revert'', ''marketplace/remove'', ''plugin/share/delete'',
      ''plugin/uninstall'', ''fs/remove'', ''account/logout'', ''memory/reset'', ''project/delete'',
      ''thread/queue/delete'', ''thread/backgroundTerminals/clean'', ''thread/backgroundTerminals/terminate'',
      ''process/kill'', ''remoteControl/client/revoke'', ''userVerification/delete'']),
    ([EffectHostWrite, EffectDestructive],
     [''fs/remove'', ''memory/reset'']),
    ([EffectUnknown],
     [''mock/experimentalMethod'', ''account/rateLimitResetCredit/consume'', ''account/sendAddCreditsNudgeEmail'',
      ''mcpServer/tool/call''])]"
section \<open>Building the registry\<close>

type_synonym rpc_registry = "string \<Rightarrow> Metadata option"

definition baseMetadata :: "string \<Rightarrow> Stability \<Rightarrow> bool \<Rightarrow> Metadata" where
  "baseMetadata m st experimental =
     \<lparr>md_method = m, md_stability = st, md_effects = [EffectRead], md_retry_safety = RetryNone,
      md_experimental = experimental, md_field_triggers = [], md_response_note = '''', md_terminal_note = '''',
      md_server_caveats = []\<rparr>"

definition set_method_effects :: "EffectClass list \<Rightarrow> rpc_registry \<Rightarrow> string \<Rightarrow> rpc_registry" where
  "set_method_effects es reg m =
     (case reg m of None \<Rightarrow> reg
      | Some md \<Rightarrow> reg(m \<mapsto> md\<lparr>md_effects := (if md_effects md = [EffectRead] then es else mergeEffects (md_effects md) es)\<rparr>))"

definition setEffects :: "rpc_registry \<Rightarrow> EffectClass list \<times> string list \<Rightarrow> rpc_registry" where
  "setEffects reg x = (case x of (es, methods) \<Rightarrow> foldl (set_method_effects es) reg methods)"

definition experimental_trigger :: "string \<Rightarrow> string list \<Rightarrow> string \<Rightarrow> FieldTrigger" where
  "experimental_trigger path aliases note =
     \<lparr>ft_path = path, ft_aliases = aliases, ft_experimental = True, ft_add_effects = [], ft_note = note\<rparr>"

definition triggersFor :: "string \<Rightarrow> string list \<Rightarrow> FieldTrigger list" where
  "triggersFor m names =
     map (\<lambda>f. experimental_trigger (m @ ''.'' @ f) [replace_char CHR ''_'' CHR ''-'' f] '''') names"

definition trigger_table :: "(string \<times> FieldTrigger list) list" where
  "trigger_table = [
    (''thread/start'', triggersFor ''thread/start'' [''allowProviderModelFallback'', ''runtimeWorkspaceRoots'', ''approvalPolicy'',
       ''permissions'', ''multiAgentMode'', ''historyMode'', ''projectId'', ''environments'', ''dynamicTools'',
       ''selectedCapabilityRoots'', ''mockExperimentalField'', ''experimentalRawEvents'']),
    (''thread/resume'', triggersFor ''thread/resume'' [''history'', ''path'', ''runtimeWorkspaceRoots'', ''approvalPolicy'',
       ''permissions'', ''initialTurnsPage'']),
    (''thread/fork'', [
       experimental_trigger ''thread/fork.beforeTurnId'' [''before-turn'', ''before_turn_id'']
         ''The experimental cutoff excludes the referenced turn and all later turns; it cannot be combined with lastTurnId and an in-progress cutoff is rejected.'',
       experimental_trigger ''thread/fork.path'' [] ''Path-based fork uses a different backend/history loading path.'',
       experimental_trigger ''thread/fork.runtimeWorkspaceRoots'' [] '''', experimental_trigger ''thread/fork.approvalPolicy'' [] '''',
       experimental_trigger ''thread/fork.permissions'' [] '''', experimental_trigger ''thread/fork.deferGoalContinuation'' [] '''']),
    (''thread/settings/update'', triggersFor ''thread/settings/update''
       [''approvalPolicy'', ''permissions'', ''collaborationMode'', ''multiAgentMode'']),
    (''thread/metadata/update'', triggersFor ''thread/metadata/update'' [''projectId'', ''daybreakEnabled'']),
    (''thread/list'', triggersFor ''thread/list'' [''projectId'', ''parentThreadId'', ''ancestorThreadId'']),
    (''turn/start'', triggersFor ''turn/start'' [''responsesapiClientMetadata'', ''additionalContext'', ''environments'',
       ''runtimeWorkspaceRoots'', ''approvalPolicy'', ''permissions'', ''collaborationMode'', ''multiAgentMode'', ''cyberAccessProgram'']),
    (''turn/steer'', triggersFor ''turn/steer'' [''responsesapiClientMetadata'', ''additionalContext'']),
    (''command/exec'', triggersFor ''command/exec'' [''permissionProfile'']),
    (''account/login/start'', [
       experimental_trigger ''account/login/start.chatgptAuthTokens'' [''type=chatgptAuthTokens''] '''',
       experimental_trigger ''account/login/start.amazonBedrock'' [''type=amazonBedrock''] '''',
       experimental_trigger ''account/login/start.amazonBedrockAccessKeys'' [''type=amazonBedrockAccessKeys''] ''''])]"

definition set_triggers :: "rpc_registry \<Rightarrow> string \<times> FieldTrigger list \<Rightarrow> rpc_registry" where
  "set_triggers reg x = (case x of (m, ts) \<Rightarrow>
     (case reg m of None \<Rightarrow> reg | Some md \<Rightarrow> reg(m \<mapsto> md\<lparr>md_field_triggers := ts\<rparr>)))"

text \<open>The first trigger whose path ends in the field, or a new one.\<close>

fun add_to_trigger :: "string \<Rightarrow> string \<Rightarrow> EffectClass \<Rightarrow> FieldTrigger list \<Rightarrow> FieldTrigger list" where
  "add_to_trigger m f e [] =
     [\<lparr>ft_path = m @ ''.'' @ f, ft_aliases = [], ft_experimental = False, ft_add_effects = [e], ft_note = ''''\<rparr>]"
| "add_to_trigger m f e (t # ts) =
     (if has_suffix (ft_path t) (''.'' @ f) then t\<lparr>ft_add_effects := ft_add_effects t @ [e]\<rparr> # ts
      else t # add_to_trigger m f e ts)"

text \<open>A method that is not registered is entered with the zero metadata.\<close>

definition zero_metadata :: Metadata where
  "zero_metadata =
     \<lparr>md_method = '''', md_stability = StabilityNone, md_effects = [], md_retry_safety = RetryNone,
      md_experimental = False, md_field_triggers = [], md_response_note = '''', md_terminal_note = '''',
      md_server_caveats = []\<rparr>"

definition addTriggerEffect :: "rpc_registry \<Rightarrow> string \<times> string \<times> EffectClass \<Rightarrow> rpc_registry" where
  "addTriggerEffect reg x = (case x of (m, f, e) \<Rightarrow>
     let md = (case reg m of None \<Rightarrow> zero_metadata | Some md \<Rightarrow> md) in
     reg(m \<mapsto> md\<lparr>md_field_triggers := add_to_trigger m f e (md_field_triggers md)\<rparr>))"

definition risk_table :: "(string \<times> string \<times> EffectClass) list" where
  "risk_table = [(''plugin/list'', ''forceRefetch'', EffectNetworkRead), (''app/list'', ''forceRefetch'', EffectNetworkRead),
     (''app/installed'', ''forceRefresh'', EffectNetworkRead), (''account/read'', ''forceRefresh'', EffectNetworkRead)]"

fun retryFor :: "EffectClass list \<Rightarrow> RetrySafety" where
  "retryFor [] = RetrySafe"
| "retryFor (e # es) =
     (if e = EffectUnknown then RetryUnknown
      else if e = EffectThreadWrite \<or> e = EffectHostWrite \<or> e = EffectAuth \<or> e = EffectDestructive then RetryUnsafe
      else retryFor es)"

definition responseNote :: "string \<Rightarrow> EffectClass list \<Rightarrow> string" where
  "responseNote m es =
     (if m \<in> set asynchronousMethods
      then ''The response acknowledges initiation or admission; completion is delivered through notifications, events, or history and must be reconciled.''
      else if EffectUnknown \<in> set es then ''No pinned response contract is known for this method.''
      else ''The JSON-RPC response is the method response; unknown fields must be preserved by the raw layer.'')"

definition terminalNote :: "string \<Rightarrow> EffectClass list \<Rightarrow> string" where
  "terminalNote m es =
     (if m \<in> set asynchronousMethods
      then ''The JSON-RPC response is not terminal operation evidence; use the documented notification/history surface.''
      else if EffectUnknown \<in> set es then ''There is no known terminal guarantee; a lost response remains uncertain.''
      else ''The response is the terminal RPC result, subject to backend warnings and connection evidence.'')"

definition caveats :: "string \<Rightarrow> Stability \<Rightarrow> EffectClass list \<Rightarrow> string list" where
  "caveats m st es =
     [''Generated contract presence does not prove backend availability, permissions, persistence, or retry safety.'']
     @ (if st = StabilityExperimental
        then [''Experimental method requires initialize.capabilities.experimentalApi=true and may be absent or disabled on a running server.''] else [])
     @ (if EffectNetworkRead \<in> set es
        then [''A successful response may reflect a remote/backend request, cache refresh, or stale fallback; preserve network effect evidence.''] else [])
     @ (if m = ''thread/items/list'' \<or> m = ''thread/turns/list'' \<or> m = ''thread/timeline/list''
        then [''History availability varies by legacy, paginated, archived, and state-database backends.''] else [])
     @ (if m = ''thread/shellCommand''
        then [''This stable method runs on the app-server host outside the thread sandbox and can have full host impact.''] else [])
     @ (if m = ''fs/remove''
        then [''Removal is recursively and forcefully destructive by default; symlink metadata is handled specially.''] else [])
     @ (if m = ''feedback/upload''
        then [''The request may collect and upload sensitive logs, rollouts, caches, and caller-selected paths.''] else [])"

definition retry_of :: "string \<Rightarrow> EffectClass list \<Rightarrow> RetrySafety \<Rightarrow> RetrySafety" where
  "retry_of m es r =
     (if m = ''thread/unsubscribe'' \<or> m = ''turn/interrupt'' \<or> m = ''fs/watch'' \<or> m = ''fs/unwatch'' then RetryAfterReconciliation
      else if m = ''account/rateLimitResetCredit/consume'' \<or> m = ''project/create'' then RetryIdempotencyKeyed
      else if r = RetryNone then retryFor es else r)"

definition finish_metadata :: "string \<Rightarrow> Metadata \<Rightarrow> Metadata" where
  "finish_metadata m md =
     (let es = normalizeEffects (md_effects md) in
      md\<lparr>md_effects := es, md_retry_safety := retry_of m es (md_retry_safety md), md_response_note := responseNote m es,
         md_terminal_note := terminalNote m es, md_server_caveats := caveats m (md_stability md) es\<rparr>)"

definition base_registry :: rpc_registry where
  "base_registry =
     foldl (\<lambda>reg m. reg(m \<mapsto> baseMetadata m StabilityExperimental True))
       (foldl (\<lambda>reg m. reg(m \<mapsto> baseMetadata m StabilityStable False)) Map.empty stableMethods) experimentalOnlyMethods"

definition rpc_methods :: rpc_registry where
  "rpc_methods =
     (let reg = foldl addTriggerEffect (foldl set_triggers (foldl setEffects base_registry effect_table) trigger_table) risk_table
      in (\<lambda>m. map_option (finish_metadata m) (reg m)))"

text \<open>\<open>Registry\<close>: every method once, in lexical order.\<close>

definition method_names :: "string list" where
  "method_names = sort (remdups (stableMethods @ experimentalOnlyMethods))"

definition rpc_Registry :: "Metadata list" where
  "rpc_Registry = List.map_filter rpc_methods method_names"

section \<open>Which parameters are present\<close>

definition normalizeField :: "string \<Rightarrow> string" where
  "normalizeField value = go_lower (remove_char CHR ''_'' (remove_char CHR ''-'' (trim_prefix (trim_space value) ''--'')))"

type_synonym map_order = "(string \<times> json) list \<Rightarrow> (string \<times> json) list"

text \<open>The first entry in iteration order whose key matches decides.\<close>

definition find_key :: "map_order \<Rightarrow> (string \<times> json) list \<Rightarrow> string \<Rightarrow> json option" where
  "find_key ord m name = map_option snd (find (\<lambda>kv. normalizeField (fst kv) = normalizeField name) (ord m))"

definition variantPresent :: "map_order \<Rightarrow> json \<Rightarrow> string \<Rightarrow> bool" where
  "variantPresent ord value selector =
     (case cut_byte CHR ''='' selector of
        None \<Rightarrow> False
      | Some (k, wanted) \<Rightarrow>
          (case value of
             JObj m \<Rightarrow> (case find_key ord m k of Some (JStr s) \<Rightarrow> normalizeField s = normalizeField wanted | _ \<Rightarrow> False)
           | _ \<Rightarrow> False))"

fun walkPath :: "map_order \<Rightarrow> json \<Rightarrow> string list \<Rightarrow> bool" where
  "walkPath ord value [] = True"
| "walkPath ord value (p # ps) =
     (case value of
        JObj m \<Rightarrow> (case find_key ord m p of None \<Rightarrow> False | Some child \<Rightarrow> ps = [] \<or> walkPath ord child ps)
      | _ \<Rightarrow> False)"

definition pathPresent :: "map_order \<Rightarrow> json \<Rightarrow> string \<Rightarrow> bool" where
  "pathPresent ord value path =
     (let path = (case cut_byte CHR ''.'' path of Some (_, rest) \<Rightarrow> rest | None \<Rightarrow> path);
          path = trim_space path
      in path \<noteq> '''' \<and> walkPath ord value (fields_by (\<lambda>c. c = CHR ''.'' \<or> c = CHR ''/'') path))"

text \<open>\<open>bytes.TrimSpace\<close> trims the same characters; of repeated keys the decoder keeps the last.\<close>

definition fieldPresent :: "map_order \<Rightarrow> string \<Rightarrow> FieldTrigger \<Rightarrow> bool" where
  "fieldPresent ord params t =
     (if trim_space params = '''' \<or> trim_space params = ''null'' then False
      else case parse_json params of
        None \<Rightarrow> False
      | Some v \<Rightarrow>
          list_ex (\<lambda>path. CHR ''='' \<in> set path \<and> variantPresent ord (any_of v) path \<or> pathPresent ord (any_of v) path)
            (ft_path t # ft_aliases t))"

section \<open>Evaluation and the gate\<close>

record Decision =
  dc_metadata :: Metadata
  dc_effects :: "EffectClass list"
  dc_experimental :: bool
  dc_experimental_fields :: "string list"

definition unknown_metadata :: "string \<Rightarrow> Metadata" where
  "unknown_metadata m =
     \<lparr>md_method = m, md_stability = StabilityUnknown, md_effects = [EffectUnknown], md_retry_safety = RetryUnknown,
      md_experimental = False, md_field_triggers = [],
      md_response_note = ''The method is not in the pinned 0.154.0 client inventory.'',
      md_terminal_note = ''No terminal/completion contract is known; preserve uncertainty after a possible write.'',
      md_server_caveats = [''Unknown methods may be unsupported or may have effects not represented here.'']\<rparr>"

definition decision_of :: "Metadata \<Rightarrow> Decision" where
  "decision_of md = \<lparr>dc_metadata = md, dc_effects = md_effects md, dc_experimental = md_experimental md, dc_experimental_fields = []\<rparr>"

definition apply_trigger :: "map_order \<Rightarrow> string \<Rightarrow> Decision \<Rightarrow> FieldTrigger \<Rightarrow> Decision" where
  "apply_trigger ord params d t =
     (if \<not> fieldPresent ord params t then d
      else d\<lparr>dc_experimental := (dc_experimental d \<or> ft_experimental t),
             dc_experimental_fields := (if ft_experimental t then dc_experimental_fields d @ [ft_path t] else dc_experimental_fields d),
             dc_effects := mergeEffects (dc_effects d) (ft_add_effects t)\<rparr>)"

definition Evaluate :: "map_order \<Rightarrow> string \<Rightarrow> string \<Rightarrow> Decision" where
  "Evaluate ord m params =
     (case rpc_methods m of
        None \<Rightarrow> decision_of (unknown_metadata m)
      | Some md \<Rightarrow>
          let d = foldl (apply_trigger ord params) (decision_of md) (md_field_triggers md)
          in d\<lparr>dc_metadata := (dc_metadata d)\<lparr>md_experimental := dc_experimental d, md_effects := dc_effects d\<rparr>\<rparr>)"

record GateRequest =
  gr_method :: string
  gr_params :: string
  gr_grants :: "EffectClass list"

record GateError =
  ge_method :: string
  ge_missing :: "EffectClass list"
  ge_effects :: "EffectClass list"
  ge_experimental :: bool

definition acknowledged :: "EffectClass list \<Rightarrow> EffectClass \<Rightarrow> bool" where
  "acknowledged grants e = (e = EffectRead \<or> e = EffectNetworkRead \<or> e \<in> set grants)"

definition missing_effects :: "EffectClass list \<Rightarrow> EffectClass list \<Rightarrow> EffectClass list" where
  "missing_effects grants es =
     foldl (\<lambda>missing e. if acknowledged grants e \<or> e \<in> set missing then missing else missing @ [e]) [] es"

definition Gate :: "map_order \<Rightarrow> GateRequest \<Rightarrow> GateError option" where
  "Gate ord request =
     (let d = Evaluate ord (gr_method request) (gr_params request);
          missing = missing_effects (gr_grants request) (dc_effects d)
      in if missing = [] then None
         else Some \<lparr>ge_method = gr_method request, ge_missing = missing, ge_effects = dc_effects d,
                    ge_experimental = dc_experimental d\<rparr>)"

definition IsUnknownMethod :: "GateError \<Rightarrow> bool" where
  "IsUnknownMethod e = (EffectUnknown \<in> set (ge_effects e))"

end
