(* ===== verification/Rpc_Laws.thy ===== *)
theory Rpc_Laws
  imports Rpc_Meta
begin

text \<open>
  The registry's typing invariant, kept by each way \<open>buildRegistry\<close> changes an entry, and what the
  gate lets through.
\<close>

section \<open>Effect lists\<close>

definition effects_ok :: "EffectClass list \<Rightarrow> bool" where
  "effects_ok es = (es \<noteq> [] \<and> distinct es \<and> sorted (map effectIndex es))"

lemma set_additions: "set (foldl (\<lambda>es e. if e \<in> set es then es else es @ [e]) base xs) = set base \<union> set xs"
  by (induction xs arbitrary: base) auto

lemma distinct_additions:
  "distinct base \<Longrightarrow> distinct (foldl (\<lambda>es e. if e \<in> set es then es else es @ [e]) base xs)"
  by (induction xs arbitrary: base) auto

lemma set_mergeEffects [simp]: "set (mergeEffects base xs) = set base \<union> set xs"
  by (simp add: mergeEffects_def set_additions)

lemma mergeEffects_ok: "distinct base \<Longrightarrow> base @ xs \<noteq> [] \<Longrightarrow> effects_ok (mergeEffects base xs)"
proof -
  assume d: "distinct base" and n: "base @ xs \<noteq> []"
  have "set (mergeEffects base xs) \<noteq> {}" using n by auto
  then have "mergeEffects base xs \<noteq> []" by (metis set_empty)
  with d show ?thesis
    unfolding effects_ok_def by (simp add: mergeEffects_def distinct_additions)
qed

section \<open>Typing the registry\<close>

text \<open>What an entry satisfies while the registry is built.\<close>

definition raw_ok :: "string \<Rightarrow> Metadata \<Rightarrow> bool" where
  "raw_ok m md = (md_method md = m \<and> md_stability md \<in> {StabilityStable, StabilityExperimental} \<and>
     md_experimental md = (md_stability md = StabilityExperimental) \<and> md_effects md \<noteq> [] \<and> md_retry_safety md = RetryNone)"

definition building :: "rpc_registry \<Rightarrow> bool" where
  "building reg = (dom reg = set (stableMethods @ experimentalOnlyMethods) \<and> (\<forall>m md. reg m = Some md \<longrightarrow> raw_ok m md))"

lemma foldl_invariant: "(\<And>s x. x \<in> set xs \<Longrightarrow> J s \<Longrightarrow> J (f s x)) \<Longrightarrow> J s \<Longrightarrow> J (foldl f s xs)"
  by (induction xs arbitrary: s) auto

lemma building_update: "building reg \<Longrightarrow> reg m \<noteq> None \<Longrightarrow> raw_ok m md \<Longrightarrow> building (reg(m \<mapsto> md))"
  by (auto simp: building_def)

lemma buildingD: "building reg \<Longrightarrow> reg m = Some md \<Longrightarrow> raw_ok m md"
  by (simp add: building_def)

lemma raw_ok_changes:
  "raw_ok m md \<Longrightarrow> es \<noteq> [] \<Longrightarrow> raw_ok m (md\<lparr>md_effects := es\<rparr>)" "raw_ok m md \<Longrightarrow> raw_ok m (md\<lparr>md_field_triggers := ts\<rparr>)"
  by (simp_all add: raw_ok_def)

lemma building_base: "building base_registry"
proof -
  have ok: "\<forall>m md. foldl (\<lambda>reg m. reg(m \<mapsto> g m)) reg xs m = Some md \<longrightarrow> raw_ok m md"
    if "\<And>m. raw_ok m (g m)" "\<forall>m md. reg m = Some md \<longrightarrow> raw_ok m md" for g reg xs
    by (rule foldl_invariant[where J = "\<lambda>reg. \<forall>m md. reg m = Some md \<longrightarrow> raw_ok m md"]) (use that in auto)
  have dom: "dom (foldl (\<lambda>reg m. reg(m \<mapsto> g m)) reg xs) = dom reg \<union> set xs" for g :: "string \<Rightarrow> Metadata" and reg xs
    by (induction xs arbitrary: reg) auto
  show ?thesis
    unfolding building_def base_registry_def
    by (intro conjI ok) (simp_all only: dom, auto simp: raw_ok_def baseMetadata_def)
qed

lemma building_method: "es \<noteq> [] \<Longrightarrow> building reg \<Longrightarrow> building (set_method_effects es reg m)"
proof -
  assume es: "es \<noteq> []" and reg: "building reg"
  have "mergeEffects base es \<noteq> []" for base
    using set_mergeEffects[of base es] es by (metis Un_empty set_empty)
  then show ?thesis
    using es reg by (cases "reg m") (auto simp: set_method_effects_def intro!: building_update raw_ok_changes dest: buildingD)
qed

lemma building_effects: "fst x \<noteq> [] \<Longrightarrow> building reg \<Longrightarrow> building (setEffects reg x)"
  unfolding setEffects_def by (cases x) (simp, intro foldl_invariant[where J = building] building_method)

lemma building_triggers: "building reg \<Longrightarrow> building (set_triggers reg x)"
  by (cases x; cases "reg (fst x)") (auto simp: set_triggers_def intro!: building_update raw_ok_changes dest: buildingD)

lemma building_risk:
  assumes "fst x \<in> set stableMethods" "building reg"
  shows "building (addTriggerEffect reg x)"
proof -
  from assms have "fst x \<in> dom reg" by (simp add: building_def)
  then show ?thesis
    using assms(2) by (cases x) (auto simp: addTriggerEffect_def intro!: building_update raw_ok_changes dest: buildingD)
qed

lemma tables_ok: "list_all (\<lambda>x. fst x \<noteq> []) effect_table" "list_all (\<lambda>x. fst x \<in> set stableMethods) risk_table"
  by code_simp+

lemma building_all: "building (foldl addTriggerEffect (foldl set_triggers (foldl setEffects base_registry effect_table) trigger_table) risk_table)"
  using tables_ok
  by (intro foldl_invariant[where J = building] building_base building_risk building_triggers building_effects) (auto simp: list_all_iff)

lemma retryFor_safe: "retryFor es = RetrySafe \<longleftrightarrow>
  set es \<inter> {EffectThreadWrite, EffectHostWrite, EffectAuth, EffectDestructive, EffectUnknown} = {}"
  by (induction es) auto

lemma rpc_methods_typed:
  assumes "rpc_methods m = Some md"
  shows "md_method md = m" "md_stability md \<in> {StabilityStable, StabilityExperimental}"
    "md_experimental md = (md_stability md = StabilityExperimental)" "effects_ok (md_effects md)"
    "md_retry_safety md = RetrySafe \<Longrightarrow>
       set (md_effects md) \<inter> {EffectThreadWrite, EffectHostWrite, EffectAuth, EffectDestructive, EffectUnknown} = {}"
proof -
  from assms obtain raw where md: "md = finish_metadata m raw" and raw: "raw_ok m raw"
    using buildingD[OF building_all] by (auto simp: rpc_methods_def Let_def)
  show "md_method md = m" "md_stability md \<in> {StabilityStable, StabilityExperimental}"
    "md_experimental md = (md_stability md = StabilityExperimental)"
    using raw by (simp_all add: md finish_metadata_def Let_def raw_ok_def)
  show "effects_ok (md_effects md)"
    using raw by (simp add: md finish_metadata_def Let_def normalizeEffects_def raw_ok_def mergeEffects_ok)
  show "md_retry_safety md = RetrySafe \<Longrightarrow>
       set (md_effects md) \<inter> {EffectThreadWrite, EffectHostWrite, EffectAuth, EffectDestructive, EffectUnknown} = {}"
    using raw retryFor_safe by (auto simp: md finish_metadata_def Let_def raw_ok_def retry_of_def split: if_splits)
qed

lemma rpc_methods_domain: "rpc_methods m \<noteq> None \<longleftrightarrow> m \<in> set (stableMethods @ experimentalOnlyMethods)"
proof -
  have "dom rpc_methods = set (stableMethods @ experimentalOnlyMethods)"
    using building_all unfolding building_def rpc_methods_def Let_def by (auto simp: dom_def)
  then show ?thesis by (auto simp: dom_def)
qed

section \<open>The gate\<close>

text \<open>Evaluation only adds effects, and keeps the list in order and without repetition.\<close>

lemma apply_triggers_effects:
  "effects_ok (dc_effects d) \<Longrightarrow> effects_ok (dc_effects (foldl (apply_trigger ord params) d ts)) \<and>
     set (dc_effects d) \<subseteq> set (dc_effects (foldl (apply_trigger ord params) d ts))"
proof (induction ts arbitrary: d)
  case (Cons t ts)
  have ok: "effects_ok (dc_effects (apply_trigger ord params d t))"
    using Cons.prems mergeEffects_ok[of "dc_effects d" "ft_add_effects t"]
    by (auto simp: apply_trigger_def effects_ok_def)
  have sub: "set (dc_effects d) \<subseteq> set (dc_effects (apply_trigger ord params d t))"
    by (simp add: apply_trigger_def)
  from Cons.IH[OF ok] sub show ?case by auto
qed simp

lemma Evaluate_known: "rpc_methods m = Some md \<Longrightarrow>
  effects_ok (dc_effects (Evaluate ord m params)) \<and> set (md_effects md) \<subseteq> set (dc_effects (Evaluate ord m params))"
  using apply_triggers_effects[of "decision_of md" ord params "md_field_triggers md"] rpc_methods_typed(4)
  by (simp add: Evaluate_def Let_def decision_of_def)

lemma Evaluate_unknown: "rpc_methods m = None \<Longrightarrow> dc_effects (Evaluate ord m params) = [EffectUnknown]"
  by (simp add: Evaluate_def decision_of_def unknown_metadata_def)

lemma missing_effects_filter: "distinct es \<Longrightarrow> missing_effects grants es = filter (\<lambda>e. \<not> acknowledged grants e) es"
proof -
  have "foldl (\<lambda>missing e. if acknowledged grants e \<or> e \<in> set missing then missing else missing @ [e]) acc es =
      acc @ filter (\<lambda>e. \<not> acknowledged grants e) es" if "distinct es" "set acc \<inter> set es = {}" for acc
    using that by (induction es arbitrary: acc) auto
  then show "distinct es \<Longrightarrow> missing_effects grants es = filter (\<lambda>e. \<not> acknowledged grants e) es"
    by (simp add: missing_effects_def)
qed

lemma Evaluate_distinct: "distinct (dc_effects (Evaluate ord m params))"
  using Evaluate_known[of m _ ord params] Evaluate_unknown[of m ord params]
  by (cases "rpc_methods m") (auto simp: effects_ok_def)

section \<open>Properties\<close>

text \<open>
  C36: The registry is well typed. Exactly the methods of the two inventories are registered, each under
  its own name, stable or experimental and flagged so, with a sorted, duplicate-free, non-empty list
  of effects; and none that writes, authenticates, destroys or is unknown is marked safe to retry.
\<close>

theorem registry_is_typed:
  "(rpc_methods m \<noteq> None \<longleftrightarrow> m \<in> set (stableMethods @ experimentalOnlyMethods)) \<and>
   (\<forall>md. rpc_methods m = Some md \<longrightarrow>
      md_method md = m \<and> md_stability md \<in> {StabilityStable, StabilityExperimental} \<and>
      md_experimental md = (md_stability md = StabilityExperimental) \<and>
      md_effects md \<noteq> [] \<and> distinct (md_effects md) \<and> sorted (map effectIndex (md_effects md)) \<and>
      (md_retry_safety md = RetrySafe \<longrightarrow>
         set (md_effects md) \<inter> {EffectThreadWrite, EffectHostWrite, EffectAuth, EffectDestructive, EffectUnknown} = {}))"
  using rpc_methods_domain rpc_methods_typed[of m] by (auto simp: effects_ok_def)

theorem registry_is_typed_witness:
  "\<exists>md. rpc_methods ''fs/remove'' = Some md \<and> md_method md = ''fs/remove'' \<and> distinct (md_effects md)"
proof -
  have "''fs/remove'' \<in> set (stableMethods @ experimentalOnlyMethods)" by code_simp
  with registry_is_typed[of "''fs/remove''"] show ?thesis by blast
qed

text \<open>
  C37: The gate demands every acknowledgment. A raw call passes exactly when each of its effects is a
  read, a network read, or granted by this invocation; a refusal names exactly the effects that are
  not, in order. The effects include the registered worst case of the method whatever the parameters
  are, and a method outside the inventory has the effect \<open>unknown\<close>.
\<close>

theorem gate_demands_every_effect:
  "(let es = dc_effects (Evaluate ord (gr_method q) (gr_params q));
        open = filter (\<lambda>e. e \<notin> {EffectRead, EffectNetworkRead} \<and> e \<notin> set (gr_grants q)) es
    in Gate ord q = (if open = [] then None
         else Some \<lparr>ge_method = gr_method q, ge_missing = open, ge_effects = es,
                    ge_experimental = dc_experimental (Evaluate ord (gr_method q) (gr_params q))\<rparr>) \<and>
       (case rpc_methods (gr_method q) of None \<Rightarrow> es = [EffectUnknown] | Some md \<Rightarrow> set (md_effects md) \<subseteq> set es))"
proof -
  have "filter (\<lambda>e. \<not> acknowledged (gr_grants q) e) es =
      filter (\<lambda>e. e \<notin> {EffectRead, EffectNetworkRead} \<and> e \<notin> set (gr_grants q)) es" for es
    by (rule filter_cong) (auto simp: acknowledged_def)
  then show ?thesis
    using missing_effects_filter[OF Evaluate_distinct[of ord "gr_method q" "gr_params q"], of "gr_grants q"]
      Evaluate_known[of "gr_method q" _ ord "gr_params q"] Evaluate_unknown[of "gr_method q" ord "gr_params q"]
    by (simp add: Gate_def Let_def split: option.splits)
qed

section \<open>The order of a Go map\<close>

text \<open>Two keys that normalise to one name make the verdict depend on the order of the iteration.\<close>

lemma variant_depends_on_order:
  "variantPresent (\<lambda>kvs. kvs) (JObj [(''type'', JStr ''chatgptAuthTokens''), (''Type'', JStr ''x'')]) ''type=chatgptAuthTokens'' \<and>
   \<not> variantPresent rev (JObj [(''type'', JStr ''chatgptAuthTokens''), (''Type'', JStr ''x'')]) ''type=chatgptAuthTokens''"
  by code_simp

end
