(* ===== verification/Client_Wire.thy ===== *)
theory Client_Wire
  imports Go_Codec
begin

text \<open>
  The JSON-RPC messages of \<open>go/appserver/client.go\<close>: request identities and the key that matches a
  response to its request, the requests and notifications the client writes, and the classification
  of what it reads. A message to write is the JSON value it holds; the escapes inside
  parameters that the caller rendered are not kept. What is read keeps the bytes of its members.
\<close>

section \<open>Integers\<close>

text \<open>\<open>strconv.ParseInt(s, 10, 64)\<close>.\<close>

definition parse_int :: "string \<Rightarrow> int option" where
  "parse_int s =
     (let negative = has_prefix s ''-'';
          t = (if negative \<or> has_prefix s ''+'' then drop 1 s else s)
      in case parse_uint t of None \<Rightarrow> None
         | Some n \<Rightarrow> if negative then (if n \<le> 2 ^ 63 then Some (- int n) else None)
                     else if n < 2 ^ 63 then Some (int n) else None)"

definition isJSONInteger :: "string \<Rightarrow> bool" where
  "isJSONInteger value =
     (if value = ''0'' \<or> value = ''-0'' then True
      else case value of [] \<Rightarrow> False
        | c # r \<Rightarrow>
            if c = CHR ''-'' then r \<noteq> [] \<and> hd r \<noteq> CHR ''0'' \<and> list_all is_digit r
            else in_range CHR ''1'' CHR ''9'' c \<and> list_all is_digit value)"

section \<open>Identities\<close>

text \<open>The dynamic types a request identity may have; every sized Go integer is \<open>IdInt\<close>.\<close>

datatype RequestID = IdString string | IdNumber string | IdInt "64 word" | IdRaw string | IdOther

definition decodeID :: "string \<Rightarrow> string + RequestID" where
  "decodeID raw =
     (case raw of [] \<Rightarrow> Inl ''JSON-RPC request ID is required''
      | c # _ \<Rightarrow>
        (case (if c = CHR 0x22 then parse_json raw else None) of
           Some (JStr s) \<Rightarrow> Inr (IdString s)
         | _ \<Rightarrow>
           if c \<noteq> CHR ''-'' \<and> \<not> is_digit c then Inl ''JSON-RPC request ID must be a string or signed integer''
           else if isJSONInteger raw \<and> parse_int raw \<noteq> None then Inr (IdNumber raw)
           else Inl ''JSON-RPC request ID must be a signed int64''))"

definition normalize_number :: "string \<Rightarrow> string + string" where
  "normalize_number n =
     (if \<not> isJSONInteger n then Inl ''JSON-RPC request ID must be a signed int64''
      else case parse_int n of None \<Rightarrow> Inl ''JSON-RPC request ID must be a signed int64''
        | Some i \<Rightarrow> Inr (decimal i))"

text \<open>A decoded identity is a string or a number, so the recursion of the code ends after one call.\<close>

definition normalizeID :: "RequestID \<Rightarrow> string + string" where
  "normalizeID v = (case v of
       IdString s \<Rightarrow> Inr (quote s)
     | IdNumber n \<Rightarrow> normalize_number n
     | IdInt w \<Rightarrow> Inr (decimal (sint w))
     | IdRaw raw \<Rightarrow> bindE (decodeID raw) (\<lambda>d. case d of
           IdString s \<Rightarrow> Inr (quote s)
         | IdNumber n \<Rightarrow> normalize_number n
         | _ \<Rightarrow> Inl ''JSON-RPC request ID must be a string or integer'')
     | IdOther \<Rightarrow> Inl ''JSON-RPC request ID must be a string or integer'')"

definition requestIDKey :: "RequestID \<Rightarrow> string + string" where
  "requestIDKey v = normalizeID v"

section \<open>Writing\<close>

text \<open>\<open>len(req.Params) != 0 && string(req.Params) != "null"\<close>, then a member of the map that \<open>json.Marshal\<close> sorts.\<close>

definition params_member :: "string \<Rightarrow> string + (string \<times> json) list" where
  "params_member params =
     (if params = '''' \<or> params = ''null'' then Inr []
      else case parse_json params of None \<Rightarrow> Inl ''json: error calling MarshalJSON for type json.RawMessage''
        | Some v \<Rightarrow> Inr [(''params'', v)])"

record RPCRequest =
  rq_id :: RequestID
  rq_method :: string
  rq_params :: string

record RPCNotification =
  nt_method :: string
  nt_params :: string

definition id_value :: "string \<Rightarrow> json" where
  "id_value key = (case parse_json key of Some v \<Rightarrow> v | None \<Rightarrow> JNull)"

definition marshalRequest :: "RPCRequest \<Rightarrow> string + json" where
  "marshalRequest q =
     bindE (check (rq_method q \<noteq> '''') ''JSON-RPC method is required'') (\<lambda>_.
     bindE (normalizeID (rq_id q)) (\<lambda>key.
     bindE (params_member (rq_params q)) (\<lambda>params.
     Inr (JObj ([(''id'', id_value key), (''method'', JStr (rq_method q))] @ params)))))"

definition marshalNotification :: "RPCNotification \<Rightarrow> string + json" where
  "marshalNotification n =
     bindE (check (nt_method n \<noteq> '''') ''JSON-RPC method is required'') (\<lambda>_.
     bindE (params_member (nt_params n)) (\<lambda>params.
     Inr (JObj ([(''method'', JStr (nt_method n))] @ params))))"

section \<open>Raw members\<close>

text \<open>
  A \<open>map[string]json.RawMessage\<close>: the members of an object with the bytes of each value as they stand.
  \<open>raw_value\<close> cuts the value at the front of a text that parses, \<open>d\<close> being the brackets still open.
\<close>

definition bracket :: "token \<Rightarrow> nat \<Rightarrow> nat" where
  "bracket t d = (if t = TOpenArr \<or> t = TOpenObj then Suc d else if t = TCloseArr \<or> t = TCloseObj then d - 1 else d)"

function raw_value :: "nat \<Rightarrow> string \<Rightarrow> (string \<times> string) option" where
  "raw_value d s = (case s of [] \<Rightarrow> None | c # r \<Rightarrow>
     if json_space c then map_option (apfst ((#) c)) (raw_value d r)
     else case lex_one s of None \<Rightarrow> None
       | Some (t, r') \<Rightarrow>
           (let piece = take (length s - length r') s in
            if bracket t d = 0 then Some (piece, r')
            else map_option (apfst ((@) piece)) (raw_value (bracket t d) r')))"
  by auto
termination
  by (relation "measure (\<lambda>(d, s). length s)") (auto dest: lex_one_len)

declare raw_value.simps [simp del]

definition skip_space :: "string \<Rightarrow> string" where
  "skip_space s = dropWhile json_space s"

text \<open>From inside the braces, \<open>n\<close> bounding the members; a repeated key replaces the member before.\<close>

fun raw_members :: "nat \<Rightarrow> string \<Rightarrow> (string \<times> string) list" where
  "raw_members 0 s = []"
| "raw_members (Suc n) s =
     (case lex_one (skip_space s) of
        Some (TStr k, r) \<Rightarrow>
          (case raw_value 0 (skip_space (drop 1 (skip_space r))) of
             None \<Rightarrow> []
           | Some (v, r') \<Rightarrow> raw_members n (drop 1 (skip_space r')) @ [(k, v)])
      | _ \<Rightarrow> [])"

definition raw_object :: "string \<Rightarrow> (string \<times> string) list option" where
  "raw_object payload = (case parse_json payload of
       Some (JObj kvs) \<Rightarrow> Some (raw_members (length kvs) (drop 1 (skip_space payload)))
     | Some JNull \<Rightarrow> Some []
     | _ \<Rightarrow> None)"

section \<open>Reading\<close>

record rpc_error =
  se_code :: int
  se_message :: string
  se_data :: "json option"
  se_raw :: string

text \<open>Parameters and results are raw, and empty where they are absent.\<close>

datatype message =
    MResponse RequestID string
  | MFailure RequestID rpc_error
  | MNotification string string
  | MRequest RequestID string string

text \<open>The pointers of the inner struct: \<open>null\<close> sets one to nil.\<close>

record server_error_fields =
  ef_code :: "int option"
  ef_message :: "string option"
  ef_data :: "json option"

fun into_int_pointer :: "(int option \<Rightarrow> 'r \<Rightarrow> 'r) \<Rightarrow> json \<Rightarrow> 'r \<Rightarrow> 'r option" where
  "into_int_pointer set_field (JNum s) r = map_option (\<lambda>i. set_field (Some i) r) (parse_int s)"
| "into_int_pointer set_field JNull r = Some (set_field None r)"
| "into_int_pointer set_field _ r = None"

fun into_string_pointer :: "(string option \<Rightarrow> 'r \<Rightarrow> 'r) \<Rightarrow> json \<Rightarrow> 'r \<Rightarrow> 'r option" where
  "into_string_pointer set_field (JStr s) r = Some (set_field (Some s) r)"
| "into_string_pointer set_field JNull r = Some (set_field None r)"
| "into_string_pointer set_field _ r = None"

definition rpc_error_fields :: "server_error_fields fields" where
  "rpc_error_fields =
     [(''code'', into_int_pointer (\<lambda>v r. r\<lparr>ef_code := v\<rparr>)),
      (''message'', into_string_pointer (\<lambda>v r. r\<lparr>ef_message := v\<rparr>)),
      (''data'', \<lambda>v r. Some (r\<lparr>ef_data := Some v\<rparr>))]"

definition decode_rpc_error :: "string \<Rightarrow> string + rpc_error" where
  "decode_rpc_error raw = (case parse_json raw of
       Some (JObj kvs) \<Rightarrow>
         (case decode_struct rpc_error_fields (JObj kvs) \<lparr>ef_code = None, ef_message = None, ef_data = None\<rparr> of
           None \<Rightarrow> Inl ''error: json: cannot unmarshal''
         | Some e \<Rightarrow> (case (ef_code e, ef_message e) of
               (Some c, Some m) \<Rightarrow> Inr \<lparr>se_code = c, se_message = m, se_data = ef_data e, se_raw = raw\<rparr>
             | _ \<Rightarrow> Inl ''JSON-RPC error requires code and message''))
     | _ \<Rightarrow> Inl ''JSON-RPC error must be an object'')"

text \<open>\<open>obj[key]\<close>, empty where it is absent, as the zero \<open>RawMessage\<close> is.\<close>

definition raw_or_nil :: "(string \<times> string) list \<Rightarrow> string \<Rightarrow> string" where
  "raw_or_nil obj k = (case map_of obj k of None \<Rightarrow> '''' | Some v \<Rightarrow> v)"

definition decode_call :: "(string \<times> string) list \<Rightarrow> string \<Rightarrow> string + message" where
  "decode_call obj methodRaw =
     bindE (check (map_of obj ''result'' = None) ''JSON-RPC request/notification cannot contain result'') (\<lambda>_.
     bindE (check (map_of obj ''error'' = None) ''JSON-RPC request/notification cannot contain error'') (\<lambda>_.
     case parse_json methodRaw of
       Some (JStr m) \<Rightarrow> (case map_of obj ''id'' of
           Some v \<Rightarrow> bindE (decodeID v) (\<lambda>i. Inr (MRequest i m (raw_or_nil obj ''params'')))
         | None \<Rightarrow> Inr (MNotification m (raw_or_nil obj ''params'')))
     | _ \<Rightarrow> Inl ''JSON-RPC method must be a string''))"

definition decode_response :: "(string \<times> string) list \<Rightarrow> string + message" where
  "decode_response obj = (case map_of obj ''id'' of
       None \<Rightarrow> Inl ''JSON-RPC message has neither method nor id''
     | Some v \<Rightarrow>
         bindE (check ((map_of obj ''result'' \<noteq> None) \<noteq> (map_of obj ''error'' \<noteq> None))
           ''JSON-RPC response must contain exactly one of result or error'') (\<lambda>_.
         bindE (decodeID v) (\<lambda>i.
         case map_of obj ''error'' of
           Some raw \<Rightarrow> bindE (decode_rpc_error raw) (\<lambda>e. Inr (MFailure i e))
         | None \<Rightarrow> Inr (MResponse i (raw_or_nil obj ''result'')))))"

definition decodeMessage :: "string \<Rightarrow> string + message" where
  "decodeMessage payload = (case raw_object payload of
       None \<Rightarrow> Inl ''json: cannot unmarshal''
     | Some obj \<Rightarrow> (case map_of obj ''method'' of
           Some m \<Rightarrow> decode_call obj m
         | None \<Rightarrow> decode_response obj))"

section \<open>Laws\<close>

lemma decimal_nat_head: "0 < n \<Longrightarrow> hd (decimal_nat n) \<noteq> CHR ''0''"
proof (induction n rule: decimal_nat.induct)
  case (1 n)
  show ?case
  proof (cases "n < 10")
    case True
    with 1(2) have "n \<in> {1..9}" by auto
    then have "n = 1 \<or> n = 2 \<or> n = 3 \<or> n = 4 \<or> n = 5 \<or> n = 6 \<or> n = 7 \<or> n = 8 \<or> n = 9" by auto
    then show ?thesis using True by (subst decimal_nat.simps) (auto simp: char_of_eq_iff)
  next
    case False
    with 1 have "hd (decimal_nat (n div 10)) \<noteq> CHR ''0''" by simp
    moreover have "decimal_nat (n div 10) \<noteq> []" using decimal_nat_digits by blast
    ultimately show ?thesis using False by (subst decimal_nat.simps) simp
  qed
qed

lemma decimal_nat_0 [simp]: "decimal_nat 0 = ''0''"
  by (subst decimal_nat.simps) (simp add: char_of_eq_iff)

lemma parse_uint_decimal_nat: "n < 2 ^ 64 \<Longrightarrow> parse_uint (decimal_nat n) = Some n"
  using decimal_nat_digits[of n] decimal_nat_value[of n] by (simp add: parse_uint_def Let_def)

lemma digit_not_sign: "is_digit c \<Longrightarrow> c \<noteq> CHR ''-'' \<and> c \<noteq> CHR ''+'' \<and> c \<noteq> CHR 0x22"
  by (auto simp: is_digit_def in_range_def)

lemma decimal_nat_Cons: obtains c r where "decimal_nat n = c # r" "is_digit c" "list_all is_digit r"
  using decimal_nat_digits[of n] by (cases "decimal_nat n") auto

lemma parse_int_decimal: "- (2 ^ 63) \<le> i \<Longrightarrow> i < 2 ^ 63 \<Longrightarrow> parse_int (decimal i) = Some i"
proof (cases "i < 0")
  case True
  assume "- (2 ^ 63) \<le> i"
  with True have "nat (- i) \<le> 2 ^ 63" by (simp add: nat_le_iff)
  then show ?thesis using True by (simp add: parse_int_def decimal_def has_prefix_def parse_uint_decimal_nat)
next
  case False
  assume "i < 2 ^ 63"
  with False have "nat i < 2 ^ 63" by (simp add: nat_less_iff)
  then have p: "parse_uint (decimal_nat (nat i)) = Some (nat i)" by (simp add: parse_uint_decimal_nat)
  obtain c r where "decimal_nat (nat i) = c # r" "is_digit c" by (rule decimal_nat_Cons)
  then show ?thesis using False p \<open>nat i < 2 ^ 63\<close> digit_not_sign[of c]
    by (simp add: parse_int_def decimal_def has_prefix_def)
qed

lemma isJSONInteger_decimal: "isJSONInteger (decimal i)"
proof (cases "i = 0")
  case True
  then show ?thesis by (simp add: isJSONInteger_def decimal_def)
next
  case False
  obtain c r where d: "decimal_nat (nat \<bar>i\<bar>) = c # r" "is_digit c" "list_all is_digit r" by (rule decimal_nat_Cons)
  moreover have "c \<noteq> CHR ''0''" using decimal_nat_head[of "nat \<bar>i\<bar>"] False d by simp
  then have "byte c \<noteq> 48" using byte_eq[of c "CHR ''0''"] by (simp add: byte_def)
  then have "in_range CHR ''1'' CHR ''9'' c" using d(2)
    by (auto simp: is_digit_def in_range_def byte_def)
  ultimately show ?thesis using False digit_not_sign[of c] \<open>c \<noteq> CHR ''0''\<close>
    by (cases "i < 0") (auto simp: isJSONInteger_def decimal_def)
qed

lemma decodeID_decimal: "- (2 ^ 63) \<le> i \<Longrightarrow> i < 2 ^ 63 \<Longrightarrow> decodeID (decimal i) = Inr (IdNumber (decimal i))"
proof -
  assume b: "- (2 ^ 63) \<le> i" "i < 2 ^ 63"
  obtain c r where d: "decimal_nat (nat \<bar>i\<bar>) = c # r" "is_digit c" by (rule decimal_nat_Cons)
  then obtain x y where "decimal i = x # y" "x = CHR ''-'' \<or> is_digit x" "x \<noteq> CHR 0x22"
    using digit_not_sign[of c] by (cases "i < 0") (auto simp: decimal_def)
  then show ?thesis using parse_int_decimal[OF b] isJSONInteger_decimal[of i] by (auto simp: decodeID_def)
qed

lemma decodeID_quote: "utf8_valid s \<Longrightarrow> decodeID (quote s) = Inr (IdString s)"
  using parse_render[of "JStr s"] by (simp add: decodeID_def quote_def max_depth_def)

lemma parse_int_range: "parse_int s = Some i \<Longrightarrow> - (2 ^ 63) \<le> i \<and> i < 2 ^ 63"
  by (auto simp: parse_int_def Let_def split: option.splits if_splits)

text \<open>A string identity that the client writes as it is; the rest of a string is replaced on the wire.\<close>

definition wire_exact :: "RequestID \<Rightarrow> bool" where
  "wire_exact v = (case v of IdString s \<Rightarrow> utf8_valid s
     | IdRaw raw \<Rightarrow> (case decodeID raw of Inr (IdString s) \<Rightarrow> utf8_valid s | _ \<Rightarrow> True) | _ \<Rightarrow> True)"

lemma normalize_number_decimal: "normalize_number n = Inr k \<Longrightarrow> \<exists>i. k = decimal i \<and> - (2 ^ 63) \<le> i \<and> i < 2 ^ 63"
  using parse_int_range by (fastforce simp: normalize_number_def split: if_splits option.splits)

lemma key_shape: "requestIDKey v = Inr k \<Longrightarrow> wire_exact v \<Longrightarrow>
   (\<exists>s. k = quote s \<and> utf8_valid s) \<or> (\<exists>i. k = decimal i \<and> - (2 ^ 63) \<le> i \<and> i < 2 ^ 63)"
proof -
  have w: "- (2 ^ 63) \<le> sint w \<and> sint w < 2 ^ 63" for w :: "64 word"
    using sint_ge[of w] sint_lt[of w] by simp
  assume "requestIDKey v = Inr k" "wire_exact v"
  then show ?thesis using w
    by (auto simp: requestIDKey_def normalizeID_def wire_exact_def bindE_def dest: normalize_number_decimal
      split: RequestID.splits sum.splits)
qed

lemma key_of_key: "(\<exists>s. k = quote s \<and> utf8_valid s) \<or> (\<exists>i. k = decimal i \<and> - (2 ^ 63) \<le> i \<and> i < 2 ^ 63) \<Longrightarrow>
   \<exists>v. decodeID k = Inr v \<and> requestIDKey v = Inr k"
  using decodeID_quote decodeID_decimal parse_int_decimal isJSONInteger_decimal
  by (fastforce simp: requestIDKey_def normalizeID_def normalize_number_def)

end
