(* ===== verification/Go_Fields.thy ===== *)
theory Go_Fields
  imports Go_Strings
begin

text \<open>\<open>strings.Fields\<close>: the maximal runs between Unicode white space. \<open>cur\<close> is the field read so far, reversed.\<close>

function fields_from :: "string \<Rightarrow> string \<Rightarrow> string list" where
  "fields_from cur s =
     (case s of [] \<Rightarrow> (if cur = [] then [] else [rev cur])
      | c # r \<Rightarrow> (case find (has_prefix s) white_space of
            Some w \<Rightarrow> (if cur = [] then [] else [rev cur]) @ fields_from [] (drop (length w) s)
          | None \<Rightarrow> fields_from (c # cur) r))"
  by auto
termination
  by (relation "measure (\<lambda>(cur, s). length s)") (auto dest: find_white_space)

declare fields_from.simps [simp del]

definition go_fields :: "string \<Rightarrow> string list" where
  "go_fields s = fields_from [] s"

end
