(* ===== verification/Client.thy ===== *)
theory Client
  imports Client_Wire Go_Fields Service_Ports "HOL-Library.AList"
begin

text \<open>
  The connection of \<open>go/appserver/client.go\<close>: one pump that alone writes and dispatches, one reader, any
  number of callers, notifiers and consumers of events. A turn is one critical section or channel operation
  of one goroutine with its local work; the order of turns, the transport and the contexts are up to
  the environment, which is the argument of \<open>step\<close>.
\<close>

section \<open>Data\<close>

text \<open>What a call ends with. A result or server error carries the evidence of the write.\<close>

record call_error =
  ce_text :: string
  ce_server :: "rpc_error option"
  ce_phase :: WritePhase
  ce_canceled :: bool

type_synonym call_outcome = "call_error + RequestID \<times> string \<times> WritePhase"

record cancel_outcome =
  co_phase :: WritePhase
  co_ok :: bool
  co_completed :: bool
  co_failed :: bool

text \<open>Callers, notifiers and acknowledgments are named by numbers; the channels of a command are the slots of these names.\<close>

datatype command = CmdRequest nat string RPCRequest | CmdNotify nat RPCNotification | CmdCancel nat string | CmdClose

datatype FrameType = FrameText | FrameBinary | FramePing | FramePong | FrameClose

record read_result =
  rr_type :: FrameType
  rr_payload :: string
  rr_err :: "string option"
  rr_bytes :: int

datatype event =
    EventNotification string string
  | EventServerRequest RequestID string string
  | EventGap nat
  | EventDisconnected string

record Options =
  op_event_capacity :: nat
  op_writer_capacity :: nat
  op_read_budget :: int
  op_event_budget :: int

text \<open>Where the goroutines are.\<close>

datatype pump_at =
    PumpIdle
  | PumpTaken nat string RPCRequest
  | PumpUnmarked nat string RPCRequest
  | PumpCleared nat string RPCRequest
  | PumpWriting nat string
  | PumpNotifying nat
  | PumpFinishing string
  | PumpResolving string
  | PumpDraining string
  | PumpEvicting string nat
  | PumpLast
  | PumpEnded

datatype reader_at = ReaderReading | ReaderBlocked string bool | ReaderEnded

datatype caller_at =
    Enqueueing
  | WaitingForSpace
  | Awaiting
  | Withdrawing
  | Checking
  | Cancelling
  | AwaitingAck
  | Concluding cancel_outcome
  | Returned call_outcome

datatype notifier_at = NEnqueueing | NWaitingForSpace | NAwaiting | NReturned "string option"

record client =
  commands :: "command list"
  command_space :: bool
  reads :: "read_result list"
  stream :: "event list"
  done_closed :: bool
  closed :: bool
  accepting :: bool
  transport_closed :: bool
  reserved :: "string set"
  withdrawn :: "string set"
  queued_keys :: "string set"
  retired :: "string set"
  completed :: "(string \<times> WritePhase) list"
  active :: "(string \<times> bool) option"
  read_bytes :: int
  event_bytes :: int
  initialized :: bool
  pending :: "(string \<times> nat \<times> WritePhase) list"
  dropped :: nat
  pump :: pump_at
  reader :: reader_at
  callers :: "nat \<Rightarrow> (RPCRequest \<times> caller_at) option"
  notifiers :: "nat \<Rightarrow> (RPCNotification \<times> notifier_at) option"
  results :: "nat \<Rightarrow> call_outcome option"
  acks :: "nat \<Rightarrow> cancel_outcome option"
  notify_done :: "nat \<Rightarrow> string option option"
  holding :: "int list"

text \<open>
  What the outside has seen: the calls whose payload entered \<open>Transport.Write\<close>, those of which the
  transport itself reported a phase, the responses read, the events offered to the stream and those a
  consumer took.
\<close>

record trace = client +
  handed :: "nat list"
  disowned :: "nat list"
  answered :: "(string \<times> (rpc_error + RequestID \<times> string)) list"
  offered :: "event list"
  taken :: "event list"

section \<open>Small parts\<close>

definition defaultMaxFrameBytes :: int where
  "defaultMaxFrameBytes = 16 * 2 ^ 20"

text \<open>\<open>errClientClosed\<close> is \<open>io.ErrClosedPipe\<close>.\<close>

definition errClientClosed :: string where
  "errClientClosed = ''io: read/write on closed pipe''"

definition errReadOverflow :: string where
  "errReadOverflow = ''transport read queue overflow''"

definition errReadByteBudget :: string where
  "errReadByteBudget = ''raw frame byte budget exceeded''"

definition errFrameTooLarge :: string where
  "errFrameTooLarge = ''WebSocket frame exceeds app-server limit''"

text \<open>The identity counts as \<open>json.Marshal\<close> renders it, a number as it was read.\<close>

definition eventPayloadBytes :: "event \<Rightarrow> int" where
  "eventPayloadBytes e = (case e of
       EventNotification m params \<Rightarrow> int (length m + length params)
     | EventServerRequest i m params \<Rightarrow>
         int (length m + length params + (case i of IdNumber n \<Rightarrow> length n
            | _ \<Rightarrow> (case normalizeID i of Inr k \<Rightarrow> length k | Inl _ \<Rightarrow> 0)))
     | _ \<Rightarrow> 0)"

definition reserveEventBytes :: "Options \<Rightarrow> int \<Rightarrow> 'a client_scheme \<Rightarrow> 'a client_scheme option" where
  "reserveEventBytes opts bytes c =
     (if bytes < 0 \<or> op_event_budget opts - event_bytes c < bytes then None
      else Some (c\<lparr>event_bytes := event_bytes c + bytes\<rparr>))"

definition releaseEventBytes :: "int \<Rightarrow> 'a client_scheme \<Rightarrow> 'a client_scheme" where
  "releaseEventBytes bytes c =
     (if bytes \<le> 0 then c else c\<lparr>event_bytes := max 0 (event_bytes c - bytes)\<rparr>)"

definition reserveReadBytes :: "Options \<Rightarrow> int \<Rightarrow> 'a client_scheme \<Rightarrow> 'a client_scheme option" where
  "reserveReadBytes opts bytes c =
     (if bytes < 0 \<or> op_read_budget opts - read_bytes c < bytes then None
      else Some (c\<lparr>read_bytes := read_bytes c + bytes\<rparr>))"

definition releaseReadBytes :: "int \<Rightarrow> 'a client_scheme \<Rightarrow> 'a client_scheme" where
  "releaseReadBytes bytes c =
     (if bytes \<le> 0 then c else c\<lparr>read_bytes := max 0 (read_bytes c - bytes)\<rparr>)"

definition release :: "string \<Rightarrow> 'a client_scheme \<Rightarrow> 'a client_scheme" where
  "release key c = c\<lparr>reserved := reserved c - {key}, withdrawn := withdrawn c - {key}, queued_keys := queued_keys c - {key}\<rparr>"

definition completeReservation :: "string \<Rightarrow> WritePhase \<Rightarrow> 'a client_scheme \<Rightarrow> 'a client_scheme" where
  "completeReservation key phase c =
     release key (c\<lparr>completed := AList.update key phase (completed c), retired := insert key (retired c)\<rparr>)"

definition releaseUnknownReservation :: "string \<Rightarrow> bool \<Rightarrow> 'a client_scheme \<Rightarrow> 'a client_scheme" where
  "releaseUnknownReservation key retire c =
     release key (if retire then c\<lparr>retired := insert key (retired c)\<rparr> else c)"

definition forgetCompleted :: "string \<Rightarrow> 'a client_scheme \<Rightarrow> 'a client_scheme" where
  "forgetCompleted key c = c\<lparr>completed := AList.delete key (completed c)\<rparr>"

definition send_result :: "nat \<Rightarrow> call_outcome \<Rightarrow> 'a client_scheme \<Rightarrow> 'a client_scheme" where
  "send_result i out c = c\<lparr>results := (results c)(i := Some out)\<rparr>"

definition call_failed :: "string \<Rightarrow> bool \<Rightarrow> WritePhase \<Rightarrow> call_outcome" where
  "call_failed err canceled phase = Inl \<lparr>ce_text = err, ce_server = None, ce_phase = phase, ce_canceled = canceled\<rparr>"

definition at_least_proven :: "WritePhase \<Rightarrow> WritePhase" where
  "at_least_proven phase = (if phase = WriteNotStarted then WriteProvenBeforeWrite else phase)"

definition set_caller :: "nat \<Rightarrow> RPCRequest \<Rightarrow> caller_at \<Rightarrow> 'a client_scheme \<Rightarrow> 'a client_scheme" where
  "set_caller i req a c = c\<lparr>callers := (callers c)(i := Some (req, a))\<rparr>"

definition set_notifier :: "nat \<Rightarrow> RPCNotification \<Rightarrow> notifier_at \<Rightarrow> 'a client_scheme \<Rightarrow> 'a client_scheme" where
  "set_notifier i n a c = c\<lparr>notifiers := (notifiers c)(i := Some (n, a))\<rparr>"

text \<open>The key of a request that passed \<open>requestIDKey\<close>.\<close>

definition key_of :: "RPCRequest \<Rightarrow> string" where
  "key_of req = (case requestIDKey (rq_id req) of Inr k \<Rightarrow> k | Inl _ \<Rightarrow> '''')"

definition cancelActiveWrite :: "'a client_scheme \<Rightarrow> 'a client_scheme" where
  "cancelActiveWrite c = (if active c = None then c else c\<lparr>transport_closed := True\<rparr>)"

definition New :: trace where
  "New = \<lparr>commands = [], command_space = False, reads = [], stream = [], done_closed = False, closed = False, accepting = True,
     transport_closed = False, reserved = {}, withdrawn = {}, queued_keys = {}, retired = {}, completed = [],
     active = None, read_bytes = 0, event_bytes = 0, initialized = False, pending = [], dropped = 0,
     pump = PumpIdle, reader = ReaderReading, callers = (\<lambda>_. None), notifiers = (\<lambda>_. None),
     results = (\<lambda>_. None), acks = (\<lambda>_. None), notify_done = (\<lambda>_. None), holding = [],
     handed = [], disowned = [], answered = [], offered = [], taken = []\<rparr>"

section \<open>Callers\<close>

text \<open>\<open>Call\<close> and \<open>call\<close> up to the reservation; \<open>err\<close> is the error of the context, if it has ended.\<close>

definition start_call :: "nat \<Rightarrow> RPCRequest \<Rightarrow> string option \<Rightarrow> trace \<Rightarrow> trace option" where
  "start_call i req err c =
     (if callers c i \<noteq> None then None
      else if rq_method req \<noteq> ''initialize'' \<and> \<not> initialized c then
        Some (set_caller i req (Returned (call_failed ''app-server client is not initialized'' False WriteProvenBeforeWrite)) c)
      else case err of
        Some e \<Rightarrow> Some (set_caller i req (Returned (call_failed e True WriteProvenBeforeWrite)) c)
      | None \<Rightarrow> (case requestIDKey (rq_id req) of
          Inl e \<Rightarrow> Some (set_caller i req (Returned (call_failed e False WriteProvenBeforeWrite)) c)
        | Inr key \<Rightarrow>
            if key \<in> reserved c then
              Some (set_caller i req (Returned (call_failed (''duplicate request id '' @ key) False WriteProvenBeforeWrite)) c)
            else if key \<in> retired c then
              Some (set_caller i req (Returned (call_failed
                (''request id '' @ key @ '' was already completed on this connection'') False WriteProvenBeforeWrite)) c)
            else Some (set_caller i req Enqueueing (c\<lparr>reserved := insert key (reserved c)\<rparr>))))"

text \<open>One round of \<open>enqueue\<close>: the marker is published before the send and taken back when the queue is full.\<close>

definition enqueue_call :: "Options \<Rightarrow> nat \<Rightarrow> trace \<Rightarrow> trace option" where
  "enqueue_call opts i c = (case callers c i of
       Some (req, Enqueueing) \<Rightarrow>
         (let key = key_of req in
          if \<not> accepting c then
            Some (set_caller i req (Returned (call_failed errClientClosed False WriteProvenBeforeWrite)) (release key c))
          else if length (commands c) < op_writer_capacity opts then
            Some (set_caller i req Awaiting
              (c\<lparr>queued_keys := insert key (queued_keys c), commands := commands c @ [CmdRequest i key req]\<rparr>))
          else Some (set_caller i req WaitingForSpace (c\<lparr>queued_keys := queued_keys c - {key}\<rparr>)))
     | _ \<Rightarrow> None)"

text \<open>The wait of \<open>enqueue\<close>: space, the end of the context, or the end of the connection.\<close>

datatype waited = Space | CtxDone string | ClosedSeen

definition wait_space :: "nat \<Rightarrow> waited \<Rightarrow> trace \<Rightarrow> trace option" where
  "wait_space i w c = (case callers c i of
       Some (req, WaitingForSpace) \<Rightarrow> (case w of
           Space \<Rightarrow> if command_space c then Some (set_caller i req Enqueueing (c\<lparr>command_space := False\<rparr>)) else None
         | CtxDone e \<Rightarrow> Some (set_caller i req (Returned (call_failed e True WriteProvenBeforeWrite)) (release (key_of req) c))
         | ClosedSeen \<Rightarrow>
             if closed c then
               Some (set_caller i req (Returned (call_failed errClientClosed False WriteProvenBeforeWrite)) (release (key_of req) c))
             else None)
     | _ \<Rightarrow> None)"

text \<open>Receiving from the result channel.\<close>

definition take_result :: "nat \<Rightarrow> RPCRequest \<Rightarrow> trace \<Rightarrow> trace option" where
  "take_result i req c = (case results c i of
       None \<Rightarrow> None
     | Some out \<Rightarrow> Some (set_caller i req (Returned out) (forgetCompleted (key_of req) (c\<lparr>results := (results c)(i := None)\<rparr>))))"

text \<open>The final select of \<open>call\<close>: a buffered result always wins.\<close>

definition await :: "nat \<Rightarrow> waited \<Rightarrow> trace \<Rightarrow> trace option" where
  "await i w c = (case callers c i of
       Some (req, Awaiting) \<Rightarrow> (case take_result i req c of
           Some c' \<Rightarrow> Some c'
         | None \<Rightarrow> (case w of
             Space \<Rightarrow> None
           | CtxDone e \<Rightarrow> Some (set_caller i req Withdrawing c)
           | ClosedSeen \<Rightarrow>
               if closed c then Some (set_caller i req (Returned (call_failed errClientClosed False WriteMayHaveWritten)) c)
               else None))
     | _ \<Rightarrow> None)"

text \<open>\<open>withdraw\<close>: mark the key, then cancel an active write or ask the pump.\<close>

definition withdraw_mark :: "nat \<Rightarrow> trace \<Rightarrow> trace option" where
  "withdraw_mark i c = (case callers c i of
       Some (req, Withdrawing) \<Rightarrow>
         (let key = key_of req; c' = c\<lparr>withdrawn := insert key (withdrawn c)\<rparr> in
          if key \<in> queued_keys c then
            Some (set_caller i req (Concluding \<lparr>co_phase = WriteProvenBeforeWrite, co_ok = True, co_completed = False, co_failed = False\<rparr>) c')
          else Some (set_caller i req Checking c'))
     | _ \<Rightarrow> None)"

definition closed_cancel :: cancel_outcome where
  "closed_cancel = \<lparr>co_phase = WriteMayHaveWritten, co_ok = False, co_completed = False, co_failed = True\<rparr>"

definition withdraw_active :: "nat \<Rightarrow> trace \<Rightarrow> trace option" where
  "withdraw_active i c = (case callers c i of
       Some (req, Checking) \<Rightarrow>
         if active c = None then Some (set_caller i req Cancelling c)
         else Some (set_caller i req (Concluding \<lparr>co_phase = WriteMayHaveWritten, co_ok = False, co_completed = False, co_failed = False\<rparr>)
           (cancelActiveWrite c))
     | _ \<Rightarrow> None)"

text \<open>
  The send of the cancellation, by the caller or by the goroutine it leaves behind, waits for room in the
  queue and gives up when the connection has closed.
\<close>

definition withdraw_send :: "Options \<Rightarrow> nat \<Rightarrow> trace \<Rightarrow> trace option" where
  "withdraw_send opts i c = (case callers c i of
       Some (req, Cancelling) \<Rightarrow>
         if length (commands c) < op_writer_capacity opts then
           Some (set_caller i req AwaitingAck (c\<lparr>commands := commands c @ [CmdCancel i (key_of req)]\<rparr>))
         else None
     | _ \<Rightarrow> None)"

definition withdraw_closed :: "nat \<Rightarrow> trace \<Rightarrow> trace option" where
  "withdraw_closed i c = (case callers c i of
       Some (req, a) \<Rightarrow> if closed c \<and> a \<in> {Cancelling, AwaitingAck} then Some (set_caller i req (Concluding closed_cancel) c) else None
     | _ \<Rightarrow> None)"

definition withdraw_ack :: "nat \<Rightarrow> trace \<Rightarrow> trace option" where
  "withdraw_ack i c = (case callers c i of
       Some (req, AwaitingAck) \<Rightarrow> (case acks c i of
           Some out \<Rightarrow> Some (set_caller i req (Concluding out) (c\<lparr>acks := (acks c)(i := None)\<rparr>))
         | None \<Rightarrow> None)
     | _ \<Rightarrow> None)"

text \<open>The end of a canceled call; \<open>e\<close> is the error of its context.\<close>

definition conclude :: "nat \<Rightarrow> string \<Rightarrow> trace \<Rightarrow> trace option" where
  "conclude i e c = (case callers c i of
       Some (req, Concluding out) \<Rightarrow> (case take_result i req c of
           Some c' \<Rightarrow> Some c'
         | None \<Rightarrow>
             if co_failed out then Some (set_caller i req (Returned (call_failed errClientClosed True WriteMayHaveWritten)) c)
             else Some (set_caller i req (Returned (call_failed e True (at_least_proven (co_phase out)))) c))
     | _ \<Rightarrow> None)"

section \<open>Notifications\<close>

definition start_notify :: "nat \<Rightarrow> RPCNotification \<Rightarrow> trace \<Rightarrow> trace option" where
  "start_notify i n c = (if notifiers c i \<noteq> None then None else Some (set_notifier i n NEnqueueing c))"

definition enqueue_notify :: "Options \<Rightarrow> nat \<Rightarrow> trace \<Rightarrow> trace option" where
  "enqueue_notify opts i c = (case notifiers c i of
       Some (n, NEnqueueing) \<Rightarrow>
         if \<not> accepting c then Some (set_notifier i n (NReturned (Some errClientClosed)) c)
         else if length (commands c) < op_writer_capacity opts then
           Some (set_notifier i n NAwaiting (c\<lparr>commands := commands c @ [CmdNotify i n]\<rparr>))
         else Some (set_notifier i n NWaitingForSpace c)
     | _ \<Rightarrow> None)"

definition await_notify :: "nat \<Rightarrow> waited \<Rightarrow> trace \<Rightarrow> trace option" where
  "await_notify i w c = (case notifiers c i of
       Some (n, NWaitingForSpace) \<Rightarrow> (case w of
           Space \<Rightarrow> if command_space c then Some (set_notifier i n NEnqueueing (c\<lparr>command_space := False\<rparr>)) else None
         | CtxDone e \<Rightarrow> Some (set_notifier i n (NReturned (Some e)) c)
         | ClosedSeen \<Rightarrow> if closed c then Some (set_notifier i n (NReturned (Some errClientClosed)) c) else None)
     | Some (n, NAwaiting) \<Rightarrow> (case w of
           Space \<Rightarrow> (case notify_done c i of
               Some r \<Rightarrow> Some (set_notifier i n (NReturned r) (c\<lparr>notify_done := (notify_done c)(i := None)\<rparr>))
             | None \<Rightarrow> None)
         | CtxDone e \<Rightarrow> Some (set_notifier i n (NReturned (Some e)) (cancelActiveWrite c))
         | ClosedSeen \<Rightarrow> if closed c then Some (set_notifier i n (NReturned (Some errClientClosed)) c) else None)
     | _ \<Rightarrow> None)"

section \<open>The reader\<close>

text \<open>
  One round of \<open>readLoop\<close> on a frame. \<open>observed\<close> is the answer of the inbound observer, \<open>stop\<close> the choice of
  the select when both the queue has room and the connection is done. A full queue blocks the
  publication of an error until the pump makes room.
\<close>

definition read_capacity :: "Options \<Rightarrow> nat" where
  "read_capacity opts = max (op_event_capacity opts) 64"

definition reader_fails :: "string \<Rightarrow> trace \<Rightarrow> trace" where
  "reader_fails err c = c\<lparr>reader := ReaderBlocked err False\<rparr>"

definition read_frame :: "Options \<Rightarrow> FrameType \<Rightarrow> string \<Rightarrow> string option \<Rightarrow> bool \<Rightarrow> trace \<Rightarrow> trace option" where
  "read_frame opts t payload observed stop c =
     (if reader c \<noteq> ReaderReading then None
      else let bytes = int (length payload) in
        if defaultMaxFrameBytes < bytes then Some (reader_fails errFrameTooLarge c)
        else case reserveReadBytes opts bytes c of
          None \<Rightarrow> Some (reader_fails errReadByteBudget c)
        | Some c' \<Rightarrow> (case observed of
            Some e \<Rightarrow> Some (reader_fails e c')
          | None \<Rightarrow>
              if stop \<and> done_closed c then Some ((releaseReadBytes bytes c')\<lparr>reader := ReaderEnded\<rparr>)
              else if length (reads c) < read_capacity opts then
                Some (c'\<lparr>reads := reads c @ [\<lparr>rr_type = t, rr_payload = payload, rr_err = None, rr_bytes = bytes\<rparr>]\<rparr>)
              else if done_closed c then Some ((releaseReadBytes bytes c')\<lparr>reader := ReaderEnded\<rparr>)
              else Some (reader_fails errReadOverflow (releaseReadBytes bytes c'))))"

text \<open>
  The publication of the reader's last error. An error of the transport gives up after a second, the others
  when the connection is done.
\<close>

definition reader_publish :: "Options \<Rightarrow> bool \<Rightarrow> trace \<Rightarrow> trace option" where
  "reader_publish opts give_up c = (case reader c of
       ReaderBlocked err timed \<Rightarrow>
         if give_up \<and> (timed \<or> done_closed c) then Some (c\<lparr>reader := ReaderEnded\<rparr>)
         else if length (reads c) < read_capacity opts then
           Some (c\<lparr>reads := reads c @ [\<lparr>rr_type = FrameText, rr_payload = '''', rr_err = Some err, rr_bytes = 0\<rparr>], reader := ReaderEnded\<rparr>)
         else None
     | _ \<Rightarrow> None)"

section \<open>Events\<close>

definition event_room :: "Options \<Rightarrow> trace \<Rightarrow> bool" where
  "event_room opts c = (length (stream c) < op_event_capacity opts + 2)"

text \<open>\<open>deliver\<close>: \<open>False\<close> when the event was dropped.\<close>

definition deliver_event :: "Options \<Rightarrow> event \<Rightarrow> trace \<Rightarrow> bool \<times> trace" where
  "deliver_event opts e c = (case reserveEventBytes opts (eventPayloadBytes e) c of
       None \<Rightarrow> (False, c\<lparr>dropped := dropped c + 1\<rparr>)
     | Some c' \<Rightarrow>
         if event_room opts c then (True, c'\<lparr>stream := stream c @ [e]\<rparr>)
         else (False, (releaseEventBytes (eventPayloadBytes e) c')\<lparr>dropped := dropped c + 1\<rparr>))"

definition deliverWithGap :: "Options \<Rightarrow> event \<Rightarrow> trace \<Rightarrow> bool \<times> trace" where
  "deliverWithGap opts e c =
     (if 0 < dropped c then
        (if event_room opts c then deliver_event opts e (c\<lparr>stream := stream c @ [EventGap (dropped c)], dropped := 0\<rparr>)
         else (False, c\<lparr>dropped := dropped c + 1\<rparr>))
      else deliver_event opts e c)"

text \<open>\<open>NextEvent\<close> takes the front of the stream and releases its bytes in a further critical section.\<close>

definition next_event :: "trace \<Rightarrow> trace option" where
  "next_event c = (case stream c of
       [] \<Rightarrow> None
     | e # es \<Rightarrow> Some (c\<lparr>stream := es, taken := taken c @ [e], holding := holding c @ [eventPayloadBytes e]\<rparr>))"

definition release_event :: "trace \<Rightarrow> trace option" where
  "release_event c = (case holding c of
       [] \<Rightarrow> None
     | bytes # rest \<Rightarrow> Some (releaseEventBytes bytes (c\<lparr>holding := rest\<rparr>)))"

section \<open>The pump\<close>

definition finishing :: "string \<Rightarrow> trace \<Rightarrow> trace" where
  "finishing err c = c\<lparr>pump := PumpFinishing err\<rparr>"

text \<open>A cancellation of a written request closes the generation.\<close>

definition canceled_after_write :: string where
  "canceled_after_write = ''request canceled after write; outcome unknown''"

definition handle_cancel :: "nat \<Rightarrow> string \<Rightarrow> trace \<Rightarrow> trace" where
  "handle_cancel a key c =
     (let ack = (\<lambda>phase ok completed c. c\<lparr>acks := (acks c)(a := Some \<lparr>co_phase = phase, co_ok = ok, co_completed = completed, co_failed = False\<rparr>)\<rparr>)
      in case map_of (pending c) key of
        Some (i, phase) \<Rightarrow>
          (let c' = c\<lparr>pending := AList.delete key (pending c)\<rparr> in
           if phase = WriteNotStarted then ack WriteProvenBeforeWrite True False (release key c')
           else finishing canceled_after_write
             (ack WriteMayHaveWritten False False (releaseUnknownReservation key True c')))
      | None \<Rightarrow> (case map_of (completed c) key of
          Some phase \<Rightarrow> forgetCompleted key (ack phase False True c)
        | None \<Rightarrow> ack WriteProvenBeforeWrite True False (if key \<in> queued_keys c then c else release key c)))"

text \<open>
  The answer of the outbound observer and of the transport: \<open>nil\<close>, an error, or a \<open>WriteFailure\<close> that
  reports its own phase.
\<close>

datatype write_answer = Written | PlainError string | ReportedError string WritePhase

definition answer_phase :: "WritePhase \<Rightarrow> write_answer \<Rightarrow> WritePhase" where
  "answer_phase phase a = (case a of ReportedError _ p \<Rightarrow> p | _ \<Rightarrow> phase)"

definition answer_text :: "write_answer \<Rightarrow> string" where
  "answer_text a = (case a of Written \<Rightarrow> '''' | PlainError e \<Rightarrow> e | ReportedError e _ \<Rightarrow> e)"

text \<open>Taking a command, while neither an end nor a read is chosen.\<close>

definition pump_command :: "write_answer \<Rightarrow> trace \<Rightarrow> trace option" where
  "pump_command observed c =
     (if pump c \<noteq> PumpIdle then None
      else case commands c of
        [] \<Rightarrow> None
      | cmd # rest \<Rightarrow>
          (let c = c\<lparr>commands := rest, command_space := True\<rparr> in Some (case cmd of
             CmdRequest i key req \<Rightarrow> c\<lparr>pump := PumpTaken i key req\<rparr>
           | CmdNotify i n \<Rightarrow> (case marshalNotification n of
                 Inl e \<Rightarrow> finishing e (c\<lparr>notify_done := (notify_done c)(i := Some (Some e))\<rparr>)
               | Inr _ \<Rightarrow>
                   if observed \<noteq> Written then
                     finishing (answer_text observed) (c\<lparr>notify_done := (notify_done c)(i := Some (Some (answer_text observed)))\<rparr>)
                   else c\<lparr>pump := PumpNotifying i, active := Some ('''', False)\<rparr>)
           | CmdCancel a key \<Rightarrow> handle_cancel a key c
           | CmdClose \<Rightarrow> finishing errClientClosed c)))"

definition pump_unmark :: "trace \<Rightarrow> trace option" where
  "pump_unmark c = (case pump c of
       PumpTaken i key req \<Rightarrow> Some (c\<lparr>queued_keys := queued_keys c - {key}, pump := PumpUnmarked i key req\<rparr>)
     | _ \<Rightarrow> None)"

definition pump_check :: "trace \<Rightarrow> trace option" where
  "pump_check c = (case pump c of
       PumpUnmarked i key req \<Rightarrow>
         if key \<in> withdrawn c then Some ((release key c)\<lparr>pump := PumpIdle\<rparr>)
         else if map_of (pending c) key \<noteq> None then
           Some ((release key (send_result i (call_failed (''duplicate request id '' @ key) False WriteProvenBeforeWrite) c))\<lparr>pump := PumpIdle\<rparr>)
         else Some (c\<lparr>pending := (key, i, WriteNotStarted) # pending c, pump := PumpCleared i key req\<rparr>)
     | _ \<Rightarrow> None)"

text \<open>A request that failed before or in its write ends the generation.\<close>

definition write_failed :: "nat \<Rightarrow> string \<Rightarrow> string \<Rightarrow> WritePhase \<Rightarrow> trace \<Rightarrow> trace" where
  "write_failed i key err phase c =
     finishing err (send_result i (call_failed err False phase) (release key (c\<lparr>pending := AList.delete key (pending c)\<rparr>)))"

definition pump_begin :: "write_answer \<Rightarrow> trace \<Rightarrow> trace option" where
  "pump_begin observed c = (case pump c of
       PumpCleared i key req \<Rightarrow> (case marshalRequest req of
           Inl e \<Rightarrow> Some (write_failed i key e WriteProvenBeforeWrite c)
         | Inr payload \<Rightarrow>
             if observed \<noteq> Written then
               Some (write_failed i key (answer_text observed) (answer_phase WriteMayHaveWritten observed) c)
             else Some (c\<lparr>pending := AList.update key (i, WriteMayHaveWritten) (pending c), active := Some (key, True),
               handed := i # handed c, pump := PumpWriting i key\<rparr>))
     | _ \<Rightarrow> None)"

definition pump_end :: "write_answer \<Rightarrow> trace \<Rightarrow> trace option" where
  "pump_end answer c = (case pump c of
       PumpWriting i key \<Rightarrow>
         (let c = c\<lparr>active := None\<rparr> in Some (case answer of
            Written \<Rightarrow> c\<lparr>pending := AList.update key (i, WriteComplete) (pending c), pump := PumpIdle\<rparr>
          | PlainError e \<Rightarrow> write_failed i key e WriteMayHaveWritten c
          | ReportedError e p \<Rightarrow> write_failed i key e p (c\<lparr>disowned := i # disowned c\<rparr>)))
     | PumpNotifying i \<Rightarrow>
         (let c = c\<lparr>active := None\<rparr> in Some (case answer of
            Written \<Rightarrow> c\<lparr>notify_done := (notify_done c)(i := Some None), pump := PumpIdle\<rparr>
          | _ \<Rightarrow> finishing (answer_text answer) (c\<lparr>notify_done := (notify_done c)(i := Some (Some (answer_text answer)))\<rparr>)))
     | _ \<Rightarrow> None)"

text \<open>A message off the wire.\<close>

definition overflow_text :: string where
  "overflow_text = ''bounded app-server event queue overflow''"

definition offer :: "Options \<Rightarrow> event \<Rightarrow> trace \<Rightarrow> trace" where
  "offer opts e c = (let r = deliverWithGap opts e (c\<lparr>offered := offered c @ [e]\<rparr>) in
     if fst r then snd r else finishing overflow_text (snd r))"

definition answer_call :: "RequestID \<Rightarrow> (rpc_error + RequestID \<times> string) \<Rightarrow> trace \<Rightarrow> trace" where
  "answer_call v body c = (case requestIDKey v of
       Inl _ \<Rightarrow> c
     | Inr key \<Rightarrow> (let c = c\<lparr>answered := (key, body) # answered c\<rparr> in case map_of (pending c) key of
           None \<Rightarrow> c
         | Some (i, phase) \<Rightarrow>
             send_result i (case body of
                 Inl e \<Rightarrow> Inl \<lparr>ce_text = '''', ce_server = Some e, ce_phase = phase, ce_canceled = False\<rparr>
               | Inr (rid, value) \<Rightarrow> Inr (rid, value, phase))
               (completeReservation key phase (c\<lparr>pending := AList.delete key (pending c)\<rparr>))))"

definition dispatch_message :: "Options \<Rightarrow> message \<Rightarrow> trace \<Rightarrow> trace" where
  "dispatch_message opts m c = (case m of
       MResponse v result \<Rightarrow> answer_call v (Inr (v, result)) c
     | MFailure v e \<Rightarrow> answer_call v (Inl e) c
     | MNotification method params \<Rightarrow> offer opts (EventNotification method params) c
     | MRequest v method params \<Rightarrow> offer opts (EventServerRequest v method params) c)"

definition pump_read :: "Options \<Rightarrow> trace \<Rightarrow> trace option" where
  "pump_read opts c =
     (if pump c \<noteq> PumpIdle then None
      else case reads c of
        [] \<Rightarrow> None
      | r # rest \<Rightarrow>
          (let c = releaseReadBytes (rr_bytes r) (c\<lparr>reads := rest\<rparr>) in Some (case rr_err r of
             Some e \<Rightarrow> finishing e c
           | None \<Rightarrow> (case rr_type r of
               FrameBinary \<Rightarrow> finishing ''unexpected binary WebSocket frame'' c
             | FrameClose \<Rightarrow> finishing ''peer closed WebSocket during JSON-RPC session'' c
             | FrameText \<Rightarrow> (case decodeMessage (rr_payload r) of
                 Inl e \<Rightarrow> finishing (''decode JSON-RPC message: '' @ e) c
               | Inr m \<Rightarrow> dispatch_message opts m c)
             | _ \<Rightarrow> c))))"

text \<open>
  \<open>finish\<close>: no further admission, every pending call resolved (in the order the map iterates, so any key
  may be next), the queue drained, the stream cleared and the terminal evidence published.
\<close>

definition resolved_phase :: "WritePhase \<Rightarrow> WritePhase" where
  "resolved_phase phase = (if phase = WriteNotStarted then WriteProvenBeforeWrite
     else if phase = WriteComplete then WriteMayHaveWritten else phase)"

definition finish_stop :: "trace \<Rightarrow> trace option" where
  "finish_stop c = (case pump c of
       PumpFinishing err \<Rightarrow> Some (c\<lparr>accepting := False, pump := PumpResolving err\<rparr>) | _ \<Rightarrow> None)"

definition finish_resolve :: "string \<Rightarrow> trace \<Rightarrow> trace option" where
  "finish_resolve key c = (case pump c of
       PumpResolving err \<Rightarrow>
         if pending c = [] then Some (c\<lparr>pump := PumpDraining err\<rparr>)
         else (case map_of (pending c) key of
             None \<Rightarrow> None
           | Some (i, phase) \<Rightarrow>
               (let p = resolved_phase phase in
                Some (releaseUnknownReservation key (p = WriteMayHaveWritten \<or> p = WriteComplete)
                  (send_result i (call_failed err False p) (c\<lparr>pending := AList.delete key (pending c)\<rparr>)))))
     | _ \<Rightarrow> None)"

definition finish_drain :: "trace \<Rightarrow> trace option" where
  "finish_drain c = (case pump c of
       PumpDraining err \<Rightarrow> (case commands c of
           [] \<Rightarrow> Some (c\<lparr>reads := [], read_bytes := max 0 (read_bytes c - sum_list (map rr_bytes (reads c))), pump := PumpEvicting err 0\<rparr>)
         | cmd # rest \<Rightarrow>
             (let c = c\<lparr>commands := rest, command_space := True\<rparr> in Some (case cmd of
                CmdRequest i key req \<Rightarrow> send_result i (call_failed err False WriteProvenBeforeWrite) (release key c)
              | CmdNotify i n \<Rightarrow> c\<lparr>notify_done := (notify_done c)(i := Some (Some err))\<rparr>
              | CmdCancel a key \<Rightarrow> c\<lparr>acks := (acks c)(a := Some \<lparr>co_phase = WriteProvenBeforeWrite, co_ok = True, co_completed = False, co_failed = False\<rparr>)\<rparr>
              | CmdClose \<Rightarrow> c)))
     | _ \<Rightarrow> None)"

definition finish_evict :: "trace \<Rightarrow> trace option" where
  "finish_evict c = (case pump c of
       PumpEvicting err n \<Rightarrow> (case stream c of
           e # es \<Rightarrow> Some ((releaseEventBytes (eventPayloadBytes e) (c\<lparr>stream := es\<rparr>))\<lparr>pump := PumpEvicting err (n + 1)\<rparr>)
         | [] \<Rightarrow> Some (c\<lparr>stream := (if 0 < dropped c + n then [EventGap (dropped c + n)] else []) @ [EventDisconnected err],
               read_bytes := 0, event_bytes := 0, pump := PumpLast\<rparr>))
     | _ \<Rightarrow> None)"

text \<open>The deferred calls of \<open>pump\<close>.\<close>

definition pump_return :: "trace \<Rightarrow> trace option" where
  "pump_return c = (if pump c = PumpLast then Some (c\<lparr>transport_closed := True, closed := True, pump := PumpEnded\<rparr>) else None)"

section \<open>The other methods\<close>

text \<open>\<open>Close\<close>: the two parts that a \<open>sync.Once\<close> and the transport make idempotent.\<close>

definition close_client :: "trace \<Rightarrow> trace" where
  "close_client c = c\<lparr>accepting := False, done_closed := True, transport_closed := True\<rparr>"

text \<open>The pump sees the closed \<open>done\<close> channel.\<close>

definition pump_done :: "trace \<Rightarrow> trace option" where
  "pump_done c = (if pump c = PumpIdle \<and> done_closed c then Some (finishing errClientClosed c) else None)"

text \<open>\<open>Initialize\<close>: what it asks for, and what makes the answer acceptable. A refused answer closes the client.\<close>

record ServerInfo =
  si_user_agent :: string
  si_server_version :: string
  si_codex_home :: string
  si_platform_family :: string
  si_platform_os :: string

record initialize_fields =
  if_user_agent :: json
  if_codex_home :: string
  if_platform_family :: string
  if_platform_os :: string

definition initialize_response_fields :: "initialize_fields fields" where
  "initialize_response_fields =
     [(''userAgent'', \<lambda>v r. Some (r\<lparr>if_user_agent := v\<rparr>)),
      (''codexHome'', into_string (\<lambda>v r. r\<lparr>if_codex_home := v\<rparr>)),
      (''platformFamily'', into_string (\<lambda>v r. r\<lparr>if_platform_family := v\<rparr>)),
      (''platformOs'', into_string (\<lambda>v r. r\<lparr>if_platform_os := v\<rparr>))]"

definition parseServerVersion :: "string \<Rightarrow> string" where
  "parseServerVersion userAgent = (case cut_byte CHR ''/'' userAgent of
       None \<Rightarrow> ''''
     | Some (_, rest) \<Rightarrow> (case go_fields rest of [] \<Rightarrow> '''' | f # _ \<Rightarrow> f))"

definition decode_initialize :: "string \<Rightarrow> string + ServerInfo" where
  "decode_initialize value = (case parse_json value of
       None \<Rightarrow> Inl ''decode initialize response''
     | Some v \<Rightarrow>
         (case decode_struct initialize_response_fields v
             \<lparr>if_user_agent = JNull, if_codex_home = '''', if_platform_family = '''', if_platform_os = ''''\<rparr> of
            None \<Rightarrow> Inl ''decode initialize response''
          | Some r \<Rightarrow> (case if_user_agent r of
                JStr agent \<Rightarrow>
                  if agent = '''' then Inl ''initialize response missing string userAgent''
                  else Inr \<lparr>si_user_agent = agent, si_server_version = parseServerVersion agent, si_codex_home = if_codex_home r,
                         si_platform_family = if_platform_family r, si_platform_os = if_platform_os r\<rparr>
              | _ \<Rightarrow> Inl ''initialize response missing string userAgent'')))"

definition initialize_request :: "string \<Rightarrow> string \<Rightarrow> bool \<Rightarrow> string list \<Rightarrow> RPCRequest" where
  "initialize_request name version experimental opt_out =
     \<lparr>rq_id = IdString ''initialize'', rq_method = ''initialize'',
      rq_params = render_json (JObj
        [(''clientInfo'', JObj [(''name'', JStr name), (''version'', JStr version)]),
         (''capabilities'', JObj
           ((if experimental then [(''experimentalApi'', JBool True)] else []) @
            (if opt_out = [] then [] else [(''optOutNotificationMethods'', JArr (map JStr opt_out))])))])\<rparr>"

definition store_info :: "nat \<Rightarrow> trace \<Rightarrow> trace option" where
  "store_info i c = (case callers c i of
       Some (req, Returned out) \<Rightarrow>
         if rq_method req \<noteq> ''initialize'' \<or> initialized c then None
         else (case out of
             Inl _ \<Rightarrow> Some (close_client c)
           | Inr (_, value, _) \<Rightarrow> (case decode_initialize value of
                 Inl _ \<Rightarrow> Some (close_client c)
               | Inr info \<Rightarrow> Some (c\<lparr>initialized := True\<rparr>)))
     | _ \<Rightarrow> None)"

section \<open>Turns\<close>

datatype turn =
    StartCall nat RPCRequest "string option" | Enqueue nat | WaitSpace nat waited | Await nat waited
  | WithdrawMark nat | WithdrawActive nat | WithdrawSend nat | WithdrawClosed nat | WithdrawAck nat | Conclude nat string
  | StartNotify nat RPCNotification | EnqueueNotify nat | AwaitNotify nat waited
  | ReadFrame FrameType string "string option" bool | ReadFails string | ReaderPublish bool
  | NextEvent | ReleaseEvent
  | PumpCommand write_answer | PumpUnmark | PumpCheck | PumpBegin write_answer | PumpEnd write_answer | PumpRead | PumpDone
  | FinishStop | FinishResolve string | FinishDrain | FinishEvict | PumpReturn
  | CloseClient | StoreInfo nat

fun step :: "Options \<Rightarrow> turn \<Rightarrow> trace \<Rightarrow> trace option" where
  "step opts (StartCall i req err) c = start_call i req err c"
| "step opts (Enqueue i) c = enqueue_call opts i c"
| "step opts (WaitSpace i w) c = wait_space i w c"
| "step opts (Await i w) c = await i w c"
| "step opts (WithdrawMark i) c = withdraw_mark i c"
| "step opts (WithdrawActive i) c = withdraw_active i c"
| "step opts (WithdrawSend i) c = withdraw_send opts i c"
| "step opts (WithdrawClosed i) c = withdraw_closed i c"
| "step opts (WithdrawAck i) c = withdraw_ack i c"
| "step opts (Conclude i e) c = conclude i e c"
| "step opts (StartNotify i n) c = start_notify i n c"
| "step opts (EnqueueNotify i) c = enqueue_notify opts i c"
| "step opts (AwaitNotify i w) c = await_notify i w c"
| "step opts (ReadFrame t payload observed stop) c = read_frame opts t payload observed stop c"
| "step opts (ReadFails e) c = (if reader c = ReaderReading then Some (c\<lparr>reader := ReaderBlocked e True\<rparr>) else None)"
| "step opts (ReaderPublish give_up) c = reader_publish opts give_up c"
| "step opts NextEvent c = next_event c"
| "step opts ReleaseEvent c = release_event c"
| "step opts (PumpCommand a) c = pump_command a c"
| "step opts PumpUnmark c = pump_unmark c"
| "step opts PumpCheck c = pump_check c"
| "step opts (PumpBegin a) c = pump_begin a c"
| "step opts (PumpEnd a) c = pump_end a c"
| "step opts PumpRead c = pump_read opts c"
| "step opts PumpDone c = pump_done c"
| "step opts FinishStop c = finish_stop c"
| "step opts (FinishResolve key) c = finish_resolve key c"
| "step opts FinishDrain c = finish_drain c"
| "step opts FinishEvict c = finish_evict c"
| "step opts PumpReturn c = pump_return c"
| "step opts CloseClient c = Some (close_client c)"
| "step opts (StoreInfo i) c = store_info i c"

text \<open>A run from a new client; \<open>None\<close> where a turn is not possible.\<close>

fun run :: "Options \<Rightarrow> turn list \<Rightarrow> trace \<Rightarrow> trace option" where
  "run opts [] c = Some c"
| "run opts (t # ts) c = (case step opts t c of None \<Rightarrow> None | Some c' \<Rightarrow> run opts ts c')"

inductive reachable :: "Options \<Rightarrow> trace \<Rightarrow> bool" for opts where
  reach_new: "reachable opts New"
| reach_turn: "reachable opts c \<Longrightarrow> step opts t c = Some c' \<Longrightarrow> reachable opts c'"

end
