(* ===== verification/Client_Inv.thy ===== *)
theory Client_Inv
  imports Client
begin

text \<open>
  What every turn of a connection keeps: where a request is, that its result channel is written at
  most once, and that a verdict that nothing was written is true.
\<close>

lemmas part_defs = release_def completeReservation_def releaseUnknownReservation_def forgetCompleted_def send_result_def
  call_failed_def set_caller_def set_notifier_def finishing_def releaseEventBytes_def releaseReadBytes_def cancelActiveWrite_def

section \<open>Custody of requests\<close>

fun request_of :: "command \<Rightarrow> nat list" where
  "request_of (CmdRequest i k r) = [i]"
| "request_of _ = []"

fun cancel_of :: "command \<Rightarrow> nat list" where
  "cancel_of (CmdCancel i k) = [i]"
| "cancel_of _ = []"

definition requests :: "command list \<Rightarrow> nat list" where
  "requests cmds = concat (map request_of cmds)"

definition cancels :: "command list \<Rightarrow> nat list" where
  "cancels cmds = concat (map cancel_of cmds)"

lemma requests_simps [simp]:
  "requests [] = []" "requests (CmdRequest i k r # cs) = i # requests cs" "requests (CmdNotify n m # cs) = requests cs"
  "requests (CmdCancel a k # cs) = requests cs" "requests (CmdClose # cs) = requests cs" "requests (cs @ ds) = requests cs @ requests ds"
  by (simp_all add: requests_def)

lemma cancels_simps [simp]:
  "cancels [] = []" "cancels (CmdRequest i k r # cs) = cancels cs" "cancels (CmdNotify n m # cs) = cancels cs"
  "cancels (CmdCancel a k # cs) = a # cancels cs" "cancels (CmdClose # cs) = cancels cs" "cancels (cs @ ds) = cancels cs @ cancels ds"
  by (simp_all add: cancels_def)

fun taken_hand :: "pump_at \<Rightarrow> nat list" where
  "taken_hand (PumpTaken i k r) = [i]"
| "taken_hand _ = []"

fun hand :: "pump_at \<Rightarrow> nat list" where
  "hand (PumpTaken i k r) = [i]"
| "hand (PumpUnmarked i k r) = [i]"
| "hand _ = []"

definition pending_ids :: "(string \<times> nat \<times> WritePhase) list \<Rightarrow> nat list" where
  "pending_ids ps = map (\<lambda>p. fst (snd p)) ps"

lemma pending_ids_simps [simp]: "pending_ids [] = []" "pending_ids ((k, i, ph) # ps) = i # pending_ids ps"
  by (simp_all add: pending_ids_def)

lemma pending_ids_update [simp]: "map_of ps k = Some (i, ph) \<Longrightarrow> pending_ids (AList.update k (i, ph') ps) = pending_ids ps"
  by (induction ps) (auto split: if_splits)

lemma count_delete_le: "count_list (pending_ids (AList.delete k ps)) j \<le> count_list (pending_ids ps) j"
  by (induction ps) auto

lemma count_delete:
  "map_of ps k = Some (i, ph) \<Longrightarrow> count_list (pending_ids (AList.delete k ps)) j + (if j = i then 1 else 0) \<le> count_list (pending_ids ps) j"
proof (induction ps)
  case (Cons p ps)
  then show ?case using count_delete_le[of k ps j] by (cases p) (auto split: if_splits)
qed simp

lemma map_of_pending_id: "map_of ps k = Some (i, ph) \<Longrightarrow> 0 < count_list (pending_ids ps) i"
  using count_delete[of ps k i ph i] by simp

text \<open>
  A request is in at most one place, and in none before its admission: the queue, the pump's hand, the
  pending map, or the result channel.
\<close>

fun admission :: "(RPCRequest \<times> caller_at) option \<Rightarrow> nat" where
  "admission None = 0"
| "admission (Some (r, Enqueueing)) = 0"
| "admission (Some (r, WaitingForSpace)) = 0"
| "admission _ = 1"

definition full :: "'a option \<Rightarrow> nat" where
  "full s = (if s = None then 0 else 1)"

lemma full_simps [simp]: "full None = 0" "full (Some x) = 1"
  by (simp_all add: full_def)

definition places :: "trace \<Rightarrow> nat \<Rightarrow> nat" where
  "places c i = count_list (requests (commands c)) i + count_list (hand (pump c)) i + count_list (pending_ids (pending c)) i"

definition one_place :: "trace \<Rightarrow> nat \<Rightarrow> bool" where
  "one_place c i = (places c i + full (results c i) \<le> admission (callers c i))"

lemma admission_le: "admission x \<le> 1"
  by (cases x rule: admission.cases) auto

lemmas step_defs = start_call_def enqueue_call_def wait_space_def await_def take_result_def withdraw_mark_def withdraw_active_def
  withdraw_send_def withdraw_closed_def withdraw_ack_def conclude_def start_notify_def enqueue_notify_def await_notify_def
  read_frame_def reader_publish_def reader_fails_def reserveReadBytes_def next_event_def release_event_def pump_unmark_def pump_check_def
  pump_begin_def pump_end_def write_failed_def pump_done_def finish_stop_def finish_resolve_def finish_drain_def finish_evict_def
  pump_return_def close_client_def store_info_def

lemmas step_splits = if_splits option.splits prod.splits sum.splits caller_at.splits notifier_at.splits waited.splits reader_at.splits
  pump_at.splits write_answer.splits list.splits command.splits

lemma deliver_frame [simp]:
  "commands (snd (deliverWithGap opts e c)) = commands c" "pump (snd (deliverWithGap opts e c)) = pump c"
  "pending (snd (deliverWithGap opts e c)) = pending c" "results (snd (deliverWithGap opts e c)) = results c"
  "callers (snd (deliverWithGap opts e c)) = callers c" "acks (snd (deliverWithGap opts e c)) = acks c"
  "handed (snd (deliverWithGap opts e c)) = handed c" "disowned (snd (deliverWithGap opts e c)) = disowned c"
  "queued_keys (snd (deliverWithGap opts e c)) = queued_keys c" "withdrawn (snd (deliverWithGap opts e c)) = withdrawn c"
  "answered (snd (deliverWithGap opts e c)) = answered c" "closed (snd (deliverWithGap opts e c)) = closed c"
  by (auto simp: deliverWithGap_def deliver_event_def reserveEventBytes_def releaseEventBytes_def split: option.splits)

lemma offer_frame [simp]:
  "commands (offer opts e c) = commands c" "pending (offer opts e c) = pending c" "results (offer opts e c) = results c"
  "callers (offer opts e c) = callers c" "acks (offer opts e c) = acks c" "handed (offer opts e c) = handed c"
  "disowned (offer opts e c) = disowned c" "queued_keys (offer opts e c) = queued_keys c" "withdrawn (offer opts e c) = withdrawn c"
  "answered (offer opts e c) = answered c" "closed (offer opts e c) = closed c"
  by (simp_all add: offer_def finishing_def Let_def)

lemma offer_pump: "pump (offer opts e c) = pump c \<or> pump (offer opts e c) = PumpFinishing overflow_text"
  by (simp add: offer_def finishing_def Let_def)

text \<open>What the pump is doing with a key, and the phase the pending map shows for it.\<close>

fun busy :: "pump_at \<Rightarrow> string \<Rightarrow> (nat \<times> WritePhase) option" where
  "busy (PumpCleared i k r) k' = (if k = k' then Some (i, WriteNotStarted) else None)"
| "busy (PumpWriting i k) k' = (if k = k' then Some (i, WriteMayHaveWritten) else None)"
| "busy _ k' = None"

definition phase_ok :: "trace \<Rightarrow> string \<Rightarrow> bool" where
  "phase_ok c k = (map_of (pending c) k = busy (pump c) k \<or>
     busy (pump c) k = None \<and> (\<exists>i. map_of (pending c) k = Some (i, WriteComplete)))"

lemma pending_frame_answer: "pump (answer_call v body c) = pump c"
  by (auto simp: answer_call_def part_defs Let_def split: sum.splits option.splits)

lemma phase_answer: "phase_ok c k \<Longrightarrow> pump c = PumpIdle \<Longrightarrow> phase_ok (answer_call v body c) k"
  by (auto simp: phase_ok_def answer_call_def part_defs Let_def delete_conv split: sum.splits option.splits)

lemma phase_offer: "phase_ok c k \<Longrightarrow> pump c = PumpIdle \<Longrightarrow> phase_ok (offer opts e c) k"
  using offer_pump[of opts e c] by (auto simp: phase_ok_def)

lemma phase_cancel: "phase_ok c k \<Longrightarrow> pump c = PumpIdle \<Longrightarrow> phase_ok (handle_cancel a k' c) k"
  by (auto simp: phase_ok_def handle_cancel_def part_defs Let_def delete_conv split: option.splits)

lemma phase_command: "phase_ok c k \<Longrightarrow> pump_command a c = Some c' \<Longrightarrow> phase_ok c' k"
  using phase_cancel[of "c\<lparr>commands := tl (commands c), command_space := True\<rparr>" k]
  by (auto simp: phase_ok_def pump_command_def finishing_def Let_def split: if_splits list.splits command.splits sum.splits)

text \<open>How \<open>pump_read\<close> reaches its parts.\<close>

lemma pump_read_cases:
  assumes "pump_read opts c = Some c'"
  obtains r rest d where "reads c = r # rest" "pump c = PumpIdle" "d = releaseReadBytes (rr_bytes r) (c\<lparr>reads := rest\<rparr>)"
    "c' = d \<or> (\<exists>e. c' = finishing e d) \<or> (\<exists>m. decodeMessage (rr_payload r) = Inr m \<and> c' = dispatch_message opts m d)"
  using assms by (auto simp: pump_read_def Let_def split: if_splits list.splits option.splits FrameType.splits sum.splits)

lemma releaseReadBytes_frame [simp]:
  "commands (releaseReadBytes n c) = commands c" "pump (releaseReadBytes n c) = pump c" "pending (releaseReadBytes n c) = pending c"
  "results (releaseReadBytes n c) = results c" "callers (releaseReadBytes n c) = callers c" "acks (releaseReadBytes n c) = acks c"
  "handed (releaseReadBytes n c) = handed c" "disowned (releaseReadBytes n c) = disowned c"
  "queued_keys (releaseReadBytes n c) = queued_keys c" "withdrawn (releaseReadBytes n c) = withdrawn c"
  "answered (releaseReadBytes n c) = answered c" "closed (releaseReadBytes n c) = closed c" "stream (releaseReadBytes n c) = stream c"
  "dropped (releaseReadBytes n c) = dropped c" "offered (releaseReadBytes n c) = offered c" "taken (releaseReadBytes n c) = taken c"
  "holding (releaseReadBytes n c) = holding c" "event_bytes (releaseReadBytes n c) = event_bytes c"
  by (simp_all add: releaseReadBytes_def)

lemma phase_cong: "pump d = pump c \<Longrightarrow> pending d = pending c \<Longrightarrow> phase_ok d k = phase_ok c k"
  by (simp add: phase_ok_def)

lemma phase_read: "phase_ok c k \<Longrightarrow> pump_read opts c = Some c' \<Longrightarrow> phase_ok c' k"
proof -
  assume w: "phase_ok c k" and h: "pump_read opts c = Some c'"
  have m: "phase_ok (dispatch_message opts m d) k" if "phase_ok d k" "pump d = PumpIdle" for m d
    using that phase_answer phase_offer by (simp add: dispatch_message_def split: message.splits)
  from h show ?thesis
  proof (rule pump_read_cases)
    fix r rest d
    assume r: "reads c = r # rest" "pump c = PumpIdle" and d: "d = releaseReadBytes (rr_bytes r) (c\<lparr>reads := rest\<rparr>)"
      and c: "c' = d \<or> (\<exists>e. c' = finishing e d) \<or> (\<exists>m. decodeMessage (rr_payload r) = Inr m \<and> c' = dispatch_message opts m d)"
    have "phase_ok d k" "pump d = PumpIdle" using w r(2) by (simp_all add: d phase_ok_def)
    moreover from this have "phase_ok (finishing e d) k" for e by (auto simp: phase_ok_def finishing_def)
    ultimately show ?thesis using c m by blast
  qed
qed

text \<open>The turns of the goroutines other than the pump leave its variables alone.\<close>

fun pump_turn :: "turn \<Rightarrow> bool" where
  "pump_turn (PumpCommand a) = True" | "pump_turn PumpUnmark = True" | "pump_turn PumpCheck = True"
| "pump_turn (PumpBegin a) = True" | "pump_turn (PumpEnd a) = True" | "pump_turn PumpRead = True" | "pump_turn PumpDone = True"
| "pump_turn FinishStop = True" | "pump_turn (FinishResolve k) = True" | "pump_turn FinishDrain = True"
| "pump_turn FinishEvict = True" | "pump_turn PumpReturn = True" | "pump_turn t = False"

definition pump_view :: "trace \<Rightarrow> _" where
  "pump_view c = (pump c, pending c, handed c, disowned c, answered c, closed c, dropped c, offered c)"

lemma pump_view_parts [simp]:
  "pump_view (set_caller i r a c) = pump_view c" "pump_view (set_notifier i n b c) = pump_view c" "pump_view (release k c) = pump_view c"
  "pump_view (forgetCompleted k c) = pump_view c" "pump_view (releaseEventBytes m c) = pump_view c" "pump_view (releaseReadBytes m c) = pump_view c"
  "pump_view (cancelActiveWrite c) = pump_view c" "pump_view (reader_fails e c) = pump_view c" "pump_view (close_client c) = pump_view c"
  by (simp_all add: pump_view_def part_defs reader_fails_def close_client_def)

lemma pump_view_fields [simp]:
  "pump_view (c\<lparr>commands := a1\<rparr>) = pump_view c" "pump_view (c\<lparr>command_space := a2\<rparr>) = pump_view c" "pump_view (c\<lparr>reads := a3\<rparr>) = pump_view c"
  "pump_view (c\<lparr>stream := a4\<rparr>) = pump_view c" "pump_view (c\<lparr>reserved := a5\<rparr>) = pump_view c" "pump_view (c\<lparr>withdrawn := a6\<rparr>) = pump_view c"
  "pump_view (c\<lparr>queued_keys := a7\<rparr>) = pump_view c" "pump_view (c\<lparr>read_bytes := a8\<rparr>) = pump_view c" "pump_view (c\<lparr>event_bytes := a9\<rparr>) = pump_view c"
  "pump_view (c\<lparr>initialized := b1\<rparr>) = pump_view c" "pump_view (c\<lparr>reader := b2\<rparr>) = pump_view c" "pump_view (c\<lparr>results := b3\<rparr>) = pump_view c"
  "pump_view (c\<lparr>acks := b4\<rparr>) = pump_view c" "pump_view (c\<lparr>notify_done := b5\<rparr>) = pump_view c" "pump_view (c\<lparr>holding := b6\<rparr>) = pump_view c"
  "pump_view (c\<lparr>taken := b7\<rparr>) = pump_view c"
  by (simp_all add: pump_view_def)

lemma take_result_view: "take_result i req c = Some c' \<Longrightarrow> pump_view c' = pump_view c"
  by (auto simp: take_result_def split: option.splits)

lemma caller_turn_view:
  "start_call i req err c = Some c' \<Longrightarrow> pump_view c' = pump_view c"
  "enqueue_call opts i c = Some c' \<Longrightarrow> pump_view c' = pump_view c"
  "wait_space i w c = Some c' \<Longrightarrow> pump_view c' = pump_view c"
  "await i w c = Some c' \<Longrightarrow> pump_view c' = pump_view c"
  "withdraw_mark i c = Some c' \<Longrightarrow> pump_view c' = pump_view c"
  "withdraw_active i c = Some c' \<Longrightarrow> pump_view c' = pump_view c"
  "withdraw_send opts i c = Some c' \<Longrightarrow> pump_view c' = pump_view c"
  "withdraw_closed i c = Some c' \<Longrightarrow> pump_view c' = pump_view c"
  "withdraw_ack i c = Some c' \<Longrightarrow> pump_view c' = pump_view c"
  "conclude i e c = Some c' \<Longrightarrow> pump_view c' = pump_view c"
  unfolding start_call_def enqueue_call_def wait_space_def await_def withdraw_mark_def withdraw_active_def withdraw_send_def
    withdraw_closed_def withdraw_ack_def conclude_def Let_def
  by (auto dest: take_result_view split: if_splits option.splits prod.splits sum.splits caller_at.splits waited.splits)

lemma other_turn_view:
  "start_notify i n c = Some c' \<Longrightarrow> pump_view c' = pump_view c"
  "enqueue_notify opts i c = Some c' \<Longrightarrow> pump_view c' = pump_view c"
  "await_notify i w c = Some c' \<Longrightarrow> pump_view c' = pump_view c"
  "read_frame opts ty payload observed stop c = Some c' \<Longrightarrow> pump_view c' = pump_view c"
  "reader_publish opts give_up c = Some c' \<Longrightarrow> pump_view c' = pump_view c"
  "next_event c = Some c' \<Longrightarrow> pump_view c' = pump_view c"
  "release_event c = Some c' \<Longrightarrow> pump_view c' = pump_view c"
  "store_info i c = Some c' \<Longrightarrow> pump_view c' = pump_view c"
  unfolding start_notify_def enqueue_notify_def await_notify_def read_frame_def reserveReadBytes_def reader_publish_def next_event_def
    release_event_def store_info_def Let_def
  by (auto split: if_splits option.splits prod.splits sum.splits caller_at.splits notifier_at.splits waited.splits reader_at.splits list.splits)

lemma other_turn: "\<not> pump_turn t \<Longrightarrow> step opts t c = Some c' \<Longrightarrow> pump_view c' = pump_view c"
  by (cases t) (auto simp: caller_turn_view other_turn_view split: if_splits)

lemma other_turnD:
  assumes "\<not> pump_turn t" "step opts t c = Some c'"
  shows "pump c' = pump c" "pending c' = pending c" "handed c' = handed c" "disowned c' = disowned c" "answered c' = answered c"
    "closed c' = closed c" "dropped c' = dropped c" "offered c' = offered c"
  using other_turn[OF assms] by (simp_all add: pump_view_def)

lemma phase_step: "phase_ok c k \<Longrightarrow> step opts t c = Some c' \<Longrightarrow> phase_ok c' k"
proof (cases t)
  case (PumpCommand a)
  assume "phase_ok c k" "step opts t c = Some c'"
  with PumpCommand show ?thesis using phase_command by simp
next
  case PumpRead
  assume "phase_ok c k" "step opts t c = Some c'"
  with PumpRead show ?thesis using phase_read by simp
next
  case (PumpBegin a)
  assume "phase_ok c k" "step opts t c = Some c'"
  with PumpBegin show ?thesis
    by (auto simp: phase_ok_def step_defs part_defs delete_conv update_conv split: pump_at.splits sum.splits if_splits)
next
  case (PumpEnd a)
  assume "phase_ok c k" "step opts t c = Some c'"
  with PumpEnd show ?thesis
    by (auto simp: phase_ok_def step_defs part_defs Let_def delete_conv update_conv split: pump_at.splits write_answer.splits if_splits)
next
  case PumpCheck
  assume "phase_ok c k" "step opts t c = Some c'"
  with PumpCheck show ?thesis by (auto simp: phase_ok_def step_defs part_defs split: pump_at.splits if_splits)
next
  case PumpUnmark
  assume "phase_ok c k" "step opts t c = Some c'"
  with PumpUnmark show ?thesis by (auto simp: phase_ok_def step_defs split: pump_at.splits)
next
  case (FinishResolve x)
  assume "phase_ok c k" "step opts t c = Some c'"
  with FinishResolve show ?thesis
    by (auto simp: phase_ok_def step_defs part_defs Let_def delete_conv split: pump_at.splits option.splits if_splits)
next
  case FinishDrain
  assume "phase_ok c k" "step opts t c = Some c'"
  with FinishDrain show ?thesis
    by (auto simp: phase_ok_def step_defs part_defs Let_def split: pump_at.splits list.splits command.splits)
qed (use phase_cong[of c' c k] other_turnD(1,2)[of t opts c c'] in
  \<open>auto simp: phase_ok_def pump_done_def finish_stop_def finish_evict_def pump_return_def releaseEventBytes_def finishing_def
     split: if_splits pump_at.splits list.splits\<close>)

lemma phase_reachable: "reachable opts c \<Longrightarrow> phase_ok c k"
  by (induction rule: reachable.induct) (auto simp: phase_step, simp add: phase_ok_def New_def)

lemma phase_writing: "phase_ok c k \<Longrightarrow> pump c = PumpWriting i k \<Longrightarrow> map_of (pending c) k = Some (i, WriteMayHaveWritten)"
  "phase_ok c k \<Longrightarrow> pump c = PumpCleared i k r \<Longrightarrow> map_of (pending c) k = Some (i, WriteNotStarted)"
  by (auto simp: phase_ok_def)

lemma one_place_New: "one_place New i"
  by (simp add: one_place_def places_def New_def)

lemma one_place_answer: "one_place c j \<Longrightarrow> one_place (answer_call v body c) j"
  by (auto simp: one_place_def places_def answer_call_def part_defs Let_def dest: count_delete[where j = j]
      split: sum.splits option.splits)

lemma one_place_cancel: "one_place c j \<Longrightarrow> pump c = PumpIdle \<Longrightarrow> one_place (handle_cancel a k c) j"
  using count_delete_le[of k "pending c" j]
  by (auto simp: one_place_def places_def handle_cancel_def part_defs Let_def split: option.splits)

lemma one_place_command: "one_place c j \<Longrightarrow> pump_command a c = Some c' \<Longrightarrow> one_place c' j"
  using one_place_cancel[of "c\<lparr>commands := tl (commands c), command_space := True\<rparr>" j]
  by (auto simp: one_place_def places_def pump_command_def finishing_def Let_def split: if_splits list.splits command.splits sum.splits)

lemma one_place_offer: "one_place c j \<Longrightarrow> pump c = PumpIdle \<Longrightarrow> one_place (offer opts e c) j"
  using offer_pump[of opts e c] by (auto simp: one_place_def places_def)

lemma one_place_read: "one_place c j \<Longrightarrow> pump_read opts c = Some c' \<Longrightarrow> one_place c' j"
proof -
  assume w: "one_place c j" and h: "pump_read opts c = Some c'"
  have m: "one_place (dispatch_message opts m d) j" if "one_place d j" "pump d = PumpIdle" for m d
    using that one_place_answer one_place_offer by (simp add: dispatch_message_def split: message.splits)
  from h show ?thesis
  proof (rule pump_read_cases)
    fix r rest d
    assume r: "reads c = r # rest" "pump c = PumpIdle" and d: "d = releaseReadBytes (rr_bytes r) (c\<lparr>reads := rest\<rparr>)"
      and c: "c' = d \<or> (\<exists>e. c' = finishing e d) \<or> (\<exists>m. decodeMessage (rr_payload r) = Inr m \<and> c' = dispatch_message opts m d)"
    have "one_place d j" "pump d = PumpIdle" using w r(2) by (simp_all add: d one_place_def places_def)
    moreover from this have "one_place (finishing e d) j" for e by (auto simp: one_place_def places_def finishing_def)
    ultimately show ?thesis using c m by blast
  qed
qed

lemma one_place_step: "(\<And>k. phase_ok c k) \<Longrightarrow> one_place c j \<Longrightarrow> step opts t c = Some c' \<Longrightarrow> one_place c' j"
proof (cases t)
  case (StartCall i r err)
  assume "one_place c j" "step opts t c = Some c'"
  with StartCall show ?thesis
    by (cases "callers c i") (auto simp: one_place_def places_def step_defs part_defs split: step_splits)
next
  case (Enqueue i)
  assume "one_place c j" "step opts t c = Some c'"
  with Enqueue show ?thesis
    by (cases "callers c i") (auto simp: one_place_def places_def step_defs part_defs Let_def split: step_splits)
next
  case (WaitSpace i w)
  assume "one_place c j" "step opts t c = Some c'"
  with WaitSpace show ?thesis
    by (cases "callers c i") (auto simp: one_place_def places_def step_defs part_defs Let_def split: step_splits)
next
  case (Await i w)
  assume "one_place c j" "step opts t c = Some c'"
  with Await show ?thesis
    by (cases "callers c i") (auto simp: one_place_def places_def step_defs part_defs Let_def split: step_splits)
next
  case (WithdrawMark i)
  assume "one_place c j" "step opts t c = Some c'"
  with WithdrawMark show ?thesis
    by (cases "callers c i") (auto simp: one_place_def places_def step_defs part_defs Let_def split: step_splits)
next
  case (WithdrawActive i)
  assume "one_place c j" "step opts t c = Some c'"
  with WithdrawActive show ?thesis
    by (cases "callers c i") (auto simp: one_place_def places_def step_defs part_defs Let_def split: step_splits)
next
  case (WithdrawSend i)
  assume "one_place c j" "step opts t c = Some c'"
  with WithdrawSend show ?thesis
    by (cases "callers c i") (auto simp: one_place_def places_def step_defs part_defs Let_def split: step_splits)
next
  case (WithdrawClosed i)
  assume "one_place c j" "step opts t c = Some c'"
  with WithdrawClosed show ?thesis
    by (cases "callers c i") (auto simp: one_place_def places_def step_defs part_defs Let_def split: step_splits)
next
  case (WithdrawAck i)
  assume "one_place c j" "step opts t c = Some c'"
  with WithdrawAck show ?thesis
    by (cases "callers c i") (auto simp: one_place_def places_def step_defs part_defs Let_def split: step_splits)
next
  case (Conclude i e)
  assume "one_place c j" "step opts t c = Some c'"
  with Conclude show ?thesis
    by (cases "callers c i") (auto simp: one_place_def places_def step_defs part_defs Let_def split: step_splits)
next
  case (PumpCommand a)
  assume "one_place c j" "step opts t c = Some c'"
  with PumpCommand show ?thesis using one_place_command by simp
next
  case PumpRead
  assume "one_place c j" "step opts t c = Some c'"
  with PumpRead show ?thesis using one_place_read by simp
next
  case (PumpBegin a)
  assume "\<And>k. phase_ok c k" "one_place c j" "step opts t c = Some c'"
  with PumpBegin phase_writing(2)[of c] show ?thesis
    by (auto simp: one_place_def places_def step_defs part_defs Let_def dest: count_delete[where j = j] split: step_splits)
next
  case (PumpEnd a)
  assume "\<And>k. phase_ok c k" "one_place c j" "step opts t c = Some c'"
  with PumpEnd phase_writing(1)[of c] show ?thesis
    by (auto simp: one_place_def places_def step_defs part_defs Let_def dest: count_delete[where j = j] split: step_splits)
next
  case (FinishResolve k)
  assume "one_place c j" "step opts t c = Some c'"
  with FinishResolve show ?thesis
    by (auto simp: one_place_def places_def step_defs part_defs Let_def dest: count_delete[where j = j] split: step_splits)
next
  case FinishDrain
  assume "one_place c j" "step opts t c = Some c'"
  with FinishDrain show ?thesis
    by (auto simp: one_place_def places_def step_defs part_defs Let_def split: step_splits)
qed (auto simp: one_place_def places_def step_defs part_defs Let_def split: step_splits)

end
