(* ===== verification/Client_Verdict.thy ===== *)
theory Client_Verdict
  imports Client_Inv
begin

text \<open>
  The evidence of a call that failed or was canceled: "not written" is said only of requests whose payload
  never entered the transport, unless the transport itself said so.
\<close>

section \<open>Small invariants\<close>

definition stage_ok :: "trace \<Rightarrow> bool" where
  "stage_ok c = ((\<forall>e n. pump c \<in> {PumpDraining e, PumpEvicting e n, PumpLast, PumpEnded} \<longrightarrow> pending c = []) \<and>
     (closed c \<longleftrightarrow> pump c = PumpEnded))"

definition at_write :: "pump_at \<Rightarrow> nat \<Rightarrow> nat" where
  "at_write p i = (case p of PumpCleared j k r \<Rightarrow> if i = j then 1 else 0 | _ \<Rightarrow> 0)"

definition one_write :: "trace \<Rightarrow> nat \<Rightarrow> bool" where
  "one_write c i = (count_list (handed c) i + count_list (requests (commands c)) i + count_list (hand (pump c)) i +
     at_write (pump c) i \<le> admission (callers c i))"

lemma at_write_simps [simp]:
  "at_write PumpIdle i = 0" "at_write (PumpTaken j k r) i = 0" "at_write (PumpUnmarked j k r) i = 0"
  "at_write (PumpCleared j k r) i = (if i = j then 1 else 0)" "at_write (PumpWriting j k) i = 0" "at_write (PumpNotifying j) i = 0"
  "at_write (PumpFinishing e) i = 0" "at_write (PumpResolving e) i = 0" "at_write (PumpDraining e) i = 0"
  "at_write (PumpEvicting e n) i = 0" "at_write PumpLast i = 0" "at_write PumpEnded i = 0"
  by (simp_all add: at_write_def)

section \<open>Turns of callers\<close>

text \<open>Which call a command is about, and its key.\<close>

fun cmd_keys :: "command \<Rightarrow> (nat \<times> string) list" where
  "cmd_keys (CmdRequest i k r) = [(i, k)]"
| "cmd_keys (CmdCancel i k) = [(i, k)]"
| "cmd_keys _ = []"

text \<open>What the callers' side of the connection is made of.\<close>

definition call_view :: "trace \<Rightarrow> _" where
  "call_view c = (requests (commands c), cancels (commands c), concat (map cmd_keys (commands c)), callers c, results c, acks c, queued_keys c, withdrawn c)"

lemma call_view_parts [simp]:
  "call_view (set_notifier i n b c) = call_view c" "call_view (forgetCompleted k c) = call_view c"
  "call_view (releaseEventBytes m c) = call_view c" "call_view (releaseReadBytes m c) = call_view c"
  "call_view (cancelActiveWrite c) = call_view c" "call_view (reader_fails e c) = call_view c" "call_view (close_client c) = call_view c"
  by (simp_all add: call_view_def part_defs reader_fails_def close_client_def)

lemma call_view_fields [simp]:
  "call_view (c\<lparr>command_space := a2\<rparr>) = call_view c" "call_view (c\<lparr>reads := a3\<rparr>) = call_view c"
  "call_view (c\<lparr>stream := a4\<rparr>) = call_view c" "call_view (c\<lparr>reserved := a5\<rparr>) = call_view c"
  "call_view (c\<lparr>read_bytes := a8\<rparr>) = call_view c" "call_view (c\<lparr>event_bytes := a9\<rparr>) = call_view c"
  "call_view (c\<lparr>initialized := b1\<rparr>) = call_view c" "call_view (c\<lparr>reader := b2\<rparr>) = call_view c"
  "call_view (c\<lparr>notify_done := b5\<rparr>) = call_view c" "call_view (c\<lparr>holding := b6\<rparr>) = call_view c"
  "call_view (c\<lparr>taken := b7\<rparr>) = call_view c" "call_view (c\<lparr>commands := commands c @ [CmdNotify i n]\<rparr>) = call_view c"
  by (simp_all add: call_view_def)

fun caller_turn :: "turn \<Rightarrow> nat option" where
  "caller_turn (StartCall i r e) = Some i" | "caller_turn (Enqueue i) = Some i" | "caller_turn (WaitSpace i w) = Some i"
| "caller_turn (Await i w) = Some i" | "caller_turn (WithdrawMark i) = Some i" | "caller_turn (WithdrawActive i) = Some i"
| "caller_turn (WithdrawSend i) = Some i" | "caller_turn (WithdrawClosed i) = Some i" | "caller_turn (WithdrawAck i) = Some i"
| "caller_turn (Conclude i e) = Some i" | "caller_turn t = None"

lemma quiet_turn_view:
  "start_notify i n c = Some c' \<Longrightarrow> call_view c' = call_view c"
  "enqueue_notify opts i c = Some c' \<Longrightarrow> call_view c' = call_view c"
  "await_notify i w c = Some c' \<Longrightarrow> call_view c' = call_view c"
  "read_frame opts ty payload observed stop c = Some c' \<Longrightarrow> call_view c' = call_view c"
  "reader_publish opts give_up c = Some c' \<Longrightarrow> call_view c' = call_view c"
  "next_event c = Some c' \<Longrightarrow> call_view c' = call_view c"
  "release_event c = Some c' \<Longrightarrow> call_view c' = call_view c"
  "store_info i c = Some c' \<Longrightarrow> call_view c' = call_view c"
  unfolding start_notify_def enqueue_notify_def await_notify_def read_frame_def reserveReadBytes_def reader_publish_def next_event_def
    release_event_def store_info_def Let_def
  by (auto split: if_splits option.splits prod.splits sum.splits caller_at.splits notifier_at.splits waited.splits reader_at.splits list.splits)

lemma quiet_turn: "\<not> pump_turn t \<Longrightarrow> caller_turn t = None \<Longrightarrow> step opts t c = Some c' \<Longrightarrow> call_view c' = call_view c"
  by (cases t) (auto simp: quiet_turn_view split: if_splits)

lemma quiet_turnD:
  assumes "\<not> pump_turn t" "caller_turn t = None" "step opts t c = Some c'"
  shows "requests (commands c') = requests (commands c)" "cancels (commands c') = cancels (commands c)" "callers c' = callers c"
    "results c' = results c" "acks c' = acks c" "queued_keys c' = queued_keys c" "withdrawn c' = withdrawn c"
    "concat (map cmd_keys (commands c')) = concat (map cmd_keys (commands c))"
  using quiet_turn[OF assms] by (simp_all add: call_view_def)

section \<open>Stages of the end\<close>

lemma answer_frame [simp]:
  "commands (answer_call v body c) = commands c" "callers (answer_call v body c) = callers c" "handed (answer_call v body c) = handed c"
  "disowned (answer_call v body c) = disowned c" "acks (answer_call v body c) = acks c" "pump (answer_call v body c) = pump c"
  "closed (answer_call v body c) = closed c"
  by (auto simp: answer_call_def part_defs Let_def split: sum.splits option.splits)

lemma cancel_frame [simp]:
  "commands (handle_cancel a k c) = commands c" "callers (handle_cancel a k c) = callers c" "handed (handle_cancel a k c) = handed c"
  "disowned (handle_cancel a k c) = disowned c" "results (handle_cancel a k c) = results c" "closed (handle_cancel a k c) = closed c"
  "answered (handle_cancel a k c) = answered c"
  by (auto simp: handle_cancel_def part_defs Let_def split: option.splits)

lemma dispatch_frame [simp]:
  "commands (dispatch_message opts m c) = commands c" "callers (dispatch_message opts m c) = callers c"
  "handed (dispatch_message opts m c) = handed c" "disowned (dispatch_message opts m c) = disowned c"
  "acks (dispatch_message opts m c) = acks c" "closed (dispatch_message opts m c) = closed c"
  by (simp_all add: dispatch_message_def split: message.splits)

lemma pump_read_frame:
  "pump_read opts c = Some c' \<Longrightarrow> commands c' = commands c \<and> callers c' = callers c \<and> handed c' = handed c \<and> disowned c' = disowned c \<and> acks c' = acks c"
  by (erule pump_read_cases) (auto simp: finishing_def)

lemma callers_of_pump: "pump_turn t \<Longrightarrow> step opts t c = Some c' \<Longrightarrow> callers c' = callers c"
proof (cases t)
  case (PumpCommand a)
  assume "step opts t c = Some c'"
  with PumpCommand show ?thesis
    by (auto simp: pump_command_def finishing_def Let_def split: if_splits list.splits command.splits sum.splits)
next
  case PumpRead
  assume "step opts t c = Some c'"
  with PumpRead show ?thesis using pump_read_frame by fastforce
qed (auto simp: step_defs part_defs Let_def split: pump_at.splits if_splits sum.splits option.splits list.splits command.splits write_answer.splits)

lemma stage_cong: "pump d = pump c \<Longrightarrow> pending d = pending c \<Longrightarrow> closed d = closed c \<Longrightarrow> stage_ok d = stage_ok c"
  by (simp add: stage_ok_def)

lemma pump_read_stage: "pump_read opts c = Some c' \<Longrightarrow> closed c' = closed c \<and> (pump c' = PumpIdle \<or> (\<exists>e. pump c' = PumpFinishing e)) \<and> pump c = PumpIdle"
proof (erule pump_read_cases)
  fix r rest d
  assume i: "pump c = PumpIdle" and d: "d = releaseReadBytes (rr_bytes r) (c\<lparr>reads := rest\<rparr>)"
    and c': "c' = d \<or> (\<exists>e. c' = finishing e d) \<or> (\<exists>m. decodeMessage (rr_payload r) = Inr m \<and> c' = dispatch_message opts m d)"
  have d': "closed d = closed c" "pump d = PumpIdle" using i by (simp_all add: d)
  have "closed (answer_call v body d) = closed c \<and> pump (answer_call v body d) = PumpIdle" for v body
    using d' by (auto simp: answer_call_def part_defs Let_def split: sum.splits option.splits)
  moreover have "closed (offer opts e d) = closed c \<and> (pump (offer opts e d) = PumpIdle \<or> (\<exists>x. pump (offer opts e d) = PumpFinishing x))" for e
    using d' offer_pump[of opts e d] by auto
  ultimately have "closed (dispatch_message opts m d) = closed c \<and>
      (pump (dispatch_message opts m d) = PumpIdle \<or> (\<exists>e. pump (dispatch_message opts m d) = PumpFinishing e))" for m
    by (auto simp: dispatch_message_def split: message.splits)
  with c' d' i show ?thesis by (auto simp: finishing_def)
qed

lemma handle_cancel_stage:
  "closed (handle_cancel a k c) = closed c \<and> (pump (handle_cancel a k c) = pump c \<or> (\<exists>e. pump (handle_cancel a k c) = PumpFinishing e))"
  by (auto simp: handle_cancel_def part_defs Let_def split: option.splits)

lemma pump_command_stage:
  "pump_command a c = Some c' \<Longrightarrow> closed c' = closed c \<and> pump c = PumpIdle \<and>
     (pump c' = PumpIdle \<or> (\<exists>i k r. pump c' = PumpTaken i k r) \<or> (\<exists>i. pump c' = PumpNotifying i) \<or> (\<exists>e. pump c' = PumpFinishing e))"
  using handle_cancel_stage[of _ _ "c\<lparr>commands := tl (commands c), command_space := True\<rparr>"]
  by (auto simp: pump_command_def finishing_def Let_def split: if_splits list.splits command.splits sum.splits)

lemma stage_step: "stage_ok c \<Longrightarrow> step opts t c = Some c' \<Longrightarrow> stage_ok c'"
proof (cases "pump_turn t")
  case False
  assume "stage_ok c" "step opts t c = Some c'"
  with False show ?thesis using stage_cong[of c' c] other_turnD[of t opts c c'] by blast
next
  case True
  assume a: "stage_ok c" "step opts t c = Some c'"
  with True show ?thesis
  proof (cases t)
    case (PumpCommand x)
    with a pump_command_stage[of x c c'] show ?thesis by (auto simp: stage_ok_def)
  next
    case PumpRead
    with a pump_read_stage[of opts c c'] show ?thesis by (auto simp: stage_ok_def)
  next
    case (FinishResolve k)
    with a show ?thesis
      by (auto simp: stage_ok_def finish_resolve_def part_defs Let_def split: pump_at.splits if_splits option.splits)
  next
    case FinishDrain
    with a show ?thesis
      by (auto simp: stage_ok_def finish_drain_def part_defs Let_def split: pump_at.splits list.splits command.splits)
  next
    case (PumpBegin x)
    with a show ?thesis
      by (auto simp: stage_ok_def pump_begin_def write_failed_def part_defs split: pump_at.splits sum.splits if_splits)
  next
    case (PumpEnd x)
    with a show ?thesis
      by (auto simp: stage_ok_def pump_end_def write_failed_def part_defs Let_def split: pump_at.splits write_answer.splits)
  next
    case PumpCheck
    with a show ?thesis by (auto simp: stage_ok_def pump_check_def part_defs split: pump_at.splits if_splits)
  next
    case FinishEvict
    with a show ?thesis by (auto simp: stage_ok_def finish_evict_def part_defs split: pump_at.splits list.splits if_splits)
  qed (auto simp: stage_ok_def pump_unmark_def pump_done_def finish_stop_def pump_return_def finishing_def split: pump_at.splits if_splits)
qed

section \<open>A request is written at most once\<close>

lemma one_write_cong: "commands d = commands c \<Longrightarrow> handed d = handed c \<Longrightarrow> callers d = callers c \<Longrightarrow> hand (pump d) = hand (pump c) \<Longrightarrow>
   at_write (pump d) i = at_write (pump c) i \<Longrightarrow> one_write d i = one_write c i"
  by (simp add: one_write_def)

lemma cancel_hand: "pump c = PumpIdle \<Longrightarrow> hand (pump (handle_cancel a k c)) = [] \<and> at_write (pump (handle_cancel a k c)) i = 0"
  using handle_cancel_stage[of a k c] by auto

lemma one_write_command: "one_write c j \<Longrightarrow> pump_command a c = Some c' \<Longrightarrow> one_write c' j"
  by (auto simp: one_write_def pump_command_def finishing_def Let_def cancel_hand split: if_splits list.splits command.splits sum.splits)

lemma one_write_caller: "one_write c j \<Longrightarrow> caller_turn t = Some i \<Longrightarrow> step opts t c = Some c' \<Longrightarrow> one_write c' j"
  by (cases t; cases "callers c i")
    (auto simp: one_write_def step_defs part_defs Let_def split: if_splits option.splits sum.splits caller_at.splits waited.splits)

lemma one_write_step: "one_write c j \<Longrightarrow> step opts t c = Some c' \<Longrightarrow> one_write c' j"
proof (cases "pump_turn t")
  case False
  assume a: "one_write c j" "step opts t c = Some c'"
  show ?thesis
  proof (cases "caller_turn t")
    case None
    with a False show ?thesis using quiet_turnD[of t opts c c'] other_turnD[of t opts c c'] by (simp add: one_write_def)
  next
    case (Some i)
    with a show ?thesis using one_write_caller by blast
  qed
next
  case True
  assume a: "one_write c j" "step opts t c = Some c'"
  with True show ?thesis
  proof (cases t)
    case (PumpCommand x)
    with a one_write_command show ?thesis by simp
  next
    case PumpRead
    with a pump_read_frame[of opts c c'] pump_read_stage[of opts c c'] show ?thesis by (auto simp: one_write_def)
  qed (auto simp: one_write_def step_defs part_defs Let_def
      split: pump_at.splits if_splits sum.splits option.splits list.splits command.splits write_answer.splits)
qed

section \<open>One acknowledgment\<close>

fun cancel_open :: "bool \<Rightarrow> (RPCRequest \<times> caller_at) option \<Rightarrow> nat" where
  "cancel_open cl (Some (r, AwaitingAck)) = 1"
| "cancel_open cl (Some (r, Concluding out)) = (if cl then 1 else 0)"
| "cancel_open cl (Some (r, Returned out)) = (if cl then 1 else 0)"
| "cancel_open cl _ = 0"

lemma cancel_open_mono: "cancel_open cl x \<le> cancel_open True x"
  by (cases "(cl, x)" rule: cancel_open.cases) auto

definition one_ack :: "trace \<Rightarrow> nat \<Rightarrow> bool" where
  "one_ack c i = (count_list (cancels (commands c)) i + full (acks c i) \<le> cancel_open (closed c) (callers c i))"

lemma one_ack_caller: "one_ack c j \<Longrightarrow> caller_turn t = Some i \<Longrightarrow> step opts t c = Some c' \<Longrightarrow> one_ack c' j"
  by (cases t; cases "callers c i")
    (auto simp: one_ack_def step_defs part_defs Let_def split: if_splits option.splits sum.splits caller_at.splits waited.splits)

lemma cancel_acks: "acks (handle_cancel a k c) = (acks c)(a := acks (handle_cancel a k c) a)" "acks (handle_cancel a k c) a \<noteq> None"
  by (auto simp: handle_cancel_def part_defs Let_def split: option.splits)

lemma full_cancel: "full (acks (handle_cancel a k c) j) = (if j = a then 1 else full (acks c j))"
  by (metis cancel_acks full_def fun_upd_apply)

lemma one_ack_command: "one_ack c j \<Longrightarrow> pump_command a c = Some c' \<Longrightarrow> one_ack c' j"
  by (auto simp: one_ack_def pump_command_def finishing_def Let_def full_cancel split: if_splits list.splits command.splits sum.splits)

lemma one_ack_step: "one_ack c j \<Longrightarrow> step opts t c = Some c' \<Longrightarrow> one_ack c' j"
proof (cases "pump_turn t")
  case False
  assume a: "one_ack c j" "step opts t c = Some c'"
  show ?thesis
  proof (cases "caller_turn t")
    case None
    with a False show ?thesis using quiet_turnD[of t opts c c'] other_turnD[of t opts c c'] by (simp add: one_ack_def)
  next
    case (Some i)
    with a show ?thesis using one_ack_caller by blast
  qed
next
  case True
  assume a: "one_ack c j" "step opts t c = Some c'"
  with True show ?thesis
  proof (cases t)
    case (PumpCommand x)
    with a one_ack_command show ?thesis by simp
  next
    case PumpRead
    with a pump_read_frame[of opts c c'] pump_read_stage[of opts c c'] show ?thesis by (auto simp: one_ack_def)
  next
    case PumpReturn
    with a cancel_open_mono[of "closed c" "callers c j"] show ?thesis by (auto simp: one_ack_def pump_return_def split: if_splits)
  qed (auto simp: one_ack_def step_defs part_defs Let_def
      split: pump_at.splits if_splits sum.splits option.splits list.splits command.splits write_answer.splits)
qed

section \<open>Keys\<close>

definition has_key :: "trace \<Rightarrow> nat \<Rightarrow> string \<Rightarrow> bool" where
  "has_key c i k = (\<exists>r a. callers c i = Some (r, a) \<and> k = key_of r)"

fun pump_keys :: "pump_at \<Rightarrow> (nat \<times> string) list" where
  "pump_keys (PumpTaken i k r) = [(i, k)]"
| "pump_keys (PumpUnmarked i k r) = [(i, k)]"
| "pump_keys (PumpCleared i k r) = [(i, k)]"
| "pump_keys (PumpWriting i k) = [(i, k)]"
| "pump_keys _ = []"

definition pend_keys :: "(string \<times> nat \<times> WritePhase) list \<Rightarrow> (nat \<times> string) set" where
  "pend_keys ps = {(i, k). \<exists>ph. (k, i, ph) \<in> set ps}"

definition keys :: "trace \<Rightarrow> (nat \<times> string) set" where
  "keys c = set (concat (map cmd_keys (commands c))) \<union> set (pump_keys (pump c)) \<union> pend_keys (pending c)"

definition key_ok :: "trace \<Rightarrow> bool" where
  "key_ok c = ((\<forall>(i, k)\<in>keys c. has_key c i k) \<and> (\<forall>k\<in>queued_keys c. \<exists>i. has_key c i k))"

lemma pend_keys_simps [simp]: "pend_keys [] = {}" "pend_keys ((k, i, ph) # ps) = insert (i, k) (pend_keys ps)"
  by (auto simp: pend_keys_def)

lemma pend_keys_delete: "pend_keys (AList.delete k ps) \<subseteq> pend_keys ps"
  by (auto simp: pend_keys_def AList.delete_eq)

lemma pend_keys_update: "pend_keys (AList.update k (i, ph) ps) \<subseteq> insert (i, k) (pend_keys ps)"
  by (induction ps) (auto simp: pend_keys_def split: if_splits)

lemma map_of_pend: "map_of ps k = Some (i, ph) \<Longrightarrow> (i, k) \<in> pend_keys ps"
  by (auto simp: pend_keys_def dest: map_of_SomeD)

lemma pend_keys_map_of: "(i, k) \<in> pend_keys ps \<Longrightarrow> map_of ps k \<noteq> None"
  by (induction ps) (auto split: if_splits)

lemma pending_id_key: "i \<in> set (pending_ids ps) \<longleftrightarrow> (\<exists>k. (i, k) \<in> pend_keys ps)"
  by (force simp: pending_ids_def pend_keys_def)

lemma keys_answer: "keys (answer_call v body c) \<subseteq> keys c" "queued_keys (answer_call v body c) \<subseteq> queued_keys c"
  using pend_keys_delete by (fastforce simp: keys_def answer_call_def part_defs Let_def split: sum.splits option.splits)+

lemma keys_offer: "pump c = PumpIdle \<Longrightarrow> keys (offer opts e c) \<subseteq> keys c"
  using offer_pump[of opts e c] by (auto simp: keys_def)

lemma keys_cancel: "pump c = PumpIdle \<Longrightarrow> keys (handle_cancel a k c) \<subseteq> keys c" "queued_keys (handle_cancel a k c) \<subseteq> queued_keys c"
proof -
  show "pump c = PumpIdle \<Longrightarrow> keys (handle_cancel a k c) \<subseteq> keys c"
    using pend_keys_delete[of k "pending c"] by (auto simp: keys_def handle_cancel_def part_defs Let_def split: option.splits)
  show "queued_keys (handle_cancel a k c) \<subseteq> queued_keys c"
    by (auto simp: handle_cancel_def part_defs Let_def split: option.splits)
qed

lemma keys_command: "pump_command a c = Some c' \<Longrightarrow> keys c' \<subseteq> keys c \<and> queued_keys c' \<subseteq> queued_keys c"
  using keys_cancel[where c = "c\<lparr>commands := tl (commands c), command_space := True\<rparr>"]
  by (fastforce simp: keys_def pump_command_def finishing_def Let_def split: if_splits list.splits command.splits sum.splits)

lemma keys_read: "pump_read opts c = Some c' \<Longrightarrow> keys c' \<subseteq> keys c \<and> queued_keys c' \<subseteq> queued_keys c"
proof (erule pump_read_cases)
  fix r rest d
  assume i: "pump c = PumpIdle" and d: "d = releaseReadBytes (rr_bytes r) (c\<lparr>reads := rest\<rparr>)"
    and c': "c' = d \<or> (\<exists>e. c' = finishing e d) \<or> (\<exists>m. decodeMessage (rr_payload r) = Inr m \<and> c' = dispatch_message opts m d)"
  have d': "keys d = keys c" "queued_keys d = queued_keys c" "pump d = PumpIdle" using i by (simp_all add: d keys_def)
  have "keys (finishing e d) = keys d" for e using d'(3) by (simp add: keys_def finishing_def)
  moreover have "keys (dispatch_message opts m d) \<subseteq> keys d \<and> queued_keys (dispatch_message opts m d) \<subseteq> queued_keys d" for m
    using d'(3) keys_answer keys_offer by (auto simp: dispatch_message_def split: message.splits)
  ultimately show ?thesis using c' d' by (fastforce simp: finishing_def)
qed

lemma keys_pump: "(\<And>k. phase_ok c k) \<Longrightarrow> pump_turn t \<Longrightarrow> step opts t c = Some c' \<Longrightarrow> keys c' \<subseteq> keys c \<and> queued_keys c' \<subseteq> queued_keys c"
proof (cases t)
  case (PumpCommand a)
  assume "step opts t c = Some c'"
  with PumpCommand keys_command show ?thesis by simp
next
  case PumpRead
  assume "step opts t c = Some c'"
  with PumpRead keys_read show ?thesis by simp
next
  case (PumpBegin a)
  assume "step opts t c = Some c'"
  with PumpBegin show ?thesis using pend_keys_delete pend_keys_update
    by (fastforce simp: keys_def pump_begin_def write_failed_def part_defs split: pump_at.splits if_splits sum.splits)
next
  case (PumpEnd a)
  assume "step opts t c = Some c'"
  with PumpEnd show ?thesis using pend_keys_delete pend_keys_update
    by (fastforce simp: keys_def pump_end_def write_failed_def part_defs Let_def split: pump_at.splits write_answer.splits)
next
  case (FinishResolve k)
  assume "step opts t c = Some c'"
  with FinishResolve show ?thesis using pend_keys_delete
    by (fastforce simp: keys_def finish_resolve_def part_defs Let_def split: pump_at.splits if_splits option.splits)
next
  case FinishDrain
  assume "step opts t c = Some c'"
  with FinishDrain show ?thesis
    by (auto simp: keys_def finish_drain_def part_defs Let_def split: pump_at.splits list.splits command.splits)
qed (auto simp: keys_def step_defs part_defs Let_def split: pump_at.splits if_splits list.splits)

lemma has_key_step: "has_key c i k \<Longrightarrow> step opts t c = Some c' \<Longrightarrow> has_key c' i k"
proof (cases "pump_turn t \<or> caller_turn t = None")
  case True
  assume "has_key c i k" "step opts t c = Some c'"
  with True callers_of_pump[of t opts c c'] quiet_turnD(3)[of t opts c c'] show ?thesis by (cases "pump_turn t") (auto simp: has_key_def)
next
  case False
  assume h: "has_key c i k" "step opts t c = Some c'"
  from False obtain j where "caller_turn t = Some j" by auto
  with h False show ?thesis
    by (cases t; cases "callers c j")
      (auto simp: has_key_def step_defs part_defs Let_def split: if_splits option.splits sum.splits caller_at.splits waited.splits)
qed

fun sending_turn :: "turn \<Rightarrow> bool" where
  "sending_turn (Enqueue i) = True" | "sending_turn (WithdrawSend i) = True" | "sending_turn t = False"

lemma keys_waiting:
  assumes "caller_turn t = Some i" "\<not> sending_turn t" "step opts t c = Some c'"
  shows "commands c' = commands c" "queued_keys c' \<subseteq> queued_keys c"
  using assms
  by (cases t; cases "callers c i"; auto simp: step_defs part_defs Let_def
      split: if_splits option.splits sum.splits caller_at.splits waited.splits)+

lemma keys_enqueue:
  assumes "enqueue_call opts i c = Some c'"
  shows "\<exists>k. has_key c' i k \<and> keys c' \<subseteq> insert (i, k) (keys c) \<and> queued_keys c' \<subseteq> insert k (queued_keys c)"
proof -
  from assms obtain r where r: "callers c i = Some (r, Enqueueing)"
    by (auto simp: enqueue_call_def split: option.splits caller_at.splits)
  with assms show ?thesis
    by (intro exI[of _ "key_of r"]) (auto simp: keys_def has_key_def enqueue_call_def part_defs Let_def split: if_splits)
qed

lemma keys_send:
  assumes "withdraw_send opts i c = Some c'"
  shows "\<exists>k. has_key c' i k \<and> keys c' \<subseteq> insert (i, k) (keys c) \<and> queued_keys c' \<subseteq> insert k (queued_keys c)"
proof -
  from assms obtain r where r: "callers c i = Some (r, Cancelling)"
    by (auto simp: withdraw_send_def split: option.splits caller_at.splits)
  with assms show ?thesis
    by (intro exI[of _ "key_of r"]) (auto simp: keys_def has_key_def withdraw_send_def part_defs split: if_splits)
qed

lemma keys_caller:
  assumes "caller_turn t = Some i" "step opts t c = Some c'"
  shows "keys c' \<subseteq> keys c \<and> queued_keys c' \<subseteq> queued_keys c \<or>
    (\<exists>k. has_key c' i k \<and> keys c' \<subseteq> insert (i, k) (keys c) \<and> queued_keys c' \<subseteq> insert k (queued_keys c))"
proof (cases "sending_turn t")
  case True
  with assms keys_enqueue keys_send show ?thesis by (cases t) auto
next
  case False
  moreover from assms(1) have "\<not> pump_turn t" by (cases t) auto
  ultimately show ?thesis
    using keys_waiting[OF assms(1) _ assms(2)] other_turnD(1,2)[OF _ assms(2)] by (simp add: keys_def)
qed

lemma keys_quiet: "\<not> pump_turn t \<Longrightarrow> caller_turn t = None \<Longrightarrow> step opts t c = Some c' \<Longrightarrow> keys c' = keys c"
  using quiet_turnD(8)[of t opts c c'] other_turnD(1,2)[of t opts c c'] by (simp add: keys_def)

lemma key_ok_step: "(\<And>k. phase_ok c k) \<Longrightarrow> key_ok c \<Longrightarrow> step opts t c = Some c' \<Longrightarrow> key_ok c'"
proof -
  assume p: "\<And>k. phase_ok c k" and h: "key_ok c" "step opts t c = Some c'"
  note mono = has_key_step[OF _ h(2)]
  consider "pump_turn t" | "\<not> pump_turn t" "caller_turn t = None" | i where "caller_turn t = Some i" by fastforce
  then show ?thesis
  proof cases
    case 1
    from keys_pump[OF p this h(2)] h(1) mono show ?thesis unfolding key_ok_def by blast
  next
    case 2
    from keys_quiet[OF this h(2)] quiet_turnD(6)[OF this h(2)] h(1) mono show ?thesis unfolding key_ok_def by blast
  next
    case 3
    from keys_caller[OF this h(2)] h(1) mono show ?thesis unfolding key_ok_def by blast
  qed
qed

end
