(* ===== verification/Client_Evidence.thy ===== *)
theory Client_Evidence
  imports Client_Verdict
begin

text \<open>
  The verdict "not written". A call whose key no other call uses is told that its request was not
  written only when that is so.
\<close>

section \<open>Verdicts\<close>

definition unwritten :: "call_outcome \<Rightarrow> bool" where
  "unwritten out = (case out of Inl e \<Rightarrow> ce_server e = None \<and> ce_phase e \<in> {WriteNotStarted, WriteProvenBeforeWrite} | Inr _ \<Rightarrow> False)"

definition denied :: "cancel_outcome \<Rightarrow> bool" where
  "denied out = (\<not> co_failed out \<and> co_phase out \<in> {WriteNotStarted, WriteProvenBeforeWrite})"

text \<open>Whatever happens next, the request does not enter the transport any more.\<close>

definition harmless :: "trace \<Rightarrow> nat \<Rightarrow> string \<Rightarrow> bool" where
  "harmless c i k = ((i \<in> set (handed c) \<longrightarrow> i \<in> set (disowned c)) \<and>
     (i \<in> set (requests (commands c)) \<or> i \<in> set (hand (pump c)) \<longrightarrow> k \<in> withdrawn c) \<and> at_write (pump c) i = 0)"

fun withdrawing :: "caller_at \<Rightarrow> bool" where
  "withdrawing Checking = True" | "withdrawing Cancelling = True" | "withdrawing AwaitingAck = True"
| "withdrawing (Concluding out) = True" | "withdrawing a = False"

fun returned :: "caller_at \<Rightarrow> bool" where
  "returned (Returned out) = True" | "returned a = False"

definition honest :: "trace \<Rightarrow> nat \<Rightarrow> string \<Rightarrow> caller_at \<Rightarrow> bool" where
  "honest c i k a \<longleftrightarrow>
     (k \<in> queued_keys c \<longleftrightarrow> i \<in> set (requests (commands c)) \<or> i \<in> set (taken_hand (pump c))) \<and>
     (\<forall>out. results c i = Some out \<or> a = Returned out \<longrightarrow> unwritten out \<longrightarrow> harmless c i k) \<and>
     (\<forall>out. acks c i = Some out \<and> \<not> returned a \<or> a = Concluding out \<longrightarrow> denied out \<longrightarrow> harmless c i k \<or> results c i \<noteq> None) \<and>
     (withdrawing a \<longrightarrow> i \<in> set (requests (commands c)) \<or> i \<in> set (hand (pump c)) \<longrightarrow> k \<in> withdrawn c) \<and>
     (i \<in> set (handed c) \<longrightarrow> \<not> returned a \<longrightarrow> i \<in> set (pending_ids (pending c)) \<or> results c i \<noteq> None \<or>
        (\<exists>out. (acks c i = Some out \<or> a = Concluding out) \<and> \<not> denied out))"

text \<open>No other call has the key.\<close>

definition sole :: "trace \<Rightarrow> nat \<Rightarrow> string \<Rightarrow> bool" where
  "sole c i k = (\<forall>j. has_key c j k \<longrightarrow> j = i)"

definition shape :: "trace \<Rightarrow> bool" where
  "shape c = ((\<forall>k. phase_ok c k) \<and> (\<forall>j. one_place c j) \<and> (\<forall>j. one_write c j) \<and> (\<forall>j. one_ack c j) \<and> stage_ok c \<and> key_ok c)"

lemma shape_New: "shape New"
  by (simp add: shape_def phase_ok_def one_place_def places_def one_write_def one_ack_def stage_ok_def key_ok_def keys_def New_def)

lemma shapeD:
  assumes "shape c"
  shows "phase_ok c k" "one_place c j" "one_write c j" "one_ack c j" "stage_ok c" "key_ok c"
  using assms by (simp_all add: shape_def)

lemma shape_step: "shape c \<Longrightarrow> step opts t c = Some c' \<Longrightarrow> shape c'"
proof -
  assume s: "shape c" and h: "step opts t c = Some c'"
  have "phase_ok c' k" for k by (rule phase_step[OF shapeD(1)[OF s] h])
  moreover have "one_place c' j" for j by (rule one_place_step[OF shapeD(1)[OF s] shapeD(2)[OF s] h])
  moreover have "one_write c' j" for j by (rule one_write_step[OF shapeD(3)[OF s] h])
  moreover have "one_ack c' j" for j by (rule one_ack_step[OF shapeD(4)[OF s] h])
  moreover have "stage_ok c'" by (rule stage_step[OF shapeD(5)[OF s] h])
  moreover have "key_ok c'" by (rule key_ok_step[OF shapeD(1)[OF s] shapeD(6)[OF s] h])
  ultimately show ?thesis by (simp add: shape_def)
qed

lemma shape_reachable: "reachable opts c \<Longrightarrow> shape c"
  by (induction rule: reachable.induct) (auto intro: shape_New shape_step)

text \<open>The counts as memberships.\<close>

lemma count_zero: "count_list xs x = 0 \<longleftrightarrow> x \<notin> set xs"
  by (simp add: count_list_0_iff)

lemma shape_places:
  assumes "shape c"
  shows "i \<in> set (handed c) \<Longrightarrow> i \<notin> set (requests (commands c)) \<and> i \<notin> set (hand (pump c)) \<and> at_write (pump c) i = 0"
    "i \<in> set (requests (commands c)) \<Longrightarrow> i \<notin> set (hand (pump c)) \<and> at_write (pump c) i = 0 \<and> results c i = None \<and> i \<notin> set (pending_ids (pending c))"
    "i \<in> set (hand (pump c)) \<Longrightarrow> results c i = None \<and> i \<notin> set (pending_ids (pending c))"
    "i \<in> set (pending_ids (pending c)) \<Longrightarrow> results c i = None"
    "admission (callers c i) = 0 \<Longrightarrow> i \<notin> set (handed c) \<and> i \<notin> set (requests (commands c)) \<and> i \<notin> set (hand (pump c)) \<and>
       at_write (pump c) i = 0 \<and> results c i = None \<and> i \<notin> set (pending_ids (pending c))"
proof -
  have p: "count_list (requests (commands c)) i + count_list (hand (pump c)) i + count_list (pending_ids (pending c)) i + full (results c i) \<le> admission (callers c i)"
    using shapeD(2)[OF assms] by (simp add: one_place_def places_def)
  have w: "count_list (handed c) i + count_list (requests (commands c)) i + count_list (hand (pump c)) i + at_write (pump c) i \<le> admission (callers c i)"
    using shapeD(3)[OF assms] by (simp add: one_write_def)
  have f: "full (results c i) = 0 \<longleftrightarrow> results c i = None" by (simp add: full_def)
  have z: "x \<in> set xs \<longleftrightarrow> count_list xs x \<noteq> 0" for x :: nat and xs by (simp add: count_list_0_iff)
  note le = admission_le[of "callers c i"]
  show "i \<in> set (handed c) \<Longrightarrow> i \<notin> set (requests (commands c)) \<and> i \<notin> set (hand (pump c)) \<and> at_write (pump c) i = 0"
    using w le unfolding z by arith
  show "i \<in> set (requests (commands c)) \<Longrightarrow> i \<notin> set (hand (pump c)) \<and> at_write (pump c) i = 0 \<and> results c i = None \<and> i \<notin> set (pending_ids (pending c))"
    using w p le unfolding z f[symmetric] by arith
  show "i \<in> set (hand (pump c)) \<Longrightarrow> results c i = None \<and> i \<notin> set (pending_ids (pending c))"
    using p le unfolding z f[symmetric] by arith
  show "i \<in> set (pending_ids (pending c)) \<Longrightarrow> results c i = None"
    using p le unfolding z f[symmetric] by arith
  show "admission (callers c i) = 0 \<Longrightarrow> i \<notin> set (handed c) \<and> i \<notin> set (requests (commands c)) \<and> i \<notin> set (hand (pump c)) \<and>
       at_write (pump c) i = 0 \<and> results c i = None \<and> i \<notin> set (pending_ids (pending c))"
    using w p unfolding z f[symmetric] by arith
qed

text \<open>The call under observation.\<close>

definition trusted :: "trace \<Rightarrow> nat \<Rightarrow> string \<Rightarrow> caller_at \<Rightarrow> bool" where
  "trusted c i k a = (shape c \<and> honest c i k a \<and> sole c i k \<and> (\<exists>r. callers c i = Some (r, a) \<and> k = key_of r))"

lemma trusted_keys: "trusted c i k a \<Longrightarrow> (j, kj) \<in> keys c \<Longrightarrow> kj = k \<longleftrightarrow> j = i"
proof -
  assume t: "trusted c i k a" and m: "(j, kj) \<in> keys c"
  then have "has_key c j kj" by (auto simp: trusted_def shape_def key_ok_def)
  moreover from t obtain r where "callers c i = Some (r, a)" "k = key_of r" by (auto simp: trusted_def)
  ultimately show ?thesis using t by (auto simp: trusted_def sole_def has_key_def)
qed

lemma in_keys:
  "(i, k) \<in> set (pump_keys (pump c)) \<Longrightarrow> (i, k) \<in> keys c"
  "cmd \<in> set (commands c) \<Longrightarrow> (i, k) \<in> set (cmd_keys cmd) \<Longrightarrow> (i, k) \<in> keys c"
  "map_of (pending c) k = Some (i, ph) \<Longrightarrow> (i, k) \<in> keys c"
  by (auto simp: keys_def dest: map_of_pend)

lemmas trusted_pump_key = trusted_keys[OF _ in_keys(1)]
lemmas trusted_pending_key = trusted_keys[OF _ in_keys(3)]

lemma trusted_pending: "trusted c i k a \<Longrightarrow> i \<in> set (pending_ids (pending c)) \<longleftrightarrow> (\<exists>ph. map_of (pending c) k = Some (i, ph))"
proof
  assume t: "trusted c i k a" and "i \<in> set (pending_ids (pending c))"
  then obtain k' where k': "(i, k') \<in> pend_keys (pending c)" by (auto simp: pending_id_key)
  with trusted_keys[OF t, of i k'] have "k' = k" by (simp add: keys_def)
  with k' pend_keys_map_of obtain j ph where "map_of (pending c) k = Some (j, ph)" by fastforce
  with trusted_pending_key[OF t] show "\<exists>ph. map_of (pending c) k = Some (i, ph)" by blast
next
  assume "\<exists>ph. map_of (pending c) k = Some (i, ph)"
  then show "i \<in> set (pending_ids (pending c))" using map_of_pend by (fastforce simp: pending_id_key)
qed

lemma trustedD:
  assumes "trusted c i k a"
  shows "shape c" "honest c i k a" "sole c i k"
  using assms by (simp_all add: trusted_def)

lemma harmless_mono:
  assumes "harmless c i k" "i \<in> set (handed d) \<longleftrightarrow> i \<in> set (handed c)" "i \<in> set (disowned c) \<longrightarrow> i \<in> set (disowned d)"
    "i \<in> set (requests (commands d)) \<longleftrightarrow> i \<in> set (requests (commands c))" "i \<in> set (hand (pump d)) \<longleftrightarrow> i \<in> set (hand (pump c))"
    "k \<in> withdrawn d \<longleftrightarrow> k \<in> withdrawn c" "at_write (pump d) i = at_write (pump c) i"
  shows "harmless d i k"
  using assms by (auto simp: harmless_def)

text \<open>A turn that is about another call.\<close>

lemma honest_elsewhere:
  assumes h: "honest c i k a"
    and q: "k \<in> queued_keys d \<longleftrightarrow> k \<in> queued_keys c" and r: "i \<in> set (requests (commands d)) \<longleftrightarrow> i \<in> set (requests (commands c))"
    and th: "i \<in> set (taken_hand (pump d)) \<longleftrightarrow> i \<in> set (taken_hand (pump c))"
    and hd: "i \<in> set (hand (pump d)) \<longleftrightarrow> i \<in> set (hand (pump c))" and aw: "at_write (pump d) i = at_write (pump c) i"
    and rs: "results d i = results c i" and ak: "acks d i = acks c i" and ha: "i \<in> set (handed d) \<longleftrightarrow> i \<in> set (handed c)"
    and di: "i \<in> set (disowned c) \<longrightarrow> i \<in> set (disowned d)" and w: "k \<in> withdrawn d \<longleftrightarrow> k \<in> withdrawn c"
    and pe: "i \<in> set (pending_ids (pending d)) \<longleftrightarrow> i \<in> set (pending_ids (pending c))"
  shows "honest d i k a"
proof -
  have m: "harmless c i k \<Longrightarrow> harmless d i k" using harmless_mono[OF _ ha di r hd w aw] .
  from h show ?thesis unfolding honest_def q r th rs ak ha w pe hd using m by blast
qed

lemma honestD:
  assumes "honest c i k a"
  shows "k \<in> queued_keys c \<longleftrightarrow> i \<in> set (requests (commands c)) \<or> i \<in> set (taken_hand (pump c))"
    "results c i = Some out \<Longrightarrow> unwritten out \<Longrightarrow> harmless c i k" "a = Returned out \<Longrightarrow> unwritten out \<Longrightarrow> harmless c i k"
    "acks c i = Some co \<Longrightarrow> \<not> returned a \<Longrightarrow> denied co \<Longrightarrow> harmless c i k \<or> results c i \<noteq> None"
    "a = Concluding co \<Longrightarrow> denied co \<Longrightarrow> harmless c i k \<or> results c i \<noteq> None"
    "withdrawing a \<Longrightarrow> i \<in> set (requests (commands c)) \<or> i \<in> set (hand (pump c)) \<Longrightarrow> k \<in> withdrawn c"
    "i \<in> set (handed c) \<Longrightarrow> \<not> returned a \<Longrightarrow> i \<in> set (pending_ids (pending c)) \<or> results c i \<noteq> None \<or>
        (\<exists>out. (acks c i = Some out \<or> a = Concluding out) \<and> \<not> denied out)"
  using assms unfolding honest_def by blast+

text \<open>Where a request is done with: whatever is still said of it is harmless.\<close>

lemma honest_settled:
  assumes "k \<notin> queued_keys d" "i \<notin> set (requests (commands d))" "i \<notin> set (hand (pump d))" "taken_hand (pump d) = []"
    "at_write (pump d) i = 0" "results d i = Some out" "i \<in> set (handed d) \<Longrightarrow> unwritten out \<Longrightarrow> i \<in> set (disowned d)"
    "\<And>out'. a = Returned out' \<Longrightarrow> unwritten out' \<Longrightarrow> i \<in> set (handed d) \<Longrightarrow> i \<in> set (disowned d)"
  shows "honest d i k a"
  using assms unfolding honest_def harmless_def by auto

lemma honest_unmark: "trusted c i k a \<Longrightarrow> pump_unmark c = Some c' \<Longrightarrow> honest c' i k a"
proof -
  assume t: "trusted c i k a" and h: "pump_unmark c = Some c'"
  from h obtain j kj r where p: "pump c = PumpTaken j kj r"
    and c': "c' = c\<lparr>queued_keys := queued_keys c - {kj}, pump := PumpUnmarked j kj r\<rparr>"
    by (auto simp: pump_unmark_def split: pump_at.splits)
  have key: "kj = k \<longleftrightarrow> j = i" by (rule trusted_pump_key[OF t]) (simp add: p)
  show ?thesis
  proof (cases "j = i")
    case True
    with p shape_places(2)[OF trustedD(1)[OF t], of i] have "i \<notin> set (requests (commands c))" by auto
    with trustedD(2)[OF t] True key show ?thesis by (auto simp: honest_def harmless_def c' p)
  next
    case False
    show ?thesis by (rule honest_elsewhere[OF trustedD(2)[OF t]]) (use False key in \<open>simp_all add: c' p\<close>)
  qed
qed

lemma pending_delete_elsewhere:
  assumes "trusted c i k a" "kj \<noteq> k"
  shows "i \<in> set (pending_ids (AList.delete kj (pending c))) \<longleftrightarrow> i \<in> set (pending_ids (pending c))"
proof -
  have "k' = k" if "(i, k') \<in> pend_keys (pending c)" for k'
    using trusted_keys[OF assms(1), of i k'] that by (simp add: keys_def)
  with assms(2) show ?thesis by (auto simp: pending_id_key pend_keys_def AList.delete_eq)
qed

lemma pending_delete_self:
  assumes "trusted c i k a"
  shows "i \<notin> set (pending_ids (AList.delete k (pending c)))"
proof -
  have "k' = k" if "(i, k') \<in> pend_keys (pending c)" for k'
    using trusted_keys[OF assms(1), of i k'] that by (simp add: keys_def)
  then show ?thesis by (auto simp: pending_id_key pend_keys_def AList.delete_eq)
qed

lemma honest_check: "trusted c i k a \<Longrightarrow> pump_check c = Some c' \<Longrightarrow> honest c' i k a"
proof -
  assume t: "trusted c i k a" and h: "pump_check c = Some c'"
  from h obtain j kj r where p: "pump c = PumpUnmarked j kj r" by (auto simp: pump_check_def split: pump_at.splits)
  have key: "kj = k \<longleftrightarrow> j = i" by (rule trusted_pump_key[OF t]) (simp add: p)
  note H = trustedD(2)[OF t] and S = shape_places[OF trustedD(1)[OF t], of i]
  show ?thesis
  proof (cases "j = i")
    case True
    with p S have i: "i \<notin> set (requests (commands c))" "i \<notin> set (handed c)" "results c i = None" by auto
    have w: "i \<in> set (hand (pump c))" using p True by simp
    show ?thesis
    proof (cases "kj \<in> withdrawn c \<or> map_of (pending c) kj \<noteq> None")
      case w: True
      have "k \<notin> queued_keys c" using honestD(1)[OF H] i p by simp
      with w h p True key i H show ?thesis by (auto simp: pump_check_def part_defs honest_def harmless_def split: if_splits)
    next
      case False
      with key True have nk: "k \<notin> withdrawn c" by simp
      then have nh: "\<not> harmless c i k" using w by (simp add: harmless_def)
      with H i w nk have "\<not> withdrawing a" "\<And>out. a = Returned out \<Longrightarrow> \<not> unwritten out" "\<And>out. acks c i = Some out \<Longrightarrow> \<not> returned a \<Longrightarrow> \<not> denied out"
        "\<And>out. a = Concluding out \<Longrightarrow> \<not> denied out" "k \<notin> queued_keys c"
        using p True by (auto simp: honest_def)
      with h p True key i False show ?thesis by (auto simp: pump_check_def honest_def)
    qed
  next
    case False
    show ?thesis by (rule honest_elsewhere[OF H]) (use False h p key in \<open>auto simp: pump_check_def part_defs split: if_splits\<close>)
  qed
qed

lemma honest_write_failed:
  assumes t: "trusted c i k a" and j: "map_of (pending c) kj = Some (j, ph0)" and key: "kj = k \<longleftrightarrow> j = i"
    and d: "set (disowned c) \<subseteq> set (disowned d)" "commands d = commands c" "pump d = pump c" "pending d = pending c" "handed d = handed c"
      "results d = results c" "acks d = acks c" "queued_keys d = queued_keys c" "withdrawn d = withdrawn c"
    and hand: "hand (pump c) = []" "taken_hand (pump c) = []" and aw: "\<And>l. l \<noteq> j \<Longrightarrow> at_write (pump c) l = 0"
    and ph: "j = i \<Longrightarrow> ph \<in> {WriteNotStarted, WriteProvenBeforeWrite} \<Longrightarrow> i \<in> set (handed c) \<Longrightarrow> i \<in> set (disowned d)"
  shows "honest (write_failed j kj err ph d) i k a"
proof (cases "j = i")
  case True
  with key have k: "kj = k" by simp
  have "i \<in> set (pending_ids (pending c))" using j True k trusted_pending[OF t] by auto
  then have "i \<notin> set (requests (commands c))" using shape_places(2)[OF trustedD(1)[OF t], of i] by auto
  with True k d ph have *: "k \<notin> queued_keys (write_failed j kj err ph d)" "i \<notin> set (requests (commands (write_failed j kj err ph d)))"
    "i \<notin> set (hand (pump (write_failed j kj err ph d)))" "taken_hand (pump (write_failed j kj err ph d)) = []"
    "at_write (pump (write_failed j kj err ph d)) i = 0" "results (write_failed j kj err ph d) i = Some (call_failed err False ph)"
    "handed (write_failed j kj err ph d) = handed c" "disowned (write_failed j kj err ph d) = disowned d"
    by (simp_all add: write_failed_def part_defs)
  show ?thesis
    by (rule honest_settled[OF *(1-6)])
      (use *(7,8) ph True d(1) honestD(3)[OF trustedD(2)[OF t]] in \<open>auto simp: call_failed_def unwritten_def harmless_def\<close>)
next
  case False
  with key have "kj \<noteq> k" by simp
  show ?thesis by (rule honest_elsewhere[OF trustedD(2)[OF t]])
      (use False d hand aw pending_delete_elsewhere[OF t \<open>kj \<noteq> k\<close>] \<open>kj \<noteq> k\<close> in \<open>auto simp: write_failed_def part_defs\<close>)
qed

lemma honest_begin: "trusted c i k a \<Longrightarrow> pump_begin x c = Some c' \<Longrightarrow> honest c' i k a"
proof -
  assume t: "trusted c i k a" and h: "pump_begin x c = Some c'"
  from h obtain j kj r where p: "pump c = PumpCleared j kj r" by (auto simp: pump_begin_def split: pump_at.splits)
  have key: "kj = k \<longleftrightarrow> j = i" by (rule trusted_pump_key[OF t]) (simp add: p)
  have m: "map_of (pending c) kj = Some (j, WriteNotStarted)" by (rule phase_writing(2)[OF shapeD(1)[OF trustedD(1)[OF t]] p])
  note S = shape_places[OF trustedD(1)[OF t], of i] and H = trustedD(2)[OF t]
  have nh: "j = i \<Longrightarrow> i \<notin> set (handed c)" using S(1) p by auto
  have f: "honest (write_failed j kj err ph c) i k a" for err ph
    by (rule honest_write_failed[OF t m key]) (use p nh in auto)
  show ?thesis
  proof (cases "\<exists>err ph. c' = write_failed j kj err ph c")
    case True
    with f show ?thesis by blast
  next
    case False
    with h p have c': "c' = c\<lparr>pending := AList.update kj (j, WriteMayHaveWritten) (pending c), active := Some (kj, True),
               handed := j # handed c, pump := PumpWriting j kj\<rparr>"
      by (auto simp: pump_begin_def split: sum.splits if_splits)
    show ?thesis
    proof (cases "j = i")
      case True
      have pi: "i \<in> set (pending_ids (pending c))" using m True key trusted_pending[OF t] by auto
      with S have i: "results c i = None" "i \<notin> set (requests (commands c))" by auto
      have "\<not> harmless c i k" using p True by (simp add: harmless_def)
      with H i have "\<And>out. a = Returned out \<Longrightarrow> \<not> unwritten out" "\<And>out. acks c i = Some out \<Longrightarrow> \<not> returned a \<Longrightarrow> \<not> denied out"
        "\<And>out. a = Concluding out \<Longrightarrow> \<not> denied out" "k \<notin> queued_keys c" using p by (auto simp: honest_def)
      with i pi True m show ?thesis by (auto simp: honest_def c')
    next
      case False
      show ?thesis by (rule honest_elsewhere[OF H]) (use False m p in \<open>auto simp: c'\<close>)
    qed
  qed
qed

lemma honest_end: "trusted c i k a \<Longrightarrow> pump_end x c = Some c' \<Longrightarrow> honest c' i k a"
proof -
  assume t: "trusted c i k a" and h: "pump_end x c = Some c'"
  note H = trustedD(2)[OF t]
  from h consider (writing) j kj where "pump c = PumpWriting j kj" | (notify) j where "pump c = PumpNotifying j"
    by (auto simp: pump_end_def split: pump_at.splits)
  then show ?thesis
  proof cases
    case writing
    have key: "kj = k \<longleftrightarrow> j = i" by (rule trusted_pump_key[OF t]) (simp add: writing)
    have m: "map_of (pending c) kj = Some (j, WriteMayHaveWritten)" by (rule phase_writing(1)[OF shapeD(1)[OF trustedD(1)[OF t]] writing])
    show ?thesis
    proof (cases x)
      case Written
      show ?thesis by (rule honest_elsewhere[OF H]) (use Written h writing m in \<open>auto simp: pump_end_def Let_def\<close>)
    next
      case (PlainError e)
      with h writing have "c' = write_failed j kj e WriteMayHaveWritten (c\<lparr>active := None\<rparr>)" by (simp add: pump_end_def Let_def)
      moreover have "honest (write_failed j kj e WriteMayHaveWritten (c\<lparr>active := None\<rparr>)) i k a"
        by (rule honest_write_failed[OF t m key]) (use writing in auto)
      ultimately show ?thesis by simp
    next
      case (ReportedError e ph)
      with h writing have "c' = write_failed j kj e ph (c\<lparr>active := None, disowned := j # disowned c\<rparr>)" by (simp add: pump_end_def Let_def)
      moreover have "honest (write_failed j kj e ph (c\<lparr>active := None, disowned := j # disowned c\<rparr>)) i k a"
        by (rule honest_write_failed[OF t m key]) (use writing in auto)
      ultimately show ?thesis by simp
    qed
  next
    case notify
    show ?thesis by (rule honest_elsewhere[OF H]) (use notify h in \<open>auto simp: pump_end_def Let_def finishing_def split: write_answer.splits\<close>)
  qed
qed

lemma honest_resolve: "trusted c i k a \<Longrightarrow> finish_resolve kj c = Some c' \<Longrightarrow> honest c' i k a"
proof -
  assume t: "trusted c i k a" and h: "finish_resolve kj c = Some c'"
  note H = trustedD(2)[OF t]
  from h obtain err where p: "pump c = PumpResolving err" by (auto simp: finish_resolve_def split: pump_at.splits)
  show ?thesis
  proof (cases "pending c = []")
    case True
    show ?thesis by (rule honest_elsewhere[OF H]) (use True h p in \<open>auto simp: finish_resolve_def\<close>)
  next
    case False
    with h p obtain j ph where m: "map_of (pending c) kj = Some (j, ph)" by (auto simp: finish_resolve_def split: option.splits)
    have ph: "ph = WriteComplete" using shapeD(1)[OF trustedD(1)[OF t], of kj] m p by (auto simp: phase_ok_def)
    have key: "kj = k \<longleftrightarrow> j = i" using trusted_pending_key[OF t m] .
    from h p False m ph have c': "c' = releaseUnknownReservation kj True (send_result j (call_failed err False WriteMayHaveWritten) (c\<lparr>pending := AList.delete kj (pending c)\<rparr>))"
      by (simp add: finish_resolve_def Let_def resolved_phase_def)
    show ?thesis
    proof (cases "j = i")
      case True
      with key have "kj = k" by simp
      moreover have "i \<notin> set (requests (commands c))"
        using shape_places(2)[OF trustedD(1)[OF t], of i] trusted_pending[OF t] m True key by auto
      ultimately have *: "k \<notin> queued_keys c'" "i \<notin> set (requests (commands c'))" "i \<notin> set (hand (pump c'))" "taken_hand (pump c') = []"
        "at_write (pump c') i = 0" "results c' i = Some (call_failed err False WriteMayHaveWritten)" "handed c' = handed c" "disowned c' = disowned c"
        using True p by (simp_all add: c' part_defs)
      show ?thesis by (rule honest_settled[OF *(1-6)])
        (use *(7,8) honestD(3)[OF H] in \<open>auto simp: call_failed_def unwritten_def harmless_def\<close>)
    next
      case False
      show ?thesis by (rule honest_elsewhere[OF H]) (use False key pending_delete_elsewhere[OF t] p in \<open>auto simp: c' part_defs\<close>)
    qed
  qed
qed

text \<open>A cancellation that finds its call in no pending entry.\<close>

lemma canceling_state:
  assumes t: "trusted c i k a" and h: "CmdCancel i kj \<in> set (commands c)" and p: "pump c \<noteq> PumpEnded"
  shows "a = AwaitingAck" "acks c i = None"
proof -
  have "\<not> closed c" using shapeD(5)[OF trustedD(1)[OF t]] p by (auto simp: stage_ok_def)
  moreover have "count_list (cancels (commands c)) i \<noteq> 0"
    using h by (auto simp: count_list_0_iff cancels_def intro!: bexI[of _ "CmdCancel i kj"])
  moreover have "count_list (cancels (commands c)) i + full (acks c i) \<le> cancel_open (closed c) (callers c i)"
    using shapeD(4)[OF trustedD(1)[OF t]] by (simp add: one_ack_def)
  moreover obtain r where r: "callers c i = Some (r, a)" using t by (auto simp: trusted_def)
  ultimately show "a = AwaitingAck" "acks c i = None" by (cases a; auto simp: full_def split: if_splits)+
qed

text \<open>The acknowledgment \<open>out\<close> of a call that is not pending is true, whatever it says.\<close>

lemma honest_ack:
  assumes t: "trusted c i k a" and cs: "CmdCancel i kj \<in> set (commands c)" and p: "pump c \<noteq> PumpEnded"
    and np: "i \<notin> set (pending_ids (pending c))" and hand: "hand (pump c) = []" "taken_hand (pump c) = []" "at_write (pump c) i = 0"
    and d: "requests (commands d) = requests (commands c)" "pump d = pump c" "acks d i = Some out" "results d = results c"
      "handed d = handed c" "disowned d = disowned c" "pending d = pending c" "k \<in> queued_keys d \<longleftrightarrow> k \<in> queued_keys c"
      "k \<in> queued_keys c \<longrightarrow> (k \<in> withdrawn d \<longleftrightarrow> k \<in> withdrawn c)"
  shows "honest d i k a"
proof -
  note H = honestD[OF trustedD(2)[OF t]]
  from canceling_state[OF t cs p] have a: "a = AwaitingAck" "acks c i = None" .
  have q: "i \<in> set (requests (commands c)) \<Longrightarrow> k \<in> queued_keys c" using H(1) by blast
  have hd: "i \<in> set (handed c) \<Longrightarrow> results c i \<noteq> None" using H(7) a np by auto
  have w: "i \<in> set (requests (commands c)) \<Longrightarrow> k \<in> withdrawn d" using H(6) a q d(9) by auto
  have m: "harmless d i k \<or> results c i \<noteq> None" using hd w hand by (auto simp: harmless_def d)
  have r: "harmless d i k" if "results c i = Some x" "unwritten x" for x
    using H(2)[OF that] w hand by (auto simp: harmless_def d)
  show ?thesis unfolding honest_def d using m r H(1) a hd hand w d(9) by auto
qed

lemma honest_cancel:
  assumes t: "trusted c i k a" and cs: "commands c = CmdCancel j kj # rest" and p: "pump c = PumpIdle"
  shows "honest (handle_cancel j kj (c\<lparr>commands := rest, command_space := True\<rparr>)) i k a"
proof -
  note H = trustedD(2)[OF t]
  have key: "kj = k \<longleftrightarrow> j = i" by (rule trusted_keys[OF t in_keys(2)[of "CmdCancel j kj"]]) (simp_all add: cs)
  show ?thesis
  proof (cases "map_of (pending c) kj")
    case None
    show ?thesis
    proof (cases "j = i")
      case True
      with key have k: "kj = k" by simp
      have "i \<notin> set (pending_ids (pending c))" using trusted_pending[OF t] None k by simp
      note A = honest_ack[OF t _ _ this, of kj]
      have "CmdCancel i kj \<in> set (commands c)" "pump c \<noteq> PumpEnded" using cs p True by simp_all
      note A = A[OF this]
      obtain out where out: "acks (handle_cancel j kj (c\<lparr>commands := rest, command_space := True\<rparr>)) i = Some out"
        using cancel_acks(2) True by fastforce
      show ?thesis
        by (rule A[OF _ _ _ _ _ out])
          (use cs p None k True in \<open>auto simp: handle_cancel_def part_defs Let_def split: option.splits\<close>)
    next
      case False
      show ?thesis by (rule honest_elsewhere[OF H])
        (use False key None cs p in \<open>auto simp: handle_cancel_def part_defs Let_def split: option.splits\<close>)
    qed
  next
    case (Some x)
    then obtain l ph where m: "map_of (pending c) kj = Some (l, ph)" by (cases x) auto
    have ph: "ph = WriteComplete" using shapeD(1)[OF trustedD(1)[OF t], of kj] m p by (auto simp: phase_ok_def)
    show ?thesis
    proof (cases "j = i")
      case True
      with key have k: "kj = k" by simp
      with m trusted_pending_key[OF t m] have "l = i" by simp
      have "i \<notin> set (requests (commands c))" "results c i = None"
        using shape_places(2,4)[OF trustedD(1)[OF t], of i] trusted_pending[OF t] m k \<open>l = i\<close> by auto
      moreover have "a = AwaitingAck" using canceling_state(1)[OF t, of kj] cs p True by simp
      ultimately show ?thesis using m ph k True cs p
        by (auto simp: handle_cancel_def part_defs Let_def honest_def denied_def)
    next
      case False
      show ?thesis by (rule honest_elsewhere[OF H])
        (use False key m ph cs p pending_delete_elsewhere[OF t] in \<open>auto simp: handle_cancel_def part_defs Let_def\<close>)
    qed
  qed
qed

lemma honest_command: "trusted c i k a \<Longrightarrow> pump_command x c = Some c' \<Longrightarrow> honest c' i k a"
proof -
  assume t: "trusted c i k a" and h: "pump_command x c = Some c'"
  note H = trustedD(2)[OF t]
  from h obtain cmd rest where p: "pump c = PumpIdle" and cs: "commands c = cmd # rest"
    by (auto simp: pump_command_def split: if_splits list.splits)
  show ?thesis
  proof (cases cmd)
    case (CmdRequest j kj r)
    with h p cs have c': "c' = c\<lparr>commands := rest, command_space := True, pump := PumpTaken j kj r\<rparr>"
      by (simp add: pump_command_def Let_def)
    have n: "i \<in> set (requests (commands c)) \<Longrightarrow> i = j \<or> i \<in> set (requests rest)" using cs CmdRequest by auto
    from H show ?thesis using p cs CmdRequest by (auto simp: honest_def harmless_def c')
  next
    case (CmdNotify j n)
    show ?thesis by (rule honest_elsewhere[OF H])
      (use CmdNotify h p cs in \<open>auto simp: pump_command_def Let_def finishing_def split: sum.splits if_splits\<close>)
  next
    case (CmdCancel j kj)
    with h p cs honest_cancel[OF t] show ?thesis by (auto simp: pump_command_def Let_def)
  next
    case CmdClose
    show ?thesis by (rule honest_elsewhere[OF H]) (use CmdClose h p cs in \<open>auto simp: pump_command_def Let_def finishing_def\<close>)
  qed
qed

lemma honest_drain: "trusted c i k a \<Longrightarrow> finish_drain c = Some c' \<Longrightarrow> honest c' i k a"
proof -
  assume t: "trusted c i k a" and h: "finish_drain c = Some c'"
  note H = trustedD(2)[OF t]
  from h obtain err where p: "pump c = PumpDraining err" by (auto simp: finish_drain_def split: pump_at.splits)
  have pe: "pending c = []" using shapeD(5)[OF trustedD(1)[OF t]] p by (auto simp: stage_ok_def)
  show ?thesis
  proof (cases "commands c")
    case Nil
    show ?thesis by (rule honest_elsewhere[OF H]) (use Nil h p in \<open>auto simp: finish_drain_def\<close>)
  next
    case (Cons cmd rest)
    show ?thesis
    proof (cases cmd)
      case (CmdRequest j kj r)
      have key: "kj = k \<longleftrightarrow> j = i" by (rule trusted_keys[OF t in_keys(2)[of "CmdRequest j kj r"]]) (simp_all add: Cons CmdRequest)
      from h p Cons CmdRequest have c': "c' = send_result j (call_failed err False WriteProvenBeforeWrite) (release kj (c\<lparr>commands := rest, command_space := True\<rparr>))"
        by (simp add: finish_drain_def Let_def)
      show ?thesis
      proof (cases "j = i")
        case True
        have "count_list (requests (commands c)) i \<le> 1"
          using shapeD(2)[OF trustedD(1)[OF t], of i] admission_le[of "callers c i"] by (simp add: one_place_def places_def)
        then have "i \<notin> set (requests rest)" using Cons CmdRequest True by (simp add: count_list_0_iff)
        moreover have "i \<notin> set (handed c)" using shape_places(1)[OF trustedD(1)[OF t], of i] Cons CmdRequest True by auto
        ultimately have *: "k \<notin> queued_keys c'" "i \<notin> set (requests (commands c'))" "i \<notin> set (hand (pump c'))" "taken_hand (pump c') = []"
          "at_write (pump c') i = 0" "results c' i = Some (call_failed err False WriteProvenBeforeWrite)" "i \<notin> set (handed c')"
          using True p key by (simp_all add: c' part_defs)
        show ?thesis by (rule honest_settled[OF *(1-6)]) (use *(7) in auto)
      next
        case False
        show ?thesis by (rule honest_elsewhere[OF H]) (use False key p Cons CmdRequest in \<open>auto simp: c' part_defs\<close>)
      qed
    next
      case (CmdNotify j n)
      show ?thesis by (rule honest_elsewhere[OF H]) (use CmdNotify h p Cons in \<open>auto simp: finish_drain_def Let_def\<close>)
    next
      case (CmdCancel j kj)
      show ?thesis
      proof (cases "j = i")
        case True
        have cs: "CmdCancel i kj \<in> set (commands c)" "pump c \<noteq> PumpEnded" "i \<notin> set (pending_ids (pending c))" using Cons CmdCancel True p pe by auto
        show ?thesis by (rule honest_ack[OF t cs, of c' "\<lparr>co_phase = WriteProvenBeforeWrite, co_ok = True, co_completed = False, co_failed = False\<rparr>"])
          (use CmdCancel True h p Cons in \<open>auto simp: finish_drain_def Let_def\<close>)
      next
        case False
        show ?thesis by (rule honest_elsewhere[OF H]) (use False CmdCancel h p Cons in \<open>auto simp: finish_drain_def Let_def\<close>)
      qed
    next
      case CmdClose
      show ?thesis by (rule honest_elsewhere[OF H]) (use CmdClose h p Cons in \<open>auto simp: finish_drain_def Let_def\<close>)
    qed
  qed
qed

lemma honest_answer: "trusted c i k a \<Longrightarrow> pump c = PumpIdle \<Longrightarrow> honest (answer_call v body c) i k a"
proof -
  assume t: "trusted c i k a" and p: "pump c = PumpIdle"
  note H = trustedD(2)[OF t]
  show ?thesis
  proof (cases "\<exists>kj j ph. requestIDKey v = Inr kj \<and> map_of (pending c) kj = Some (j, ph)")
    case False
    show ?thesis by (rule honest_elsewhere[OF H])
      (use False in \<open>auto simp: answer_call_def part_defs Let_def split: sum.splits option.splits\<close>)
  next
    case True
    then obtain kj j ph where v: "requestIDKey v = Inr kj" and m: "map_of (pending c) kj = Some (j, ph)" by blast
    have key: "kj = k \<longleftrightarrow> j = i" using trusted_pending_key[OF t m] .
    show ?thesis
    proof (cases "j = i")
      case True
      with key have k: "kj = k" by simp
      have "i \<notin> set (requests (commands c))" using shape_places(2)[OF trustedD(1)[OF t], of i] trusted_pending[OF t] m k True by auto
      then obtain out where *: "k \<notin> queued_keys (answer_call v body c)" "i \<notin> set (requests (commands (answer_call v body c)))"
        "i \<notin> set (hand (pump (answer_call v body c)))" "taken_hand (pump (answer_call v body c)) = []"
        "at_write (pump (answer_call v body c)) i = 0" "results (answer_call v body c) i = Some out" and u: "\<not> unwritten out"
        using v m k True p by (cases body) (auto simp: answer_call_def part_defs Let_def unwritten_def split: prod.splits)
      show ?thesis by (rule honest_settled[OF *]) (use u honestD(3)[OF H] in \<open>auto simp: harmless_def\<close>)
    next
      case False
      show ?thesis by (rule honest_elsewhere[OF H])
        (use False key v m pending_delete_elsewhere[OF t] in \<open>auto simp: answer_call_def part_defs Let_def\<close>)
    qed
  qed
qed

lemma honest_read: "trusted c i k a \<Longrightarrow> pump_read opts c = Some c' \<Longrightarrow> honest c' i k a"
proof -
  assume t: "trusted c i k a" and h: "pump_read opts c = Some c'"
  from h show ?thesis
  proof (rule pump_read_cases)
    fix r rest d
    assume p: "pump c = PumpIdle" and d: "d = releaseReadBytes (rr_bytes r) (c\<lparr>reads := rest\<rparr>)"
      and c': "c' = d \<or> (\<exists>e. c' = finishing e d) \<or> (\<exists>m. decodeMessage (rr_payload r) = Inr m \<and> c' = dispatch_message opts m d)"
    have e: "answer_call v body d = (answer_call v body c)\<lparr>reads := reads d, read_bytes := read_bytes d\<rparr>" for v body
      unfolding d by (auto simp: answer_call_def part_defs Let_def split: sum.splits option.splits)
    have "honest d i k a" by (rule honest_elsewhere[OF trustedD(2)[OF t]]) (simp_all add: d)
    moreover have "honest (finishing e d) i k a" for e
      by (rule honest_elsewhere[OF \<open>honest d i k a\<close>]) (simp_all add: finishing_def d p)
    moreover have "honest (offer opts e d) i k a" for e
      by (rule honest_elsewhere[OF \<open>honest d i k a\<close>]) (use offer_pump[of opts e d] p in \<open>auto simp: d\<close>)
    moreover have "honest (answer_call v body d) i k a" for v body
      unfolding e by (rule honest_elsewhere[OF honest_answer[OF t p, of v body]]) simp_all
    ultimately have "honest (dispatch_message opts m d) i k a" for m by (simp add: dispatch_message_def split: message.split)
    with \<open>honest d i k a\<close> \<open>\<And>e. honest (finishing e d) i k a\<close> c' show ?thesis by blast
  qed
qed

lemma honest_pump:
  assumes t: "trusted c i k a" and pt: "pump_turn x" and h: "step opts x c = Some c'"
  shows "honest c' i k a"
proof (cases x)
  case (PumpCommand w) with h honest_command[OF t] show ?thesis by simp
next
  case PumpUnmark with h honest_unmark[OF t] show ?thesis by simp
next
  case PumpCheck with h honest_check[OF t] show ?thesis by simp
next
  case (PumpBegin w) with h honest_begin[OF t] show ?thesis by simp
next
  case (PumpEnd w) with h honest_end[OF t] show ?thesis by simp
next
  case PumpRead with h honest_read[OF t] show ?thesis by simp
next
  case PumpDone
  show ?thesis by (rule honest_elsewhere[OF trustedD(2)[OF t]]) (use PumpDone h in \<open>auto simp: pump_done_def finishing_def split: if_splits\<close>)
next
  case FinishStop
  show ?thesis by (rule honest_elsewhere[OF trustedD(2)[OF t]]) (use FinishStop h in \<open>auto simp: finish_stop_def split: pump_at.splits\<close>)
next
  case (FinishResolve kj) with h honest_resolve[OF t] show ?thesis by simp
next
  case FinishDrain with h honest_drain[OF t] show ?thesis by simp
next
  case FinishEvict
  show ?thesis by (rule honest_elsewhere[OF trustedD(2)[OF t]])
    (use FinishEvict h in \<open>auto simp: finish_evict_def releaseEventBytes_def split: pump_at.splits list.splits if_splits\<close>)
next
  case PumpReturn
  show ?thesis by (rule honest_elsewhere[OF trustedD(2)[OF t]]) (use PumpReturn h in \<open>auto simp: pump_return_def split: if_splits\<close>)
qed (use pt in simp_all)

section \<open>Turns of the callers\<close>

lemma honest_start:
  assumes s: "shape c" and h: "start_call i r e c = Some c'" and so: "sole c' i (key_of r)" and a: "callers c' i = Some (r, a)"
  shows "honest c' i (key_of r) a"
proof -
  have n: "callers c i = None" using h by (cases "callers c i") (simp_all add: start_call_def)
  have z: "i \<notin> set (handed c)" "i \<notin> set (requests (commands c))" "i \<notin> set (hand (pump c))" "at_write (pump c) i = 0" "results c i = None"
    "i \<notin> set (pending_ids (pending c))" using shape_places(5)[OF s, of i] n by auto
  have ak: "acks c i = None" using shapeD(4)[OF s, of i] n by (simp add: one_ack_def full_def split: if_splits)
  have th: "i \<notin> set (taken_hand (pump c))" using z(3) by (cases "pump c") auto
  have q: "key_of r \<notin> queued_keys c"
  proof
    assume "key_of r \<in> queued_keys c"
    then obtain j where j: "has_key c j (key_of r)" using shapeD(6)[OF s] by (auto simp: key_ok_def)
    then have "has_key c' j (key_of r)" using has_key_step[of c j _ undefined "StartCall i r e" c'] h by simp
    with so have "j = i" by (simp add: sole_def)
    with j n show False by (simp add: has_key_def)
  qed
  have same: "commands c' = commands c" "pump c' = pump c" "pending c' = pending c" "results c' = results c" "acks c' = acks c"
    "handed c' = handed c" "queued_keys c' = queued_keys c" "a = Enqueueing \<or> returned a"
    using h a n by (auto simp: start_call_def part_defs split: if_splits option.splits sum.splits)
  show ?thesis using z ak th q same by (auto simp: honest_def harmless_def)
qed

lemma caller_tables:
  assumes "caller_turn t = Some j" "step opts t c = Some c'" "callers c' j = Some (r, a)"
  shows "queued_keys c' - {key_of r} = queued_keys c - {key_of r}" "withdrawn c' - {key_of r} = withdrawn c - {key_of r}"
  using assms
  by (cases t; cases "callers c j"; auto simp: step_defs part_defs Let_def
      split: if_splits option.splits sum.splits caller_at.splits waited.splits)+

lemma caller_frame:
  assumes "caller_turn t = Some j" "step opts t c = Some c'" "j \<noteq> i"
  shows "results c' i = results c i" "acks c' i = acks c i" "callers c' i = callers c i"
    "i \<in> set (requests (commands c')) \<longleftrightarrow> i \<in> set (requests (commands c))"
  using assms
  by (cases t; cases "callers c j"; auto simp: step_defs part_defs Let_def
      split: if_splits option.splits sum.splits caller_at.splits waited.splits)+

lemma caller_known:
  assumes "caller_turn t = Some j" "step opts t c = Some c'"
  shows "callers c' j \<noteq> None"
  using assms
  by (cases t; cases "callers c j"; auto simp: step_defs part_defs Let_def
      split: if_splits option.splits sum.splits caller_at.splits waited.splits)

lemma honest_other_caller:
  assumes t: "trusted c i k a" and ct: "caller_turn t = Some j" "j \<noteq> i" and h: "step opts t c = Some c'" and so: "sole c' i k"
  shows "honest c' i k a"
proof -
  have np: "\<not> pump_turn t" using ct(1) by (cases t) auto
  obtain r b where r: "callers c' j = Some (r, b)" using caller_known[OF ct(1) h] by auto
  with so ct(2) have "key_of r \<noteq> k" by (auto simp: sole_def has_key_def)
  with caller_tables[OF ct(1) h r] have "k \<in> queued_keys c' \<longleftrightarrow> k \<in> queued_keys c" "k \<in> withdrawn c' \<longleftrightarrow> k \<in> withdrawn c" by blast+
  then show ?thesis
    by (intro honest_elsewhere[OF trustedD(2)[OF t]]) (simp_all add: caller_frame[OF ct(1) h ct(2)] other_turnD[OF np h])
qed

lemma honest_take:
  assumes t: "trusted c i k a" and h: "take_result i r c = Some c'" and r: "callers c i = Some (r, a)"
  obtains out where "callers c' i = Some (r, Returned out)" "honest c' i k (Returned out)"
proof -
  from h obtain out where out: "results c i = Some out"
    and c': "c' = set_caller i r (Returned out) (forgetCompleted (key_of r) (c\<lparr>results := (results c)(i := None)\<rparr>))"
    by (auto simp: take_result_def split: option.splits)
  have p: "i \<notin> set (requests (commands c))" "i \<notin> set (hand (pump c))" "i \<notin> set (pending_ids (pending c))"
    using shape_places(2-4)[OF trustedD(1)[OF t], of i] out by auto
  note H = honestD[OF trustedD(2)[OF t]]
  have "honest c' i k (Returned out)" unfolding honest_def using H(1) H(2)[OF out] p
    by (auto simp: c' part_defs harmless_def)
  moreover have "callers c' i = Some (r, Returned out)" by (simp add: c' part_defs)
  ultimately show thesis using that by blast
qed

text \<open>A turn of the call itself.\<close>

lemma honest_enqueue:
  assumes t: "trusted c i k Enqueueing" and h: "enqueue_call opts i c = Some c'" and a: "callers c' i = Some (r, a)" and k: "k = key_of r"
  shows "honest c' i k a"
proof -
  obtain r' where r: "callers c i = Some (r', Enqueueing)" using t by (auto simp: trusted_def)
  have z: "i \<notin> set (handed c)" "i \<notin> set (requests (commands c))" "i \<notin> set (hand (pump c))" "at_write (pump c) i = 0" "results c i = None"
    "i \<notin> set (pending_ids (pending c))" using shape_places(5)[OF trustedD(1)[OF t], of i] r by auto
  have ak: "acks c i = None" using shapeD(4)[OF trustedD(1)[OF t], of i] r by (simp add: one_ack_def full_def split: if_splits)
  have th: "i \<notin> set (taken_hand (pump c))" using z(3) by (cases "pump c") auto
  have q: "k \<notin> queued_keys c" using honestD(1)[OF trustedD(2)[OF t]] z th by blast
  have "r' = r" using h a r by (auto simp: enqueue_call_def part_defs Let_def split: if_splits)
  with h a r k z ak th q show ?thesis
    by (auto simp: enqueue_call_def part_defs Let_def honest_def harmless_def split: if_splits)
qed

lemma honest_space:
  assumes t: "trusted c i k WaitingForSpace" and h: "wait_space i w c = Some c'" and a: "callers c' i = Some (r, a)" and k: "k = key_of r"
  shows "honest c' i k a"
proof -
  obtain r' where r: "callers c i = Some (r', WaitingForSpace)" using t by (auto simp: trusted_def)
  have z: "i \<notin> set (handed c)" "i \<notin> set (requests (commands c))" "i \<notin> set (hand (pump c))" "at_write (pump c) i = 0" "results c i = None"
    "i \<notin> set (pending_ids (pending c))" using shape_places(5)[OF trustedD(1)[OF t], of i] r by auto
  have ak: "acks c i = None" using shapeD(4)[OF trustedD(1)[OF t], of i] r by (simp add: one_ack_def full_def split: if_splits)
  have th: "i \<notin> set (taken_hand (pump c))" using z(3) by (cases "pump c") auto
  have q: "k \<notin> queued_keys c" using honestD(1)[OF trustedD(2)[OF t]] z th by blast
  have "r' = r" using h a r by (auto simp: wait_space_def part_defs split: if_splits waited.splits)
  with h a r k z ak th q show ?thesis
    by (auto simp: wait_space_def part_defs honest_def harmless_def split: if_splits waited.splits)
qed

lemma honest_await:
  assumes t: "trusted c i k Awaiting" and h: "await i w c = Some c'" and a: "callers c' i = Some (r, a)"
  shows "honest c' i k a"
proof -
  obtain r' where r: "callers c i = Some (r', Awaiting)" using t by (auto simp: trusted_def)
  have ak: "acks c i = None" using shapeD(4)[OF trustedD(1)[OF t], of i] r by (simp add: one_ack_def full_def split: if_splits)
  note H = trustedD(2)[OF t]
  show ?thesis
  proof (cases "take_result i r' c")
    case (Some d)
    with h r have "c' = d" by (simp add: await_def)
    with honest_take[OF t Some r] a show ?thesis by auto
  next
    case None
    then have "results c i = None" by (simp add: take_result_def split: option.splits)
    with None h r a H ak show ?thesis
      by (auto simp: await_def part_defs honest_def harmless_def call_failed_def unwritten_def split: waited.splits if_splits)
  qed
qed

lemma honest_mark:
  assumes t: "trusted c i k Withdrawing" and h: "withdraw_mark i c = Some c'" and a: "callers c' i = Some (r, a)" and k: "k = key_of r"
  shows "honest c' i k a"
proof -
  obtain r' where r: "callers c i = Some (r', Withdrawing)" using t by (auto simp: trusted_def)
  have ak: "acks c i = None" using shapeD(4)[OF trustedD(1)[OF t], of i] r by (simp add: one_ack_def full_def split: if_splits)
  have "r' = r" using h a r by (auto simp: withdraw_mark_def part_defs Let_def split: if_splits)
  note H = honestD[OF trustedD(2)[OF t]] and S = shape_places[OF trustedD(1)[OF t], of i]
  have hl: "harmless (c\<lparr>withdrawn := insert k (withdrawn c)\<rparr>) i k" if q: "k \<in> queued_keys c"
  proof -
    from q H(1) have "i \<in> set (requests (commands c)) \<or> i \<in> set (hand (pump c)) \<and> at_write (pump c) i = 0"
      by (cases "pump c") auto
    with S(1,2) show ?thesis by (auto simp: harmless_def)
  qed
  have c': "c' = set_caller i r a (c\<lparr>withdrawn := insert k (withdrawn c)\<rparr>)" and
    q: "a = Checking \<or> k \<in> queued_keys c \<and> (\<exists>out. a = Concluding out)"
    using h r a k \<open>r' = r\<close> by (auto simp: withdraw_mark_def part_defs Let_def split: if_splits)
  show ?thesis unfolding honest_def
    using H(1,2,7) hl q ak by (auto simp: c' part_defs harmless_def)
qed

lemma honest_move:
  assumes h: "honest c i k a" and w: "withdrawing a" "withdrawing b" and a: "\<And>out. a \<noteq> Concluding out"
    and b: "\<And>out. b = Concluding out \<Longrightarrow> \<not> denied out"
  shows "honest c i k b"
proof -
  have r: "\<not> returned a" "\<not> returned b" "\<And>out. b \<noteq> Returned out" using w by (cases a; cases b; auto)+
  show ?thesis unfolding honest_def using honestD[OF h] r w a b by blast
qed

lemma honest_active:
  assumes t: "trusted c i k Checking" and h: "withdraw_active i c = Some c'" and a: "callers c' i = Some (r, a)"
  shows "honest c' i k a"
proof -
  obtain r' where r: "callers c i = Some (r', Checking)" using t by (auto simp: trusted_def)
  have "honest c i k a"
    by (rule honest_move[OF trustedD(2)[OF t]]) (use h r a in \<open>auto simp: withdraw_active_def part_defs denied_def split: if_splits\<close>)
  then show ?thesis
    by (rule honest_elsewhere) (use h r in \<open>auto simp: withdraw_active_def part_defs split: if_splits\<close>)
qed

lemma honest_send:
  assumes t: "trusted c i k Cancelling" and h: "withdraw_send opts i c = Some c'" and a: "callers c' i = Some (r, a)"
  shows "honest c' i k a"
proof -
  obtain r' where r: "callers c i = Some (r', Cancelling)" using t by (auto simp: trusted_def)
  have "honest c i k a"
    by (rule honest_move[OF trustedD(2)[OF t]]) (use h r a in \<open>auto simp: withdraw_send_def part_defs split: if_splits\<close>)
  then show ?thesis
    by (rule honest_elsewhere) (use h r in \<open>auto simp: withdraw_send_def part_defs split: if_splits\<close>)
qed

lemma honest_closed:
  assumes t: "trusted c i k b" and h: "withdraw_closed i c = Some c'" and a: "callers c' i = Some (r, a)"
  shows "honest c' i k a"
proof -
  obtain r' where r: "callers c i = Some (r', b)" using t by (auto simp: trusted_def)
  from h r a have b: "b = Cancelling \<or> b = AwaitingAck" and c': "c' = set_caller i r a c" and a': "a = Concluding closed_cancel"
    by (auto simp: withdraw_closed_def part_defs split: if_splits)
  have "honest c i k a"
    by (rule honest_move[OF trustedD(2)[OF t]]) (use b a' in \<open>auto simp: denied_def closed_cancel_def\<close>)
  then show ?thesis by (rule honest_elsewhere) (simp_all add: c' part_defs)
qed

lemma honest_acked:
  assumes t: "trusted c i k AwaitingAck" and h: "withdraw_ack i c = Some c'" and a: "callers c' i = Some (r, a)"
  shows "honest c' i k a"
proof -
  obtain r' where r: "callers c i = Some (r', AwaitingAck)" using t by (auto simp: trusted_def)
  from h r a obtain out where out: "acks c i = Some out" "a = Concluding out" and c': "c' = set_caller i r a (c\<lparr>acks := (acks c)(i := None)\<rparr>)"
    by (auto simp: withdraw_ack_def part_defs split: option.splits)
  note H = honestD[OF trustedD(2)[OF t]]
  show ?thesis unfolding honest_def using H(1,2,6,7) H(4)[OF out(1)] out by (auto simp: c' part_defs harmless_def)
qed

lemma honest_conclude:
  assumes t: "trusted c i k (Concluding out)" and h: "conclude i e c = Some c'" and a: "callers c' i = Some (r, a)"
  shows "honest c' i k a"
proof -
  obtain r' where r: "callers c i = Some (r', Concluding out)" using t by (auto simp: trusted_def)
  note H = honestD[OF trustedD(2)[OF t]]
  show ?thesis
  proof (cases "take_result i r' c")
    case (Some d)
    with h r have "c' = d" by (simp add: conclude_def)
    with honest_take[OF t Some r] a show ?thesis by auto
  next
    case None
    then have n: "results c i = None" by (simp add: take_result_def split: option.splits)
    from None h r a have c': "c' = set_caller i r a c" and v: "\<exists>x. a = Returned x \<and> (unwritten x \<longrightarrow> denied out)"
      by (auto simp: conclude_def part_defs call_failed_def unwritten_def denied_def at_least_proven_def split: if_splits)
    show ?thesis unfolding honest_def using H(1) H(5)[OF refl] n v by (auto simp: c' part_defs harmless_def)
  qed
qed

lemma honest_step:
  assumes t: "trusted c i k b" and h: "step opts x c = Some c'" and so: "sole c' i k" and a: "callers c' i = Some (r, a)" and k: "k = key_of r"
  shows "honest c' i k a"
proof -
  obtain r' where r: "callers c i = Some (r', b)" "k = key_of r'" using t by (auto simp: trusted_def)
  consider (pump) "pump_turn x" | (quiet) "\<not> pump_turn x" "caller_turn x = None" | (other) j where "caller_turn x = Some j" "j \<noteq> i"
    | (self) "caller_turn x = Some i" by fastforce
  then show ?thesis
  proof cases
    case pump
    with honest_pump[OF t pump h] callers_of_pump[OF pump h] a r show ?thesis by simp
  next
    case quiet
    have "honest c' i k b"
      by (rule honest_elsewhere[OF trustedD(2)[OF t]]) (simp_all add: quiet_turnD[OF quiet h] other_turnD[OF quiet(1) h])
    with quiet_turnD(3)[OF quiet h] a r show ?thesis by simp
  next
    case other
    with honest_other_caller[OF t other h so] caller_frame(3)[OF other(1) h other(2)] a r show ?thesis by simp
  next
    case self
    show ?thesis
    proof (cases x)
      case (StartCall j q e)
      with self h r show ?thesis by (auto simp: start_call_def)
    next
      case (Enqueue j)
      with self h have e: "enqueue_call opts i c = Some c'" by simp
      with r have "b = Enqueueing" by (auto simp: enqueue_call_def split: caller_at.splits)
      with honest_enqueue[OF _ e a k] t show ?thesis by blast
    next
      case (WaitSpace j w)
      with self h have e: "wait_space i w c = Some c'" by simp
      with r have "b = WaitingForSpace" by (auto simp: wait_space_def split: caller_at.splits)
      with honest_space[OF _ e a k] t show ?thesis by blast
    next
      case (Await j w)
      with self h have e: "await i w c = Some c'" by simp
      with r have "b = Awaiting" by (auto simp: await_def split: caller_at.splits)
      with honest_await[OF _ e a] t show ?thesis by blast
    next
      case (WithdrawMark j)
      with self h have e: "withdraw_mark i c = Some c'" by simp
      with r have "b = Withdrawing" by (auto simp: withdraw_mark_def split: caller_at.splits)
      with honest_mark[OF _ e a k] t show ?thesis by blast
    next
      case (WithdrawActive j)
      with self h have e: "withdraw_active i c = Some c'" by simp
      with r have "b = Checking" by (auto simp: withdraw_active_def split: caller_at.splits)
      with honest_active[OF _ e a] t show ?thesis by blast
    next
      case (WithdrawSend j)
      with self h have e: "withdraw_send opts i c = Some c'" by simp
      with r have "b = Cancelling" by (auto simp: withdraw_send_def split: caller_at.splits)
      with honest_send[OF _ e a] t show ?thesis by blast
    next
      case (WithdrawClosed j)
      with self h honest_closed[OF t _ a] show ?thesis by simp
    next
      case (WithdrawAck j)
      with self h have e: "withdraw_ack i c = Some c'" by simp
      with r have "b = AwaitingAck" by (auto simp: withdraw_ack_def split: caller_at.splits)
      with honest_acked[OF _ e a] t show ?thesis by blast
    next
      case (Conclude j w)
      with self h have e: "conclude i w c = Some c'" by simp
      with r obtain out where "b = Concluding out" by (auto simp: conclude_def split: caller_at.splits)
      with honest_conclude[OF _ e a] t show ?thesis by blast
    qed (use self in simp_all)
  qed
qed

lemma caller_self:
  assumes "caller_turn x = Some i" "step opts x c = Some c'" "callers c' i = Some (r, a)"
  shows "(\<exists>b. callers c i = Some (r, b)) \<or> (\<exists>e. x = StartCall i r e)"
  using assms
  by (cases x; cases "callers c i"; auto simp: step_defs part_defs Let_def
      split: if_splits option.splits sum.splits caller_at.splits waited.splits)

lemma caller_history:
  assumes "step opts x c = Some c'" "callers c' i = Some (r, a)"
  shows "(\<exists>b. callers c i = Some (r, b)) \<or> (\<exists>e. x = StartCall i r e)"
proof -
  consider (pump) "pump_turn x" | (quiet) "\<not> pump_turn x" "caller_turn x = None" | (other) j where "caller_turn x = Some j" "j \<noteq> i"
    | (self) "caller_turn x = Some i" by fastforce
  then show ?thesis
    by cases (use assms callers_of_pump[of x opts c c'] quiet_turnD(3)[of x opts c c'] caller_frame(3)[of x _ opts c c' i]
      caller_self[of x i opts c c' r a] in auto)
qed

lemma honest_reachable:
  "reachable opts c \<Longrightarrow> callers c i = Some (r, a) \<Longrightarrow> sole c i (key_of r) \<Longrightarrow> honest c i (key_of r) a"
proof (induction arbitrary: a rule: reachable.induct)
  case reach_new
  then show ?case by (simp add: New_def)
next
  case (reach_turn c x c')
  have so: "sole c i (key_of r)"
    using reach_turn.prems(2) has_key_step[OF _ reach_turn.hyps(2)] by (auto simp: sole_def)
  from caller_history[OF reach_turn.hyps(2) reach_turn.prems(1)] show ?case
  proof
    assume "\<exists>b. callers c i = Some (r, b)"
    then obtain b where b: "callers c i = Some (r, b)" by blast
    then have "trusted c i (key_of r) b"
      using reach_turn.IH[OF b so] so shape_reachable[OF reach_turn.hyps(1)] by (auto simp: trusted_def)
    from honest_step[OF this reach_turn.hyps(2) reach_turn.prems(2,1) refl] show ?thesis .
  next
    assume "\<exists>e. x = StartCall i r e"
    then obtain e where "start_call i r e c = Some c'" using reach_turn.hyps(2) by auto
    from honest_start[OF shape_reachable[OF reach_turn.hyps(1)] this reach_turn.prems(2,1)] show ?thesis .
  qed
qed

end
