(* ===== verification/Client_Laws.thy ===== *)
theory Client_Laws
  imports Client_Evidence
begin

text \<open>
  What a connection to the app-server promises its callers, over every interleaving of callers, pump, reader and
  consumers.
\<close>

section \<open>Answers\<close>

definition local_outcome :: "call_outcome \<Rightarrow> bool" where
  "local_outcome out = (case out of Inl e \<Rightarrow> ce_server e = None | Inr _ \<Rightarrow> False)"

definition wrote :: "trace \<Rightarrow> string \<Rightarrow> bool" where
  "wrote c k = (\<forall>i ph. map_of (pending c) k = Some (i, ph) \<longrightarrow> ph \<noteq> WriteNotStarted \<longrightarrow> i \<in> set (handed c))"

definition from_wire :: "trace \<Rightarrow> nat \<Rightarrow> string \<Rightarrow> call_outcome \<Rightarrow> bool" where
  "from_wire c i k out = (local_outcome out \<or> i \<in> set (handed c) \<and> (case out of
       Inl e \<Rightarrow> (\<exists>se. ce_server e = Some se \<and> (k, Inl se) \<in> set (answered c))
     | Inr (v, value, ph) \<Rightarrow> requestIDKey v = Inr k \<and> (k, Inr (v, value)) \<in> set (answered c)))"

lemma call_failed_local [simp]: "local_outcome (call_failed e b ph)"
  by (simp add: call_failed_def local_outcome_def)

lemma caller_returns:
  assumes "caller_turn x = Some i" "step opts x c = Some c'" "callers c' i = Some (r, Returned out)"
  shows "results c i = Some out \<or> local_outcome out"
  using assms
  by (cases x; cases "callers c i"; auto simp: step_defs set_caller_def forgetCompleted_def release_def cancelActiveWrite_def Let_def
      split: if_splits option.splits sum.splits caller_at.splits waited.splits)

lemma caller_results: "caller_turn x = Some j \<Longrightarrow> step opts x c = Some c' \<Longrightarrow> results c' i = Some out \<Longrightarrow> results c i = Some out"
  by (cases x; cases "callers c j"; auto simp: step_defs part_defs Let_def
      split: if_splits option.splits sum.splits caller_at.splits waited.splits)

lemma pump_results:
  "pump_turn x \<Longrightarrow> x \<noteq> PumpRead \<Longrightarrow> step opts x c = Some c' \<Longrightarrow> results c' i = Some out \<Longrightarrow> results c i = Some out \<or> local_outcome out"
proof (cases x)
  case (PumpCommand a)
  assume "step opts x c = Some c'" "results c' i = Some out"
  with PumpCommand show ?thesis
    by (auto simp: pump_command_def finishing_def Let_def split: if_splits list.splits command.splits sum.splits)
qed (auto simp: step_defs release_def releaseUnknownReservation_def send_result_def finishing_def releaseEventBytes_def Let_def
      split: pump_at.splits if_splits sum.splits option.splits list.splits command.splits write_answer.splits)

lemma wrote_cong: "pending d = pending c \<Longrightarrow> handed d = handed c \<Longrightarrow> wrote d k = wrote c k"
  by (simp add: wrote_def)

lemma wrote_delete: "wrote c k \<Longrightarrow> pending d = AList.delete k' (pending c) \<Longrightarrow> handed d = handed c \<Longrightarrow> wrote d k"
  by (auto simp: wrote_def delete_conv)

lemma pump_read_pending:
  "pump_read opts c = Some c' \<Longrightarrow> (pending c' = pending c \<or> (\<exists>k. pending c' = AList.delete k (pending c))) \<and> handed c' = handed c"
proof (erule pump_read_cases)
  fix r rest d
  assume d: "d = releaseReadBytes (rr_bytes r) (c\<lparr>reads := rest\<rparr>)"
    and c': "c' = d \<or> (\<exists>e. c' = finishing e d) \<or> (\<exists>m. decodeMessage (rr_payload r) = Inr m \<and> c' = dispatch_message opts m d)"
  have "pending (answer_call v body d) = pending c \<or> (\<exists>k. pending (answer_call v body d) = AList.delete k (pending c))" for v body
    by (auto simp: d answer_call_def part_defs Let_def split: sum.splits option.splits)
  then have "pending (dispatch_message opts m d) = pending c \<or> (\<exists>k. pending (dispatch_message opts m d) = AList.delete k (pending c))" for m
    by (auto simp: dispatch_message_def d split: message.splits)
  with c' show ?thesis by (auto simp: d finishing_def)
qed

lemma handle_cancel_pending: "pending (handle_cancel a k c) = pending c \<or> pending (handle_cancel a k c) = AList.delete k (pending c)"
  by (auto simp: handle_cancel_def part_defs Let_def split: option.splits)

lemma pump_command_pending:
  "pump_command a c = Some c' \<Longrightarrow> (pending c' = pending c \<or> (\<exists>k. pending c' = AList.delete k (pending c))) \<and> handed c' = handed c"
  using handle_cancel_pending[of _ _ "c\<lparr>commands := tl (commands c), command_space := True\<rparr>"]
  by (auto simp: pump_command_def finishing_def Let_def split: if_splits list.splits command.splits sum.splits)

lemma wrote_step: "(\<And>k. phase_ok c k) \<Longrightarrow> wrote c k \<Longrightarrow> step opts x c = Some c' \<Longrightarrow> wrote c' k"
proof (cases "pump_turn x")
  case False
  assume "wrote c k" "step opts x c = Some c'"
  with False show ?thesis using wrote_cong[of c' c k] other_turnD(2,3)[of x opts c c'] by blast
next
  case True
  assume p: "\<And>k. phase_ok c k" and w: "wrote c k" and h: "step opts x c = Some c'"
  from True show ?thesis
  proof (cases x)
    case (PumpCommand a)
    with h pump_command_pending[of a c c'] wrote_cong[of c' c k] wrote_delete[OF w, of c'] w show ?thesis by auto
  next
    case PumpRead
    with h pump_read_pending[of opts c c'] wrote_cong[of c' c k] wrote_delete[OF w, of c'] w show ?thesis by auto
  next
    case (PumpBegin a)
    with h w show ?thesis
      by (auto simp: wrote_def pump_begin_def write_failed_def part_defs delete_conv update_conv split: pump_at.splits sum.splits if_splits)
  next
    case (PumpEnd a)
    with h w phase_writing(1)[OF p] show ?thesis
      by (auto simp: wrote_def pump_end_def write_failed_def part_defs delete_conv update_conv Let_def split: pump_at.splits write_answer.splits if_splits)
  next
    case PumpCheck
    with h w show ?thesis by (auto simp: wrote_def pump_check_def part_defs split: pump_at.splits if_splits)
  next
    case (FinishResolve k')
    with h w show ?thesis
      by (auto simp: wrote_def finish_resolve_def part_defs delete_conv Let_def split: pump_at.splits option.splits if_splits)
  next
    case FinishDrain
    with h w show ?thesis by (auto simp: wrote_def finish_drain_def part_defs Let_def split: pump_at.splits list.splits command.splits)
  next
    case FinishEvict
    with h w show ?thesis by (auto simp: wrote_def finish_evict_def part_defs split: pump_at.splits list.splits if_splits)
  qed (use h w in \<open>auto simp: wrote_def pump_unmark_def pump_done_def finish_stop_def pump_return_def finishing_def split: pump_at.splits if_splits\<close>)
qed

lemma wrote_reachable: "reachable opts c \<Longrightarrow> wrote c k"
proof (induction rule: reachable.induct)
  case reach_new
  then show ?case by (simp add: wrote_def New_def)
next
  case (reach_turn c x c')
  with wrote_step shapeD(1)[OF shape_reachable] show ?case by blast
qed

lemma answered_mono: "step opts x c = Some c' \<Longrightarrow> set (answered c) \<subseteq> set (answered c') \<and> set (handed c) \<subseteq> set (handed c')"
proof (cases "pump_turn x")
  case False
  assume "step opts x c = Some c'"
  with False other_turnD(3,5)[of x opts c c'] show ?thesis by simp
next
  case True
  assume h: "step opts x c = Some c'"
  from True show ?thesis
  proof (cases x)
    case (PumpCommand a)
    with h show ?thesis
      by (auto simp: pump_command_def finishing_def Let_def split: if_splits list.splits command.splits sum.splits)
  next
    case PumpRead
    with h have "pump_read opts c = Some c'" by simp
    then show ?thesis
    proof (rule pump_read_cases)
      fix r rest d
      assume d: "d = releaseReadBytes (rr_bytes r) (c\<lparr>reads := rest\<rparr>)"
        and c': "c' = d \<or> (\<exists>e. c' = finishing e d) \<or> (\<exists>m. decodeMessage (rr_payload r) = Inr m \<and> c' = dispatch_message opts m d)"
      have "set (answered c) \<subseteq> set (answered (answer_call v body d))" for v body
        by (auto simp: d answer_call_def part_defs Let_def split: sum.splits option.splits)
      then have "set (answered c) \<subseteq> set (answered (dispatch_message opts m d))" for m
        by (simp add: dispatch_message_def d split: message.split)
      moreover have "set (answered d) = set (answered c)" "set (handed d) = set (handed c)" by (simp_all add: d)
      ultimately show ?thesis using c' by (auto simp: finishing_def)
    qed
  qed (use h in \<open>auto simp: step_defs part_defs Let_def split: pump_at.splits if_splits sum.splits option.splits list.splits command.splits write_answer.splits\<close>)
qed

lemma from_wire_cong: "from_wire c i k out \<Longrightarrow> answered d = answered c \<Longrightarrow> handed d = handed c \<Longrightarrow> from_wire d i k out"
  by (auto simp: from_wire_def split: sum.splits)

lemma from_wire_mono: "from_wire c i k out \<Longrightarrow> step opts x c = Some c' \<Longrightarrow> from_wire c' i k out"
  using answered_mono[of opts x c c'] by (auto simp: from_wire_def split: sum.splits)

text \<open>A result that an answer sends.\<close>

lemma answer_result:
  assumes s: "shape c" and w: "\<And>k. wrote c k" and p: "pump c = PumpIdle" and n: "results (answer_call v body c) i = Some out" "results c i \<noteq> Some out"
    and c: "callers c i = Some (r, a)" and b: "\<And>u value. body = Inr (u, value) \<Longrightarrow> u = v"
  shows "from_wire (answer_call v body c) i (key_of r) out"
proof -
  from n obtain kj ph where v: "requestIDKey v = Inr kj" and m: "map_of (pending c) kj = Some (i, ph)"
    by (auto simp: answer_call_def part_defs Let_def split: sum.splits option.splits if_splits)
  have "(i, kj) \<in> keys c" using m by (rule in_keys(3))
  then have "has_key c i kj" using shapeD(6)[OF s] by (auto simp: key_ok_def)
  with c have k: "kj = key_of r" by (simp add: has_key_def)
  have "ph = WriteComplete" using shapeD(1)[OF s, of kj] m p by (auto simp: phase_ok_def)
  with w[of kj] m have "i \<in> set (handed c)" by (simp add: wrote_def)
  with v m k n b show ?thesis
    by (cases body) (auto simp: from_wire_def answer_call_def part_defs Let_def)
qed

definition wired :: "trace \<Rightarrow> nat \<Rightarrow> bool" where
  "wired c i = (\<forall>r a out. callers c i = Some (r, a) \<longrightarrow> results c i = Some out \<or> a = Returned out \<longrightarrow> from_wire c i (key_of r) out)"

lemma read_outcome:
  assumes s: "shape c" and w: "\<And>k. wrote c k" and h: "pump_read opts c = Some c'" and n: "results c' i = Some out" "results c i \<noteq> Some out"
    and c: "callers c i = Some (r, a)"
  shows "from_wire c' i (key_of r) out"
  using h
proof (rule pump_read_cases)
  fix rr rest d
  assume p: "pump c = PumpIdle" and d: "d = releaseReadBytes (rr_bytes rr) (c\<lparr>reads := rest\<rparr>)"
    and c': "c' = d \<or> (\<exists>e. c' = finishing e d) \<or> (\<exists>m. decodeMessage (rr_payload rr) = Inr m \<and> c' = dispatch_message opts m d)"
  have e: "answer_call v body d = (answer_call v body c)\<lparr>reads := reads d, read_bytes := read_bytes d\<rparr>" for v body
    unfolding d by (auto simp: answer_call_def part_defs Let_def split: sum.splits option.splits)
  from c' n obtain m where m: "c' = dispatch_message opts m d" by (auto simp: d finishing_def)
  with n obtain v body where a: "c' = answer_call v body d" and b: "\<And>u value. body = Inr (u, value) \<Longrightarrow> u = v"
    by (auto simp: dispatch_message_def d split: message.splits)
  have "results (answer_call v body c) i = Some out" using n(1) a e by simp
  then have "from_wire (answer_call v body c) i (key_of r) out"
    by (rule answer_result[OF s w p _ n(2) c]) (use b in blast)
  then show ?thesis unfolding a e by (rule from_wire_cong) simp_all
qed

lemma wired_reachable: "reachable opts c \<Longrightarrow> wired c i"
proof (induction rule: reachable.induct)
  case reach_new
  then show ?case by (simp add: wired_def New_def)
next
  case (reach_turn c x c')
  note h = reach_turn.hyps(2)
  show ?case unfolding wired_def
  proof (intro allI impI)
    fix r a out
    assume c': "callers c' i = Some (r, a)" and o: "results c' i = Some out \<or> a = Returned out"
    consider (pump) "pump_turn x" | (quiet) "\<not> pump_turn x" "caller_turn x = None" | (other) j where "caller_turn x = Some j" "j \<noteq> i"
      | (self) "caller_turn x = Some i" by fastforce
    then show "from_wire c' i (key_of r) out"
    proof cases
      case pump
      with callers_of_pump[OF pump h] c' have c: "callers c i = Some (r, a)" by simp
      show ?thesis
      proof (cases "results c i = Some out \<or> a = Returned out")
        case True
        with reach_turn.IH c from_wire_mono[OF _ h] show ?thesis by (auto simp: wired_def)
      next
        case False
        with o have n: "results c' i = Some out" "results c i \<noteq> Some out" by auto
        show ?thesis
        proof (cases "x = PumpRead")
          case True
          with h have "pump_read opts c = Some c'" by simp
          from read_outcome[OF shape_reachable[OF reach_turn.hyps(1)] wrote_reachable[OF reach_turn.hyps(1)] this n c] show ?thesis .
        next
          case False
          with pump_results[OF pump False h n(1)] n(2) show ?thesis by (simp add: from_wire_def)
        qed
      qed
    next
      case quiet
      with c' o quiet_turnD(3,4)[OF quiet h] reach_turn.IH from_wire_mono[OF _ h] show ?thesis by (auto simp: wired_def)
    next
      case other
      with c' o caller_frame(1,3)[OF other(1) h other(2)] reach_turn.IH from_wire_mono[OF _ h] show ?thesis by (auto simp: wired_def)
    next
      case self
      from o have "results c i = Some out \<or> local_outcome out"
        using caller_results[OF self h] caller_returns[OF self h] c' by blast
      moreover have "from_wire c' i (key_of r) out" if res: "results c i = Some out"
      proof -
        from shape_places(5)[OF shape_reachable[OF reach_turn.hyps(1)], of i] res have "admission (callers c i) \<noteq> 0" by auto
        then obtain r' b where b: "callers c i = Some (r', b)" by (cases "callers c i") auto
        with caller_self[OF self h c'] h self have "r' = r" by (auto simp: start_call_def)
        with b res reach_turn.IH from_wire_mono[OF _ h] show ?thesis by (auto simp: wired_def)
      qed
      ultimately show ?thesis by (auto simp: from_wire_def)
    qed
  qed
qed

section \<open>The event stream\<close>

text \<open>Events that stand for a message, and what a gap marker stands for.\<close>

fun carried :: "event \<Rightarrow> bool" where
  "carried (EventGap n) = False"
| "carried (EventDisconnected e) = False"
| "carried e = True"

fun gap_size :: "event \<Rightarrow> nat" where
  "gap_size (EventGap n) = n"
| "gap_size e = 0"

fun terminal :: "event \<Rightarrow> bool" where
  "terminal (EventDisconnected e) = True"
| "terminal e = False"

fun evicted :: "pump_at \<Rightarrow> nat" where
  "evicted (PumpEvicting e n) = n"
| "evicted p = 0"

fun ending :: "pump_at \<Rightarrow> bool" where
  "ending PumpIdle = False" | "ending (PumpTaken i k r) = False" | "ending (PumpUnmarked i k r) = False"
| "ending (PumpCleared i k r) = False" | "ending (PumpWriting i k) = False" | "ending (PumpNotifying i) = False"
| "ending p = True"

fun ended :: "pump_at \<Rightarrow> bool" where
  "ended PumpLast = True" | "ended PumpEnded = True" | "ended p = False"

definition ledger :: "trace \<Rightarrow> bool" where
  "ledger c \<longleftrightarrow>
     (if ended (pump c) then
        subseq (filter carried (taken c @ stream c)) (offered c) \<and>
        length (offered c) = length (filter carried (taken c @ stream c)) + sum_list (map gap_size (taken c @ stream c)) \<and>
        (\<exists>us e. taken c @ stream c = us @ [EventDisconnected e] \<and> list_all (\<lambda>x. \<not> terminal x) us)
      else list_all carried (taken c @ stream c) \<and> subseq (taken c @ stream c) (offered c) \<and>
        length (offered c) = length (taken c @ stream c) + evicted (pump c) + dropped c \<and>
        (evicted (pump c) = 0 \<and> dropped c = 0 \<longrightarrow> taken c @ stream c = offered c) \<and> (\<not> ending (pump c) \<longrightarrow> dropped c = 0))"

lemma deliver_ledger:
  assumes "dropped c = 0"
  shows "(fst (deliverWithGap opts e c) \<longrightarrow> stream (snd (deliverWithGap opts e c)) = stream c @ [e] \<and> dropped (snd (deliverWithGap opts e c)) = 0) \<and>
    (\<not> fst (deliverWithGap opts e c) \<longrightarrow> stream (snd (deliverWithGap opts e c)) = stream c \<and> dropped (snd (deliverWithGap opts e c)) = 1) \<and>
    taken (snd (deliverWithGap opts e c)) = taken c \<and> offered (snd (deliverWithGap opts e c)) = offered c"
  using assms by (auto simp: deliverWithGap_def deliver_event_def reserveEventBytes_def releaseEventBytes_def split: option.splits)

lemma ledger_offer: "ledger c \<Longrightarrow> pump c = PumpIdle \<Longrightarrow> carried e \<Longrightarrow> ledger (offer opts e c)"
  using deliver_ledger[of "c\<lparr>offered := offered c @ [e]\<rparr>" opts e]
  by (auto simp: ledger_def offer_def Let_def finishing_def)

lemma ledger_cong: "pump d = pump c \<Longrightarrow> taken d = taken c \<Longrightarrow> stream d = stream c \<Longrightarrow> offered d = offered c \<Longrightarrow> dropped d = dropped c \<Longrightarrow> ledger d = ledger c"
  by (simp add: ledger_def)

text \<open>Turns that leave the stream alone, and keep the pump on the same side of its end.\<close>

lemma ledger_pump:
  assumes "ledger c" "taken d = taken c" "stream d = stream c" "offered d = offered c" "dropped d = dropped c"
    "evicted (pump d) = evicted (pump c)" "ended (pump d) = ended (pump c)" "ending (pump c) \<longrightarrow> ending (pump d)"
  shows "ledger d"
  using assms by (auto simp: ledger_def)

definition event_view :: "trace \<Rightarrow> _" where
  "event_view c = (taken c, stream c, offered c, dropped c)"

lemma event_view_parts [simp]:
  "event_view (set_caller i r a c) = event_view c" "event_view (set_notifier i n b c) = event_view c" "event_view (release k c) = event_view c"
  "event_view (forgetCompleted k c) = event_view c" "event_view (releaseEventBytes m c) = event_view c" "event_view (releaseReadBytes m c) = event_view c"
  "event_view (cancelActiveWrite c) = event_view c" "event_view (reader_fails e c) = event_view c" "event_view (close_client c) = event_view c"
  "event_view (send_result i out c) = event_view c" "event_view (releaseUnknownReservation k x c) = event_view c"
  "event_view (completeReservation k ph c) = event_view c" "event_view (finishing e c) = event_view c" "event_view (write_failed i k e ph c) = event_view c"
  by (simp_all add: event_view_def part_defs reader_fails_def close_client_def write_failed_def)

lemma event_view_fields [simp]:
  "event_view (c\<lparr>commands := a1\<rparr>) = event_view c" "event_view (c\<lparr>command_space := a2\<rparr>) = event_view c" "event_view (c\<lparr>reads := a3\<rparr>) = event_view c"
  "event_view (c\<lparr>reserved := a5\<rparr>) = event_view c" "event_view (c\<lparr>withdrawn := a6\<rparr>) = event_view c"
  "event_view (c\<lparr>queued_keys := a7\<rparr>) = event_view c" "event_view (c\<lparr>read_bytes := a8\<rparr>) = event_view c" "event_view (c\<lparr>event_bytes := a9\<rparr>) = event_view c"
  "event_view (c\<lparr>initialized := b1\<rparr>) = event_view c" "event_view (c\<lparr>reader := b2\<rparr>) = event_view c" "event_view (c\<lparr>results := b3\<rparr>) = event_view c"
  "event_view (c\<lparr>acks := b4\<rparr>) = event_view c" "event_view (c\<lparr>notify_done := b5\<rparr>) = event_view c" "event_view (c\<lparr>holding := b6\<rparr>) = event_view c"
  "event_view (c\<lparr>pump := b7\<rparr>) = event_view c" "event_view (c\<lparr>pending := b8\<rparr>) = event_view c" "event_view (c\<lparr>active := b9\<rparr>) = event_view c"
  "event_view (c\<lparr>handed := c1\<rparr>) = event_view c" "event_view (c\<lparr>disowned := c2\<rparr>) = event_view c" "event_view (c\<lparr>answered := c3\<rparr>) = event_view c"
  "event_view (c\<lparr>accepting := c4\<rparr>) = event_view c" "event_view (c\<lparr>closed := c5\<rparr>) = event_view c" "event_view (c\<lparr>transport_closed := c6\<rparr>) = event_view c"
  by (simp_all add: event_view_def)

lemma take_result_events: "take_result i req c = Some c' \<Longrightarrow> event_view c' = event_view c"
  by (auto simp: take_result_def split: option.splits)

lemma caller_events:
  "start_call i req err c = Some c' \<Longrightarrow> event_view c' = event_view c"
  "enqueue_call opts i c = Some c' \<Longrightarrow> event_view c' = event_view c"
  "wait_space i w c = Some c' \<Longrightarrow> event_view c' = event_view c"
  "await i w c = Some c' \<Longrightarrow> event_view c' = event_view c"
  "withdraw_mark i c = Some c' \<Longrightarrow> event_view c' = event_view c"
  "withdraw_active i c = Some c' \<Longrightarrow> event_view c' = event_view c"
  "withdraw_send opts i c = Some c' \<Longrightarrow> event_view c' = event_view c"
  "withdraw_closed i c = Some c' \<Longrightarrow> event_view c' = event_view c"
  "withdraw_ack i c = Some c' \<Longrightarrow> event_view c' = event_view c"
  "conclude i e c = Some c' \<Longrightarrow> event_view c' = event_view c"
  "start_notify i n c = Some c' \<Longrightarrow> event_view c' = event_view c"
  "enqueue_notify opts i c = Some c' \<Longrightarrow> event_view c' = event_view c"
  "await_notify i w c = Some c' \<Longrightarrow> event_view c' = event_view c"
  "read_frame opts ty payload observed stop c = Some c' \<Longrightarrow> event_view c' = event_view c"
  "reader_publish opts give_up c = Some c' \<Longrightarrow> event_view c' = event_view c"
  "release_event c = Some c' \<Longrightarrow> event_view c' = event_view c"
  "store_info i c = Some c' \<Longrightarrow> event_view c' = event_view c"
  unfolding start_call_def enqueue_call_def wait_space_def await_def withdraw_mark_def withdraw_active_def withdraw_send_def
    withdraw_closed_def withdraw_ack_def conclude_def start_notify_def enqueue_notify_def await_notify_def read_frame_def
    reserveReadBytes_def reader_publish_def release_event_def store_info_def Let_def
  by (auto dest: take_result_events split: if_splits option.splits prod.splits sum.splits caller_at.splits notifier_at.splits
      waited.splits reader_at.splits list.splits)

lemma pump_events:
  "pump_unmark c = Some c' \<Longrightarrow> event_view c' = event_view c"
  "pump_check c = Some c' \<Longrightarrow> event_view c' = event_view c"
  "pump_begin a c = Some c' \<Longrightarrow> event_view c' = event_view c"
  "pump_end a c = Some c' \<Longrightarrow> event_view c' = event_view c"
  "pump_done c = Some c' \<Longrightarrow> event_view c' = event_view c"
  "finish_stop c = Some c' \<Longrightarrow> event_view c' = event_view c"
  "finish_resolve k c = Some c' \<Longrightarrow> event_view c' = event_view c"
  "finish_drain c = Some c' \<Longrightarrow> event_view c' = event_view c"
  "pump_return c = Some c' \<Longrightarrow> event_view c' = event_view c"
  unfolding pump_unmark_def pump_check_def pump_begin_def pump_end_def pump_done_def finish_stop_def finish_resolve_def finish_drain_def
    pump_return_def Let_def
  by (auto split: if_splits option.splits sum.splits pump_at.splits write_answer.splits list.splits command.splits)

lemma cancel_events: "event_view (handle_cancel a k c) = event_view c"
  by (auto simp: handle_cancel_def Let_def split: option.splits)

lemma command_events: "pump_command a c = Some c' \<Longrightarrow> event_view c' = event_view c"
  by (auto simp: pump_command_def cancel_events Let_def split: if_splits list.splits command.splits sum.splits)

lemma ledger_read: "ledger c \<Longrightarrow> pump_read opts c = Some c' \<Longrightarrow> ledger c'"
proof (erule pump_read_cases)
  fix r rest d
  assume l: "ledger c" and p: "pump c = PumpIdle" and d: "d = releaseReadBytes (rr_bytes r) (c\<lparr>reads := rest\<rparr>)"
    and c': "c' = d \<or> (\<exists>e. c' = finishing e d) \<or> (\<exists>m. decodeMessage (rr_payload r) = Inr m \<and> c' = dispatch_message opts m d)"
  have ld: "ledger d" "pump d = PumpIdle" using l p ledger_cong[of d c] by (simp_all add: d)
  have "ledger (finishing e d)" for e by (rule ledger_pump[OF ld(1)]) (simp_all add: finishing_def ld(2))
  moreover have "ledger (answer_call v body d)" for v body
  proof -
    have "event_view (answer_call v body d) = event_view d"
      by (auto simp: answer_call_def event_view_def part_defs Let_def split: sum.splits option.splits)
    then show ?thesis using ld(1) ledger_cong[of "answer_call v body d" d] by (simp add: event_view_def)
  qed
  moreover have "ledger (offer opts e d)" if "carried e" for e using ledger_offer[OF ld that] .
  ultimately have "ledger (dispatch_message opts m d)" for m by (simp add: dispatch_message_def split: message.split)
  with \<open>\<And>e. ledger (finishing e d)\<close> ld(1) c' show ?thesis by blast
qed

lemma carried_list:
  "list_all carried es \<Longrightarrow> filter carried es = es \<and> sum_list (map gap_size es) = 0 \<and> list_all (\<lambda>x. \<not> terminal x) es"
proof (induction es)
  case (Cons e es)
  then show ?case by (cases e) auto
qed simp

lemma ledger_evict: "ledger c \<Longrightarrow> finish_evict c = Some c' \<Longrightarrow> ledger c'"
proof -
  assume l: "ledger c" and h: "finish_evict c = Some c'"
  from h obtain err n where p: "pump c = PumpEvicting err n" by (auto simp: finish_evict_def split: pump_at.splits)
  show ?thesis
  proof (cases "stream c")
    case Nil
    with h p have c': "c' = c\<lparr>stream := (if 0 < dropped c + n then [EventGap (dropped c + n)] else []) @ [EventDisconnected err],
               read_bytes := 0, event_bytes := 0, pump := PumpLast\<rparr>" by (simp add: finish_evict_def)
    define gap where "gap = (if 0 < dropped c + n then [EventGap (dropped c + n)] else [])"
    have gap: "filter carried gap = []" "sum_list (map gap_size gap) = dropped c + n" "list_all (\<lambda>x. \<not> terminal x) gap"
      by (simp_all add: gap_def)
    have all: "taken c' @ stream c' = (taken c @ gap) @ [EventDisconnected err]" "ended (pump c')" "offered c' = offered c"
      by (simp_all add: c' gap_def)
    have now: "list_all carried (taken c)" "subseq (taken c) (offered c)" "length (offered c) = length (taken c) + n + dropped c"
      using l p Nil by (simp_all add: ledger_def)
    note kept = carried_list[OF now(1)]
    have "\<exists>us e. (taken c @ gap) @ [EventDisconnected err] = us @ [EventDisconnected e] \<and> list_all (\<lambda>x. \<not> terminal x) us"
      using kept gap(3) by (intro exI[of _ "taken c @ gap"] exI[of _ err]) simp
    then show ?thesis unfolding ledger_def all(1,3) using all(2) kept gap(1,2) now(2,3) by simp
  next
    case (Cons e es)
    with h p have c': "pump c' = PumpEvicting err (n + 1)" "stream c' = es" "taken c' = taken c" "offered c' = offered c" "dropped c' = dropped c"
      by (auto simp: finish_evict_def releaseEventBytes_def)
    have "subseq (taken c @ es) (taken c @ e # es)" by (intro list_emb_append_mono list_emb_Cons subseq_order.order_refl)
    with l p Cons show ?thesis unfolding ledger_def c' by (auto intro: subseq_order.trans)
  qed
qed

lemma ledger_step: "ledger c \<Longrightarrow> step opts x c = Some c' \<Longrightarrow> ledger c'"
proof -
  assume l: "ledger c" and h: "step opts x c = Some c'"
  have same: "ledger c'" if "event_view c' = event_view c" "evicted (pump c') = evicted (pump c)" "ended (pump c') = ended (pump c)"
    "ending (pump c) \<longrightarrow> ending (pump c')"
    using that ledger_pump[OF l] by (simp add: event_view_def)
  show ?thesis
  proof (cases "pump_turn x")
    case False
    note p = other_turnD(1)[OF False h]
    show ?thesis
    proof (cases "x = NextEvent")
      case True
      with h p show ?thesis using l by (auto simp: ledger_def next_event_def split: list.splits)
    next
      case n: False
      have "event_view c' = event_view c"
        using h False n by (cases x) (auto simp: caller_events split: if_splits)
      with p show ?thesis using same by simp
    qed
  next
    case True
    then show ?thesis
    proof (cases x)
      case (PumpCommand a)
      with h command_events pump_command_stage[of a c c'] show ?thesis by (auto intro!: same)
    next
      case PumpRead with h ledger_read[OF l] show ?thesis by simp
    next
      case FinishEvict with h ledger_evict[OF l] show ?thesis by simp
    next
      case PumpUnmark
      with h pump_events(1) show ?thesis by (intro same) (auto simp: pump_unmark_def split: pump_at.splits)
    next
      case PumpCheck
      with h pump_events(2) show ?thesis by (intro same) (auto simp: pump_check_def part_defs split: pump_at.splits if_splits)
    next
      case (PumpBegin a)
      with h pump_events(3) show ?thesis
        by (intro same) (auto simp: pump_begin_def write_failed_def part_defs split: pump_at.splits sum.splits if_splits)
    next
      case (PumpEnd a)
      with h pump_events(4) show ?thesis
        by (intro same) (auto simp: pump_end_def write_failed_def part_defs Let_def split: pump_at.splits write_answer.splits)
    next
      case PumpDone
      with h pump_events(5) show ?thesis by (intro same) (auto simp: pump_done_def finishing_def split: if_splits)
    next
      case FinishStop
      with h pump_events(6) show ?thesis by (intro same) (auto simp: finish_stop_def split: pump_at.splits)
    next
      case (FinishResolve k)
      with h pump_events(7) show ?thesis
        by (intro same) (auto simp: finish_resolve_def part_defs Let_def split: pump_at.splits option.splits if_splits)
    next
      case FinishDrain
      with h pump_events(8) show ?thesis
        by (intro same) (auto simp: finish_drain_def part_defs Let_def split: pump_at.splits list.splits command.splits)
    next
      case PumpReturn
      with h pump_events(9) show ?thesis by (intro same) (auto simp: pump_return_def split: if_splits)
    qed simp_all
  qed
qed

lemma ledger_reachable: "reachable opts c \<Longrightarrow> ledger c"
proof (induction rule: reachable.induct)
  case reach_new
  then show ?case by (simp add: ledger_def New_def)
next
  case (reach_turn c x c')
  from ledger_step[OF reach_turn.IH reach_turn.hyps(2)] show ?case .
qed

lemma distinct_by_count: "(\<And>x. count_list xs x \<le> 1) \<Longrightarrow> distinct xs"
proof (induction xs)
  case (Cons y ys)
  have "count_list ys x \<le> 1" for x using Cons.prems[of x] by (simp split: if_splits)
  moreover have "y \<notin> set ys" using Cons.prems[of y] by (simp add: count_list_0_iff)
  ultimately show ?case using Cons.IH by simp
qed simp

section \<open>Sample runs\<close>

lemma run_reachable: "reachable opts c \<Longrightarrow> run opts ts c = Some d \<Longrightarrow> reachable opts d"
  by (induction ts arbitrary: c) (auto intro: reach_turn split: option.splits)



definition sample_options :: Options where
  "sample_options = \<lparr>op_event_capacity = 8, op_writer_capacity = 4, op_read_budget = 1000, op_event_budget = 1000\<rparr>"

definition sample_call :: RPCRequest where
  "sample_call = \<lparr>rq_id = IdInt 1, rq_method = ''initialize'', rq_params = ''{}''\<rparr>"


text \<open>A call that is written and answered.\<close>

definition sample_answer :: string where
  "sample_answer = ''{'' @ quote ''id'' @ '':1,'' @ quote ''result'' @ '':7}''"

definition written_and_answered :: "turn list" where
  "written_and_answered =
     [StartCall 0 sample_call None, Enqueue 0, PumpCommand Written, PumpUnmark, PumpCheck, PumpBegin Written, PumpEnd Written,
      ReadFrame FrameText sample_answer None False, PumpRead, Await 0 Space]"

text \<open>The parts of that run that compute on texts.\<close>

lemma sample_texts:
  "decodeMessage sample_answer = Inr (MResponse (IdNumber ''1'') ''7'')" "requestIDKey (IdNumber ''1'') = Inr ''1''"
  "requestIDKey (IdInt 1) = Inr ''1''" "is_Inr (marshalRequest sample_call)" "length sample_answer = 19"
proof -
  have i: "parse_int ''1'' = Some 1"
    by (simp add: parse_int_def parse_uint_def byte_def is_digit_def in_range_def has_prefix_def)
  have j: "isJSONInteger ''1''" "decimal 1 = ''1''" "is_digit CHR ''1''" by code_simp+
  show "requestIDKey (IdNumber ''1'') = Inr ''1''" using i j by (simp add: requestIDKey_def normalizeID_def normalize_number_def)
  have o: "raw_object sample_answer = Some [(''result'', ''7''), (''id'', ''1'')]" by code_simp
  show "decodeMessage sample_answer = Inr (MResponse (IdNumber ''1'') ''7'')"
    using i j by (simp add: decodeMessage_def o decode_response_def decodeID_def raw_or_nil_def check_def)
  show "requestIDKey (IdInt 1) = Inr ''1''" "is_Inr (marshalRequest sample_call)" "length sample_answer = 19" by code_simp+
qed

text \<open>A notification that is read, and the end of the connection, both seen by the consumer.\<close>

definition seen_to_the_end :: "turn list" where
  "seen_to_the_end =
     [ReadFrame FrameText (''{'' @ quote ''method'' @ '':'' @ quote ''m'' @ ''}'') None False, PumpRead, NextEvent, CloseClient, PumpDone,
      FinishStop, FinishResolve '''', FinishDrain, FinishEvict, NextEvent]"

section \<open>Properties\<close>



text \<open>
  C39: Answers reach the caller that asked. A result, or an error of the server, that a call returns was read off
  the wire under the key of that call's own request, and the request had entered the transport.
\<close>

theorem answers_are_matched:
  assumes "reachable opts c" "callers c i = Some (r, Returned out)"
  shows "(\<forall>v value ph. out = Inr (v, value, ph) \<longrightarrow>
      requestIDKey v = Inr (key_of r) \<and> (key_of r, Inr (v, value)) \<in> set (answered c) \<and> i \<in> set (handed c)) \<and>
    (\<forall>e se. out = Inl e \<longrightarrow> ce_server e = Some se \<longrightarrow> (key_of r, Inl se) \<in> set (answered c) \<and> i \<in> set (handed c))"
proof -
  have "from_wire c i (key_of r) out" using wired_reachable[OF assms(1), of i] assms(2) unfolding wired_def by blast
  then show ?thesis by (cases out) (auto simp: from_wire_def local_outcome_def)
qed

theorem answers_are_matched_witness:
  "\<exists>c v. run sample_options written_and_answered New = Some c \<and>
    callers c 0 = Some (sample_call, Returned (Inr (v, ''7'', WriteComplete))) \<and>
    requestIDKey v = Inr (key_of sample_call) \<and> (key_of sample_call, Inr (v, ''7'')) \<in> set (answered c) \<and> 0 \<in> set (handed c)"
proof -
  have "case run sample_options written_and_answered New of None \<Rightarrow> False
    | Some c \<Rightarrow> callers c 0 = Some (sample_call, Returned (Inr (IdNumber ''1'', ''7'', WriteComplete)))"
  proof -
    have f: "rq_method sample_call = ''initialize''" "rq_id sample_call = IdInt 1" by (simp_all add: sample_call_def)
    have k: "key_of sample_call = ''1''" by (simp add: key_of_def sample_call_def sample_texts)
    obtain payload where m: "marshalRequest sample_call = Inr payload" using sample_texts(4) by (auto simp: is_Inr_def split: sum.splits)
    show ?thesis
      unfolding written_and_answered_def
      by (simp add: step_defs part_defs New_def sample_options_def Let_def k m f sample_texts
          dispatch_message_def answer_call_def pump_read_def pump_command_def finishing_def read_capacity_def
          defaultMaxFrameBytes_def reserveReadBytes_def take_result_def)
  qed
  then obtain c where "run sample_options written_and_answered New = Some c"
    "callers c 0 = Some (sample_call, Returned (Inr (IdNumber ''1'', ''7'', WriteComplete)))"
    by (auto split: option.splits)
  with answers_are_matched[OF run_reachable[OF reach_new], of sample_options written_and_answered c 0] show ?thesis by blast
qed

text \<open>
  Written once, answered once. No request enters the transport twice, and none while its outcome is
  already in its result channel: a request is in at most one of the queue, the pump's hand, the pending
  map and the result channel, so the pump never waits for a caller.
\<close>

lemma written_and_answered_once:
  assumes "reachable opts c"
  shows "distinct (handed c) \<and>
    (\<forall>i. (i \<in> set (requests (commands c)) \<or> i \<in> set (hand (pump c)) \<or> i \<in> set (pending_ids (pending c))) \<longrightarrow> results c i = None)"
proof -
  have "count_list (handed c) i \<le> 1" for i
    using shapeD(3)[OF shape_reachable[OF assms], of i] admission_le[of "callers c i"] by (simp add: one_write_def)
  then have "distinct (handed c)" by (rule distinct_by_count)
  with shape_places(2-4)[OF shape_reachable[OF assms]] show ?thesis by blast
qed

text \<open>
  C40: The event stream accounts for every message. A consumer sees the messages of the stream in the
  order they came; before the connection ends it has missed none, and once it has seen the disconnect
  event the gap events it saw say exactly how many it missed. Nothing follows the disconnect event.
\<close>

theorem stream_accounts:
  assumes "reachable opts c"
  shows "subseq (filter carried (taken c)) (offered c) \<and>
    (pump c = PumpIdle \<longrightarrow> taken c @ stream c = offered c) \<and>
    (\<forall>e. EventDisconnected e \<in> set (taken c) \<longrightarrow>
       length (offered c) = length (filter carried (taken c)) + sum_list (map gap_size (taken c)) \<and> last (taken c) = EventDisconnected e)"
proof -
  note l = ledger_reachable[OF assms]
  have sub: "subseq (filter carried (taken c)) (offered c)"
  proof -
    have "subseq (filter carried (taken c)) (filter carried (taken c @ stream c))" by (simp add: subseq_rev_drop_many)
    moreover have "subseq (filter carried (taken c @ stream c)) (offered c)"
      using l carried_list[of "taken c @ stream c"] by (auto simp: ledger_def split: if_splits)
    ultimately show ?thesis by (rule subseq_order.trans)
  qed
  have fin: "length (offered c) = length (filter carried (taken c)) + sum_list (map gap_size (taken c)) \<and> last (taken c) = EventDisconnected e"
    if e: "EventDisconnected e \<in> set (taken c)" for e
  proof -
    have en: "ended (pump c)" using l e by (force simp: ledger_def list_all_iff split: if_splits)
    with l obtain us e' where us: "taken c @ stream c = us @ [EventDisconnected e']" "list_all (\<lambda>x. \<not> terminal x) us"
      by (auto simp: ledger_def)
    have "stream c = []"
    proof (cases "stream c" rule: rev_cases)
      case (snoc ys y)
      with us(1) have "us = taken c @ ys" by simp
      with us(2) have "list_all (\<lambda>x. \<not> terminal x) (taken c)" by simp
      with e have "\<not> terminal (EventDisconnected e)" unfolding list_all_iff by blast
      then show ?thesis by simp
    qed
    with us(1) have all: "taken c = us @ [EventDisconnected e']" by simp
    with us(2) e have "e = e'" by (auto simp: list_all_iff)
    moreover have "length (offered c) = length (filter carried (taken c)) + sum_list (map gap_size (taken c))"
      using l en \<open>stream c = []\<close> by (simp add: ledger_def)
    ultimately show ?thesis using all by simp
  qed
  have "pump c = PumpIdle \<longrightarrow> taken c @ stream c = offered c" using l by (auto simp: ledger_def)
  with sub fin show ?thesis by blast
qed

theorem stream_accounts_witness:
  "\<exists>c. run sample_options seen_to_the_end New = Some c \<and> taken c = [EventNotification ''m'' '''', EventDisconnected errClientClosed] \<and>
    length (offered c) = 1"
proof -
  have "case run sample_options seen_to_the_end New of None \<Rightarrow> False
    | Some c \<Rightarrow> taken c = [EventNotification ''m'' '''', EventDisconnected errClientClosed]"
    by code_simp
  then obtain c where "run sample_options seen_to_the_end New = Some c"
    "taken c = [EventNotification ''m'' '''', EventDisconnected errClientClosed]"
    by (auto split: option.splits)
  with stream_accounts[OF run_reachable[OF reach_new], of sample_options seen_to_the_end c] show ?thesis by auto
qed

end
