(* ===== verification/Spec2Isabelle.thy ===== *)
theory Spec2Isabelle
  imports Prelude Status Ids Journal_Db Journal_Operations Journal_Replies Journal_Evidence
    Journal_Invariants Journal_Preservation Journal_Blockers Journal_Storage Journal_System
    Journal_Retention Journal_Laws Journal_Operation_Laws Go_Json Go_Json_Lines Go_Codec Go_Time
    Models Sequencer Journal_Receipts Journal_Receipt_Merge Journal_Receipt_Laws Go_Url Address
    Go_Sha256 Envelope Envelope_Laws Service_Promises Service_Retry Rpc_Laws
    Client_Laws
begin

text \<open>
  A verification development for Mektup, the Go program under \<open>go/\<close> that sends durable messages
  between Codex threads and keeps the evidence of what became of each of them.

  The program, and what models it. A call of the command line becomes a send, a reply or a wait of
  \<open>internal/service\<close>. The service resolves the target through ports, renders the message as an
  envelope (\<open>envelope.go\<close>), prepares an operation in the custody journal (\<open>internal/journal\<close>, a
  SQLite file shared by all processes of an endpoint), passes the operation's dispatch fence, hands
  the body to the delivery port, and records the result. A reply first claims its original in the
  journal; the first commit wins. What the caller sees is a receipt and a sequence of events
  (\<open>models.go\<close>, \<open>sequencer.go\<close>). Raw calls of the app-server pass the effect gate of
  \<open>internal/rpcmeta\<close>.

  Ground. Prelude: errors as sums, SQL tables as lists of rows. State\_Logic: a Hoare logic for the
  library's state monad, with the contracts \<open>keeps\<close> and \<open>returns\<close>. Go\_Json, Go\_Json\_Lines, Go\_Codec,
  Go\_Time, Go\_Url, Go\_Sha256, Go\_Strings: the parts of Go's standard library the code uses, over
  byte strings. Status and Ids: \<open>status.go\<close> and \<open>ids.go\<close>.

  The journal. Journal\_Db holds the tables of the schema, a transaction and its retries: each
  exported operation is a function from the database to an error or value and the database left,
  given the clock and the entropy it reads. Journal\_Operations, Journal\_Replies, Journal\_Evidence,
  Journal\_Blockers, Journal\_Receipts and Journal\_Storage hold the operations of \<open>operations.go\<close>,
  \<open>replies.go\<close>, \<open>blockers.go\<close>, \<open>receipts.go\<close> and \<open>storage.go\<close>; Journal\_System is the step relation
  of any number of processes on one file, one step per exported writer of rows. SQLite runs a
  transaction in isolation, so a step is one whole transaction; \<open>withTx_rounds\<close> itself sees the other
  processes write between its busy rounds. Journal\_Invariants and Journal\_Preservation prove that
  every step keeps the agreement of claims, winners and events and only moves evidence along its
  order; Journal\_Laws and Journal\_Operation\_Laws state what follows for clients: one winner that no
  writer replaces, commits at most once, stale holders fenced, a fence that opens once.
  Journal\_Receipt\_Merge and Journal\_Receipt\_Laws do the same for published receipts and their pages.

  Retention. \<open>StorageMaintain\<close> is the one operation that deletes, so it is not a step of
  \<open>journal_step\<close>: the laws that speak of later journals hold until it removes the row, and say beside
  that what it may remove. Journal\_Retention proves that it deletes whole rows of settled operations
  and replies and otherwise only expires overdue claims. A reachable journal may have been through
  retention at any time when all its claims name a reply route; Journal\_Retention also shows the
  journal of an imported reply that nobody asked for, where retention leaves an orphan.

  The wire. Models, Sequencer, Address and Envelope follow \<open>models.go\<close>, \<open>sequencer.go\<close>, \<open>address.go\<close>
  and \<open>envelope.go\<close>; their laws are round trips of what is rendered, validity, and numbering
  without gaps.

  The service. Service\_Ports: the ports, the errors and their classification, one dispatch and the
  retry of bodies that were provably not submitted. Service\_Wait, Service\_Send and Service\_Reply:
  \<open>wait.go\<close>, \<open>service.go\<close> and \<open>reply.go\<close> as state-monad programs over an abstract journal port, every
  early return a branch. Service\_Custody states the contract of that port as a locale; Service\_Laws
  and Service\_Outcomes prove \<open>Send\<close> and \<open>Reply\<close> against it. Service\_Journal is \<open>journal_adapter.go\<close>,
  the journal behind the port; Service\_World interprets the contract on it. The world's state is
  the database, the memory registry of identities, and the outbox, the list of message identities
  handed to a delivery port. Between two calls of one process the others move: a move is any
  sequence of journal steps, so a run of one process sees every interleaving of whole
  transactions. Service\_System closes this under any sequence of the sends and replies of one process
  and of moves, with no retention during the run; what other processes deliver is not in its outbox;
  Service\_Sample is one such run, evaluated. Service\_Promises and Service\_Retry state what holds of
  all of them: a body that went out has a durable fence, a bounded number of copies, a denial means
  that no body went out, an error-free send is durable, and delivery stops at the first attempt
  that is settled.

  Raw calls. Rpc\_Meta is \<open>rpcmeta/registry.go\<close> with its whole table of methods; Rpc\_Laws types the
  registry and characterises the gate. Go's map iteration order is a parameter, \<open>map_order\<close>.

  The connection. Client\_Wire and Client follow \<open>appserver/client.go\<close>: the JSON-RPC messages and the
  keys of their identities, then one connection with its pump, its reader, any number of callers,
  notifiers and consumers. A turn is one critical section or channel operation of one goroutine;
  \<open>step\<close> runs a turn, \<open>reachable\<close> is any interleaving, and the transport, the contexts and the
  observers are arguments of the turns. Client\_Inv, Client\_Verdict and Client\_Evidence are its
  invariants: a request is in one place at a time, the phase of a pending call tells where its
  write is, and every verdict in a channel is true. Client\_Laws states what callers and consumers
  may rely on: a call reported as not written was not written, answers reach the call they belong
  to, and the event stream with its gaps accounts for every message. The connection stands beside
  the service, whose delivery port it implements through wrappers that are not modelled.

  Time and fuel. The clock is an argument of each journal operation. The retry loop of a delivery
  takes the number of waits that end before the admission deadline, which \<open>waits_fit\<close> ties to the
  waits of 10, 20, 40, 80, 160 and then 250 milliseconds: at most forty-three fit into the default
  ten seconds. A wait loop reads a finite script of timer, observation and stop events; the script
  stops where the context ends, so every finite prefix of a wait is one script. The busy rounds of
  a transaction are a list, one entry per attempt before its deadline.

  Not modelled: the SQLite file itself (opening, migration, file modes, VACUUM); the wrappers of
  app-server methods, its WebSocket frames and the remote journal, which are values of ports here; resolution of targets and
  endpoints on disk; the command line, its rendering and logging; process control, sockets and SSH.
  The manifest lists each with its reason.
\<close>

end
